(* ===== verification/Prelude.thy ===== *)
theory Prelude
  imports Complex_Main "HOL-Library.AList" "HOL-Library.Sublist"
begin

text \<open>
  What the components share: the error values the code raises, the dynamically
  typed payloads that agents exchange (the JSON-like values every
  \<open>Mapping[str, Any]\<close> of the source holds), the string operations of Python that the
  code calls, and the ordered-set accumulation (\<open>if x not in seen: seen.add(x);
  out.append(x)\<close>) that many of its loops are instances of.

  Strings are lists of 8-bit characters; the case mappings act on the ASCII letters.
  Floating point numbers that are computed with are \<open>real\<close>; a float that only travels
  inside a payload is carried by its \<open>repr\<close> (the shortest decimal text that reads back to it).
\<close>

named_theorems py_string \<open>characteristic equations of the string operations\<close>
named_theorems payload \<open>unfolding rules for payload access\<close>

section \<open>Errors\<close>

text \<open>
  The exception classes the modelled code raises or distinguishes:
  \<open>core/exceptions.py\<close> and the built-in transport errors. Every project error carries the
  agent name and the message; \<open>OtherError\<close> is any exception class of no interest to a
  handler, by class name and message; \<open>Cancelled\<close> is \<open>asyncio.CancelledError\<close>, which is no
  \<open>Exception\<close> and which no handler modelled here catches.
\<close>

datatype exn =
    TimeoutError string
  | ConnectionError string
  | OSError string
  | AgentUnavailable string string
  | BreakerOpen string string
  | RoutingError string string
  | SynthesisError string string
  | SchemaValidationError string string
  | GraphLookupError string string
  | Cancelled
  | OtherError string string

fun exn_str :: "exn \<Rightarrow> string" where
  "exn_str (TimeoutError m) = m"
| "exn_str (ConnectionError m) = m"
| "exn_str (OSError m) = m"
| "exn_str (AgentUnavailable a m) = m"
| "exn_str (BreakerOpen a m) = m"
| "exn_str (RoutingError a m) = m"
| "exn_str (SynthesisError a m) = m"
| "exn_str (SchemaValidationError a m) = m"
| "exn_str (GraphLookupError a m) = m"
| "exn_str Cancelled = ''''"
| "exn_str (OtherError c m) = m"

text \<open>
  \<open>isinstance(e, (TimeoutError, ConnectionError, OSError, AgentUnavailableError))\<close>, the tuple
  that both the breaker and the retry helper use. \<open>CircuitBreakerOpenError\<close> is a subclass
  of \<open>AgentUnavailableError\<close>.
\<close>

fun transport_failure :: "exn \<Rightarrow> bool" where
  "transport_failure (TimeoutError m) = True"
| "transport_failure (ConnectionError m) = True"
| "transport_failure (OSError m) = True"
| "transport_failure (AgentUnavailable a m) = True"
| "transport_failure (BreakerOpen a m) = True"
| "transport_failure _ = False"

type_synonym 'a result = "exn + 'a"

text \<open>Code after a call that may raise, and a call for each element in order.\<close>

definition then_do :: "'a result \<Rightarrow> ('a \<Rightarrow> 'b result) \<Rightarrow> 'b result" where
  "then_do r f = (case r of Inl e \<Rightarrow> Inl e | Inr x \<Rightarrow> f x)"

fun all_results :: "('a \<Rightarrow> 'b result) \<Rightarrow> 'a list \<Rightarrow> 'b list result" where
  "all_results f [] = Inr []"
| "all_results f (x # xs) = then_do (f x) (\<lambda>y. then_do (all_results f xs) (\<lambda>ys. Inr (y # ys)))"

lemma then_do_simps [simp]: "then_do (Inl e) f = Inl e" "then_do (Inr x) f = f x"
  by (simp_all add: then_do_def)

lemma then_do_Inr: "then_do r f = Inr y \<longleftrightarrow> (\<exists>x. r = Inr x \<and> f x = Inr y)"
  by (cases r) simp_all

section \<open>Characters and strings\<close>

definition in_range :: "char \<Rightarrow> nat \<Rightarrow> nat \<Rightarrow> bool" where
  "in_range c lo hi \<longleftrightarrow> lo \<le> of_char c \<and> of_char c \<le> hi"

definition is_upper :: "char \<Rightarrow> bool" where
  "is_upper c = in_range c 65 90"

definition is_lower :: "char \<Rightarrow> bool" where
  "is_lower c = in_range c 97 122"

definition is_digit :: "char \<Rightarrow> bool" where
  "is_digit c = in_range c 48 57"

text \<open>\<open>str.isspace\<close> on code points below 256.\<close>

definition is_space :: "char \<Rightarrow> bool" where
  "is_space c \<longleftrightarrow> in_range c 9 13 \<or> in_range c 28 32 \<or> in_range c 133 133 \<or> in_range c 160 160"

text \<open>The class \<open>\w\<close> of the regular expressions.\<close>

definition is_word :: "char \<Rightarrow> bool" where
  "is_word c \<longleftrightarrow> is_upper c \<or> is_lower c \<or> is_digit c \<or> c = CHR ''_''"

definition lower_char :: "char \<Rightarrow> char" where
  "lower_char c = (if is_upper c then char_of (of_char c + 32 :: nat) else c)"

definition upper_char :: "char \<Rightarrow> char" where
  "upper_char c = (if is_lower c then char_of (of_char c - 32 :: nat) else c)"

text \<open>Evaluation of the classes and the case change on the bits of a character.\<close>

lemma is_lower_code [code]:
  "is_lower (Char b0 b1 b2 b3 b4 b5 b6 b7) =
     (\<not> b7 \<and> b6 \<and> b5 \<and> (b0 \<or> b1 \<or> b2 \<or> b3 \<or> b4) \<and> \<not> (b4 \<and> b3 \<and> (b2 \<or> b1 \<and> b0)))"
  by (cases b0; cases b1; cases b2; cases b3; cases b4; cases b5; cases b6; cases b7)
    (simp_all add: is_lower_def in_range_def)

lemma is_upper_code [code]:
  "is_upper (Char b0 b1 b2 b3 b4 b5 b6 b7) =
     (\<not> b7 \<and> b6 \<and> \<not> b5 \<and> (b0 \<or> b1 \<or> b2 \<or> b3 \<or> b4) \<and> \<not> (b4 \<and> b3 \<and> (b2 \<or> b1 \<and> b0)))"
  by (cases b0; cases b1; cases b2; cases b3; cases b4; cases b5; cases b6; cases b7)
    (simp_all add: is_upper_def in_range_def)

lemma upper_char_code [code]:
  "upper_char (Char b0 b1 b2 b3 b4 b5 b6 b7) =
     (if is_lower (Char b0 b1 b2 b3 b4 b5 b6 b7) then Char b0 b1 b2 b3 b4 False b6 b7
      else Char b0 b1 b2 b3 b4 b5 b6 b7)"
  by (cases b0; cases b1; cases b2; cases b3; cases b4; cases b5; cases b6; cases b7)
    (simp_all add: is_lower_def in_range_def upper_char_def char_of_def bit_0)

lemma lower_char_code [code]:
  "lower_char (Char b0 b1 b2 b3 b4 b5 b6 b7) =
     (if is_upper (Char b0 b1 b2 b3 b4 b5 b6 b7) then Char b0 b1 b2 b3 b4 True b6 b7
      else Char b0 b1 b2 b3 b4 b5 b6 b7)"
  by (cases b0; cases b1; cases b2; cases b3; cases b4; cases b5; cases b6; cases b7)
    (simp_all add: is_upper_def in_range_def lower_char_def char_of_def bit_0)

definition py_lower :: "string \<Rightarrow> string" where
  "py_lower s = map lower_char s"

definition py_upper :: "string \<Rightarrow> string" where
  "py_upper s = map upper_char s"

definition lstrip :: "string \<Rightarrow> string" where
  "lstrip s = dropWhile is_space s"

definition rstrip :: "string \<Rightarrow> string" where
  "rstrip s = rev (dropWhile is_space (rev s))"

definition strip :: "string \<Rightarrow> string" where
  "strip s = rstrip (lstrip s)"

fun starts_with :: "'a list \<Rightarrow> 'a list \<Rightarrow> bool" where
  "starts_with s [] = True"
| "starts_with [] (p # ps) = False"
| "starts_with (c # s) (p # ps) = (c = p \<and> starts_with s ps)"

definition ends_with :: "'a list \<Rightarrow> 'a list \<Rightarrow> bool" where
  "ends_with s p = starts_with (rev s) (rev p)"

text \<open>\<open>sub in s\<close>\<close>

fun contains :: "'a list \<Rightarrow> 'a list \<Rightarrow> bool" where
  "contains sub [] = (sub = [])"
| "contains sub (c # s) = (starts_with (c # s) sub \<or> contains sub s)"

text \<open>\<open>s.partition(d)\<close> for a one-character separator: head, whether it occurs, tail.\<close>

fun partition_at :: "'a \<Rightarrow> 'a list \<Rightarrow> 'a list \<times> bool \<times> 'a list" where
  "partition_at d [] = ([], False, [])"
| "partition_at d (c # s) =
     (if c = d then ([], True, s)
      else (case partition_at d s of (h, f, t) \<Rightarrow> (c # h, f, t)))"

text \<open>\<open>s.rpartition(d)[0]\<close>: everything before the last separator, empty if there is none.\<close>

definition rpartition_head :: "'a \<Rightarrow> 'a list \<Rightarrow> 'a list" where
  "rpartition_head d s = (case partition_at d (rev s) of (h, f, t) \<Rightarrow> rev t)"

fun join :: "string \<Rightarrow> string list \<Rightarrow> string" where
  "join sep [] = ''''"
| "join sep [x] = x"
| "join sep (x # y # xs) = x @ sep @ join sep (y # xs)"

definition replace_char :: "char \<Rightarrow> char \<Rightarrow> string \<Rightarrow> string" where
  "replace_char a b s = map (\<lambda>c. if c = a then b else c) s"

definition digit_char :: "nat \<Rightarrow> char" where
  "digit_char d = ''0123456789'' ! d"

fun str_nat :: "nat \<Rightarrow> string" where
  "str_nat n = (if n < 10 then [digit_char n] else str_nat (n div 10) @ [digit_char (n mod 10)])"

declare str_nat.simps [simp del]

definition str_int :: "int \<Rightarrow> string" where
  "str_int i = (if i < 0 then CHR ''-'' # str_nat (nat (- i)) else str_nat (nat i))"

definition newline :: string where
  "newline = [CHR 0x0A]"

section \<open>Payload values\<close>

datatype pyval =
    PyNone
  | PyBool bool
  | PyInt int
  | PyFloat string
  | PyStr string
  | PyList "pyval list"
  | PyDict "(string \<times> pyval) list"

type_synonym pydict = "(string \<times> pyval) list"

text \<open>\<open>bool(v)\<close>\<close>

fun truthy :: "pyval \<Rightarrow> bool" where
  "truthy PyNone = False"
| "truthy (PyBool b) = b"
| "truthy (PyInt i) = (i \<noteq> 0)"
| "truthy (PyFloat t) = (t \<noteq> ''0.0'' \<and> t \<noteq> ''-0.0'')"
| "truthy (PyStr s) = (s \<noteq> [])"
| "truthy (PyList xs) = (xs \<noteq> [])"
| "truthy (PyDict m) = (m \<noteq> [])"

text \<open>\<open>m.get(k)\<close>\<close>

definition dget :: "pydict \<Rightarrow> string \<Rightarrow> pyval" where
  "dget m k = (case map_of m k of None \<Rightarrow> PyNone | Some v \<Rightarrow> v)"

text \<open>\<open>m[k] = v\<close> keeps the position of an existing key and appends a new one.\<close>

abbreviation dset :: "string \<Rightarrow> 'v \<Rightarrow> (string \<times> 'v) list \<Rightarrow> (string \<times> 'v) list" where
  "dset k v m \<equiv> AList.update k v m"

text \<open>\<open>v1 or v2 or ...\<close>: the first truthy operand, else the last one.\<close>

fun py_or :: "pyval list \<Rightarrow> pyval" where
  "py_or [] = PyNone"
| "py_or [v] = v"
| "py_or (v # w # vs) = (if truthy v then v else py_or (w # vs))"

text \<open>\<open>m.get(k1) or m.get(k2) or ...\<close>\<close>

definition get_or :: "pydict \<Rightarrow> string list \<Rightarrow> pyval" where
  "get_or m ks = py_or (map (dget m) ks)"

definition as_list :: "pyval \<Rightarrow> pyval list option" where
  "as_list v = (case v of PyList xs \<Rightarrow> Some xs | _ \<Rightarrow> None)"

definition as_dict :: "pyval \<Rightarrow> pydict option" where
  "as_dict v = (case v of PyDict m \<Rightarrow> Some m | _ \<Rightarrow> None)"

subsection \<open>\<open>repr\<close> and \<open>str\<close>\<close>

definition hex_digit :: "nat \<Rightarrow> char" where
  "hex_digit d = ''0123456789abcdef'' ! d"

text \<open>One character inside a quoted \<open>repr\<close>, for the quote \<open>q\<close>.\<close>

definition repr_char :: "char \<Rightarrow> char \<Rightarrow> string" where
  "repr_char q c =
     (if c = q \<or> c = CHR 0x5C then [CHR 0x5C, c]
      else if c = CHR 0x0A then [CHR 0x5C, CHR ''n'']
      else if c = CHR 0x0D then [CHR 0x5C, CHR ''r'']
      else if c = CHR 0x09 then [CHR 0x5C, CHR ''t'']
      else if in_range c 32 126 \<or> in_range c 161 172 \<or> in_range c 174 255 then [c]
      else [CHR 0x5C, CHR ''x'', hex_digit (of_char c div 16), hex_digit (of_char c mod 16)])"

definition repr_str :: "string \<Rightarrow> string" where
  "repr_str s =
     (let q = (if CHR 0x27 \<in> set s \<and> CHR 0x22 \<notin> set s then CHR 0x22 else CHR 0x27)
      in [q] @ concat (map (repr_char q) s) @ [q])"

fun py_repr :: "pyval \<Rightarrow> string"
  and repr_items :: "pyval list \<Rightarrow> string list"
  and repr_fields :: "(string \<times> pyval) list \<Rightarrow> string list" where
  "py_repr PyNone = ''None''"
| "py_repr (PyBool b) = (if b then ''True'' else ''False'')"
| "py_repr (PyInt i) = str_int i"
| "py_repr (PyFloat t) = t"
| "py_repr (PyStr s) = repr_str s"
| "py_repr (PyList xs) = ''['' @ join '', '' (repr_items xs) @ '']''"
| "py_repr (PyDict m) = ''{'' @ join '', '' (repr_fields m) @ ''}''"
| "repr_items [] = []"
| "repr_items (v # vs) = py_repr v # repr_items vs"
| "repr_fields [] = []"
| "repr_fields ((k, v) # m) = (repr_str k @ '': '' @ py_repr v) # repr_fields m"

definition py_str :: "pyval \<Rightarrow> string" where
  "py_str v = (case v of PyStr s \<Rightarrow> s | _ \<Rightarrow> py_repr v)"

section \<open>Ordered-set accumulation\<close>

text \<open>
  \<open>if x not in seen: seen.add(x); out.append(x)\<close>, where \<open>seen\<close> always holds the elements
  of \<open>out\<close>.
\<close>

definition add_new :: "'a \<Rightarrow> 'a list \<Rightarrow> 'a list" where
  "add_new x acc = (if x \<in> set acc then acc else acc @ [x])"

definition add_all_new :: "'a list \<Rightarrow> 'a list \<Rightarrow> 'a list" where
  "add_all_new acc xs = foldl (\<lambda>a x. add_new x a) acc xs"


subsection \<open>Facts about the accumulation\<close>

lemma set_add_new [simp]: "set (add_new x acc) = insert x (set acc)"
  by (auto simp: add_new_def)

lemma distinct_add_new [simp]: "distinct (add_new x acc) = distinct acc"
  by (simp add: add_new_def)

lemma add_all_new_Nil [simp]: "add_all_new acc [] = acc"
  by (simp add: add_all_new_def)

lemma add_all_new_Cons [simp]: "add_all_new acc (x # xs) = add_all_new (add_new x acc) xs"
  by (simp add: add_all_new_def)

lemma set_add_all_new [simp]: "set (add_all_new acc xs) = set acc \<union> set xs"
  by (induction xs arbitrary: acc) auto

lemma distinct_add_all_new [simp]: "distinct (add_all_new acc xs) = distinct acc"
  by (induction xs arbitrary: acc) auto

lemma add_all_new_append: "add_all_new acc (xs @ ys) = add_all_new (add_all_new acc xs) ys"
  by (induction xs arbitrary: acc) auto

lemma add_all_new_absorb: "set xs \<subseteq> set acc \<Longrightarrow> add_all_new acc xs = acc"
  by (induction xs) (auto simp: add_new_def)

lemma add_all_new_fresh:
  "distinct xs \<Longrightarrow> set xs \<inter> set acc = {} \<Longrightarrow> add_all_new acc xs = acc @ xs"
  by (induction xs arbitrary: acc) (auto simp: add_new_def)

lemma prefix_add_new: "prefix acc (add_new x acc)"
  by (simp add: add_new_def)

lemma prefix_add_all_new: "prefix acc (add_all_new acc xs)"
  by (induction xs arbitrary: acc) (auto intro: prefix_order.trans prefix_add_new)

lemma add_all_new_split:
  "\<exists>ys. add_all_new acc xs = acc @ ys \<and> subseq ys xs \<and> set ys \<inter> set acc = {}"
proof (induction xs arbitrary: acc)
  case Nil
  show ?case by simp
next
  case (Cons x xs)
  show ?case
  proof (cases "x \<in> set acc")
    case True
    with Cons.IH [of acc] show ?thesis by (auto simp: add_new_def intro: subseq_Cons')
  next
    case False
    with Cons.IH [of "acc @ [x]"] obtain ys where
      "add_all_new (acc @ [x]) xs = (acc @ [x]) @ ys" "subseq ys xs"
      "set ys \<inter> set (acc @ [x]) = {}"
      by blast
    with False show ?thesis by (intro exI [of _ "x # ys"]) (auto simp: add_new_def)
  qed
qed

lemma add_all_new_idem: "add_all_new [] (add_all_new [] xs) = add_all_new [] xs"
  using add_all_new_fresh [of "add_all_new [] xs" "[]"] by simp

section \<open>Facts about strings\<close>

lemma starts_with_iff [py_string]: "starts_with s p \<longleftrightarrow> (\<exists>t. s = p @ t)"
  by (induction s p rule: starts_with.induct) auto

lemma starts_with_take: "starts_with s p \<longleftrightarrow> take (length p) s = p"
  by (induction s p rule: starts_with.induct) auto

lemma contains_iff [py_string]: "contains sub s \<longleftrightarrow> (\<exists>u t. s = u @ sub @ t)"
proof (induction sub s rule: contains.induct)
  case (1 sub)
  show ?case by simp
next
  case (2 sub c s)
  have "(\<exists>u t. c # s = u @ sub @ t) \<longleftrightarrow>
        (\<exists>t. c # s = sub @ t) \<or> (\<exists>u t. s = u @ sub @ t)" (is "?L \<longleftrightarrow> ?R")
  proof
    assume ?L
    then obtain u t where "c # s = u @ sub @ t" by blast
    then show ?R by (cases u) auto
  next
    assume ?R
    then show ?L by (metis append_Cons append_Nil)
  qed
  with 2 show ?case by (simp add: starts_with_iff)
qed

lemma contains_join: "x \<in> set xs \<Longrightarrow> contains x (join sep xs)"
proof (induction sep xs rule: join.induct)
  case (3 sep x' y xs)
  show ?case
  proof (cases "x = x'")
    case True
    then show ?thesis unfolding contains_iff join.simps by (metis append_Nil)
  next
    case False
    with 3 obtain u t where "join sep (y # xs) = u @ x @ t" by (auto simp: contains_iff)
    then have "join sep (x' # y # xs) = (x' @ sep @ u) @ x @ t" by simp
    then show ?thesis unfolding contains_iff by blast
  qed
qed (auto simp: contains_iff intro: exI [of _ "[]"])

lemma contains_refl: "contains a a"
  unfolding contains_iff by (intro exI [of _ "[]"]) simp

lemma contains_Nil: "contains [] a"
  by (cases a) simp_all

lemma contains_trans: "contains a b \<Longrightarrow> contains b c \<Longrightarrow> contains a c"
  unfolding contains_iff by (metis append.assoc)

lemma contains_middle: "contains b c \<Longrightarrow> contains b (u @ c @ t)"
  unfolding contains_iff by (metis append.assoc)

lemma partition_at_eq:
  "partition_at d s = (h, f, t) \<Longrightarrow>
     d \<notin> set h \<and> (f \<longrightarrow> s = h @ [d] @ t) \<and> (\<not> f \<longrightarrow> h = s \<and> t = [])"
  by (induction s arbitrary: h f t) (auto split: if_splits prod.splits)

lemma partition_at_found: "d \<notin> set h \<Longrightarrow> partition_at d (h @ d # t) = (h, True, t)"
  by (induction h) auto

lemma partition_at_absent: "d \<notin> set s \<Longrightarrow> partition_at d s = (s, False, [])"
  by (induction s) auto

lemma rpartition_head_found [py_string]:
  "d \<notin> set t \<Longrightarrow> rpartition_head d (s @ d # t) = s"
  by (simp add: rpartition_head_def partition_at_found)

lemma rpartition_head_absent [py_string]: "d \<notin> set s \<Longrightarrow> rpartition_head d s = []"
  by (simp add: rpartition_head_def partition_at_absent)

lemma rpartition_head_length: "s \<noteq> [] \<Longrightarrow> length (rpartition_head d s) < length s"
proof -
  assume s: "s \<noteq> []"
  obtain h f t where p: "partition_at d (rev s) = (h, f, t)" by (cases "partition_at d (rev s)")
  show ?thesis
  proof (cases f)
    case True
    with partition_at_eq [OF p] have "rev s = h @ [d] @ t" by simp
    then have "length s = length (h @ [d] @ t)" by (metis length_rev)
    with p show ?thesis by (simp add: rpartition_head_def)
  next
    case False
    with partition_at_eq [OF p] p s show ?thesis by (simp add: rpartition_head_def)
  qed
qed

lemma length_py_lower [simp]: "length (py_lower s) = length s"
  by (simp add: py_lower_def)

lemma set_strip: "set (strip s) \<subseteq> set s"
  unfolding strip_def rstrip_def lstrip_def
  by (metis set_dropWhileD set_rev subsetI)

section \<open>Facts about payload access\<close>

lemma dget_update [payload, simp]: "dget (dset k v m) k' = (if k' = k then v else dget m k')"
  by (simp add: dget_def update_conv')

lemma dget_Nil [payload, simp]: "dget [] k = PyNone"
  by (simp add: dget_def)

lemma dget_Cons [payload, simp]: "dget ((k', v) # m) k = (if k = k' then v else dget m k)"
  by (simp add: dget_def)

lemma truthy_py_or: "truthy (py_or vs) \<longleftrightarrow> (\<exists>v \<in> set vs. truthy v)"
  by (induction vs rule: py_or.induct) auto

lemma truthy_get_or [payload]: "truthy (get_or m ks) \<longleftrightarrow> (\<exists>k \<in> set ks. truthy (dget m k))"
  by (simp add: get_or_def truthy_py_or)

end
