(* ===== verification/PyRegex.thy ===== *)
theory PyRegex
  imports Prelude
begin

text \<open>
  The part of Python's \<open>re\<close> module that the code uses: literals, character classes,
  concatenation, ordered alternation, greedy repetition, \<open>\b\<close> and \<open>^\<close>. A backtracking matcher
  tries the alternatives in a fixed order and takes the first that succeeds; \<open>ends r s i\<close>
  is the list of the positions where a match that starts at \<open>i\<close> can end, in that order, so
  that the engine's answer is the head of the list. Lemma \<open>set_ends\<close> shows that the matcher
  finds exactly the matches of the declarative semantics \<open>matches\<close>.

  Text is ASCII. A pattern compiled with \<open>re.IGNORECASE\<close> is the lower-case pattern on the
  lower-cased text. The patterns that are iterated (\<open>findall\<close>, \<open>finditer\<close>, \<open>sub\<close>) do not match
  the empty text, so \<open>find_all\<close> steps over an empty match without reporting it again.
\<close>

section \<open>Patterns and the matcher\<close>

datatype rx =
    Eps
  | Chr "char \<Rightarrow> bool"
  | Lit string
  | Seq rx rx
  | Alt rx rx
  | Star rx
  | WordB
  | Bol

abbreviation Plus :: "rx \<Rightarrow> rx" where
  "Plus r \<equiv> Seq r (Star r)"

abbreviation Opt :: "rx \<Rightarrow> rx" where
  "Opt r \<equiv> Alt r Eps"

fun alts :: "rx list \<Rightarrow> rx" where
  "alts [] = Chr (\<lambda>_. False)"
| "alts [r] = r"
| "alts (r # r' # rs) = Alt r (alts (r' # rs))"

fun seqs :: "rx list \<Rightarrow> rx" where
  "seqs [] = Eps"
| "seqs [r] = r"
| "seqs (r # r' # rs) = Seq r (seqs (r' # rs))"

text \<open>\<open>\b w \b\<close>\<close>

definition word_rx :: "string \<Rightarrow> rx" where
  "word_rx w = seqs [WordB, Lit w, WordB]"

definition word_at :: "string \<Rightarrow> nat \<Rightarrow> bool" where
  "word_at s i \<longleftrightarrow> i < length s \<and> is_word (s ! i)"

definition boundary :: "string \<Rightarrow> nat \<Rightarrow> bool" where
  "boundary s i \<longleftrightarrow> (0 < i \<and> word_at s (i - 1)) \<noteq> word_at s i"

function (sequential) ends :: "rx \<Rightarrow> string \<Rightarrow> nat \<Rightarrow> nat list" where
  "ends Eps s i = [i]"
| "ends (Chr p) s i = (if i < length s \<and> p (s ! i) then [Suc i] else [])"
| "ends (Lit w) s i = (if starts_with (drop i s) w then [i + length w] else [])"
| "ends (Seq a b) s i = concat (map (ends b s) (ends a s i))"
| "ends (Alt a b) s i = ends a s i @ ends b s i"
| "ends (Star a) s i =
     concat (map (\<lambda>j. if i < j \<and> j \<le> length s then ends (Star a) s j else []) (ends a s i)) @ [i]"
| "ends WordB s i = (if boundary s i then [i] else [])"
| "ends Bol s i = (if i = 0 then [i] else [])"
  by pat_completeness auto
termination
  by (relation "measures [\<lambda>(r, s, i). size r, \<lambda>(r, s, i). length s - i]") auto

declare ends.simps(6) [simp del]

fun first_match :: "rx \<Rightarrow> string \<Rightarrow> nat \<Rightarrow> nat \<Rightarrow> (nat \<times> nat) option" where
  "first_match r s i 0 = None"
| "first_match r s i (Suc n) =
     (case ends r s i of j # _ \<Rightarrow> Some (i, j) | [] \<Rightarrow> first_match r s (Suc i) n)"

text \<open>\<open>pattern.search(s, i)\<close>: the span of the first match from position \<open>i\<close> on.\<close>

definition search_from :: "rx \<Rightarrow> string \<Rightarrow> nat \<Rightarrow> (nat \<times> nat) option" where
  "search_from r s i = first_match r s i (Suc (length s) - i)"

definition search :: "rx \<Rightarrow> string \<Rightarrow> (nat \<times> nat) option" where
  "search r s = search_from r s 0"

definition found :: "rx \<Rightarrow> string \<Rightarrow> bool" where
  "found r s = (search r s \<noteq> None)"

lemma first_match_range: "first_match r s i n = Some (k, j) \<Longrightarrow> i \<le> k \<and> k < i + n"
proof (induction n arbitrary: i)
  case (Suc n)
  show ?case
  proof (cases "ends r s i")
    case Nil
    with Suc.prems have "first_match r s (Suc i) n = Some (k, j)" by simp
    from Suc.IH [OF this] show ?thesis by simp
  next
    case (Cons a list)
    with Suc.prems show ?thesis by simp
  qed
qed simp

lemma search_from_range: "search_from r s i = Some (k, j) \<Longrightarrow> i \<le> k \<and> k \<le> length s"
  unfolding search_from_def by (drule first_match_range) linarith

text \<open>The spans that \<open>finditer\<close> visits from position \<open>i\<close> on.\<close>

function find_all_from :: "rx \<Rightarrow> string \<Rightarrow> nat \<Rightarrow> (nat \<times> nat) list" where
  "find_all_from r s i =
     (case search_from r s i of
        None \<Rightarrow> []
      | Some (k, j) \<Rightarrow> (k, j) # find_all_from r s (max (Suc k) j))"
  by pat_completeness auto
termination
proof (relation "measure (\<lambda>(r, s, i). Suc (length s) - i)", goal_cases)
  case (2 r s i x k j)
  then have "i \<le> k" "k \<le> length s" using search_from_range by blast+
  then show ?case by auto
qed simp

declare find_all_from.simps [simp del]

definition slice :: "string \<Rightarrow> nat \<Rightarrow> nat \<Rightarrow> string" where
  "slice s i j = take (j - i) (drop i s)"

text \<open>\<open>findall\<close> for a pattern without groups.\<close>

definition find_all :: "rx \<Rightarrow> string \<Rightarrow> string list" where
  "find_all r s = map (\<lambda>(i, j). slice s i j) (find_all_from r s 0)"

section \<open>Declarative semantics\<close>

inductive matches :: "rx \<Rightarrow> string \<Rightarrow> nat \<Rightarrow> nat \<Rightarrow> bool" where
  Eps: "matches Eps s i i"
| Chr: "i < length s \<Longrightarrow> p (s ! i) \<Longrightarrow> matches (Chr p) s i (Suc i)"
| Lit: "i \<le> length s \<Longrightarrow> slice s i (i + length w) = w \<Longrightarrow> matches (Lit w) s i (i + length w)"
| Seq: "matches a s i j \<Longrightarrow> matches b s j k \<Longrightarrow> matches (Seq a b) s i k"
| AltL: "matches a s i j \<Longrightarrow> matches (Alt a b) s i j"
| AltR: "matches b s i j \<Longrightarrow> matches (Alt a b) s i j"
| StarN: "matches (Star a) s i i"
| StarC: "matches a s i j \<Longrightarrow> matches (Star a) s j k \<Longrightarrow> matches (Star a) s i k"
| WordB: "boundary s i \<Longrightarrow> matches WordB s i i"
| Bol: "matches Bol s 0 0"

inductive_cases matches_EpsE: "matches Eps s i j"
inductive_cases matches_ChrE: "matches (Chr p) s i j"
inductive_cases matches_LitE: "matches (Lit w) s i j"
inductive_cases matches_SeqE: "matches (Seq a b) s i j"
inductive_cases matches_AltE: "matches (Alt a b) s i j"
inductive_cases matches_WordBE: "matches WordB s i j"
inductive_cases matches_BolE: "matches Bol s i j"

lemma slice_plus [simp]: "slice s i (i + n) = take n (drop i s)"
  by (simp add: slice_def)

lemma take_drop_length: "take n (drop i s) = w \<Longrightarrow> length w = n \<Longrightarrow> i \<le> length s \<Longrightarrow> i + n \<le> length s"
  by auto

lemma matches_range: "matches r s i j \<Longrightarrow> i \<le> length s \<Longrightarrow> i \<le> j \<and> j \<le> length s"
proof (induction rule: matches.induct)
  case (Lit i s w)
  then have "i + length w \<le> length s" by (intro take_drop_length) simp_all
  then show ?case by simp
qed auto

lemma ends_range: "i \<le> length s \<Longrightarrow> j \<in> set (ends r s i) \<Longrightarrow> i \<le> j \<and> j \<le> length s"
proof (induction r s i arbitrary: j rule: ends.induct)
  case (3 w s i)
  then have w: "take (length w) (drop i s) = w" "j = i + length w"
    by (auto simp: starts_with_take split: if_splits)
  from w(1) "3.prems"(1) have "i + length w \<le> length s" by (intro take_drop_length) simp_all
  with w show ?case by simp
next
  case (4 a b s i)
  from "4.prems"(2) obtain k where k: "k \<in> set (ends a s i)" "j \<in> set (ends b s k)" by auto
  from "4.IH"(1) [OF "4.prems"(1) k(1)] have "i \<le> k" "k \<le> length s" by auto
  with "4.IH"(2) [OF k(1) _ k(2)] show ?case by linarith
next
  case (6 a s i)
  from "6.prems" consider "j = i"
    | k where "k \<in> set (ends a s i)" "i < k" "k \<le> length s" "j \<in> set (ends (Star a) s k)"
    unfolding ends.simps(6) [of a s i] by (auto split: if_splits)
  then show ?case
  proof cases
    case 1
    with "6.prems" show ?thesis by simp
  next
    case (2 k)
    with "6.IH"(2) [of k j] have "k \<le> j \<and> j \<le> length s" by simp
    with 2 show ?thesis by simp
  qed
next
  case (1 s i) then show ?case by simp
next
  case (2 p s i) then show ?case by (simp split: if_splits)
next
  case (5 a b s i) then show ?case by (simp) blast
next
  case (7 s i) then show ?case by (simp split: if_splits)
next
  case (8 s i) then show ?case by (simp split: if_splits)
qed

lemma ends_sound: "i \<le> length s \<Longrightarrow> j \<in> set (ends r s i) \<Longrightarrow> matches r s i j"
proof (induction r s i arbitrary: j rule: ends.induct)
  case (3 w s i)
  then have w: "take (length w) (drop i s) = w" "j = i + length w"
    by (auto simp: starts_with_take split: if_splits)
  with "3.prems"(1) matches.Lit [of i s w] show ?case by simp
next
  case (4 a b s i)
  from "4.prems"(2) obtain k where k: "k \<in> set (ends a s i)" "j \<in> set (ends b s k)" by auto
  with "4.prems"(1) have "k \<le> length s" using ends_range by blast
  with "4.IH"(1) [OF "4.prems"(1) k(1)] "4.IH"(2) [OF k(1) _ k(2)] show ?case
    by (intro matches.Seq)
next
  case (6 a s i)
  from "6.prems" consider "j = i"
    | k where "k \<in> set (ends a s i)" "i < k" "k \<le> length s" "j \<in> set (ends (Star a) s k)"
    unfolding ends.simps(6) [of a s i] by (auto split: if_splits)
  then show ?case
  proof cases
    case 1
    then show ?thesis by (simp add: matches.StarN)
  next
    case (2 k)
    with "6.IH"(1) [of k] "6.IH"(2) [of k j] "6.prems"(1) have "matches a s i k" "matches (Star a) s k j"
      by simp_all
    then show ?thesis by (rule matches.StarC)
  qed
next
  case (1 s i) then show ?case by (simp add: matches.Eps)
next
  case (2 p s i) then show ?case by (simp add: matches.Chr split: if_splits)
next
  case (5 a b s i) then show ?case by (auto intro: matches.AltL matches.AltR)
next
  case (7 s i) then show ?case by (simp add: matches.WordB split: if_splits)
next
  case (8 s i) then show ?case by (simp add: matches.Bol split: if_splits)
qed

lemma ends_complete: "matches r s i j \<Longrightarrow> i \<le> length s \<Longrightarrow> j \<in> set (ends r s i)"
proof (induction rule: matches.induct)
  case (Lit i s w)
  then show ?case by (simp add: starts_with_take)
next
  case (Seq a s i j b k)
  from Seq.prems matches_range [OF Seq.hyps(1)] have "j \<le> length s" by simp
  with Seq.IH Seq.prems have "j \<in> set (ends a s i)" "k \<in> set (ends b s j)" by blast+
  then show ?case unfolding ends.simps(4) set_concat set_map by blast
next
  case (StarN a s i)
  show ?case unfolding ends.simps(6) [of a s i] by simp
next
  case (StarC a s i j k)
  have j: "i \<le> j" "j \<le> length s" using matches_range [OF StarC.hyps(1)] StarC.prems by simp_all
  have k: "j \<in> set (ends a s i)" "k \<in> set (ends (Star a) s j)"
    using StarC.IH StarC.prems j by simp_all
  show ?case
  proof (cases "i = j")
    case True
    with k(2) show ?thesis by (simp only:)
  next
    case False
    with j k show ?thesis unfolding ends.simps(6) [of a s i] set_append set_concat set_map by force
  qed
qed simp_all

lemma set_ends: "i \<le> length s \<Longrightarrow> set (ends r s i) = {j. matches r s i j}"
  using ends_sound ends_complete by blast

section \<open>Searching\<close>

lemma first_match_None: "first_match r s i n = None \<longleftrightarrow> (\<forall>k \<in> {i..<i + n}. ends r s k = [])"
proof (induction n arbitrary: i)
  case 0
  show ?case by simp
next
  case (Suc n)
  have "{i..<i + Suc n} = insert i {Suc i..<Suc i + n}" by auto
  with Suc show ?case by (auto split: list.splits)
qed

lemma first_match_Some:
  "first_match r s i n = Some (k, j) \<Longrightarrow>
     ends r s k \<noteq> [] \<and> j = hd (ends r s k) \<and> (\<forall>m \<in> {i..<k}. ends r s m = [])"
proof (induction n arbitrary: i)
  case (Suc n)
  show ?case
  proof (cases "ends r s i")
    case Nil
    with Suc.prems have m: "first_match r s (Suc i) n = Some (k, j)" by simp
    from first_match_range [OF m] have "{i..<k} = insert i {Suc i..<k}" by auto
    with Suc.IH [OF m] Nil show ?thesis by auto
  next
    case (Cons a list)
    with Suc.prems show ?thesis by auto
  qed
qed simp

lemma found_iff: "found r s \<longleftrightarrow> (\<exists>i \<le> length s. \<exists>j. matches r s i j)"
proof -
  have "search r s = None \<longleftrightarrow> (\<forall>k \<in> {0..<Suc (length s)}. ends r s k = [])"
    using first_match_None [of r s 0 "Suc (length s)"] by (simp add: search_def search_from_def)
  also have "\<dots> \<longleftrightarrow> (\<forall>k \<le> length s. ends r s k = [])"
    by (auto simp: less_Suc_eq_le)
  also have "\<dots> \<longleftrightarrow> (\<forall>k \<le> length s. \<forall>j. \<not> matches r s k j)"
    using set_ends [of _ s r] by (metis empty_Collect_eq set_empty)
  finally show ?thesis by (auto simp: found_def)
qed

text \<open>The span that \<open>search\<close> reports is a match, and no match starts before it.\<close>

lemma search_Some:
  assumes "search r s = Some (k, j)"
  shows "k \<le> length s" and "matches r s k j" and "\<And>m j'. m < k \<Longrightarrow> \<not> matches r s m j'"
proof -
  from assms have m: "first_match r s 0 (Suc (length s)) = Some (k, j)"
    by (simp add: search_def search_from_def)
  from first_match_range [OF m] show k: "k \<le> length s" by simp
  from first_match_Some [OF m] have "j \<in> set (ends r s k)" by auto
  with k show "matches r s k j" by (rule ends_sound)
  fix m j'
  assume "m < k"
  with first_match_Some [OF m] have "ends r s m = []" by auto
  with \<open>m < k\<close> k show "\<not> matches r s m j'" using ends_complete by fastforce
qed

lemma search_None: "search r s = None \<longleftrightarrow> \<not> found r s"
  by (simp only: found_def not_not)

text \<open>\<open>\b w \b\<close> is found exactly where \<open>w\<close> stands as a whole word.\<close>

lemma matches_word_rx:
  "i \<le> length s \<Longrightarrow>
     matches (word_rx w) s i j \<longleftrightarrow>
     boundary s i \<and> take (length w) (drop i s) = w \<and> j = i + length w \<and> boundary s j"
  unfolding word_rx_def
  by (auto elim!: matches_SeqE matches_WordBE matches_LitE intro!: matches.Seq matches.WordB
      matches.Lit simp: slice_def)

lemma found_word_rx:
  "found (word_rx w) s \<longleftrightarrow>
     (\<exists>u t. s = u @ w @ t \<and> boundary s (length u) \<and> boundary s (length (u @ w)))"
proof
  assume "found (word_rx w) s"
  then obtain i where i: "i \<le> length s" "boundary s i" "take (length w) (drop i s) = w"
    "boundary s (i + length w)"
    by (auto simp: found_iff matches_word_rx)
  then have "s = take i s @ w @ drop (length w) (drop i s)" by (metis append_take_drop_id)
  with i show "\<exists>u t. s = u @ w @ t \<and> boundary s (length u) \<and> boundary s (length (u @ w))"
    by (intro exI [of _ "take i s"] exI [of _ "drop (length w) (drop i s)"]) simp
next
  assume "\<exists>u t. s = u @ w @ t \<and> boundary s (length u) \<and> boundary s (length (u @ w))"
  then obtain u t where s: "s = u @ w @ t" "boundary s (length u)" "boundary s (length (u @ w))"
    by blast
  then have "matches (word_rx w) s (length u) (length (u @ w))"
    by (subst matches_word_rx) auto
  then show "found (word_rx w) s" using s(1) found_iff by fastforce
qed

section \<open>Iterated search\<close>

lemma search_from_Some:
  assumes "search_from r s i = Some (k, j)"
  shows "matches r s k j" and "\<And>m j'. i \<le> m \<Longrightarrow> m < k \<Longrightarrow> \<not> matches r s m j'"
proof -
  from assms have m: "first_match r s i (Suc (length s) - i) = Some (k, j)"
    by (simp add: search_from_def)
  have k: "k \<le> length s" using search_from_range [OF assms] by simp
  from first_match_Some [OF m] have "j \<in> set (ends r s k)" by auto
  with k show "matches r s k j" by (rule ends_sound)
  fix m j'
  assume "i \<le> m" "m < k"
  with first_match_Some [OF m] have "ends r s m = []" by auto
  with \<open>m < k\<close> k show "\<not> matches r s m j'" using ends_complete by fastforce
qed

lemma search_from_None:
  "search_from r s i = None \<Longrightarrow> i \<le> m \<Longrightarrow> m \<le> length s \<Longrightarrow> \<not> matches r s m j"
  unfolding search_from_def first_match_None using ends_complete by fastforce

lemma find_all_from_sound:
  "(k, j) \<in> set (find_all_from r s i) \<Longrightarrow> i \<le> k \<and> k \<le> length s \<and> matches r s k j"
proof (induction r s i rule: find_all_from.induct)
  case (1 r s i)
  show ?case
  proof (cases "search_from r s i")
    case None
    with "1.prems" show ?thesis by (subst (asm) find_all_from.simps) simp
  next
    case (Some p)
    obtain k' j' where p: "p = (k', j')" by (cases p)
    with Some "1.prems" have "(k, j) = (k', j') \<or> (k, j) \<in> set (find_all_from r s (max (Suc k') j'))"
      by (subst (asm) find_all_from.simps) auto
    then show ?thesis
      using "1.IH" [OF Some p [symmetric]] Some p search_from_range search_from_Some(1)
      by fastforce
  qed
qed

lemma find_all_from_sorted: "sorted (map fst (find_all_from r s i))"
proof (induction r s i rule: find_all_from.induct)
  case (1 r s i)
  show ?case
  proof (cases "search_from r s i")
    case None
    then show ?thesis by (subst find_all_from.simps) simp
  next
    case (Some p)
    obtain k j where p: "p = (k, j)" by (cases p)
    have "k \<le> m" if "(m, n) \<in> set (find_all_from r s (max (Suc k) j))" for m n
      using find_all_from_sound [OF that] by simp
    with 1 [OF Some p [symmetric]] Some p show ?thesis by (subst find_all_from.simps) auto
  qed
qed

text \<open>When no match starts strictly inside another one, every match's start is visited.\<close>

lemma find_all_from_complete:
  assumes "\<And>k j m j'. matches r s k j \<Longrightarrow> k < m \<Longrightarrow> m < j \<Longrightarrow> \<not> matches r s m j'"
  shows "matches r s m j \<Longrightarrow> i \<le> m \<Longrightarrow> m \<le> length s \<Longrightarrow> \<exists>j'. (m, j') \<in> set (find_all_from r s i)"
  using assms
proof (induction r s i rule: find_all_from.induct)
  case (1 r s i)
  show ?case
  proof (cases "search_from r s i")
    case None
    with "1.prems" search_from_None show ?thesis by blast
  next
    case (Some p)
    obtain k j1 where p: "p = (k, j1)" by (cases p)
    have all: "find_all_from r s i = (k, j1) # find_all_from r s (max (Suc k) j1)"
      using Some p by (subst find_all_from.simps) simp
    consider "m < k" | "m = k" | "k < m" "m < j1" | "max (Suc k) j1 \<le> m" by linarith
    then show ?thesis
    proof cases
      case 1
      with search_from_Some(2) Some p "1.prems" show ?thesis by blast
    next
      case 2
      with all show ?thesis by auto
    next
      case 3
      with search_from_Some(1) Some p "1.prems" show ?thesis by blast
    next
      case 4
      then have "\<exists>j'. (m, j') \<in> set (find_all_from r s (max (Suc k) j1))"
        using "1.IH" [OF Some p [symmetric] "1.prems"(1)] "1.prems"(3,4) by blast
      with all show ?thesis by auto
    qed
  qed
qed

end
