(* ===== verification/CallWrapper.thy ===== *)
theory CallWrapper
  imports Prelude
begin

text \<open>
  The contract between the session pool and the two helpers it sends every call through
  (the circuit breaker's \<open>run\<close> and \<open>await_with_timeout_retry\<close>): a wrapper touches the world
  only by running the call it is given, any number of times, and a value it returns was
  returned by one of these runs. \<open>yields\<close> and \<open>delivers\<close> read a value off the outcome of one run
  and of the wrapped call.
\<close>

locale call_wrapper =
  fixes wrap :: "('w \<Rightarrow> 'w \<times> 'r) \<Rightarrow> 'w \<Rightarrow> 'w \<times> 'q"
    and yields :: "'r \<Rightarrow> 'v option"
    and delivers :: "'q \<Rightarrow> 'v option"
  assumes wrap_keeps:
      "(\<And>w. P w \<Longrightarrow> P (fst (call w))) \<Longrightarrow> P w \<Longrightarrow> P (fst (wrap call w))"
    and wrap_value:
      "delivers (snd (wrap call w)) = Some v \<Longrightarrow> \<exists>w'. yields (snd (call w')) = Some v"
begin

text \<open>What every run changes only along a preorder, the wrapped call changes along it too.\<close>

lemma wrap_progress:
  assumes "\<And>w. R w (fst (call w))" and "\<And>w. R w w" and "\<And>u v w. R u v \<Longrightarrow> R v w \<Longrightarrow> R u w"
  shows "R w (fst (wrap call w))"
  by (rule wrap_keeps [where P = "R w"]) (erule assms(3), rule assms(1), rule assms(2))

lemma wrap_frame:
  assumes "\<And>w. g (fst (call w)) = g w"
  shows "g (fst (wrap call w)) = g w"
  by (rule wrap_keeps [where P = "\<lambda>v. g v = g w"]) (simp_all add: assms)

lemma wrap_mono:
  fixes m :: "'w \<Rightarrow> 'n::preorder"
  assumes "\<And>w. m w \<le> m (fst (call w))"
  shows "m w \<le> m (fst (wrap call w))"
  by (rule wrap_keeps [where P = "\<lambda>v. m w \<le> m v"]) (auto intro: order_trans assms)

lemma wrap_no_value:
  assumes "\<And>w. yields (snd (call w)) = None"
  shows "delivers (snd (wrap call w)) = None"
proof (rule ccontr)
  assume "delivers (snd (wrap call w)) \<noteq> None"
  then obtain v where "delivers (snd (wrap call w)) = Some v" by blast
  then show False using wrap_value assms by (metis option.distinct(1))
qed

end

text \<open>The value of a result.\<close>

fun result_value :: "'a result \<Rightarrow> 'a option" where
  "result_value (Inl e) = None"
| "result_value (Inr v) = Some v"

end
