(* ===== verification/Breaker.thy ===== *)
theory Breaker
  imports CallWrapper
begin

text \<open>
  \<open>core/resilience/circuit_breaker.py\<close>: the circuit breaker that guards the calls to one
  upstream agent, and the registry of breakers. Every read of the injected clock is an
  argument of the operation, in the order the code reads it; clock readings and cooldowns
  are reals.
\<close>

section \<open>State and operations\<close>

datatype breaker_state = Closed | Open | HalfOpen

record breaker =
  brk_agent :: string
  failure_threshold :: int
  cooldown_s :: real
  brk_state :: breaker_state
  consecutive_failures :: int
  opened_at :: "real option"

record breaker_snapshot =
  snap_state :: breaker_state
  snap_failures :: int
  cooldown_remaining_s :: "real option"

definition new_breaker :: "string \<Rightarrow> int \<Rightarrow> real \<Rightarrow> breaker" where
  "new_breaker agent threshold cooldown =
     \<lparr>brk_agent = agent, failure_threshold = max 1 threshold, cooldown_s = max 0 cooldown,
      brk_state = Closed, consecutive_failures = 0, opened_at = None\<rparr>"

definition maybe_half_open :: "breaker \<Rightarrow> real \<Rightarrow> breaker" where
  "maybe_half_open b now =
     (if brk_state b \<noteq> Open then b
      else (case opened_at b of
              None \<Rightarrow> b
            | Some t \<Rightarrow> if cooldown_s b \<le> now - t then b\<lparr>brk_state := HalfOpen\<rparr> else b))"

text \<open>The \<open>state\<close> property: it advances the breaker and returns the state.\<close>

definition breaker_state_at :: "breaker \<Rightarrow> real \<Rightarrow> breaker \<times> breaker_state" where
  "breaker_state_at b now = (let b' = maybe_half_open b now in (b', brk_state b'))"

definition snapshot :: "breaker \<Rightarrow> real \<Rightarrow> real \<Rightarrow> breaker \<times> breaker_snapshot" where
  "snapshot b now1 now2 =
     (case breaker_state_at b now1 of (b', st) \<Rightarrow>
        (b', \<lparr>snap_state = st, snap_failures = consecutive_failures b',
              cooldown_remaining_s =
                (case (st, opened_at b') of
                   (Open, Some t) \<Rightarrow> Some (max 0 (cooldown_s b' - (now2 - t)))
                 | _ \<Rightarrow> None)\<rparr>))"

text \<open>
  \<open>guard\<close> reads the clock once for the test and, when it raises, twice more for the
  snapshot that the error carries.
\<close>

definition guard ::
    "breaker \<Rightarrow> real \<Rightarrow> real \<Rightarrow> real \<Rightarrow> breaker \<times> (exn \<times> breaker_snapshot) option" where
  "guard b now1 now2 now3 =
     (case breaker_state_at b now1 of (b1, st) \<Rightarrow>
        if st = Open
        then (case snapshot b1 now2 now3 of (b2, snap) \<Rightarrow>
                (b2, Some (BreakerOpen (brk_agent b) (''circuit breaker open for '' @ brk_agent b),
                           snap)))
        else (b1, None))"

definition record_success :: "breaker \<Rightarrow> breaker" where
  "record_success b = b\<lparr>brk_state := Closed, consecutive_failures := 0, opened_at := None\<rparr>"

definition trip :: "breaker \<Rightarrow> real \<Rightarrow> breaker" where
  "trip b now = b\<lparr>brk_state := Open, opened_at := Some now\<rparr>"

definition record_failure :: "breaker \<Rightarrow> real \<Rightarrow> breaker" where
  "record_failure b now =
     (if brk_state b = HalfOpen then trip b now
      else (let b' = b\<lparr>consecutive_failures := consecutive_failures b + 1\<rparr>
            in if failure_threshold b' \<le> consecutive_failures b' then trip b' now else b'))"

text \<open>
  \<open>run\<close>, for a caller that is alone on the breaker: the awaited call is a function of the
  world it acts on. Calls that overlap are the subject of the step relation below.
\<close>

definition breaker_run ::
    "breaker \<Rightarrow> real \<Rightarrow> real \<Rightarrow> real \<Rightarrow> real \<Rightarrow> ('w \<Rightarrow> 'w \<times> 'a result) \<Rightarrow> 'w
      \<Rightarrow> breaker \<times> 'w \<times> 'a result" where
  "breaker_run b now1 now2 now3 now4 call w =
     (case guard b now1 now2 now3 of
        (b', Some (e, snap)) \<Rightarrow> (b', w, Inl e)
      | (b', None) \<Rightarrow>
          (case call w of
             (w', Inl e) \<Rightarrow>
               (if transport_failure e then (record_failure b' now4, w', Inl e)
                else (b', w', Inl e))
           | (w', Inr v) \<Rightarrow> (record_success b', w', Inr v)))"

section \<open>The registry\<close>

record breaker_registry =
  default_threshold :: int
  default_cooldown_s :: real
  per_agent :: "string \<rightharpoonup> int \<times> real"
  breakers :: "(string \<times> breaker) list"

definition new_registry ::
    "int \<Rightarrow> real \<Rightarrow> (string \<rightharpoonup> int \<times> real) \<Rightarrow> breaker_registry" where
  "new_registry threshold cooldown overrides =
     \<lparr>default_threshold = threshold, default_cooldown_s = cooldown, per_agent = overrides,
      breakers = []\<rparr>"

text \<open>
  \<open>OrchestratorSettings.breaker_for\<close>: per-agent overrides, each falling back to the shared
  default.
\<close>

record breaker_settings =
  set_threshold :: int
  set_cooldown :: real
  agent_overrides :: "string \<rightharpoonup> int option \<times> real option"

definition breaker_agents :: "string list" where
  "breaker_agents = [''graph_query'', ''code_analyst'', ''indexer'', ''memory'']"

definition breaker_for :: "breaker_settings \<Rightarrow> string \<Rightarrow> int \<times> real" where
  "breaker_for st agent =
     (let (threshold, cooldown) =
        (case (if agent \<in> set breaker_agents then agent_overrides st agent else None) of
           Some p \<Rightarrow> p | None \<Rightarrow> (None, None))
      in (case threshold of Some n \<Rightarrow> n | None \<Rightarrow> set_threshold st,
          case cooldown of Some c \<Rightarrow> c | None \<Rightarrow> set_cooldown st))"

definition registry_from_settings :: "breaker_settings \<Rightarrow> breaker_registry" where
  "registry_from_settings st =
     new_registry (set_threshold st) (set_cooldown st)
       (map_of (map (\<lambda>a. (a, breaker_for st a)) breaker_agents))"

definition registry_get :: "breaker_registry \<Rightarrow> string \<Rightarrow> breaker_registry \<times> breaker" where
  "registry_get r agent =
     (case map_of (breakers r) agent of
        Some b \<Rightarrow> (r, b)
      | None \<Rightarrow>
          (let (threshold, cooldown) =
                 (case per_agent r agent of
                    Some p \<Rightarrow> p | None \<Rightarrow> (default_threshold r, default_cooldown_s r));
               b = new_breaker agent threshold cooldown
           in (r\<lparr>breakers := dset agent b (breakers r)\<rparr>, b)))"

text \<open>\<open>snapshot\<close> of the registry: each breaker in turn, with its own two clock readings.\<close>

fun snapshot_all ::
    "(string \<times> breaker) list \<Rightarrow> (real \<times> real) list
      \<Rightarrow> (string \<times> breaker) list \<times> (string \<times> breaker_snapshot) list" where
  "snapshot_all ((n, b) # bs) ((t1, t2) # ts) =
     (case snapshot b t1 t2 of (b', s) \<Rightarrow>
        (case snapshot_all bs ts of (bs', ss) \<Rightarrow> ((n, b') # bs', (n, s) # ss)))"
| "snapshot_all bs _ = (bs, [])"

definition registry_snapshot ::
    "breaker_registry \<Rightarrow> (real \<times> real) list
      \<Rightarrow> breaker_registry \<times> (string \<times> breaker_snapshot) list" where
  "registry_snapshot r ts =
     (case snapshot_all (breakers r) ts of (bs, ss) \<Rightarrow> (r\<lparr>breakers := bs\<rparr>, ss))"


section \<open>Invariant\<close>

definition breaker_inv :: "breaker \<Rightarrow> bool" where
  "breaker_inv b \<longleftrightarrow>
     1 \<le> failure_threshold b \<and> 0 \<le> cooldown_s b \<and> 0 \<le> consecutive_failures b \<and>
     (brk_state b = Closed \<longleftrightarrow> consecutive_failures b < failure_threshold b) \<and>
     (brk_state b = Closed \<longleftrightarrow> opened_at b = None)"

named_theorems breaker_defs \<open>definitions of the breaker operations\<close>

lemmas [breaker_defs] =
  maybe_half_open_def breaker_state_at_def snapshot_def guard_def record_success_def trip_def
  record_failure_def

lemma new_breaker_inv: "breaker_inv (new_breaker a n c)"
  by (simp add: breaker_inv_def new_breaker_def)

lemma maybe_half_open_inv: "breaker_inv b \<Longrightarrow> breaker_inv (maybe_half_open b t)"
  by (auto simp: breaker_inv_def maybe_half_open_def split: option.split)

lemma record_success_inv: "breaker_inv b \<Longrightarrow> breaker_inv (record_success b)"
  by (simp add: breaker_inv_def record_success_def)

lemma record_failure_inv: "breaker_inv b \<Longrightarrow> breaker_inv (record_failure b t)"
  by (cases "brk_state b") (auto simp: breaker_inv_def record_failure_def trip_def Let_def)

lemma guard_breaker:
  "fst (guard b t1 t2 t3) = (if brk_state (maybe_half_open b t1) = Open
     then maybe_half_open (maybe_half_open b t1) t2 else maybe_half_open b t1)"
  by (simp add: guard_def breaker_state_at_def snapshot_def Let_def split: prod.split)

lemma guard_inv: "breaker_inv b \<Longrightarrow> breaker_inv (fst (guard b t1 t2 t3))"
  by (simp add: guard_breaker maybe_half_open_inv)

lemma guard_frame:
  "failure_threshold (fst (guard b t1 t2 t3)) = failure_threshold b"
  "cooldown_s (fst (guard b t1 t2 t3)) = cooldown_s b"
  "opened_at (fst (guard b t1 t2 t3)) = opened_at b"
  "consecutive_failures (fst (guard b t1 t2 t3)) = consecutive_failures b"
  by (auto simp: guard_breaker maybe_half_open_def split: option.split)

lemma guard_admits_iff:
  "snd (guard b t1 t2 t3) = None \<longleftrightarrow> brk_state (maybe_half_open b t1) \<noteq> Open"
  by (simp add: guard_def breaker_state_at_def snapshot_def Let_def split: prod.split)

lemma guard_admits:
  "guard b t1 t2 t3 = (b', None) \<Longrightarrow> b' = maybe_half_open b t1 \<and> brk_state b' \<noteq> Open"
  by (auto simp: guard_def breaker_state_at_def snapshot_def Let_def split: if_splits prod.splits)

section \<open>Overlapping calls\<close>

text \<open>
  Several tasks share one breaker. Between the guard of a call and the recording of its
  outcome other tasks take their own steps; the code between two awaits is one step.
  \<open>sys_now\<close> is the last clock reading, and the clock is monotonic.
\<close>

record breaker_sys =
  sys_breaker :: breaker
  sys_in_flight :: nat
  sys_now :: real

inductive breaker_step :: "breaker_sys \<Rightarrow> breaker_sys \<Rightarrow> bool" where
  admit: "guard (sys_breaker s) t1 t2 t3 = (b, None) \<Longrightarrow> sys_now s \<le> t1 \<Longrightarrow>
    breaker_step s (s\<lparr>sys_breaker := b, sys_in_flight := Suc (sys_in_flight s), sys_now := t1\<rparr>)"
| reject: "guard (sys_breaker s) t1 t2 t3 = (b, Some e) \<Longrightarrow>
    sys_now s \<le> t1 \<Longrightarrow> t1 \<le> t2 \<Longrightarrow> t2 \<le> t3 \<Longrightarrow>
    breaker_step s (s\<lparr>sys_breaker := b, sys_now := t3\<rparr>)"
| succeed: "sys_in_flight s = Suc n \<Longrightarrow>
    breaker_step s (s\<lparr>sys_breaker := record_success (sys_breaker s), sys_in_flight := n\<rparr>)"
| fail: "sys_in_flight s = Suc n \<Longrightarrow> sys_now s \<le> t \<Longrightarrow>
    breaker_step s (s\<lparr>sys_breaker := record_failure (sys_breaker s) t, sys_in_flight := n, sys_now := t\<rparr>)"
| raise_other: "sys_in_flight s = Suc n \<Longrightarrow> breaker_step s (s\<lparr>sys_in_flight := n\<rparr>)"
| observe: "sys_now s \<le> t1 \<Longrightarrow> t1 \<le> t2 \<Longrightarrow>
    breaker_step s (s\<lparr>sys_breaker := fst (snapshot (sys_breaker s) t1 t2), sys_now := t2\<rparr>)"

inductive breaker_reach :: "breaker_sys \<Rightarrow> bool" where
  start: "breaker_reach \<lparr>sys_breaker = new_breaker a n c, sys_in_flight = 0, sys_now = t\<rparr>"
| step: "breaker_reach s \<Longrightarrow> breaker_step s s' \<Longrightarrow> breaker_reach s'"

definition opened_before :: "breaker \<Rightarrow> real \<Rightarrow> bool" where
  "opened_before b now = (case opened_at b of None \<Rightarrow> True | Some t \<Rightarrow> t \<le> now)"

lemma fst_snapshot: "fst (snapshot b t1 t2) = maybe_half_open b t1"
  by (simp add: snapshot_def breaker_state_at_def Let_def)

lemma opened_before_mono: "opened_before b t \<Longrightarrow> t \<le> t' \<Longrightarrow> opened_before b t'"
  by (auto simp: opened_before_def split: option.splits)

lemma opened_before_ops [simp]:
  "opened_before (maybe_half_open b u) t = opened_before b t"
  "opened_before (record_success b) t"
  by (auto simp: opened_before_def maybe_half_open_def record_success_def split: option.splits)

lemma opened_before_failure: "opened_before b t \<Longrightarrow> opened_before (record_failure b t) t"
  by (auto simp: opened_before_def record_failure_def trip_def Let_def split: option.splits)

lemma opened_before_guard: "opened_before (fst (guard b t1 t2 t3)) t = opened_before b t"
  by (simp add: guard_breaker)

lemma breaker_step_inv:
  "breaker_step s s' \<Longrightarrow> breaker_inv (sys_breaker s) \<and> opened_before (sys_breaker s) (sys_now s)
    \<Longrightarrow> breaker_inv (sys_breaker s') \<and> opened_before (sys_breaker s') (sys_now s')"
proof (induction rule: breaker_step.induct)
  case (admit s t1 t2 t3 b)
  with guard_inv [of "sys_breaker s" t1 t2 t3] opened_before_guard [of "sys_breaker s" t1 t2 t3]
  show ?case by (auto intro: opened_before_mono)
next
  case (reject s t1 t2 t3 b e)
  with guard_inv [of "sys_breaker s" t1 t2 t3] opened_before_guard [of "sys_breaker s" t1 t2 t3]
  show ?case by (auto intro: opened_before_mono)
next
  case (fail s n t)
  then show ?case by (auto intro: record_failure_inv opened_before_failure opened_before_mono)
next
  case (observe s t1 t2)
  then show ?case
    by (auto simp: fst_snapshot intro: maybe_half_open_inv opened_before_mono)
qed (auto simp: record_success_inv)

lemma breaker_reach_inv:
  "breaker_reach s \<Longrightarrow> breaker_inv (sys_breaker s) \<and> opened_before (sys_breaker s) (sys_now s)"
  by (induction rule: breaker_reach.induct)
    (use breaker_step_inv new_breaker_inv in \<open>auto simp: opened_before_def new_breaker_def\<close>)

section \<open>Outcomes in sequence\<close>

text \<open>
  The breaker as a fold over the outcomes of calls, \<open>None\<close> for a success and \<open>Some t\<close> for a
  transport failure recorded at time \<open>t\<close>, and the number of failures since the last success.
\<close>

definition record_outcome :: "real option \<Rightarrow> breaker \<Rightarrow> breaker" where
  "record_outcome r b = (case r of None \<Rightarrow> record_success b | Some t \<Rightarrow> record_failure b t)"

definition trailing_failures :: "real option list \<Rightarrow> nat" where
  "trailing_failures rs = length (takeWhile (\<lambda>r. r \<noteq> None) (rev rs))"

lemma fold_record_outcome:
  "let b = fold record_outcome rs (new_breaker a n c) in
     consecutive_failures b = int (trailing_failures rs) \<and> failure_threshold b = max 1 n \<and>
     brk_state b = (if int (trailing_failures rs) < max 1 n then Closed else Open)"
proof (induction rs rule: rev_induct)
  case Nil
  show ?case by (simp add: new_breaker_def trailing_failures_def)
next
  case (snoc r rs)
  then show ?case
    by (cases r) (auto simp: record_outcome_def record_success_def record_failure_def trip_def
        trailing_failures_def Let_def split: if_splits)
qed

section \<open>The breaker as a call wrapper\<close>

lemma breaker_run_world:
  "fst (snd (breaker_run b t1 t2 t3 t4 call w)) =
     (if snd (guard b t1 t2 t3) = None then fst (call w) else w)"
  by (auto simp: breaker_run_def split: prod.split option.split sum.split)

interpretation breaker_wrap:
  call_wrapper "\<lambda>call w. snd (breaker_run b t1 t2 t3 t4 call w)" result_value result_value
  for b t1 t2 t3 t4
proof unfold_locales
  fix P :: "'a \<Rightarrow> bool" and call :: "'a \<Rightarrow> 'a \<times> 'b result" and w
  assume "\<And>w. P w \<Longrightarrow> P (fst (call w))" and "P w"
  then show "P (fst (snd (breaker_run b t1 t2 t3 t4 call w)))"
    by (simp add: breaker_run_world)
next
  fix call :: "'a \<Rightarrow> 'a \<times> 'b result" and w v
  assume "result_value (snd (snd (breaker_run b t1 t2 t3 t4 call w))) = Some v"
  then have "snd (call w) = Inr v"
    by (auto simp: breaker_run_def split: prod.splits option.splits sum.splits if_splits)
  then show "\<exists>w'. result_value (snd (call w')) = Some v" by (intro exI [of _ w]) simp
qed


section \<open>Properties\<close>

text \<open>
  C24: whatever the interleaving of the calls that share a breaker, the breaker is closed
  exactly while it has counted fewer consecutive failures than its threshold, has recorded an
  opening time exactly while it is not closed, and that time is never in the future; so an
  open breaker always has a cooldown that can elapse.
\<close>

theorem breaker_reach_state:
  assumes "breaker_reach s"
  shows "(brk_state (sys_breaker s) = Closed \<longleftrightarrow>
            consecutive_failures (sys_breaker s) < failure_threshold (sys_breaker s))
       \<and> (brk_state (sys_breaker s) \<noteq> Closed \<longleftrightarrow>
            (\<exists>t \<le> sys_now s. opened_at (sys_breaker s) = Some t))"
  using breaker_reach_inv [OF assms]
  by (auto simp: breaker_inv_def opened_before_def split: option.splits)

theorem breaker_reach_state_witness:
  "\<exists>s. breaker_reach s \<and> brk_state (sys_breaker s) = Open \<and> opened_at (sys_breaker s) = Some 2"
proof -
  let ?b = "new_breaker ''memory'' 1 30"
  let ?s0 = "\<lparr>sys_breaker = ?b, sys_in_flight = 0, sys_now = 0\<rparr>"
  let ?s1 = "?s0\<lparr>sys_breaker := ?b, sys_in_flight := Suc (sys_in_flight ?s0), sys_now := 1\<rparr>"
  let ?s2 = "?s1\<lparr>sys_breaker := record_failure (sys_breaker ?s1) 2, sys_in_flight := 0, sys_now := 2\<rparr>"
  have "breaker_step ?s0 ?s1"
    by (rule breaker_step.admit [of _ 1 1 1])
      (simp_all add: guard_def breaker_state_at_def maybe_half_open_def new_breaker_def)
  moreover have "breaker_step ?s1 ?s2"
    by (rule breaker_step.fail) simp_all
  ultimately have r: "breaker_reach ?s2"
    by (blast intro: breaker_reach.start breaker_reach.step)
  have "brk_state (sys_breaker ?s2) = Open"
    by (simp add: record_failure_def trip_def new_breaker_def)
  moreover from this breaker_reach_state [OF r]
  have "opened_at (sys_breaker ?s2) \<noteq> None" by auto
  ultimately show ?thesis using r
    by (intro exI [of _ ?s2]) (simp add: record_failure_def trip_def new_breaker_def)
qed

text \<open>
  while the cooldown of an open breaker has not elapsed, \<open>run\<close> fails fast: the
  upstream call is not made (its world is unchanged), the caller gets
  \<open>CircuitBreakerOpenError\<close> for that agent, and the failure count and opening time stay.
\<close>

theorem breaker_fails_fast:
  assumes "brk_state b = Open" and "opened_at b = Some t0" and "t1 - t0 < cooldown_s b"
  shows "\<exists>b'. breaker_run b t1 t2 t3 t4 call w =
            (b', w, Inl (BreakerOpen (brk_agent b) (''circuit breaker open for '' @ brk_agent b)))
          \<and> consecutive_failures b' = consecutive_failures b \<and> opened_at b' = Some t0
          \<and> brk_state b' \<noteq> Closed"
  using assms
  by (auto simp: breaker_run_def breaker_defs Let_def split: option.splits)

theorem breaker_fails_fast_witness:
  "\<exists>b'. breaker_run (record_failure (new_breaker ''memory'' 1 30) 0) 10 10 10 10
          (\<lambda>n::nat. (Suc n, Inr True)) 7
        = (b', 7, Inl (BreakerOpen ''memory'' (''circuit breaker open for '' @ ''memory'')))"
  using breaker_fails_fast [of "record_failure (new_breaker ''memory'' 1 30) 0" 0 10 10 10 10
      "\<lambda>n::nat. (Suc n, Inr True)" 7]
  by (auto simp: record_failure_def trip_def new_breaker_def)

text \<open>
  starting fresh and recording outcomes one after the other, the breaker opens exactly
  when the number of transport failures since the last success reaches the threshold
  (at least one), and it is closed otherwise.
\<close>

theorem breaker_trips_at_threshold:
  "brk_state (fold record_outcome rs (new_breaker a n c)) =
     (if int (trailing_failures rs) < max 1 n then Closed else Open)"
  using fold_record_outcome [of rs a n c] by (simp add: Let_def)

text \<open>
  once the cooldown has elapsed the next call is a probe that decides the state: a value
  closes the breaker and clears the count, one more transport failure opens it again for a
  whole cooldown from that moment, and any other exception leaves it half-open.
\<close>

theorem breaker_probe_decides:
  assumes "brk_state b = Open" and "opened_at b = Some t0" and "cooldown_s b \<le> t1 - t0"
    and "call w = (w', r)"
  shows "snd (breaker_run b t1 t2 t3 t4 call w) = (w', r) \<and>
        (case r of
           Inr v \<Rightarrow> fst (breaker_run b t1 t2 t3 t4 call w)
                     = b\<lparr>brk_state := Closed, consecutive_failures := 0, opened_at := None\<rparr>
         | Inl e \<Rightarrow> fst (breaker_run b t1 t2 t3 t4 call w)
                     = (if transport_failure e then b\<lparr>brk_state := Open, opened_at := Some t4\<rparr>
                        else b\<lparr>brk_state := HalfOpen\<rparr>))"
  using assms
  by (auto simp: breaker_run_def breaker_defs Let_def split: sum.splits)

theorem breaker_probe_decides_witness:
  "fst (breaker_run (record_failure (new_breaker ''memory'' 1 30) 0) 31 31 31 40
          (\<lambda>n::nat. (Suc n, Inl (TimeoutError ''late'') :: nat result)) 7)
     = (record_failure (new_breaker ''memory'' 1 30) 0)\<lparr>brk_state := Open, opened_at := Some 40\<rparr>"
  using breaker_probe_decides [of "record_failure (new_breaker ''memory'' 1 30) 0" 0 31
      "\<lambda>n::nat. (Suc n, Inl (TimeoutError ''late'') :: nat result)" 7 8 "Inl (TimeoutError ''late'')"
      31 31 40]
  by (simp add: record_failure_def trip_def new_breaker_def)

end
