(* ===== verification/Retry.thy ===== *)
theory Retry
  imports CallWrapper
begin

text \<open>
  \<open>core/resilience/retry.py\<close>: one awaited call with a timeout per attempt and a bounded number
  of further attempts after a transient failure. What one attempt does is a function of the
  world it acts on; its outcome says how the awaited task ended.
\<close>

section \<open>The retry loop\<close>

text \<open>
  How an attempt ends: it finished with a value or an exception; it did not finish within the
  timeout and was abandoned; its task was cancelled from inside the transport; or the caller
  itself is being cancelled.
\<close>

datatype 'a attempt =
    Finished "'a result"
  | TimedOut
  | TornDown
  | CallerCancelled

text \<open>
  \<open>attempts\<close> counts the attempts that are left, this one included. The timeout enters the
  error message as text. With no attempt left the code would reach its final assertion.
\<close>

fun retry_loop ::
    "nat \<Rightarrow> string \<Rightarrow> ('w \<Rightarrow> 'w \<times> 'a attempt) \<Rightarrow> 'w \<Rightarrow> 'w \<times> 'a result" where
  "retry_loop 0 timeout_s call w = (w, Inl (OtherError ''AssertionError'' ''''))"
| "retry_loop (Suc left) timeout_s call w =
     (case call w of
        (w', TimedOut) \<Rightarrow>
          (if left = 0 then (w', Inl (TimeoutError (''timed out after '' @ timeout_s @ ''s'')))
           else retry_loop left timeout_s call w')
      | (w', CallerCancelled) \<Rightarrow> (w', Inl Cancelled)
      | (w', TornDown) \<Rightarrow>
          (if left = 0
           then (w', Inl (ConnectionError ''mcp call cancelled by transport teardown''))
           else retry_loop left timeout_s call w')
      | (w', Finished (Inr v)) \<Rightarrow> (w', Inr v)
      | (w', Finished (Inl e)) \<Rightarrow>
          (if transport_failure e
           then (if left = 0 then (w', Inl e) else retry_loop left timeout_s call w')
           else (w', Inl e)))"

definition await_with_timeout_retry ::
    "string \<Rightarrow> int \<Rightarrow> ('w \<Rightarrow> 'w \<times> 'a attempt) \<Rightarrow> 'w \<Rightarrow> 'w \<times> 'a result" where
  "await_with_timeout_retry timeout_s retry_count call w =
     retry_loop (nat (max 0 retry_count) + 1) timeout_s call w"

section \<open>The outcome of a scripted run\<close>

text \<open>
  Whether an attempt makes the loop go on, and what the loop reports when this attempt is the
  last one it makes.
\<close>

fun transient :: "'a attempt \<Rightarrow> bool" where
  "transient (Finished (Inr v)) = False"
| "transient (Finished (Inl e)) = transport_failure e"
| "transient TimedOut = True"
| "transient TornDown = True"
| "transient CallerCancelled = False"

fun attempt_result :: "string \<Rightarrow> 'a attempt \<Rightarrow> 'a result" where
  "attempt_result t (Finished r) = r"
| "attempt_result t TimedOut = Inl (TimeoutError (''timed out after '' @ t @ ''s''))"
| "attempt_result t TornDown = Inl (ConnectionError ''mcp call cancelled by transport teardown'')"
| "attempt_result t CallerCancelled = Inl Cancelled"

text \<open>A world that is the list of the outcomes still to come.\<close>

fun scripted :: "'a attempt list \<Rightarrow> 'a attempt list \<times> 'a attempt" where
  "scripted [] = ([], TimedOut)"
| "scripted (a # as) = (as, a)"

text \<open>The attempts that a run over the script makes: up to the first that is not transient.\<close>

fun attempts_made :: "nat \<Rightarrow> 'a attempt list \<Rightarrow> 'a attempt list" where
  "attempts_made 0 as = []"
| "attempts_made (Suc n) [] = []"
| "attempts_made (Suc n) (a # as) = a # (if transient a then attempts_made n as else [])"

lemma retry_loop_Suc:
  "retry_loop (Suc n) t call w =
     (let (w', a) = call w in
        if transient a \<and> n \<noteq> 0 then retry_loop n t call w' else (w', attempt_result t a))"
  by (auto split: prod.split attempt.split sum.split)

declare retry_loop.simps(2) [simp del]

lemma attempts_made_nonempty: "as \<noteq> [] \<Longrightarrow> attempts_made (Suc n) as \<noteq> []"
  by (cases as) auto

lemma attempts_made_Nil [simp]: "attempts_made n [] = []"
  by (cases n) auto

lemma retry_loop_scripted:
  "Suc n \<le> length as \<Longrightarrow>
     retry_loop (Suc n) t scripted as =
       (drop (length (attempts_made (Suc n) as)) as,
        attempt_result t (last (attempts_made (Suc n) as)))"
proof (induction n arbitrary: as)
  case 0
  then obtain a as' where "as = a # as'" by (cases as) auto
  then show ?case by (simp add: retry_loop_Suc)
next
  case (Suc n)
  then obtain a as' where as: "as = a # as'" by (cases as) auto
  with Suc.prems have "attempts_made (Suc n) as' \<noteq> []"
    by (intro attempts_made_nonempty) auto
  with as Suc show ?case by (simp add: retry_loop_Suc [of "Suc n"])
qed

lemma attempts_made_take:
  "attempts_made n as = take (min n (Suc (length (takeWhile transient as)))) as"
  by (induction n as rule: attempts_made.induct) (auto simp: min_def)

section \<open>The retry helper as a call wrapper\<close>

fun attempt_value :: "'a attempt \<Rightarrow> 'a option" where
  "attempt_value (Finished r) = result_value r"
| "attempt_value _ = None"

lemma attempt_result_value: "result_value (attempt_result t a) = attempt_value a"
  by (cases a) auto

lemma retry_loop_keeps:
  "(\<And>w. P w \<Longrightarrow> P (fst (call w))) \<Longrightarrow> P w \<Longrightarrow> P (fst (retry_loop n t call w))"
proof (induction n arbitrary: w)
  case (Suc n)
  from Suc.prems have "P (fst (call w))" by blast
  with Suc.IH [of "fst (call w)"] Suc.prems(1) show ?case
    by (auto simp: retry_loop_Suc split: prod.split)
qed simp

lemma retry_loop_value:
  "result_value (snd (retry_loop n t call w)) = Some v \<Longrightarrow>
     \<exists>w'. attempt_value (snd (call w')) = Some v"
proof (induction n arbitrary: w)
  case (Suc n)
  show ?case
  proof (cases "transient (snd (call w)) \<and> n \<noteq> 0")
    case True
    with Suc show ?thesis by (auto simp: retry_loop_Suc split: prod.splits)
  next
    case False
    with Suc.prems have "attempt_value (snd (call w)) = Some v"
      by (auto simp: retry_loop_Suc attempt_result_value split: prod.splits if_splits)
    then show ?thesis by blast
  qed
qed simp

interpretation retry_wrap:
  call_wrapper "await_with_timeout_retry t n" attempt_value result_value for t n
  unfolding await_with_timeout_retry_def
  by unfold_locales (blast intro: retry_loop_keeps, erule retry_loop_value)

section \<open>Properties\<close>

text \<open>A call that counts how often it is made.\<close>

definition counted :: "('w \<Rightarrow> 'w \<times> 'a attempt) \<Rightarrow> nat \<times> 'w \<Rightarrow> (nat \<times> 'w) \<times> 'a attempt" where
  "counted call = (\<lambda>(k, w). case call w of (w', a) \<Rightarrow> ((Suc k, w'), a))"

lemma retry_loop_counted:
  "fst (fst (retry_loop n t (counted call) (k, w))) \<le> k + n \<and>
   k < fst (fst (retry_loop (Suc n) t (counted call) (k, w)))"
proof (induction n arbitrary: k w)
  case 0
  show ?case by (auto simp: retry_loop_Suc counted_def split: prod.split)
next
  case (Suc n)
  obtain w' a where c: "call w = (w', a)" by (cases "call w")
  have "fst (fst (retry_loop n t (counted call) (Suc k, w'))) \<le> Suc k + n"
       "Suc k < fst (fst (retry_loop (Suc n) t (counted call) (Suc k, w')))"
    using Suc.IH by blast+
  then show ?case
    by (auto simp: retry_loop_Suc [of "Suc n"] retry_loop_Suc [of n] counted_def c split: prod.splits)
qed

text \<open>
  the upstream call is made at least once and at most \<open>max 0 retry_count + 1\<close> times,
  whatever its attempts end with; a negative retry count means a single attempt.
\<close>

theorem retry_call_bound:
  "let calls = fst (fst (await_with_timeout_retry t n (counted call) (0, w)))
   in 1 \<le> calls \<and> int calls \<le> max 0 n + 1"
proof -
  let ?k = "nat (max 0 n)"
  let ?calls = "fst (fst (retry_loop (Suc ?k) t (counted call) (0, w)))"
  have "?calls \<le> Suc ?k" and "1 \<le> ?calls"
    using retry_loop_counted [of "Suc ?k" t call 0 w] retry_loop_counted [of ?k t call 0 w]
    by linarith+
  moreover from this have "int ?calls \<le> max 0 n + 1" by linarith
  ultimately show ?thesis by (simp add: await_with_timeout_retry_def Let_def)
qed

text \<open>
  the outcome of a retried call. The loop makes the attempts of the script up to
  and including the first that is not a transient failure, but no more than
  \<open>max 0 retry_count + 1\<close>, consumes exactly these, and reports the outcome of the last one it
  made: a value as it is, a timeout or a torn-down transport as the error the code builds,
  a non-transient error at once. So the final \<open>assert\<close> of the source is never reached.
\<close>

theorem retry_outcome:
  assumes "max 0 n + 1 \<le> int (length as)"
  shows "let made = take (min (nat (max 0 n) + 1) (Suc (length (takeWhile transient as)))) as
         in await_with_timeout_retry t n scripted as
              = (drop (length made) as, attempt_result t (last made))"
proof -
  from assms have "Suc (nat (max 0 n)) \<le> length as" by linarith
  from retry_loop_scripted [OF this, of t] show ?thesis
    by (simp only: await_with_timeout_retry_def attempts_made_take Let_def Suc_eq_plus1)
qed

theorem retry_outcome_witness:
  "await_with_timeout_retry ''5.0'' 2 scripted
     [TimedOut, Finished (Inl (OtherError ''ValueError'' ''bad'')), Finished (Inr (1::nat))]
   = ([Finished (Inr 1)], Inl (OtherError ''ValueError'' ''bad''))"
  using retry_outcome [of 2 "[TimedOut, Finished (Inl (OtherError ''ValueError'' ''bad'')),
      Finished (Inr (1::nat))]" "''5.0''"]
  by (simp add: Let_def)

end
