(* ===== verification/SessionPool.thy ===== *)
theory SessionPool
  imports Breaker Retry "HOL-Library.Multiset"
begin

text \<open>
  \<open>core/resilience/session_pool.py\<close>: the bounded pool of reusable MCP sessions of one agent
  (\<open>_AgentSessionBucket\<close>) and the call path through it (\<open>AgentSessionPool.call\<close>). A session is
  named by a number. The code between two awaits of a coroutine runs without interruption, so
  each such stretch is one operation on the bucket; closing a session is an await with no
  effect on the bucket.
\<close>

section \<open>The bucket\<close>

type_synonym session = nat

record bucket =
  bkt_agent :: string
  max_size :: int
  idle :: "session list"
  live :: "session list"
  slots :: int
  closed :: bool

definition new_bucket :: "string \<Rightarrow> int \<Rightarrow> bucket" where
  "new_bucket agent n =
     \<lparr>bkt_agent = agent, max_size = n, idle = [], live = [], slots = 0, closed = False\<rparr>"

text \<open>
  \<open>_resolve_max_sessions\<close>: the explicit size, else the environment variable; \<open>parse_int\<close>
  is \<open>int(raw)\<close>, with \<open>None\<close> for \<open>ValueError\<close>.
\<close>

definition default_max_sessions :: int where
  "default_max_sessions = 4"

definition resolve_max_sessions ::
    "(string \<Rightarrow> int option) \<Rightarrow> int option \<Rightarrow> string \<Rightarrow> int" where
  "resolve_max_sessions parse_int explicit env_value =
     (case explicit of
        Some n \<Rightarrow> max 1 n
      | None \<Rightarrow>
          (let raw = strip env_value
           in if raw = [] then default_max_sessions
              else (case parse_int raw of
                      Some n \<Rightarrow> max 1 n
                    | None \<Rightarrow> default_max_sessions)))"

text \<open>One turn of the loop of \<open>acquire\<close> while it holds the condition's lock.\<close>

datatype poll = PollClosed | Reuse session | Create | Wait

definition acquire_poll :: "bucket \<Rightarrow> bucket \<times> poll" where
  "acquire_poll b =
     (if closed b then (b, PollClosed)
      else if idle b \<noteq> [] then (b\<lparr>idle := butlast (idle b)\<rparr>, Reuse (last (idle b)))
      else if slots b < max_size b then (b\<lparr>slots := slots b + 1\<rparr>, Create)
      else (b, Wait))"

text \<open>
  The loop itself. Each time the caller has to wait it reads the clock once (\<open>None\<close> as deadline:
  it waits without a bound), then other tasks act on the bucket before it looks again.
  \<open>rounds\<close> lists these readings and actions; \<open>None\<close> as result says that the caller is still
  waiting when they are used up, and \<open>Some (b, Wait)\<close> that the deadline passed.
\<close>

fun acquire_loop ::
    "real option \<Rightarrow> (real \<times> (bucket \<Rightarrow> bucket)) list \<Rightarrow> bucket \<Rightarrow> (bucket \<times> poll) option" where
  "acquire_loop deadline rounds b =
     (case acquire_poll b of
        (b', Wait) \<Rightarrow>
          (case rounds of
             [] \<Rightarrow> None
           | (now, others) # rounds' \<Rightarrow>
               (case deadline of
                  None \<Rightarrow> acquire_loop deadline rounds' (others b')
                | Some d \<Rightarrow>
                    (if d - now \<le> 0 then Some (b', Wait)
                     else acquire_loop deadline rounds' (others b'))))
      | (b', p) \<Rightarrow> Some (b', p))"

declare acquire_loop.simps [simp del]

definition pool_closed_error :: "bucket \<Rightarrow> exn" where
  "pool_closed_error b =
     AgentUnavailable (bkt_agent b) (''mcp pool closed; cannot acquire session for '' @ bkt_agent b)"

definition pool_exhausted_error :: "bucket \<Rightarrow> string \<Rightarrow> exn" where
  "pool_exhausted_error b timeout_s =
     AgentUnavailable (bkt_agent b)
       (''mcp pool exhausted for '' @ bkt_agent b @ ''; no session free after '' @ timeout_s @ ''s'')"

definition give_back_slot :: "bucket \<Rightarrow> bucket" where
  "give_back_slot b = b\<lparr>slots := max 0 (slots b - 1)\<rparr>"

text \<open>
  The second half of \<open>acquire\<close>, when the opener has ended: an exception gives the slot
  back, but a cancellation is not an \<open>Exception\<close> and does not.
\<close>

definition acquire_opened :: "bucket \<Rightarrow> session result \<Rightarrow> bucket \<times> session result" where
  "acquire_opened b r =
     (case r of
        Inl e \<Rightarrow> if e = Cancelled then (b, Inl e) else (give_back_slot b, Inl e)
      | Inr s \<Rightarrow>
          (if closed b then (give_back_slot b, Inl (pool_closed_error b))
           else (b\<lparr>live := live b @ [s]\<rparr>, Inr s)))"

definition release :: "session \<Rightarrow> bucket \<Rightarrow> bucket" where
  "release s b = (if closed b then b else b\<lparr>idle := idle b @ [s]\<rparr>)"

definition drop_session :: "session \<Rightarrow> bucket \<Rightarrow> bucket" where
  "drop_session s b =
     give_back_slot (b\<lparr>live := remove1 s (live b), idle := remove1 s (idle b)\<rparr>)"

definition purge_idle :: "bucket \<Rightarrow> bucket \<times> session list" where
  "purge_idle b =
     (b\<lparr>idle := [], live := fold remove1 (idle b) (live b),
        slots := max 0 (slots b - int (length (idle b)))\<rparr>, idle b)"

definition close_bucket :: "bucket \<Rightarrow> bucket \<times> session list" where
  "close_bucket b = (b\<lparr>closed := True, live := [], idle := [], slots := 0\<rparr>, live b)"

section \<open>Tasks on one bucket\<close>

text \<open>
  The bucket with the tasks that use it: \<open>creating\<close> counts those that have taken a slot and
  await the opener, \<open>held\<close> lists the sessions that are in the hands of a call. In this protocol
  every session a task was given is handed back once, by \<open>release\<close> or by \<open>drop\<close>.
\<close>

record pool_sys =
  pool_bucket :: bucket
  creating :: nat
  held :: "session list"

inductive pool_step :: "pool_sys \<Rightarrow> pool_sys \<Rightarrow> bool" where
  reuse: "acquire_poll (pool_bucket s) = (b, Reuse x) \<Longrightarrow>
    pool_step s (s\<lparr>pool_bucket := b, held := x # held s\<rparr>)"
| create: "acquire_poll (pool_bucket s) = (b, Create) \<Longrightarrow>
    pool_step s (s\<lparr>pool_bucket := b, creating := Suc (creating s)\<rparr>)"
| opened: "creating s = Suc n \<Longrightarrow> x \<notin> set (live (pool_bucket s)) \<Longrightarrow>
    acquire_opened (pool_bucket s) (Inr x) = (b, Inr x) \<Longrightarrow>
    pool_step s (s\<lparr>pool_bucket := b, creating := n, held := x # held s\<rparr>)"
| opened_late: "creating s = Suc n \<Longrightarrow>
    acquire_opened (pool_bucket s) (Inr x) = (b, Inl e) \<Longrightarrow>
    pool_step s (s\<lparr>pool_bucket := b, creating := n\<rparr>)"
| open_failed: "creating s = Suc n \<Longrightarrow> e \<noteq> Cancelled \<Longrightarrow>
    acquire_opened (pool_bucket s) (Inl e) = (b, Inl e) \<Longrightarrow>
    pool_step s (s\<lparr>pool_bucket := b, creating := n\<rparr>)"
| hand_back: "x \<in> set (held s) \<Longrightarrow>
    pool_step s (s\<lparr>pool_bucket := release x (pool_bucket s), held := remove1 x (held s)\<rparr>)"
| dropped: "x \<in> set (held s) \<Longrightarrow>
    pool_step s (s\<lparr>pool_bucket := drop_session x (pool_bucket s), held := remove1 x (held s)\<rparr>)"
| purge: "pool_step s (s\<lparr>pool_bucket := fst (purge_idle (pool_bucket s))\<rparr>)"
| close: "pool_step s (s\<lparr>pool_bucket := fst (close_bucket (pool_bucket s))\<rparr>)"

inductive pool_reach :: "int \<Rightarrow> pool_sys \<Rightarrow> bool" for n where
  start: "pool_reach n \<lparr>pool_bucket = new_bucket a n, creating = 0, held = []\<rparr>"
| step: "pool_reach n s \<Longrightarrow> pool_step s s' \<Longrightarrow> pool_reach n s'"

text \<open>
  While the pool is open every slot is a live session or one being opened, and every live
  session is idle or held by exactly one task; a closed pool has nothing left.
\<close>

definition pool_inv :: "pool_sys \<Rightarrow> bool" where
  "pool_inv s \<longleftrightarrow>
     (let b = pool_bucket s in
        if closed b then idle b = [] \<and> live b = [] \<and> slots b = 0
        else slots b = int (length (live b)) + int (creating s) \<and> slots b \<le> max_size b \<and>
             distinct (live b) \<and> mset (live b) = mset (idle b) + mset (held s))"

lemmas bucket_defs =
  acquire_poll_def acquire_opened_def release_def drop_session_def purge_idle_def
  close_bucket_def give_back_slot_def

lemma fold_remove1_mset: "mset (fold remove1 ys xs) = mset xs - mset ys"
  by (induction ys arbitrary: xs) (auto simp: diff_add_mset_swap)

lemma fold_remove1_distinct: "distinct xs \<Longrightarrow> distinct (fold remove1 ys xs)"
  by (induction ys arbitrary: xs) auto

lemma pool_inv_open:
  "\<not> closed (pool_bucket s) \<Longrightarrow> pool_inv s \<longleftrightarrow>
     slots (pool_bucket s) = int (length (live (pool_bucket s))) + int (creating s) \<and>
     slots (pool_bucket s) \<le> max_size (pool_bucket s) \<and> distinct (live (pool_bucket s)) \<and>
     mset (live (pool_bucket s)) = mset (idle (pool_bucket s)) + mset (held s)"
  by (simp add: pool_inv_def Let_def)

lemma pool_inv_closed:
  "closed (pool_bucket s) \<Longrightarrow> pool_inv s \<longleftrightarrow>
     idle (pool_bucket s) = [] \<and> live (pool_bucket s) = [] \<and> slots (pool_bucket s) = 0"
  by (simp add: pool_inv_def Let_def)

lemma mset_butlast_last: "xs \<noteq> [] \<Longrightarrow> mset xs = add_mset (last xs) (mset (butlast xs))"
  by (metis append_butlast_last_id mset.simps(1,2) mset_append union_mset_add_mset_right add.right_neutral)

lemma distinct_sum_disjoint:
  assumes "distinct xs" and "mset xs = mset ys + mset zs" and "x \<in> set zs"
  shows "x \<notin> set ys"
proof -
  from assms(1) have "count (mset xs) x \<le> 1" by (simp add: distinct_count_atmost_1)
  with assms(2) have "count (mset ys) x + count (mset zs) x \<le> 1" by simp
  moreover from assms(3) have "0 < count (mset zs) x" by simp
  ultimately have "count (mset ys) x = 0" by linarith
  then show ?thesis by (simp add: count_mset_0_iff)
qed

lemma pool_step_inv: "pool_step s s' \<Longrightarrow> pool_inv s \<Longrightarrow> pool_inv s'"
proof (induction rule: pool_step.induct)
  case (reuse s b x)
  then have "\<not> closed (pool_bucket s)" "idle (pool_bucket s) \<noteq> []"
    "b = pool_bucket s\<lparr>idle := butlast (idle (pool_bucket s))\<rparr>" "x = last (idle (pool_bucket s))"
    by (auto simp: acquire_poll_def split: if_splits)
  with reuse.prems show ?case
    by (simp add: pool_inv_open mset_butlast_last [of "idle (pool_bucket s)"])
next
  case (create s b)
  then have "\<not> closed (pool_bucket s)" "slots (pool_bucket s) < max_size (pool_bucket s)"
    "b = pool_bucket s\<lparr>slots := slots (pool_bucket s) + 1\<rparr>"
    by (auto simp: acquire_poll_def split: if_splits)
  with create.prems show ?case by (simp add: pool_inv_open)
next
  case (opened s n x b)
  then have "\<not> closed (pool_bucket s)" "b = pool_bucket s\<lparr>live := live (pool_bucket s) @ [x]\<rparr>"
    by (auto simp: acquire_opened_def split: if_splits)
  with opened show ?case by (simp add: pool_inv_open)
next
  case (opened_late s n x b e)
  then have "closed (pool_bucket s)" "b = give_back_slot (pool_bucket s)"
    by (auto simp: acquire_opened_def split: if_splits)
  with opened_late.prems show ?case by (simp add: pool_inv_closed give_back_slot_def)
next
  case (open_failed s n e b)
  then have "b = give_back_slot (pool_bucket s)"
    by (auto simp: acquire_opened_def split: if_splits)
  with open_failed show ?case
    by (cases "closed (pool_bucket s)") (simp_all add: pool_inv_closed pool_inv_open give_back_slot_def)
next
  case (hand_back x s)
  show ?case
  proof (cases "closed (pool_bucket s)")
    case True
    with hand_back.prems show ?thesis by (simp add: pool_inv_closed release_def)
  next
    case False
    with hand_back show ?thesis
      by (simp add: pool_inv_open release_def)
  qed
next
  case (dropped x s)
  show ?case
  proof (cases "closed (pool_bucket s)")
    case True
    with dropped.prems show ?thesis
      by (simp add: pool_inv_closed drop_session_def give_back_slot_def)
  next
    case False
    let ?b = "pool_bucket s"
    from False dropped.prems have inv: "slots ?b = int (length (live ?b)) + int (creating s)"
      "slots ?b \<le> max_size ?b" "distinct (live ?b)" "mset (live ?b) = mset (idle ?b) + mset (held s)"
      by (simp_all add: pool_inv_open)
    from dropped.hyps inv(4) have "x \<in># mset (live ?b)" by simp
    then have x: "x \<in> set (live ?b)" by simp
    from inv(3,4) dropped.hyps have "x \<notin> set (idle ?b)"
      by (rule distinct_sum_disjoint)
    from x have "0 < length (live ?b)" by auto
    with x have "int (length (remove1 x (live ?b))) = int (length (live ?b)) - 1"
      by (simp add: length_remove1 int_ops(6))
    moreover from inv x dropped.hyps
    have "mset (remove1 x (live ?b)) = mset (idle ?b) + mset (remove1 x (held s))" by simp
    ultimately show ?thesis using False inv x \<open>x \<notin> set (idle ?b)\<close>
      by (simp add: pool_inv_open drop_session_def give_back_slot_def remove1_idem)
  qed
next
  case (purge s)
  show ?case
  proof (cases "closed (pool_bucket s)")
    case True
    with purge show ?thesis by (simp add: pool_inv_closed purge_idle_def)
  next
    case False
    let ?b = "pool_bucket s"
    from False purge have inv: "slots ?b = int (length (live ?b)) + int (creating s)"
      "slots ?b \<le> max_size ?b" "distinct (live ?b)" "mset (live ?b) = mset (idle ?b) + mset (held s)"
      by (simp_all add: pool_inv_open)
    then have "mset (fold remove1 (idle ?b) (live ?b)) = mset (held s)"
      by (simp add: fold_remove1_mset)
    moreover from this have "length (fold remove1 (idle ?b) (live ?b)) = length (held s)"
      by (metis size_mset)
    moreover from inv(4) have "length (live ?b) = length (idle ?b) + length (held s)"
      by (metis size_mset size_union)
    ultimately show ?thesis using False inv
      by (simp add: pool_inv_open purge_idle_def fold_remove1_distinct)
  qed
next
  case (close s)
  show ?case by (simp add: pool_inv_closed close_bucket_def)
qed

lemma pool_step_max_size: "pool_step s s' \<Longrightarrow> max_size (pool_bucket s') = max_size (pool_bucket s)"
  by (induction rule: pool_step.induct) (auto simp: bucket_defs split: if_splits)

lemma pool_reach_inv: "pool_reach n s \<Longrightarrow> 0 \<le> n \<Longrightarrow> pool_inv s \<and> max_size (pool_bucket s) = n"
proof (induction rule: pool_reach.induct)
  case (start a)
  then show ?case by (simp add: pool_inv_open new_bucket_def)
next
  case (step s s')
  then show ?case using pool_step_inv pool_step_max_size by metis
qed

section \<open>A call through the pool\<close>

text \<open>
  How an await ends: with a result, or not before the attempt times out.
\<close>

datatype 'r await = Ends 'r | Hangs

text \<open>
  The world of one caller: the bucket, the sessions of the call that have not been handed
  back (\<open>in_flight\<close>), the counters, and how its coming awaits end: those of the opener, of the
  tool calls, of the closing of sessions, and of the waiting for a free slot (which ends when
  the caller's own deadline passes). A session is named by the number of sessions opened before
  it. Other tasks do not act meanwhile; their interference is the subject of the step
  relation above.
\<close>

record 'a call_world =
  wb :: bucket
  in_flight :: "session list"
  open_count :: nat
  call_count :: nat
  opens :: "nat \<Rightarrow> unit result await"
  replies :: "nat \<Rightarrow> 'a result await"
  closes :: "nat \<Rightarrow> unit await"
  waits :: "nat \<Rightarrow> unit await"

definition later :: "(nat \<Rightarrow> 'b) \<Rightarrow> nat \<Rightarrow> 'b" where
  "later f = (\<lambda>n. f (Suc n))"

text \<open>An exception ends the attempt; a cancellation from the transport tears it down.\<close>

definition raised :: "exn \<Rightarrow> 'b attempt" where
  "raised e = (if e = Cancelled then TornDown else Finished (Inl e))"

text \<open>\<open>acquire\<close> with \<open>_open_and_count\<close> as the opener.\<close>

definition acquire ::
    "string \<Rightarrow> 'a call_world \<Rightarrow> 'a call_world \<times> (session \<times> bool) attempt" where
  "acquire timeout_s w =
     (case acquire_poll (wb w) of
        (b, PollClosed) \<Rightarrow> (w, raised (pool_closed_error b))
      | (b, Reuse s) \<Rightarrow> (w\<lparr>wb := b\<rparr>, Finished (Inr (s, True)))
      | (b, Wait) \<Rightarrow>
          (let w' = w\<lparr>waits := later (waits w)\<rparr> in
           case waits w 0 of
             Hangs \<Rightarrow> (w', TimedOut)
           | Ends _ \<Rightarrow> (w', raised (pool_exhausted_error b timeout_s)))
      | (b, Create) \<Rightarrow>
          (let w' = w\<lparr>wb := b, opens := later (opens w)\<rparr> in
           case opens w 0 of
             Hangs \<Rightarrow> (w', TimedOut)
           | Ends (Inl e) \<Rightarrow> (w'\<lparr>wb := fst (acquire_opened b (Inl e))\<rparr>, raised e)
           | Ends (Inr _) \<Rightarrow>
               (let w'' = w'\<lparr>open_count := Suc (open_count w)\<rparr> in
                case acquire_opened b (Inr (open_count w)) of
                  (b', Inr s) \<Rightarrow> (w''\<lparr>wb := b'\<rparr>, Finished (Inr (s, False)))
                | (b', Inl e) \<Rightarrow> (w''\<lparr>wb := b'\<rparr>, raised e))))"

definition invoke :: "'a call_world \<Rightarrow> 'a call_world \<times> 'a attempt" where
  "invoke w =
     (let w' = w\<lparr>replies := later (replies w)\<rparr> in
      case replies w 0 of
        Ends (Inr v) \<Rightarrow> (w', Finished (Inr v))
      | Ends (Inl e) \<Rightarrow> (w', raised e)
      | Hangs \<Rightarrow> (w', TimedOut))"

definition track :: "session \<Rightarrow> 'a call_world \<Rightarrow> 'a call_world" where
  "track s w = w\<lparr>in_flight := in_flight w @ [s]\<rparr>"

definition untrack :: "session \<Rightarrow> 'a call_world \<Rightarrow> 'a call_world" where
  "untrack s w = w\<lparr>in_flight := remove1 s (in_flight w)\<rparr>"

definition close_await :: "'a call_world \<Rightarrow> 'a call_world \<times> bool" where
  "close_await w = (w\<lparr>closes := later (closes w)\<rparr>, closes w 0 \<noteq> Hangs)"

text \<open>
  \<open>await bucket.drop(session)\<close>: the slot is given back first, then the close is awaited; the
  flag says whether that await ended.
\<close>

definition drop_await :: "session \<Rightarrow> 'a call_world \<Rightarrow> 'a call_world \<times> bool" where
  "drop_await s w = close_await (w\<lparr>wb := drop_session s (wb w)\<rparr>)"

text \<open>The stale sessions are closed one after the other.\<close>

fun close_each :: "session list \<Rightarrow> 'a call_world \<Rightarrow> 'a call_world \<times> bool" where
  "close_each [] w = (w, True)"
| "close_each (s # ss) w =
     (case close_await w of (w', True) \<Rightarrow> close_each ss w' | (w', False) \<Rightarrow> (w', False))"

definition purge_await :: "'a call_world \<Rightarrow> 'a call_world \<times> bool" where
  "purge_await w = (case purge_idle (wb w) of (b, stale) \<Rightarrow> close_each stale (w\<lparr>wb := b\<rparr>))"

text \<open>\<open>release\<close> awaits the close of the session only when the pool was closed meanwhile.\<close>

definition release_await :: "session \<Rightarrow> 'a call_world \<Rightarrow> 'a call_world \<times> bool" where
  "release_await s w =
     (if closed (wb w) then close_await w else (w\<lparr>wb := release s (wb w)\<rparr>, True))"

definition finish_call :: "session \<Rightarrow> 'a \<Rightarrow> 'a call_world \<Rightarrow> 'a call_world \<times> 'a attempt" where
  "finish_call s v w =
     (case release_await s w of
        (w', True) \<Rightarrow> (untrack s w', Finished (Inr v))
      | (w', False) \<Rightarrow> (w', TimedOut))"

text \<open>The second try on a fresh session, whose failure is final.\<close>

definition retry_on_fresh :: "string \<Rightarrow> 'a call_world \<Rightarrow> 'a call_world \<times> 'a attempt" where
  "retry_on_fresh timeout_s w =
     (case purge_await w of
        (w1, False) \<Rightarrow> (w1, TimedOut)
      | (w1, True) \<Rightarrow>
          (case acquire timeout_s w1 of
             (w2, Finished (Inr (s, _))) \<Rightarrow>
               (case invoke (track s w2) of
                  (w3, Finished (Inr v)) \<Rightarrow> finish_call s v w3
                | (w3, Finished (Inl e)) \<Rightarrow>
                    (case drop_await s w3 of
                       (w4, False) \<Rightarrow> (w4, TimedOut)
                     | (w4, True) \<Rightarrow> (untrack s w4, Finished (Inl e)))
                | (w3, a) \<Rightarrow> (w3, a))
           | (w2, Finished (Inl e)) \<Rightarrow> (w2, Finished (Inl e))
           | (w2, TornDown) \<Rightarrow> (w2, TornDown)
           | (w2, _) \<Rightarrow> (w2, TimedOut)))"

definition call_with_session :: "string \<Rightarrow> 'a call_world \<Rightarrow> 'a call_world \<times> 'a attempt" where
  "call_with_session timeout_s w =
     (case acquire timeout_s w of
        (w1, Finished (Inr (s, reused))) \<Rightarrow>
          (case invoke (track s (w1\<lparr>call_count := Suc (call_count w1)\<rparr>)) of
             (w2, Finished (Inr v)) \<Rightarrow> finish_call s v w2
           | (w2, Finished (Inl e)) \<Rightarrow>
               (case drop_await s w2 of
                  (w3, False) \<Rightarrow> (w3, TimedOut)
                | (w3, True) \<Rightarrow>
                    (if \<not> reused then (untrack s w3, Finished (Inl e))
                     else retry_on_fresh timeout_s (untrack s w3)))
           | (w2, a) \<Rightarrow> (w2, a))
      | (w1, Finished (Inl e)) \<Rightarrow> (w1, Finished (Inl e))
      | (w1, TornDown) \<Rightarrow> (w1, TornDown)
      | (w1, _) \<Rightarrow> (w1, TimedOut))"

text \<open>
  \<open>_parse_tool_result\<close>, for a result object of the MCP library (error flag, structured content,
  the content blocks with their text if they have one and their \<open>str\<close>, and the \<open>str\<close> of the content)
  and for any other value.
\<close>

datatype tool_result =
    Plain pyval
  | ToolResult bool "pydict option" "(string option \<times> string) list" string

definition parse_tool_result :: "string \<Rightarrow> string \<Rightarrow> tool_result \<Rightarrow> pyval result" where
  "parse_tool_result agent tool r =
     (case r of
        Plain v \<Rightarrow> Inr v
      | ToolResult err st blocks text \<Rightarrow>
          (if err then Inl (AgentUnavailable agent (''mcp tool '' @ tool @ '' failed: '' @ text))
           else (case st of
                   Some d \<Rightarrow>
                     Inr (case map_of d ''result'' of Some v \<Rightarrow> v | None \<Rightarrow> PyDict d)
                 | None \<Rightarrow>
                     (case blocks of
                        (Some t, _) # _ \<Rightarrow> Inr (PyStr t)
                      | (None, rp) # _ \<Rightarrow> Inr (PyStr rp)
                      | [] \<Rightarrow> Inr PyNone))))"

text \<open>
  \<open>AgentSessionPool.call\<close>: breaker around retry around the pooled call. On a transport error
  every session still in flight is dropped (by a detached task) and the error is reported as
  \<open>AgentUnavailableError\<close>; an open breaker and every other exception pass through.
\<close>

definition discard_all :: "'a call_world \<Rightarrow> 'a call_world" where
  "discard_all w = w\<lparr>wb := fold drop_session (in_flight w) (wb w)\<rparr>"

definition pool_call ::
    "breaker \<Rightarrow> real \<Rightarrow> real \<Rightarrow> real \<Rightarrow> real \<Rightarrow> string \<Rightarrow> string \<Rightarrow> int \<Rightarrow> tool_result call_world
      \<Rightarrow> breaker \<times> tool_result call_world \<times> pyval result" where
  "pool_call br t1 t2 t3 t4 tool timeout_s retry_count w =
     (let agent = bkt_agent (wb w) in
      if closed (wb w)
      then (br, w, Inl (AgentUnavailable agent
                         (''mcp pool closed; cannot call '' @ agent @ ''.'' @ tool)))
      else
        (case breaker_run br t1 t2 t3 t4
                (await_with_timeout_retry timeout_s retry_count (call_with_session timeout_s))
                (w\<lparr>in_flight := []\<rparr>) of
           (br', w', Inr r) \<Rightarrow> (br', w', parse_tool_result agent tool r)
         | (br', w', Inl e) \<Rightarrow>
             (case e of
                BreakerOpen a m \<Rightarrow> (br', w', Inl e)
              | _ \<Rightarrow>
                (if transport_failure e
                 then (br', discard_all w', Inl (AgentUnavailable agent (exn_str e)))
                 else (br', w', Inl e)))))"


section \<open>Facts about the call path\<close>

text \<open>The world of a caller seen as a state of the pool whose held sessions are the call's.\<close>

definition world_sys :: "'a call_world \<Rightarrow> pool_sys" where
  "world_sys w = \<lparr>pool_bucket = wb w, creating = 0, held = in_flight w\<rparr>"

definition world_inv :: "'a call_world \<Rightarrow> bool" where
  "world_inv w \<longleftrightarrow>
     \<not> closed (wb w) \<and> pool_inv (world_sys w) \<and> (\<forall>s \<in> set (live (wb w)). s < open_count w)"

text \<open>Every await of the call ends, and none with a cancellation.\<close>

definition smooth :: "'a call_world \<Rightarrow> bool" where
  "smooth w \<longleftrightarrow>
     (\<forall>n. opens w n \<noteq> Hangs \<and> opens w n \<noteq> Ends (Inl Cancelled) \<and>
          replies w n \<noteq> Hangs \<and> replies w n \<noteq> Ends (Inl Cancelled) \<and>
          closes w n \<noteq> Hangs \<and> waits w n \<noteq> Hangs)"

lemma smooth_later [simp]:
  "smooth w \<Longrightarrow> smooth (w\<lparr>opens := later (opens w)\<rparr>)"
  "smooth w \<Longrightarrow> smooth (w\<lparr>replies := later (replies w)\<rparr>)"
  "smooth w \<Longrightarrow> smooth (w\<lparr>closes := later (closes w)\<rparr>)"
  "smooth w \<Longrightarrow> smooth (w\<lparr>waits := later (waits w)\<rparr>)"
  by (simp_all add: smooth_def later_def)

lemma smooth_frame [simp]:
  "smooth (w\<lparr>wb := b\<rparr>) = smooth w"
  "smooth (w\<lparr>in_flight := fs\<rparr>) = smooth w"
  "smooth (w\<lparr>open_count := n\<rparr>) = smooth w"
  "smooth (w\<lparr>call_count := n\<rparr>) = smooth w"
  by (simp_all add: smooth_def)

lemma world_inv_iff:
  "world_inv w \<longleftrightarrow>
     \<not> closed (wb w) \<and> slots (wb w) = int (length (live (wb w))) \<and> slots (wb w) \<le> max_size (wb w) \<and>
     distinct (live (wb w)) \<and> mset (live (wb w)) = mset (idle (wb w)) + mset (in_flight w) \<and>
     (\<forall>s \<in> set (live (wb w)). s < open_count w)"
  by (auto simp: world_inv_def world_sys_def pool_inv_def Let_def)

text \<open>An acquired session is a held one: \<open>track\<close> restores the balance of the pool.\<close>

lemma acquire_smooth:
  assumes "world_inv w" and "smooth w" and "acquire t w = (w', a)"
  shows "smooth w' \<and> in_flight w' = in_flight w \<and> \<not> closed (wb w') \<and>
     (case a of
        Finished (Inr (s, r)) \<Rightarrow> world_inv (track s w')
      | Finished (Inl e) \<Rightarrow> world_inv w' \<and> e \<noteq> Cancelled
      | _ \<Rightarrow> False)"
proof -
  have inv: "\<not> closed (wb w)" "slots (wb w) = int (length (live (wb w)))"
    "slots (wb w) \<le> max_size (wb w)" "distinct (live (wb w))"
    "mset (live (wb w)) = mset (idle (wb w)) + mset (in_flight w)"
    "\<forall>s \<in> set (live (wb w)). s < open_count w"
    using assms(1) by (simp_all add: world_inv_iff)
  have sm: "opens w 0 \<noteq> Hangs" "opens w 0 \<noteq> Ends (Inl Cancelled)" "waits w 0 \<noteq> Hangs"
    using assms(2) by (auto simp: smooth_def)
  have fresh: "open_count w \<notin> set (live (wb w))" "\<forall>s \<in> set (live (wb w)). s < Suc (open_count w)"
    using inv(6) by (auto intro: less_SucI)
  consider (reuse) "idle (wb w) \<noteq> []" | (create) "idle (wb w) = []" "slots (wb w) < max_size (wb w)"
    | (wait) "idle (wb w) = []" "\<not> slots (wb w) < max_size (wb w)" by blast
  then show ?thesis
  proof cases
    case reuse
    with assms(3) inv(1) have "w' = w\<lparr>wb := (wb w)\<lparr>idle := butlast (idle (wb w))\<rparr>\<rparr>"
      "a = Finished (Inr (last (idle (wb w)), True))"
      by (auto simp: acquire_def acquire_poll_def)
    with inv assms(2) reuse show ?thesis
      by (simp add: world_inv_iff track_def mset_butlast_last [of "idle (wb w)"])
  next
    case create
    show ?thesis
    proof (cases "opens w 0")
      case (Ends r)
      show ?thesis
      proof (cases r)
        case (Inl e)
        with assms inv create Ends sm show ?thesis
          by (auto simp: acquire_def acquire_poll_def acquire_opened_def give_back_slot_def Let_def
              raised_def world_inv_iff smooth_def later_def)
      next
        case (Inr u)
        with assms inv create Ends sm fresh show ?thesis
          by (auto simp: acquire_def acquire_poll_def acquire_opened_def Let_def
              world_inv_iff smooth_def later_def track_def)
      qed
    qed (use sm in simp)
  next
    case wait
    with assms inv sm show ?thesis
      by (auto simp: acquire_def acquire_poll_def Let_def raised_def pool_exhausted_error_def
          world_inv_iff smooth_def later_def split: await.splits)
  qed
qed


lemma invoke_smooth:
  assumes "world_inv w" and "smooth w" and "invoke w = (w', a)"
  shows "world_inv w' \<and> smooth w' \<and> in_flight w' = in_flight w \<and> wb w' = wb w \<and>
         (\<exists>r. a = Finished r \<and> r \<noteq> Inl Cancelled)"
proof -
  have w': "w' = w\<lparr>replies := later (replies w)\<rparr>"
    using assms(3) by (auto simp: invoke_def Let_def split: await.splits sum.splits)
  have "replies w 0 \<noteq> Hangs" "replies w 0 \<noteq> Ends (Inl Cancelled)"
    using assms(2) by (auto simp: smooth_def)
  then have "\<exists>r. a = Finished r \<and> r \<noteq> Inl Cancelled"
    using assms(3) by (auto simp: invoke_def raised_def Let_def split: await.splits sum.splits if_splits)
  with assms w' show ?thesis by (simp add: world_inv_iff)
qed

lemma close_await_smooth:
  "smooth w \<Longrightarrow> close_await w = (w\<lparr>closes := later (closes w)\<rparr>, True)"
  by (simp add: close_await_def smooth_def)

lemma close_each_smooth:
  assumes "world_inv w" and "smooth w"
  shows "\<exists>w'. close_each ss w = (w', True) \<and> world_inv w' \<and> smooth w' \<and> in_flight w' = in_flight w
           \<and> wb w' = wb w"
  using assms
proof (induction ss arbitrary: w)
  case (Cons x ss)
  let ?w = "w\<lparr>closes := later (closes w)\<rparr>"
  from Cons.prems have "world_inv ?w" "smooth ?w" by (simp_all add: world_inv_iff)
  from Cons.IH [OF this] show ?case using Cons.prems by (simp add: close_await_smooth)
qed simp

lemma drop_world_inv:
  assumes "world_inv w" and "s \<in> set (in_flight w)"
  shows "world_inv (untrack s (w\<lparr>wb := drop_session s (wb w)\<rparr>))"
proof -
  have "pool_step (world_sys w)
          (world_sys (untrack s (w\<lparr>wb := drop_session s (wb w)\<rparr>)))"
    using pool_step.dropped [of s "world_sys w"] assms(2) by (simp add: world_sys_def untrack_def)
  with assms have "pool_inv (world_sys (untrack s (w\<lparr>wb := drop_session s (wb w)\<rparr>)))"
    using pool_step_inv world_inv_def by blast
  with assms show ?thesis
    by (auto simp: world_inv_def untrack_def drop_session_def give_back_slot_def
        dest!: notin_set_remove1 dest: set_remove1_subset [THEN subsetD])
qed

lemma release_world_inv:
  assumes "world_inv w" and "s \<in> set (in_flight w)"
  shows "world_inv (untrack s (w\<lparr>wb := release s (wb w)\<rparr>))"
proof -
  have "pool_step (world_sys w) (world_sys (untrack s (w\<lparr>wb := release s (wb w)\<rparr>)))"
    using pool_step.hand_back [of s "world_sys w"] assms(2) by (simp add: world_sys_def untrack_def)
  with assms have "pool_inv (world_sys (untrack s (w\<lparr>wb := release s (wb w)\<rparr>)))"
    using pool_step_inv world_inv_def by blast
  with assms show ?thesis by (auto simp: world_inv_def untrack_def release_def)
qed

lemma purge_world_inv:
  assumes "world_inv w"
  shows "world_inv (w\<lparr>wb := fst (purge_idle (wb w))\<rparr>)"
proof -
  have "pool_step (world_sys w) (world_sys (w\<lparr>wb := fst (purge_idle (wb w))\<rparr>))"
    using pool_step.purge [of "world_sys w"] by (simp add: world_sys_def)
  with assms have "pool_inv (world_sys (w\<lparr>wb := fst (purge_idle (wb w))\<rparr>))"
    using pool_step_inv world_inv_def by blast
  moreover have "set (fold remove1 ys xs) \<subseteq> set xs" for xs ys :: "nat list"
    by (induction ys arbitrary: xs) (auto dest: subsetD [OF set_remove1_subset])
  ultimately show ?thesis using assms by (auto simp: world_inv_def purge_idle_def)
qed

text \<open>A call that starts with nothing in flight ends with nothing in flight.\<close>

definition settled :: "'a call_world \<Rightarrow> bool" where
  "settled w \<longleftrightarrow> world_inv w \<and> smooth w \<and> in_flight w = []"

lemma finish_call_settled:
  assumes "world_inv w" and "smooth w" and "in_flight w = [s]"
  shows "settled (fst (finish_call s v w)) \<and> snd (finish_call s v w) = Finished (Inr v)"
  using release_world_inv [of w s] assms
  by (simp add: finish_call_def release_await_def world_inv_def settled_def untrack_def)

lemma drop_await_settled:
  assumes "world_inv w" and "smooth w" and "in_flight w = [s]"
  shows "\<exists>w'. drop_await s w = (w', True) \<and> settled (untrack s w')"
proof -
  let ?w = "w\<lparr>wb := drop_session s (wb w)\<rparr>"
  have "drop_await s w = (?w\<lparr>closes := later (closes w)\<rparr>, True)"
    using assms(2) by (simp add: drop_await_def close_await_def smooth_def)
  moreover have "smooth (?w\<lparr>closes := later (closes w)\<rparr>)"
    using assms(2) by (simp add: smooth_def later_def)
  then have "settled (untrack s (?w\<lparr>closes := later (closes w)\<rparr>))"
    using drop_world_inv [of w s] assms by (simp add: settled_def world_inv_iff untrack_def)
  ultimately show ?thesis by blast
qed


lemma use_session_settled:
  assumes "world_inv (track s w)" and "smooth w" and "in_flight w = []"
    and "invoke (track s w) = (w', a)"
  shows "(\<exists>v. a = Finished (Inr v) \<and> settled (fst (finish_call s v w')) \<and>
              snd (finish_call s v w') = Finished (Inr v))
       \<or> (\<exists>e w''. a = Finished (Inl e) \<and> e \<noteq> Cancelled \<and> drop_await s w' = (w'', True) \<and>
              settled (untrack s w''))"
proof -
  have "smooth (track s w)" using assms(2) by (simp add: track_def)
  from invoke_smooth [OF assms(1) this assms(4)] obtain r where
    w': "world_inv w'" "smooth w'" "in_flight w' = [s]" and a: "a = Finished r" "r \<noteq> Inl Cancelled"
    using assms(3) by (auto simp: track_def)
  show ?thesis
  proof (cases r)
    case (Inl e)
    with a drop_await_settled [OF w'] show ?thesis by auto
  next
    case (Inr v)
    with a finish_call_settled [OF w', of v] show ?thesis by auto
  qed
qed

lemma retry_on_fresh_settled:
  assumes "settled w"
  shows "settled (fst (retry_on_fresh t w)) \<and>
         (\<exists>r. snd (retry_on_fresh t w) = Finished r \<and> r \<noteq> Inl Cancelled)"
proof -
  let ?w = "w\<lparr>wb := fst (purge_idle (wb w))\<rparr>"
  from assms have "world_inv ?w" "smooth ?w" by (simp_all add: settled_def purge_world_inv)
  from close_each_smooth [OF this, of "snd (purge_idle (wb w))"] obtain w1 where
    w1: "purge_await w = (w1, True)" "world_inv w1" "smooth w1" "in_flight w1 = []"
    using assms by (auto simp: purge_await_def settled_def case_prod_beta)
  obtain w2 a where acq: "acquire t w1 = (w2, a)" by (cases "acquire t w1")
  from acquire_smooth [OF w1(2,3) acq] w1(4) have
    w2: "smooth w2" "in_flight w2 = []" and
    a: "case a of Finished (Inr (s, r)) \<Rightarrow> world_inv (track s w2)
        | Finished (Inl e) \<Rightarrow> world_inv w2 \<and> e \<noteq> Cancelled | _ \<Rightarrow> False"
    by auto
  show ?thesis
  proof (cases "\<exists>s r. a = Finished (Inr (s, r))")
    case True
    then obtain s r where s: "a = Finished (Inr (s, r))" by blast
    obtain w3 a' where inv: "invoke (track s w2) = (w3, a')" by (cases "invoke (track s w2)")
    from s a have "world_inv (track s w2)" by simp
    from use_session_settled [OF this w2 inv] show ?thesis
      by (auto simp: retry_on_fresh_def w1(1) acq s inv)
  next
    case False
    with a w2 show ?thesis
      by (auto simp: retry_on_fresh_def w1(1) acq settled_def split: attempt.splits sum.splits)
  qed
qed

lemma call_with_session_settled:
  assumes "settled w"
  shows "settled (fst (call_with_session t w)) \<and>
         (\<exists>r. snd (call_with_session t w) = Finished r \<and> r \<noteq> Inl Cancelled)"
proof -
  from assms have w: "world_inv w" "smooth w" "in_flight w = []" by (simp_all add: settled_def)
  obtain w1 a where acq: "acquire t w = (w1, a)" by (cases "acquire t w")
  from acquire_smooth [OF w(1,2) acq] w(3) have
    w1: "smooth w1" "in_flight w1 = []" and
    a: "case a of Finished (Inr (s, r)) \<Rightarrow> world_inv (track s w1)
        | Finished (Inl e) \<Rightarrow> world_inv w1 \<and> e \<noteq> Cancelled | _ \<Rightarrow> False"
    by auto
  show ?thesis
  proof (cases "\<exists>s r. a = Finished (Inr (s, r))")
    case True
    then obtain s r where s: "a = Finished (Inr (s, r))" by blast
    let ?w1 = "w1\<lparr>call_count := Suc (call_count w1)\<rparr>"
    obtain w2 a' where inv: "invoke (track s ?w1) = (w2, a')" by (cases "invoke (track s ?w1)")
    from s a have "world_inv (track s ?w1)" by (simp add: world_inv_iff track_def)
    moreover from w1 have "smooth ?w1" "in_flight ?w1 = []" by simp_all
    ultimately consider
      v where "a' = Finished (Inr v)" "settled (fst (finish_call s v w2))"
              "snd (finish_call s v w2) = Finished (Inr v)"
      | e w3 where "a' = Finished (Inl e)" "e \<noteq> Cancelled" "drop_await s w2 = (w3, True)"
              "settled (untrack s w3)"
      using use_session_settled [OF _ _ _ inv] by blast
    then show ?thesis
    proof cases
      case 1
      then show ?thesis by (simp add: call_with_session_def acq s inv)
    next
      case 2
      with retry_on_fresh_settled [of "untrack s w3" t] show ?thesis
        by (simp add: call_with_session_def acq s inv)
    qed
  next
    case False
    with a w1 show ?thesis
      by (auto simp: call_with_session_def acq settled_def split: attempt.splits sum.splits)
  qed
qed

text \<open>
  The two wrappers keep what the pooled call keeps; so a call of the pool that is not cut
  short leaves the pool settled.
\<close>

lemma discard_all_settled: "settled w \<Longrightarrow> discard_all w = w"
  by (simp add: discard_all_def settled_def)

lemma pool_call_world:
  "\<not> closed (wb w) \<Longrightarrow> fst (snd (pool_call br t1 t2 t3 t4 tool t n w)) =
     (let w' = fst (snd (breaker_run br t1 t2 t3 t4
                 (await_with_timeout_retry t n (call_with_session t)) (w\<lparr>in_flight := []\<rparr>)))
      in w') \<or>
   fst (snd (pool_call br t1 t2 t3 t4 tool t n w)) =
     (let w' = fst (snd (breaker_run br t1 t2 t3 t4
                 (await_with_timeout_retry t n (call_with_session t)) (w\<lparr>in_flight := []\<rparr>)))
      in discard_all w')"
  by (auto simp: pool_call_def Let_def split: prod.split sum.split exn.split)

lemma pool_call_settled:
  assumes "settled w"
  shows "settled (fst (snd (pool_call br t1 t2 t3 t4 tool t n w)))"
proof -
  let ?call = "await_with_timeout_retry t n (call_with_session t)"
  let ?w = "w\<lparr>in_flight := []\<rparr>"
  have w: "settled ?w" "\<not> closed (wb w)" using assms by (simp_all add: settled_def world_inv_iff)
  have "settled (fst (?call v))" if "settled v" for v
    by (rule retry_wrap.wrap_keeps [where P = settled]) (use call_with_session_settled that in blast)+
  then have "settled (fst (snd (breaker_run br t1 t2 t3 t4 ?call ?w)))"
    by (intro breaker_wrap.wrap_keeps [where P = settled and call = ?call] w(1))
  moreover from this have "discard_all (fst (snd (breaker_run br t1 t2 t3 t4 ?call ?w)))
      = fst (snd (breaker_run br t1 t2 t3 t4 ?call ?w))" by (rule discard_all_settled)
  ultimately show ?thesis
    using pool_call_world [OF w(2), of br t1 t2 t3 t4 tool t n] by (auto simp: Let_def)
qed


section \<open>Properties\<close>



text \<open>
  waiting for a session is bounded: whatever other tasks do to the bucket between two
  looks at it, a caller with a deadline gets an answer (a session, a free slot, or the pool's
  error) at the latest at its first clock reading that is not before the deadline.
\<close>

theorem acquire_returns_by_deadline:
  assumes "(now, others) \<in> set rounds" and "d \<le> now"
  shows "\<exists>b' p. acquire_loop (Some d) rounds b = Some (b', p)"
  using assms
proof (induction rounds arbitrary: b)
  case (Cons r rounds)
  then show ?case
    by (cases r) (auto simp: acquire_loop.simps [of _ "_ # _"] split: prod.split poll.split)
qed simp

theorem acquire_returns_by_deadline_witness:
  "\<exists>b' p. acquire_loop (Some 5) [(1, id), (5, id)] ((new_bucket ''memory'' 1)\<lparr>slots := 1\<rparr>)
     = Some (b', p)"
  using acquire_returns_by_deadline [of 5 id "[(1, id), (5, id)]" 5] by simp

text \<open>
  a call none of whose awaits is cut short leaves the pool settled, whatever the
  breaker, the retry count and the answers of the sessions are: nothing stays in flight, every
  live session is idle again, the slots count the live sessions and stay within the size.
\<close>

theorem pool_call_leaves_pool_settled:
  assumes "settled w"
  shows "let b = wb (fst (snd (pool_call br t1 t2 t3 t4 tool t n w))) in
           \<not> closed b \<and> mset (idle b) = mset (live b) \<and> slots b = int (length (live b)) \<and>
           slots b \<le> max_size b"
  using pool_call_settled [OF assms, of br t1 t2 t3 t4 tool t n]
  by (simp add: settled_def world_inv_iff Let_def)

definition sample_world :: "(nat \<Rightarrow> tool_result result await) \<Rightarrow> int \<Rightarrow> tool_result call_world" where
  "sample_world rs n =
     \<lparr>wb = new_bucket ''graph_query'' n, in_flight = [], open_count = 0, call_count = 0,
      opens = (\<lambda>_. Ends (Inr ())), replies = rs, closes = (\<lambda>_. Ends ()), waits = (\<lambda>_. Ends ())\<rparr>"

theorem pool_call_leaves_pool_settled_witness:
  "slots (wb (fst (snd (pool_call (new_breaker ''graph_query'' 3 30) 0 0 0 0 ''find_entity'' ''5.0'' 1
      (sample_world (\<lambda>_. Ends (Inl (TimeoutError ''read''))) 4))))) \<le> 4"
proof -
  let ?w = "sample_world (\<lambda>_. Ends (Inl (TimeoutError ''read''))) 4"
  have s: "settled ?w"
    by (simp add: settled_def world_inv_iff smooth_def sample_world_def new_bucket_def)
  have m: "max_size (fst (acquire_opened b r)) = max_size b" for b r
    by (simp add: acquire_opened_def give_back_slot_def split: sum.split)
  from pool_call_leaves_pool_settled [OF s, of "new_breaker ''graph_query'' 3 30" 0 0 0 0
      "''find_entity''" "''5.0''" 1]
  show ?thesis
    by (simp add: Let_def sample_world_def new_bucket_def pool_call_def breaker_run_def breaker_defs
        new_breaker_def await_with_timeout_retry_def retry_loop_Suc call_with_session_def
        acquire_def bucket_defs invoke_def raised_def track_def untrack_def later_def
        drop_await_def close_await_def discard_all_def eval_nat_numeral)
qed

text \<open>
  a session is lost when a call is retried successfully. The first attempt opens a
  session and times out on it, the second opens another and gets the answer: the caller gets
  the value, but the first session stays live and is neither idle nor given back, because only
  a failing call reclaims what is in flight. The slot is gone for good.
\<close>

theorem retried_call_strands_session:
  assumes "brk_state br = Closed" and "\<not> closed (wb w)" and "idle (wb w) = []"
    and "slots (wb w) + 1 < max_size (wb w)" and "1 \<le> n"
    and "opens w 0 = Ends (Inr ())" and "opens w 1 = Ends (Inr ())"
    and "replies w 0 = Hangs" and "replies w 1 = Ends (Inr r)"
  shows "\<exists>br' w'. pool_call br t1 t2 t3 t4 tool t n w
              = (br', w', parse_tool_result (bkt_agent (wb w)) tool r)
           \<and> in_flight w' = [open_count w] \<and> open_count w \<in> set (live (wb w'))
           \<and> idle (wb w') = [Suc (open_count w)] \<and> slots (wb w') = slots (wb w) + 2"
proof -
  obtain k where k: "nat n = Suc k" using assms(5) by (cases "nat n") auto
  moreover from assms(5) have "max 0 n = n" by simp
  ultimately show ?thesis
    using assms
    by (simp add: pool_call_def breaker_run_def breaker_defs await_with_timeout_retry_def
        retry_loop_Suc call_with_session_def acquire_def acquire_poll_def acquire_opened_def invoke_def
        track_def untrack_def later_def finish_call_def release_await_def release_def Let_def)
qed

theorem retried_call_strands_session_witness:
  "\<exists>br' w'. pool_call (new_breaker ''graph_query'' 3 30) 0 0 0 0 ''find_entity'' ''5.0'' 1
      (sample_world (\<lambda>k. if k = 0 then Hangs else Ends (Inr (Plain PyNone))) 4)
      = (br', w', Inr PyNone) \<and> idle (wb w') = [1] \<and> slots (wb w') = 2"
  using retried_call_strands_session [of "new_breaker ''graph_query'' 3 30"
      "sample_world (\<lambda>k. if k = 0 then Hangs else Ends (Inr (Plain PyNone))) 4" 1 "Plain PyNone"
      0 0 0 0 "''find_entity''" "''5.0''"]
  by (auto simp: sample_world_def new_bucket_def new_breaker_def parse_tool_result_def)


text \<open>
  C35: a slot is lost for every session whose opening hangs. The abandoned attempt is
  cancelled while it awaits the opener, and a cancellation is not an \<open>Exception\<close>, so the
  slot it took is not given back: after as many such attempts as the pool has slots, the
  bucket has no session at all and yet makes every further caller wait.
\<close>

theorem hanging_opens_exhaust_pool:
  assumes "idle (wb w) = []" and "live (wb w) = []" and "slots (wb w) = 0" and "\<not> closed (wb w)"
    and "0 \<le> max_size (wb w)" and "\<forall>k. opens w k = Hangs"
  shows "let w' = ((\<lambda>v. fst (call_with_session t v)) ^^ nat (max_size (wb w))) w
         in live (wb w') = [] \<and> acquire_poll (wb w') = (wb w', Wait)"
proof -
  have step: "int k \<le> max_size (wb w) \<Longrightarrow>
      (let v = ((\<lambda>v. fst (call_with_session t v)) ^^ k) w in
         wb v = (wb w)\<lparr>slots := int k\<rparr> \<and> (\<forall>j. opens v j = Hangs))" for k
  proof (induction k)
    case 0
    with assms show ?case by simp
  next
    case (Suc k)
    then show ?case
      using assms by (auto simp: Let_def call_with_session_def acquire_def acquire_poll_def later_def)
  qed
  from step [of "nat (max_size (wb w))"] assms show ?thesis
    by (simp add: Let_def acquire_poll_def)
qed

theorem hanging_opens_exhaust_pool_witness:
  "let w' = ((\<lambda>v. fst (call_with_session ''5.0'' v)) ^^ nat 4)
              ((sample_world (\<lambda>_. Hangs) 4)\<lparr>opens := (\<lambda>_. Hangs)\<rparr>)
   in live (wb w') = [] \<and> acquire_poll (wb w') = (wb w', Wait)"
  using hanging_opens_exhaust_pool [of "(sample_world (\<lambda>_. Hangs) 4)\<lparr>opens := (\<lambda>_. Hangs)\<rparr>" "''5.0''"]
  by (simp add: sample_world_def new_bucket_def)

text \<open>
  a slot is counted twice when closing a failed session hangs. The call has
  dropped the session and awaits its close when the attempt times out, so the session is still
  in flight and is dropped again: afterwards the bucket counts one slot fewer than it has live
  sessions, and will open more sessions than its size allows.
\<close>

theorem hanging_close_undercounts_slots:
  assumes "brk_state br = Closed" and "\<not> closed (wb w)" and "idle (wb w) = []"
    and "0 < slots (wb w)" and "slots (wb w) = int (length (live (wb w)))"
    and "slots (wb w) < max_size (wb w)" and "open_count w \<notin> set (live (wb w))"
    and "opens w 0 = Ends (Inr ())" and "replies w 0 = Ends (Inl e)" and "e \<noteq> Cancelled"
    and "closes w 0 = Hangs"
  shows "\<exists>br' w'. pool_call br t1 t2 t3 t4 tool t 0 w
              = (br', w', Inl (AgentUnavailable (bkt_agent (wb w)) (''timed out after '' @ t @ ''s'')))
           \<and> live (wb w') = live (wb w) \<and> slots (wb w') = int (length (live (wb w'))) - 1"
  using assms
  by (simp add: pool_call_def breaker_run_def breaker_defs await_with_timeout_retry_def
      retry_loop_Suc call_with_session_def acquire_def acquire_poll_def acquire_opened_def invoke_def
      track_def later_def raised_def drop_await_def close_await_def drop_session_def give_back_slot_def
      discard_all_def remove1_append remove1_idem Let_def)

theorem hanging_close_undercounts_slots_witness:
  "\<exists>br' w'. pool_call (new_breaker ''graph_query'' 3 30) 0 0 0 0 ''find_entity'' ''5.0'' 0
      ((sample_world (\<lambda>_. Ends (Inl (ConnectionError ''reset''))) 4)
         \<lparr>wb := (new_bucket ''graph_query'' 4)\<lparr>live := [7], slots := 1\<rparr>, closes := (\<lambda>_. Hangs)\<rparr>)
      = (br', w', Inl (AgentUnavailable ''graph_query'' ''timed out after 5.0s''))
      \<and> live (wb w') = [7] \<and> slots (wb w') = 0"
  using hanging_close_undercounts_slots [of "new_breaker ''graph_query'' 3 30"
      "(sample_world (\<lambda>_. Ends (Inl (ConnectionError ''reset''))) 4)
         \<lparr>wb := (new_bucket ''graph_query'' 4)\<lparr>live := [7], slots := 1\<rparr>, closes := (\<lambda>_. Hangs)\<rparr>"
      "ConnectionError ''reset''" 0 0 0 0 "''find_entity''" "''5.0''"]
  by (auto simp: sample_world_def new_bucket_def new_breaker_def)

end
