(* ===== verification/SpendMeter.thy ===== *)
theory SpendMeter
  imports Prelude
begin

text \<open>
  The contract between the request budget and the token ledger: what was spent on one request
  only grows as long as the charges are fair, and a charge to one request leaves the others as
  they are. The budget's ceilings are lemmas about any such meter.
\<close>

text \<open>A ceiling that is set and reached, tokens first.\<close>

definition over_tokens :: "int option \<Rightarrow> int \<times> real \<Rightarrow> bool" where
  "over_tokens lm s = (case lm of None \<Rightarrow> False | Some m \<Rightarrow> m \<le> fst s)"

definition over_cost :: "real option \<Rightarrow> int \<times> real \<Rightarrow> bool" where
  "over_cost lm s = (case lm of None \<Rightarrow> False | Some m \<Rightarrow> m \<le> snd s)"

locale spend_meter =
  fixes spent :: "'l \<Rightarrow> string \<Rightarrow> int \<times> real"
    and charge :: "string \<Rightarrow> 'c \<Rightarrow> 'l \<Rightarrow> 'l"
    and fair :: "'c \<Rightarrow> bool"
  assumes charge_total: "fair c \<Longrightarrow> fst (spent l cid) \<le> fst (spent (charge cid' c l) cid)"
    and charge_cost: "fair c \<Longrightarrow> snd (spent l cid) \<le> snd (spent (charge cid' c l) cid)"
    and charge_other: "cid' \<noteq> cid \<Longrightarrow> spent (charge cid' c l) cid = spent l cid"
begin

definition charge_all :: "(string \<times> 'c) list \<Rightarrow> 'l \<Rightarrow> 'l" where
  "charge_all cs l = fold (\<lambda>(cid, c). charge cid c) cs l"

lemma charge_all_simps [simp]:
  "charge_all [] l = l"
  "charge_all ((cid, c) # cs) l = charge_all cs (charge cid c l)"
  by (simp_all add: charge_all_def)

lemma spent_mono:
  assumes "\<And>cid' c. (cid', c) \<in> set cs \<Longrightarrow> fair c"
  shows "fst (spent l cid) \<le> fst (spent (charge_all cs l) cid) \<and>
         snd (spent l cid) \<le> snd (spent (charge_all cs l) cid)"
  using assms
proof (induction cs arbitrary: l)
  case Nil
  show ?case by simp
next
  case (Cons a cs)
  obtain cid' c where a: "a = (cid', c)" by (cases a)
  have "fair c" using Cons.prems a by auto
  then have "fst (spent l cid) \<le> fst (spent (charge cid' c l) cid)"
    and "snd (spent l cid) \<le> snd (spent (charge cid' c l) cid)"
    by (rule charge_total charge_cost)+
  moreover have "fst (spent (charge cid' c l) cid) \<le> fst (spent (charge_all cs (charge cid' c l)) cid) \<and>
      snd (spent (charge cid' c l) cid) \<le> snd (spent (charge_all cs (charge cid' c l)) cid)"
    using Cons.prems by (intro Cons.IH) (meson list.set_intros(2))
  ultimately show ?case by (auto simp: a intro: order_trans)
qed

lemma over_stays:
  assumes "\<And>cid' c. (cid', c) \<in> set cs \<Longrightarrow> fair c"
  shows "over_tokens t (spent l cid) \<Longrightarrow> over_tokens t (spent (charge_all cs l) cid)"
    and "over_cost m (spent l cid) \<Longrightarrow> over_cost m (spent (charge_all cs l) cid)"
  using spent_mono [where cs = cs and l = l and cid = cid] assms
  by (auto simp: over_tokens_def over_cost_def split: option.splits)

lemma others_do_not_count:
  "cid \<notin> fst ` set cs \<Longrightarrow> spent (charge_all cs l) cid = spent l cid"
  by (induction cs arbitrary: l) (auto simp: charge_other)

end

end
