(* ===== verification/Ledger.thy ===== *)
theory Ledger
  imports SpendMeter
begin

text \<open>
  What LLM calls cost and how one request accounts for them: the price table
  (\<open>core/llm/pricing.py\<close>), the model and rate selection of \<open>LLMSettings\<close>
  (\<open>core/settings.py\<close>), \<open>TokenUsage\<close> (\<open>core/llm/provider.py\<close>) and the token ledger
  (\<open>core/observability/ledger.py\<close>). Dollar amounts are reals. The Prometheus counters that
  \<open>record\<close> also increments are write-only for this code and are left out.
\<close>

section \<open>Prices\<close>

record model_rates =
  prompt_usd_per_million :: real
  completion_usd_per_million :: real
  cached_prompt_usd_per_million :: real

definition rates :: "real \<Rightarrow> real \<Rightarrow> real \<Rightarrow> model_rates" where
  "rates p c k =
     \<lparr>prompt_usd_per_million = p, completion_usd_per_million = c, cached_prompt_usd_per_million = k\<rparr>"

text \<open>\<open>ModelRates()\<close>, and the validator that refuses a negative price.\<close>

definition default_rates :: model_rates where
  "default_rates = rates 3 15 (30 / 100)"

definition rates_nonneg :: "model_rates \<Rightarrow> bool" where
  "rates_nonneg r \<longleftrightarrow>
     0 \<le> prompt_usd_per_million r \<and> 0 \<le> completion_usd_per_million r \<and>
     0 \<le> cached_prompt_usd_per_million r"

definition catalog :: "(string \<times> model_rates) list" where
  "catalog =
     [(''anthropic/claude-sonnet-4.5'', rates 3 15 (30 / 100)),
      (''anthropic/claude-haiku-4.5'', rates (50 / 100) (250 / 100) (5 / 100)),
      (''openai/gpt-4.1-mini'', rates (40 / 100) (160 / 100) (10 / 100)),
      (''typesafe/jev-latest'', rates (42 / 1000) 0 (42 / 1000)),
      (''google/gemini-2.5-flash'', rates (30 / 100) (250 / 100) (3 / 100))]"

definition synthesis_p95_ms :: "(string \<times> int) list" where
  "synthesis_p95_ms =
     [(''anthropic/claude-sonnet-4.5'', 19943), (''anthropic/claude-haiku-4.5'', 9068),
      (''openai/gpt-4.1-mini'', 11714)]"

definition measured_synthesis_p95_s :: "string \<Rightarrow> real option" where
  "measured_synthesis_p95_s model =
     (case map_of synthesis_p95_ms model of None \<Rightarrow> None | Some ms \<Rightarrow> Some (of_int ms / 1000))"

definition resolve_rates ::
    "string \<Rightarrow> (string \<times> model_rates) list \<Rightarrow> model_rates option \<Rightarrow> model_rates" where
  "resolve_rates model overlay fallback =
     (case map_of overlay model of
        Some r \<Rightarrow> r
      | None \<Rightarrow>
          (case map_of catalog model of
             Some r \<Rightarrow> r
           | None \<Rightarrow> (case fallback of Some r \<Rightarrow> r | None \<Rightarrow> default_rates)))"

definition cost_usd :: "int \<Rightarrow> int \<Rightarrow> int \<Rightarrow> model_rates option \<Rightarrow> real" where
  "cost_usd prompt_tokens completion_tokens cached_prompt_tokens rs =
     (let resolved = (case rs of Some r \<Rightarrow> r | None \<Rightarrow> default_rates);
          cached = max 0 cached_prompt_tokens;
          uncached = max 0 (prompt_tokens - cached)
      in of_int uncached / 1000000 * prompt_usd_per_million resolved
         + of_int cached / 1000000 * cached_prompt_usd_per_million resolved
         + of_int completion_tokens / 1000000 * completion_usd_per_million resolved)"

section \<open>Model selection\<close>

datatype purpose = Routing | Synthesis | Analysis | Summarization

record llm_settings =
  base_model :: string
  routing_model :: "string option"
  synthesis_model :: "string option"
  analysis_model :: "string option"
  fallback_rates :: model_rates
  price_overlay :: "(string \<times> model_rates) list"

text \<open>The field validator: a blank override counts as not set.\<close>

definition blank_model_override :: "string option \<Rightarrow> string option" where
  "blank_model_override v = (case v of Some s \<Rightarrow> if strip s = [] then None else Some s | None \<Rightarrow> None)"

definition resolve_model :: "llm_settings \<Rightarrow> purpose \<Rightarrow> string" where
  "resolve_model st p =
     (case (case p of
              Routing \<Rightarrow> routing_model st
            | Synthesis \<Rightarrow> synthesis_model st
            | Analysis \<Rightarrow> analysis_model st
            | Summarization \<Rightarrow> None) of
        Some m \<Rightarrow> if m = [] then base_model st else m
      | None \<Rightarrow> base_model st)"

definition rates_for :: "llm_settings \<Rightarrow> string \<Rightarrow> model_rates" where
  "rates_for st model = resolve_rates model (price_overlay st) (Some (fallback_rates st))"

section \<open>Usage and totals\<close>

record token_usage =
  prompt_tokens :: int
  completion_tokens :: int
  total_tokens :: int
  usage_model :: "string option"
  cached_prompt_tokens :: int

definition uncached_prompt_tokens :: "token_usage \<Rightarrow> int" where
  "uncached_prompt_tokens u = max 0 (prompt_tokens u - cached_prompt_tokens u)"

record tok_bucket =
  b_prompt :: int
  b_completion :: int
  b_total :: int
  b_cached :: int
  b_uncached :: int
  b_cost :: real
  b_calls :: int
  b_model :: "string option"

definition empty_bucket :: tok_bucket where
  "empty_bucket =
     \<lparr>b_prompt = 0, b_completion = 0, b_total = 0, b_cached = 0, b_uncached = 0, b_cost = 0,
      b_calls = 0, b_model = None\<rparr>"

record ledger_entry =
  e_prompt :: int
  e_completion :: int
  e_cached :: int
  e_uncached :: int
  e_total :: int
  e_calls :: int
  e_cost :: real
  by_purpose :: "(purpose \<times> tok_bucket) list"
  by_model :: "(string \<times> tok_bucket) list"

definition empty_entry :: ledger_entry where
  "empty_entry =
     \<lparr>e_prompt = 0, e_completion = 0, e_cached = 0, e_uncached = 0, e_total = 0, e_calls = 0,
      e_cost = 0, by_purpose = [], by_model = []\<rparr>"

text \<open>
  \<open>round(x, 8)\<close>: to the nearest multiple of \<open>10\<^sup>-\<^sup>8\<close>, ties to the even one.
\<close>

definition round8 :: "real \<Rightarrow> real" where
  "round8 x =
     (let y = x * 10 ^ 8; n = \<lfloor>y\<rfloor>; d = y - of_int n
      in of_int (if d < 1 / 2 then n else if 1 / 2 < d then n + 1 else if even n then n else n + 1)
         / 10 ^ 8)"

definition add_to_bucket :: "tok_bucket \<Rightarrow> token_usage \<Rightarrow> real \<Rightarrow> string \<Rightarrow> tok_bucket" where
  "add_to_bucket b u call_cost model =
     \<lparr>b_prompt = b_prompt b + prompt_tokens u,
      b_completion = b_completion b + completion_tokens u,
      b_total = b_total b + total_tokens u,
      b_cached = b_cached b + cached_prompt_tokens u,
      b_uncached = b_uncached b + uncached_prompt_tokens u,
      b_cost = round8 (b_cost b + call_cost),
      b_calls = b_calls b + 1,
      b_model = Some model\<rparr>"

text \<open>\<open>d[k]\<close> of a \<open>defaultdict(_bucket)\<close>, updated in place.\<close>

definition bump_bucket ::
    "'k \<Rightarrow> (tok_bucket \<Rightarrow> tok_bucket) \<Rightarrow> ('k \<times> tok_bucket) list \<Rightarrow> ('k \<times> tok_bucket) list" where
  "bump_bucket k f m =
     AList.update k (f (case map_of m k of Some b \<Rightarrow> b | None \<Rightarrow> empty_bucket)) m"

type_synonym ledger = "string \<rightharpoonup> ledger_entry"

definition open_entry :: "string \<Rightarrow> ledger \<Rightarrow> ledger" where
  "open_entry cid l = l(cid \<mapsto> empty_entry)"

text \<open>\<open>usage.model or settings.resolve_model(purpose)\<close>\<close>

definition call_model :: "llm_settings \<Rightarrow> purpose \<Rightarrow> token_usage \<Rightarrow> string" where
  "call_model st p u =
     (case usage_model u of
        Some m \<Rightarrow> if m = [] then resolve_model st p else m
      | None \<Rightarrow> resolve_model st p)"

definition call_cost :: "llm_settings \<Rightarrow> purpose \<Rightarrow> token_usage \<Rightarrow> real" where
  "call_cost st p u =
     cost_usd (prompt_tokens u) (completion_tokens u) (cached_prompt_tokens u)
       (Some (rates_for st (call_model st p u)))"

definition charge_entry ::
    "llm_settings \<Rightarrow> purpose \<Rightarrow> token_usage \<Rightarrow> ledger_entry \<Rightarrow> ledger_entry" where
  "charge_entry st p u e =
     (let model = call_model st p u; cost = call_cost st p u;
          bump = (\<lambda>b. add_to_bucket b u cost model)
      in \<lparr>e_prompt = e_prompt e + prompt_tokens u,
          e_completion = e_completion e + completion_tokens u,
          e_cached = e_cached e + cached_prompt_tokens u,
          e_uncached = e_uncached e + uncached_prompt_tokens u,
          e_total = e_total e + total_tokens u,
          e_calls = e_calls e + 1,
          e_cost = e_cost e + cost,
          by_purpose = bump_bucket p bump (by_purpose e),
          by_model = bump_bucket model bump (by_model e)\<rparr>)"

definition entry_of :: "ledger \<Rightarrow> string \<Rightarrow> ledger_entry" where
  "entry_of l cid = (case l cid of Some e \<Rightarrow> e | None \<Rightarrow> empty_entry)"

definition record_usage ::
    "llm_settings \<Rightarrow> string \<Rightarrow> purpose \<Rightarrow> token_usage \<Rightarrow> ledger \<Rightarrow> ledger" where
  "record_usage st cid p u l = l(cid \<mapsto> charge_entry st p u (entry_of l cid))"

text \<open>
  \<open>usage_from_payload\<close>, for a payload that is plain data (any other value has no attribute
  \<open>usage\<close>); \<open>validate\<close> is \<open>TokenUsage.model_validate\<close>, with \<open>None\<close> for its errors.
\<close>

definition usage_from_payload ::
    "(pyval \<Rightarrow> token_usage option) \<Rightarrow> pyval \<Rightarrow> token_usage option" where
  "usage_from_payload validate payload =
     (case payload of
        PyDict m \<Rightarrow>
          (let raw = dget m ''usage'' in
           if raw = PyNone then None
           else (case validate raw of
                   None \<Rightarrow> None
                 | Some u \<Rightarrow> if total_tokens u \<le> 0 \<and> prompt_tokens u \<le> 0 then None else Some u))
      | _ \<Rightarrow> None)"

definition record_payload ::
    "(pyval \<Rightarrow> token_usage option) \<Rightarrow> llm_settings \<Rightarrow> string \<Rightarrow> pyval \<Rightarrow> purpose \<Rightarrow> ledger
      \<Rightarrow> ledger \<times> bool" where
  "record_payload validate st cid payload p l =
     (case usage_from_payload validate payload of
        None \<Rightarrow> (l, False)
      | Some u \<Rightarrow> (record_usage st cid p u l, True))"

definition record_payload_usage ::
    "(pyval \<Rightarrow> token_usage option) \<Rightarrow> llm_settings \<Rightarrow> ledger option \<Rightarrow> string \<Rightarrow> pyval \<Rightarrow> purpose
      \<Rightarrow> ledger option \<times> bool" where
  "record_payload_usage validate st ledger cid payload p =
     (case ledger of
        None \<Rightarrow> (None, False)
      | Some l \<Rightarrow>
          (case record_payload validate st cid payload p l of (l', b) \<Rightarrow> (Some l', b)))"

text \<open>\<open>_entry_totals\<close>: the entry, with its cost rounded.\<close>

definition entry_totals :: "ledger_entry \<Rightarrow> ledger_entry" where
  "entry_totals e = e\<lparr>e_cost := round8 (e_cost e)\<rparr>"

definition empty_token_totals :: ledger_entry where
  "empty_token_totals = empty_entry"

definition ledger_snapshot :: "ledger \<Rightarrow> string \<Rightarrow> ledger_entry" where
  "ledger_snapshot l cid =
     (case l cid of None \<Rightarrow> empty_token_totals | Some e \<Rightarrow> entry_totals e)"

definition close_entry :: "string \<Rightarrow> ledger \<Rightarrow> ledger \<times> ledger_entry" where
  "close_entry cid l = (l(cid := None), entry_totals (entry_of l cid))"

section \<open>Facts about rounding and cost\<close>

lemma round8_mono: "x \<le> y \<Longrightarrow> round8 x \<le> round8 y"
proof -
  assume "x \<le> y"
  define r :: "real \<Rightarrow> int" where "r z = (let n = \<lfloor>z\<rfloor>; d = z - of_int n in
      if d < 1 / 2 then n else if 1 / 2 < d then n + 1 else if even n then n else n + 1)" for z
  have r: "round8 z = of_int (r (z * 10 ^ 8)) / 10 ^ 8" for z
    by (simp add: round8_def r_def Let_def)
  let ?u = "x * 10 ^ 8" and ?v = "y * 10 ^ 8"
  from \<open>x \<le> y\<close> have uv: "?u \<le> ?v" by simp
  then have fl: "\<lfloor>?u\<rfloor> \<le> \<lfloor>?v\<rfloor>" by (rule floor_mono)
  have "r ?u \<le> r ?v"
  proof (cases "\<lfloor>?u\<rfloor> = \<lfloor>?v\<rfloor>")
    case True
    with uv show ?thesis by (auto simp: r_def Let_def)
  next
    case False
    with fl have "\<lfloor>?u\<rfloor> + 1 \<le> \<lfloor>?v\<rfloor>" by linarith
    moreover have "r ?u \<le> \<lfloor>?u\<rfloor> + 1" "\<lfloor>?v\<rfloor> \<le> r ?v" by (simp_all add: r_def Let_def)
    ultimately show ?thesis by linarith
  qed
  then show ?thesis by (simp add: r divide_right_mono)
qed

lemma round8_0 [simp]: "round8 0 = 0"
  by (simp add: round8_def)

lemma cost_usd_nonneg:
  "rates_nonneg r \<Longrightarrow> 0 \<le> c \<Longrightarrow> 0 \<le> cost_usd p c k (Some r)"
  by (simp add: cost_usd_def rates_nonneg_def Let_def)

lemma catalog_nonneg: "map_of catalog m = Some r \<Longrightarrow> rates_nonneg r"
  by (auto simp: catalog_def rates_nonneg_def rates_def split: if_splits)

definition settings_nonneg :: "llm_settings \<Rightarrow> bool" where
  "settings_nonneg st \<longleftrightarrow>
     rates_nonneg (fallback_rates st) \<and> list_all (\<lambda>(m, r). rates_nonneg r) (price_overlay st)"

lemma rates_for_nonneg: "settings_nonneg st \<Longrightarrow> rates_nonneg (rates_for st m)"
  by (auto simp: rates_for_def resolve_rates_def settings_nonneg_def list_all_iff
      dest: map_of_SomeD catalog_nonneg split: option.split)

definition usage_nonneg :: "token_usage \<Rightarrow> bool" where
  "usage_nonneg u \<longleftrightarrow> 0 \<le> total_tokens u \<and> 0 \<le> completion_tokens u"

lemma call_cost_nonneg: "settings_nonneg st \<Longrightarrow> usage_nonneg u \<Longrightarrow> 0 \<le> call_cost st p u"
  by (simp add: call_cost_def usage_nonneg_def cost_usd_nonneg rates_for_nonneg)

section \<open>The books balance\<close>

lemma round8_error: "\<bar>round8 x - x\<bar> \<le> 1 / 2 / 10 ^ 8"
proof -
  let ?y = "x * 10 ^ 8"
  have "\<bar>round8 x * 10 ^ 8 - ?y\<bar> \<le> 1 / 2"
    unfolding round8_def Let_def using of_int_floor_le [of ?y] floor_correct [of ?y]
    by (auto simp: abs_le_iff; linarith)
  then show ?thesis by (simp add: abs_if split: if_splits)
qed

definition bucket_sum :: "(tok_bucket \<Rightarrow> 'n::comm_monoid_add) \<Rightarrow> ('k \<times> tok_bucket) list \<Rightarrow> 'n" where
  "bucket_sum f m = sum_list (map (\<lambda>(k, b). f b) m)"

lemma bucket_sum_simps [simp]:
  "bucket_sum f [] = 0" "bucket_sum f ((k, b) # m) = f b + bucket_sum f m"
  by (simp_all add: bucket_sum_def)

text \<open>Bumping a bucket by \<open>g\<close> moves the sum by what \<open>g\<close> adds to any one bucket.\<close>

lemma bucket_sum_bump:
  fixes f :: "tok_bucket \<Rightarrow> 'n::ab_group_add"
  assumes "f empty_bucket = 0" and "\<And>b. f (g b) = f b + d"
  shows "bucket_sum f (bump_bucket k g m) = bucket_sum f m + d"
  unfolding bump_bucket_def
  by (induction m) (auto simp: assms algebra_simps split: prod.splits)

lemma bucket_cost_bump:
  assumes "\<And>b. b_cost (g b) = round8 (b_cost b + c)"
  shows "\<bar>bucket_sum b_cost (bump_bucket k g m) - (bucket_sum b_cost m + c)\<bar> \<le> 1 / 2 / 10 ^ 8"
proof -
  have "bucket_sum b_cost (bump_bucket k g m) - (bucket_sum b_cost m + c)
      = (let b = (case map_of m k of Some b \<Rightarrow> b | None \<Rightarrow> empty_bucket)
         in round8 (b_cost b + c) - (b_cost b + c))"
    unfolding bump_bucket_def
    by (induction m) (auto simp: assms empty_bucket_def Let_def split: prod.splits)
  then show ?thesis by (simp only: Let_def round8_error)
qed

lemma distinct_bump: "distinct (map fst m) \<Longrightarrow> distinct (map fst (bump_bucket k g m))"
  by (simp add: bump_bucket_def distinct_update)

type_synonym recorded = "string \<times> purpose \<times> token_usage"

definition record_all :: "llm_settings \<Rightarrow> recorded list \<Rightarrow> ledger \<Rightarrow> ledger" where
  "record_all st rs l = fold (\<lambda>(cid, p, u). record_usage st cid p u) rs l"

definition of_cid :: "string \<Rightarrow> recorded list \<Rightarrow> (purpose \<times> token_usage) list" where
  "of_cid cid rs = map snd (filter (\<lambda>r. fst r = cid) rs)"

definition charge_calls ::
    "llm_settings \<Rightarrow> (purpose \<times> token_usage) list \<Rightarrow> ledger_entry \<Rightarrow> ledger_entry" where
  "charge_calls st cs e = fold (\<lambda>(p, u). charge_entry st p u) cs e"

text \<open>The entry of a request depends only on what was recorded for it.\<close>

lemma entry_of_record_all:
  "entry_of (record_all st rs l) cid = charge_calls st (of_cid cid rs) (entry_of l cid)"
  by (induction rs arbitrary: l)
    (auto simp: record_all_def of_cid_def charge_calls_def record_usage_def entry_of_def)

definition books_balance :: "('k \<times> tok_bucket) list \<Rightarrow> ledger_entry \<Rightarrow> bool" where
  "books_balance m e \<longleftrightarrow>
     distinct (map fst m) \<and>
     bucket_sum b_prompt m = e_prompt e \<and> bucket_sum b_completion m = e_completion e \<and>
     bucket_sum b_total m = e_total e \<and> bucket_sum b_cached m = e_cached e \<and>
     bucket_sum b_uncached m = e_uncached e \<and> bucket_sum b_calls m = e_calls e \<and>
     \<bar>bucket_sum b_cost m - e_cost e\<bar> \<le> of_int (e_calls e) / 2 / 10 ^ 8"

definition entry_balanced :: "ledger_entry \<Rightarrow> bool" where
  "entry_balanced e \<longleftrightarrow> books_balance (by_purpose e) e \<and> books_balance (by_model e) e"

lemma books_balance_bump:
  assumes "books_balance m e"
    and "\<And>b. g b = add_to_bucket b u (call_cost st p u) model"
  shows "books_balance (bump_bucket k g m) (charge_entry st p u e)"
proof -
  have "\<bar>bucket_sum b_cost (bump_bucket k g m) - (bucket_sum b_cost m + call_cost st p u)\<bar>
      \<le> 1 / 2 / 10 ^ 8"
    by (rule bucket_cost_bump) (simp add: assms(2) add_to_bucket_def)
  moreover have "\<bar>bucket_sum b_cost m - e_cost e\<bar> \<le> of_int (e_calls e) / 2 / 10 ^ 8"
    using assms(1) by (simp add: books_balance_def)
  ultimately have "\<bar>bucket_sum b_cost (bump_bucket k g m) - (e_cost e + call_cost st p u)\<bar>
      \<le> (of_int (e_calls e) + 1) / 2 / 10 ^ 8"
    unfolding add_divide_distrib by linarith
  moreover have "bucket_sum b_prompt (bump_bucket k g m) = bucket_sum b_prompt m + prompt_tokens u"
    "bucket_sum b_completion (bump_bucket k g m) = bucket_sum b_completion m + completion_tokens u"
    "bucket_sum b_total (bump_bucket k g m) = bucket_sum b_total m + total_tokens u"
    "bucket_sum b_cached (bump_bucket k g m) = bucket_sum b_cached m + cached_prompt_tokens u"
    "bucket_sum b_uncached (bump_bucket k g m) = bucket_sum b_uncached m + uncached_prompt_tokens u"
    "bucket_sum b_calls (bump_bucket k g m) = bucket_sum b_calls m + 1"
    by (rule bucket_sum_bump; simp add: assms(2) add_to_bucket_def empty_bucket_def)+
  ultimately show ?thesis
    using assms(1) by (simp add: books_balance_def charge_entry_def Let_def distinct_bump)
qed

lemma charge_balanced: "entry_balanced e \<Longrightarrow> entry_balanced (charge_entry st p u e)"
proof -
  assume "entry_balanced e"
  then have "books_balance (by_purpose e) e" "books_balance (by_model e) e"
    by (simp_all add: entry_balanced_def)
  then have "books_balance (by_purpose (charge_entry st p u e)) (charge_entry st p u e)"
    "books_balance (by_model (charge_entry st p u e)) (charge_entry st p u e)"
    by (simp_all add: charge_entry_def Let_def,
        simp_all flip: charge_entry_def [unfolded Let_def] add: books_balance_bump)
  then show ?thesis by (simp add: entry_balanced_def)
qed

lemma charge_calls_balanced: "entry_balanced e \<Longrightarrow> entry_balanced (charge_calls st cs e)"
  by (induction cs arbitrary: e) (auto simp: charge_calls_def charge_balanced)

lemma empty_balanced: "entry_balanced empty_entry"
  by (simp add: entry_balanced_def books_balance_def empty_entry_def)

lemma charge_calls_totals:
  "e_calls (charge_calls st cs e) = e_calls e + int (length cs) \<and>
   e_total (charge_calls st cs e) = e_total e + sum_list (map (\<lambda>(p, u). total_tokens u) cs) \<and>
   e_cost (charge_calls st cs e) = e_cost e + sum_list (map (\<lambda>(p, u). call_cost st p u) cs)"
  by (induction cs arbitrary: e) (auto simp: charge_calls_def charge_entry_def Let_def)

section \<open>The ledger as the budget's meter\<close>

definition ledger_spent :: "ledger \<Rightarrow> string \<Rightarrow> int \<times> real" where
  "ledger_spent l cid = (let t = ledger_snapshot l cid in (e_total t, e_cost t))"

lemma ledger_spent_eq:
  "ledger_spent l cid = (e_total (entry_of l cid), round8 (e_cost (entry_of l cid)))"
  by (simp add: ledger_spent_def ledger_snapshot_def entry_totals_def entry_of_def Let_def
      empty_token_totals_def empty_entry_def split: option.split)

lemma entry_of_record_usage:
  "entry_of (record_usage st cid' p u l) cid =
     (if cid' = cid then charge_entry st p u (entry_of l cid) else entry_of l cid)"
  by (simp add: record_usage_def entry_of_def)

interpretation ledger_meter:
  spend_meter ledger_spent "\<lambda>cid (st, p, u). record_usage st cid p u"
    "\<lambda>(st, p, u). settings_nonneg st \<and> usage_nonneg u"
proof
  fix c :: "llm_settings \<times> purpose \<times> token_usage" and cid cid' :: string and l :: ledger
  obtain st p u where c: "c = (st, p, u)" by (cases c)
  show "fst (ledger_spent l cid) \<le> fst (ledger_spent ((case c of (st, p, u) \<Rightarrow> record_usage st cid' p u) l) cid)"
    if "case c of (st, p, u) \<Rightarrow> settings_nonneg st \<and> usage_nonneg u"
    using that
    by (simp add: c ledger_spent_eq entry_of_record_usage charge_entry_def Let_def usage_nonneg_def)
  show "snd (ledger_spent l cid) \<le> snd (ledger_spent ((case c of (st, p, u) \<Rightarrow> record_usage st cid' p u) l) cid)"
    if "case c of (st, p, u) \<Rightarrow> settings_nonneg st \<and> usage_nonneg u"
    using that
    by (simp add: c ledger_spent_eq entry_of_record_usage charge_entry_def Let_def round8_mono
        call_cost_nonneg)
  show "ledger_spent ((case c of (st, p, u) \<Rightarrow> record_usage st cid' p u) l) cid = ledger_spent l cid"
    if "cid' \<noteq> cid"
    using that by (simp add: c ledger_spent_eq entry_of_record_usage)
qed

section \<open>Properties\<close>

text \<open>
  C31: After any sequence of recorded LLM calls on a freshly opened request, the totals are the
  sums over the calls that carried this request's id, and the per-purpose and per-model tables
  balance with them: each key once, equal sums of prompt, completion, total, cached and uncached
  tokens and of calls, and a cost that differs from the total by at most half a unit of the
  eighth decimal per call (each bucket is rounded at every call, the total only when read).
\<close>

theorem ledger_books_balance:
  "let e = entry_of (record_all st rs (open_entry cid l)) cid;
       calls = of_cid cid rs
   in entry_balanced e
      \<and> e_calls e = int (length calls)
      \<and> e_total e = sum_list (map (\<lambda>(p, u). total_tokens u) calls)
      \<and> e_cost e = sum_list (map (\<lambda>(p, u). call_cost st p u) calls)"
proof -
  have "entry_of (open_entry cid l) cid = empty_entry" by (simp add: entry_of_def open_entry_def)
  then show ?thesis
    using charge_calls_balanced [OF empty_balanced]
      charge_calls_totals [of st "of_cid cid rs" empty_entry]
    by (simp add: entry_of_record_all Let_def) (simp add: empty_entry_def)
qed

text \<open>
  Closing a request returns exactly what a snapshot of it shows, forgets the request and
  leaves every other one as it is; and recording for one request never shows in another's
  snapshot.
\<close>

theorem ledger_close_and_isolation:
  "snd (close_entry cid l) = ledger_snapshot l cid
   \<and> ledger_snapshot (fst (close_entry cid l)) cid = empty_token_totals
   \<and> (\<forall>other. other \<noteq> cid \<longrightarrow>
        ledger_snapshot (fst (close_entry cid l)) other = ledger_snapshot l other
        \<and> ledger_snapshot (record_usage st cid p u l) other = ledger_snapshot l other)"
  by (auto simp: close_entry_def ledger_snapshot_def entry_of_def record_usage_def entry_totals_def
      empty_token_totals_def empty_entry_def split: option.split)

definition sample_settings :: llm_settings where
  "sample_settings =
     \<lparr>base_model = ''openai/gpt-4.1-mini'', routing_model = None,
      synthesis_model = Some ''anthropic/claude-sonnet-4.5'', analysis_model = None,
      fallback_rates = default_rates, price_overlay = []\<rparr>"

definition sample_usage :: token_usage where
  "sample_usage =
     \<lparr>prompt_tokens = 900, completion_tokens = 100, total_tokens = 1000, usage_model = None,
      cached_prompt_tokens = 200\<rparr>"

theorem ledger_close_and_isolation_witness:
  "ledger_snapshot (record_usage sample_settings ''r1'' Synthesis sample_usage Map.empty) ''r2''
     = empty_token_totals
   \<and> e_total (snd (close_entry ''r1''
       (record_usage sample_settings ''r1'' Synthesis sample_usage Map.empty))) = 1000"
  using ledger_close_and_isolation [of "''r1''" Map.empty sample_settings Synthesis sample_usage]
    ledger_close_and_isolation [of "''r1''"
      "record_usage sample_settings ''r1'' Synthesis sample_usage Map.empty"]
  by (simp add: ledger_snapshot_def record_usage_def entry_totals_def entry_of_def empty_entry_def
      charge_entry_def Let_def sample_usage_def)

end
