(* ===== verification/Budget.thy ===== *)
theory Budget
  imports Ledger
begin

text \<open>
  The request budget (\<open>core/orchestration/budget.py\<close>): one wall-clock deadline plus a token and a
  cost ceiling per request, the share of the time that is kept for the answer, and the settings
  validators that make this share large enough (\<open>OrchestratorSettings\<close> in \<open>core/settings.py\<close>).
  Seconds and dollars are reals. A method that is given no \<open>now\<close> reads the clock; its model takes
  the reading as an argument, one per reading.
\<close>

section \<open>Settings\<close>

record budget_settings =
  plan_deadline_s :: real
  request_deadline_s :: real
  request_token_budget :: int
  request_cost_usd_max :: real
  request_budgets_enabled :: bool
  synthesis_timeout_max_s :: real
  synthesis_safety_margin_s :: real
  synthesis_min_timeout_s :: real
  synthesis_reserve_setting_s :: real

definition default_budget_settings :: budget_settings where
  "default_budget_settings =
     \<lparr>plan_deadline_s = 35, request_deadline_s = 55, request_token_budget = 50000,
      request_cost_usd_max = 15 / 100, request_budgets_enabled = True,
      synthesis_timeout_max_s = 20, synthesis_safety_margin_s = 2, synthesis_min_timeout_s = 0,
      synthesis_reserve_setting_s = 20\<rparr>"

datatype settings_error = PlanStarvesSynthesis | ReserveBelowP95

definition reserve_covers_p95 :: "budget_settings \<Rightarrow> llm_settings \<Rightarrow> bool" where
  "reserve_covers_p95 s llm =
     (if \<not> request_budgets_enabled s \<or> synthesis_reserve_setting_s s \<le> 0 then True
      else
        (case measured_synthesis_p95_s (resolve_model llm Synthesis) of
           None \<Rightarrow> True
         | Some p95 \<Rightarrow> \<not> synthesis_reserve_setting_s s - synthesis_safety_margin_s s < p95))"

definition validate_settings ::
    "budget_settings \<Rightarrow> llm_settings \<Rightarrow> settings_error + budget_settings" where
  "validate_settings s llm =
     (if request_deadline_s s < plan_deadline_s s + synthesis_reserve_setting_s s
      then Inl PlanStarvesSynthesis
      else if \<not> reserve_covers_p95 s llm then Inl ReserveBelowP95
      else Inr s)"

section \<open>The budget\<close>

definition unlimited_deadline_s :: real where
  "unlimited_deadline_s = 86400"

definition reference_synthesis_prompt_tokens :: int where
  "reference_synthesis_prompt_tokens = 4000"

definition synthesis_extra_seconds_per_token :: real where
  "synthesis_extra_seconds_per_token = 2 / 1000"

definition scaled_synthesis_reserve_s :: "int \<Rightarrow> real \<Rightarrow> real" where
  "scaled_synthesis_reserve_s prompt_toks base_reserve_s =
     max 0 base_reserve_s
     + of_int (max 0 (prompt_toks - reference_synthesis_prompt_tokens))
       * synthesis_extra_seconds_per_token"

datatype budget_ceiling = Deadline | Tokens | Cost

record request_budget =
  deadline_monotonic :: real
  token_ceiling :: "int option"
  cost_usd_max :: "real option"
  safety_margin_s :: real
  min_synthesis_timeout_s :: real
  max_synthesis_timeout_s :: real
  synthesis_reserve_s :: real
  exhausted :: "budget_ceiling option"
  started_monotonic :: real
  plan_duration_s :: real
  base_synthesis_reserve_s :: real

definition post_init :: "request_budget \<Rightarrow> request_budget" where
  "post_init b =
     (if base_synthesis_reserve_s b \<le> 0 \<and> 0 < synthesis_reserve_s b
      then b\<lparr>base_synthesis_reserve_s := synthesis_reserve_s b\<rparr> else b)"

definition from_settings :: "budget_settings \<Rightarrow> real \<Rightarrow> request_budget" where
  "from_settings s started =
     (let enabled = request_budgets_enabled s;
          deadline_s = (if enabled then request_deadline_s s else unlimited_deadline_s);
          reserve = max 0 (synthesis_reserve_setting_s s)
      in post_init
           \<lparr>deadline_monotonic = started + max 0 deadline_s,
            token_ceiling =
              (if enabled \<and> 0 < request_token_budget s then Some (request_token_budget s) else None),
            cost_usd_max =
              (if enabled \<and> 0 < request_cost_usd_max s then Some (request_cost_usd_max s) else None),
            safety_margin_s = max 0 (synthesis_safety_margin_s s),
            min_synthesis_timeout_s = max 0 (synthesis_min_timeout_s s),
            max_synthesis_timeout_s = max 0 (synthesis_timeout_max_s s),
            synthesis_reserve_s = reserve,
            exhausted = None,
            started_monotonic = started,
            plan_duration_s = 0,
            base_synthesis_reserve_s = reserve\<rparr>)"

definition remaining_s :: "request_budget \<Rightarrow> real \<Rightarrow> real" where
  "remaining_s b now = max 0 (deadline_monotonic b - now)"

definition elapsed_s :: "request_budget \<Rightarrow> real \<Rightarrow> real" where
  "elapsed_s b now =
     (if started_monotonic b \<le> 0 then 0 else max 0 (now - started_monotonic b))"

definition specialist_remaining_s :: "request_budget \<Rightarrow> real \<Rightarrow> real" where
  "specialist_remaining_s b now = max 0 (remaining_s b now - synthesis_reserve_s b)"

definition apply_prompt_reserve :: "int \<Rightarrow> request_budget \<Rightarrow> request_budget \<times> real" where
  "apply_prompt_reserve prompt_toks b =
     (if base_synthesis_reserve_s b \<le> 0 then (b, synthesis_reserve_s b)
      else
        (let scaled = scaled_synthesis_reserve_s prompt_toks (base_synthesis_reserve_s b);
             reserve = max (base_synthesis_reserve_s b) scaled
         in (b\<lparr>synthesis_reserve_s := reserve\<rparr>, reserve)))"

definition synthesis_timeout_s :: "request_budget \<Rightarrow> real \<Rightarrow> int option \<Rightarrow> real" where
  "synthesis_timeout_s b now prompt_toks =
     (let usable = remaining_s b now - safety_margin_s b in
      if usable \<le> 0 then 0
      else
        (let cap = max_synthesis_timeout_s b;
             cap = (case prompt_toks of
                      Some n \<Rightarrow> max cap (scaled_synthesis_reserve_s n (max_synthesis_timeout_s b))
                    | None \<Rightarrow>
                        if base_synthesis_reserve_s b < synthesis_reserve_s b
                        then max cap (synthesis_reserve_s b) else cap)
         in min cap usable))"

definition check_budget ::
    "ledger option \<Rightarrow> string \<Rightarrow> real \<Rightarrow> request_budget \<Rightarrow> request_budget \<times> budget_ceiling option" where
  "check_budget ledger cid now b =
     (case exhausted b of
        Some e \<Rightarrow> (b, Some e)
      | None \<Rightarrow>
          if remaining_s b now \<le> 0 then (b\<lparr>exhausted := Some Deadline\<rparr>, Some Deadline)
          else
            (case ledger of
               None \<Rightarrow> (b, None)
             | Some l \<Rightarrow>
                 if over_tokens (token_ceiling b) (ledger_spent l cid)
                 then (b\<lparr>exhausted := Some Tokens\<rparr>, Some Tokens)
                 else if over_cost (cost_usd_max b) (ledger_spent l cid)
                 then (b\<lparr>exhausted := Some Cost\<rparr>, Some Cost)
                 else (b, None)))"

text \<open>\<open>allow_new_call\<close>: the clock is read by the check and again for the specialists' share.\<close>

definition allow_new_call ::
    "ledger option \<Rightarrow> string \<Rightarrow> real \<Rightarrow> real \<Rightarrow> request_budget \<Rightarrow> request_budget \<times> bool" where
  "allow_new_call ledger cid now now' b =
     (case check_budget ledger cid now b of
        (b', Some e) \<Rightarrow> (b', False)
      | (b', None) \<Rightarrow> (b', 0 < specialist_remaining_s b' now'))"

section \<open>Lemmas\<close>

text \<open>What construction, the prompt reserve and the checks keep.\<close>

definition budget_wf :: "request_budget \<Rightarrow> bool" where
  "budget_wf b \<longleftrightarrow>
     0 \<le> base_synthesis_reserve_s b \<and> base_synthesis_reserve_s b \<le> synthesis_reserve_s b \<and>
     0 \<le> safety_margin_s b \<and> 0 \<le> max_synthesis_timeout_s b \<and> 0 \<le> min_synthesis_timeout_s b"

lemma scaled_reserve_floor: "max 0 base \<le> scaled_synthesis_reserve_s n base"
  by (simp add: scaled_synthesis_reserve_s_def synthesis_extra_seconds_per_token_def)

lemma scaled_reserve_mono:
  "m \<le> n \<Longrightarrow> scaled_synthesis_reserve_s m base \<le> scaled_synthesis_reserve_s n base"
  by (simp add: scaled_synthesis_reserve_s_def synthesis_extra_seconds_per_token_def max.coboundedI2)

lemma from_settings_wf: "budget_wf (from_settings s t)"
  by (simp add: from_settings_def post_init_def budget_wf_def Let_def)

lemma apply_prompt_reserve_wf: "budget_wf b \<Longrightarrow> budget_wf (fst (apply_prompt_reserve n b))"
  by (auto simp: apply_prompt_reserve_def budget_wf_def Let_def)

lemma check_budget_keeps:
  "\<exists>e. fst (check_budget lg cid now b) = b\<lparr>exhausted := e\<rparr>"
proof -
  have "\<exists>e. b = b\<lparr>exhausted := e\<rparr>" by (rule exI [of _ "exhausted b"]) simp
  then show ?thesis by (auto simp: check_budget_def split: option.split)
qed

lemma check_budget_wf: "budget_wf b \<Longrightarrow> budget_wf (fst (check_budget lg cid now b))"
  using check_budget_keeps [of lg cid now b] by (auto simp: budget_wf_def)

text \<open>The ceiling reported is the one the budget remembers.\<close>

lemma check_budget_remembers:
  "exhausted (fst (check_budget lg cid now b)) = snd (check_budget lg cid now b)"
  by (auto simp: check_budget_def split: option.split)

lemma check_budget_sticky: "exhausted b = Some e \<Longrightarrow> check_budget lg cid now b = (b, Some e)"
  by (simp add: check_budget_def)

lemma allow_new_call_exhausted:
  "exhausted b = Some e \<Longrightarrow> allow_new_call lg cid now now' b = (b, False)"
  by (simp add: allow_new_call_def check_budget_sticky)

text \<open>A reading of the ledger at or over a ceiling denies the call, at any time.\<close>

lemma allow_new_call_over:
  assumes "over_tokens (token_ceiling b) (ledger_spent l cid) \<or>
           over_cost (cost_usd_max b) (ledger_spent l cid)"
  shows "\<not> snd (allow_new_call (Some l) cid now now' b)"
  using assms by (auto simp: allow_new_call_def check_budget_def split: option.splits if_splits)

lemma synthesis_timeout_le:
  "budget_wf b \<Longrightarrow>
     0 \<le> synthesis_timeout_s b now n \<and>
     synthesis_timeout_s b now n \<le> max 0 (remaining_s b now - safety_margin_s b)"
  by (auto simp: synthesis_timeout_s_def budget_wf_def Let_def le_max_iff_disj split: option.split)

lemma synthesis_timeout_ge:
  assumes "0 < p" and "p \<le> remaining_s b now - safety_margin_s b"
  shows "min (max_synthesis_timeout_s b) p \<le> synthesis_timeout_s b now n"
  using assms
  by (auto simp: synthesis_timeout_s_def Let_def min_le_iff_disj le_max_iff_disj split: option.split)

lemma p95_pos: "measured_synthesis_p95_s m = Some p \<Longrightarrow> 0 < p"
  by (auto simp: measured_synthesis_p95_s_def synthesis_p95_ms_def split: if_splits option.splits)

lemma validated_reserve:
  assumes "validate_settings s llm = Inr s'" and "request_budgets_enabled s"
    and "0 < synthesis_reserve_setting_s s"
    and "measured_synthesis_p95_s (resolve_model llm Synthesis) = Some p"
  shows "p \<le> synthesis_reserve_setting_s s - synthesis_safety_margin_s s"
  using assms by (auto simp: validate_settings_def reserve_covers_p95_def split: if_splits)

lemma allowed_call_reserve:
  assumes "snd (allow_new_call lg cid now now' b)"
  shows "now' + synthesis_reserve_s b < deadline_monotonic b
     \<or> deadline_monotonic b \<le> now' \<and> synthesis_reserve_s b < 0"
    and "exhausted b = None"
proof -
  obtain e where "fst (check_budget lg cid now b) = b\<lparr>exhausted := e\<rparr>"
    using check_budget_keeps by blast
  with assms show "now' + synthesis_reserve_s b < deadline_monotonic b
     \<or> deadline_monotonic b \<le> now' \<and> synthesis_reserve_s b < 0"
    by (auto simp: allow_new_call_def specialist_remaining_s_def remaining_s_def max_def
        split: prod.splits option.splits if_splits)
  show "exhausted b = None"
    using assms by (cases "exhausted b") (simp_all add: allow_new_call_exhausted)
qed

section \<open>Properties\<close>



text \<open>
  C15: Once the recorded spend of a request has reached its token or cost ceiling, no further
  call of this request is allowed: not after any number of further recorded calls, of this and
  of other requests, at any time, and whatever the budget remembered before.
\<close>

theorem spent_budget_allows_no_call:
  assumes "over_tokens (token_ceiling b) (ledger_spent l cid) \<or>
           over_cost (cost_usd_max b) (ledger_spent l cid)"
    and "settings_nonneg st" and "list_all (\<lambda>(c, p, u). usage_nonneg u) rs"
  shows "\<not> snd (allow_new_call (Some (record_all st rs l)) cid now now' b)"
proof (rule allow_new_call_over)
  have "record_all st rs l
      = ledger_meter.charge_all (map (\<lambda>(c, p, u). (c, st, p, u)) rs) l"
    by (induction rs arbitrary: l) (auto simp: record_all_def)
  moreover have "case c of (st, p, u) \<Rightarrow> settings_nonneg st \<and> usage_nonneg u"
    if "(cid', c) \<in> set (map (\<lambda>(c, p, u). (c, st, p, u)) rs)" for cid' c
    using that assms(2,3) by (auto simp: list_all_iff)
  ultimately show "over_tokens (token_ceiling b) (ledger_spent (record_all st rs l) cid) \<or>
      over_cost (cost_usd_max b) (ledger_spent (record_all st rs l) cid)"
    using assms(1) ledger_meter.over_stays by metis
qed

theorem spent_budget_allows_no_call_witness:
  "\<not> snd (allow_new_call
       (Some (record_all sample_settings [(''r2'', Routing, sample_usage), (''r1'', Routing, sample_usage)]
          (record_usage sample_settings ''r1'' Synthesis sample_usage Map.empty)))
       ''r1'' 10 10 ((from_settings default_budget_settings 0)\<lparr>token_ceiling := Some 1000\<rparr>))"
proof (rule spent_budget_allows_no_call)
  show "over_tokens (token_ceiling ((from_settings default_budget_settings 0)\<lparr>token_ceiling := Some 1000\<rparr>))
      (ledger_spent (record_usage sample_settings ''r1'' Synthesis sample_usage Map.empty) ''r1'') \<or>
    over_cost (cost_usd_max ((from_settings default_budget_settings 0)\<lparr>token_ceiling := Some 1000\<rparr>))
      (ledger_spent (record_usage sample_settings ''r1'' Synthesis sample_usage Map.empty) ''r1'')"
    by (simp add: over_tokens_def ledger_spent_eq record_usage_def charge_entry_def Let_def
        sample_usage_def entry_of_def empty_entry_def)
  show "settings_nonneg sample_settings"
    by (simp add: settings_nonneg_def sample_settings_def rates_nonneg_def default_rates_def rates_def)
  show "list_all (\<lambda>(c, p, u). usage_nonneg u)
      [(''r2'', Routing, sample_usage), (''r1'', Routing, sample_usage)]"
    by (simp add: usage_nonneg_def sample_usage_def)
qed

text \<open>
  A ceiling once reported is final: after a check has reported one, every later check, with
  any ledger and at any time, reports the same one without looking, and no call is allowed.
\<close>

theorem exhausted_budget_is_final:
  assumes "check_budget lg cid now b = (b', Some e)"
  shows "check_budget lg' cid' t b' = (b', Some e) \<and>
         allow_new_call lg' cid' t t' b' = (b', False)"
proof -
  have "exhausted b' = Some e"
    using check_budget_remembers [of lg cid now b] assms by simp
  then show ?thesis by (simp add: check_budget_sticky allow_new_call_exhausted)
qed

theorem exhausted_budget_is_final_witness:
  "allow_new_call None ''r'' 0 0
     ((from_settings default_budget_settings 0)\<lparr>exhausted := Some Deadline\<rparr>)
   = ((from_settings default_budget_settings 0)\<lparr>exhausted := Some Deadline\<rparr>, False)"
proof -
  have "check_budget None ''r'' 55 (from_settings default_budget_settings 0)
      = ((from_settings default_budget_settings 0)\<lparr>exhausted := Some Deadline\<rparr>, Some Deadline)"
    by (simp add: check_budget_def from_settings_def post_init_def Let_def remaining_s_def
        default_budget_settings_def)
  from exhausted_budget_is_final [OF this, where lg' = None and cid' = "''r''" and t = 0 and t' = 0]
  show ?thesis by simp
qed

text \<open>
  The synthesis timeout is never negative and never reaches into the safety margin before
  the deadline, so a synthesis call that is given time at all returns or times out before the
  deadline; without a larger prompt it never exceeds the configured cap; and a larger prompt
  never shortens it.
\<close>

theorem synthesis_timeout_bounds:
  assumes "budget_wf b"
  shows "0 \<le> synthesis_timeout_s b now n
    \<and> (0 < synthesis_timeout_s b now n \<longrightarrow>
         now + synthesis_timeout_s b now n + safety_margin_s b \<le> deadline_monotonic b)
    \<and> (synthesis_reserve_s b = base_synthesis_reserve_s b \<longrightarrow>
         synthesis_timeout_s b now None \<le> max_synthesis_timeout_s b)
    \<and> (k \<le> m \<longrightarrow> synthesis_timeout_s b now (Some k) \<le> synthesis_timeout_s b now (Some m))"
proof (intro conjI impI)
  show "0 \<le> synthesis_timeout_s b now n" using synthesis_timeout_le [OF assms] by blast
  show "now + synthesis_timeout_s b now n + safety_margin_s b \<le> deadline_monotonic b"
    if "0 < synthesis_timeout_s b now n"
    using that synthesis_timeout_le [OF assms, of now n] assms
    by (auto simp: remaining_s_def budget_wf_def max_def split: if_splits)
  show "synthesis_timeout_s b now None \<le> max_synthesis_timeout_s b"
    if "synthesis_reserve_s b = base_synthesis_reserve_s b"
    using that assms by (simp add: synthesis_timeout_s_def budget_wf_def Let_def)
  show "synthesis_timeout_s b now (Some k) \<le> synthesis_timeout_s b now (Some m)" if "k \<le> m"
    using scaled_reserve_mono [OF that, of "max_synthesis_timeout_s b"]
    by (auto simp: synthesis_timeout_s_def Let_def)
qed

theorem synthesis_timeout_bounds_witness:
  "synthesis_timeout_s (from_settings default_budget_settings 0) 40 (Some 4000)
     \<le> synthesis_timeout_s (from_settings default_budget_settings 0) 40 (Some 9000)"
  using synthesis_timeout_bounds [OF from_settings_wf, where k = 4000 and m = 9000 and now = 40]
  by simp

text \<open>
  The reserve kept for synthesis never falls below the configured floor: not at
  construction and not after any sequence of prompt estimates; it depends only on the last
  estimate, and a larger one never lowers it.
\<close>

theorem synthesis_reserve_floor:
  assumes "budget_wf b"
  shows "base_synthesis_reserve_s b \<le>
           synthesis_reserve_s (fold (\<lambda>n b. fst (apply_prompt_reserve n b)) ns b)
    \<and> fst (apply_prompt_reserve m (fold (\<lambda>n b. fst (apply_prompt_reserve n b)) ns b))
        = fst (apply_prompt_reserve m b)
    \<and> (k \<le> m \<longrightarrow> snd (apply_prompt_reserve k b) \<le> snd (apply_prompt_reserve m b))"
proof -
  have "budget_wf (fold (\<lambda>n b. fst (apply_prompt_reserve n b)) ns b) \<and>
      base_synthesis_reserve_s (fold (\<lambda>n b. fst (apply_prompt_reserve n b)) ns b)
        = base_synthesis_reserve_s b \<and>
      fst (apply_prompt_reserve m (fold (\<lambda>n b. fst (apply_prompt_reserve n b)) ns b))
        = fst (apply_prompt_reserve m b)"
    using assms
  proof (induction ns arbitrary: b)
    case Nil
    then show ?case by simp
  next
    case (Cons n ns)
    have "fst (apply_prompt_reserve m (fst (apply_prompt_reserve n b)))
        = fst (apply_prompt_reserve m b)"
      "base_synthesis_reserve_s (fst (apply_prompt_reserve n b)) = base_synthesis_reserve_s b"
      by (simp_all add: apply_prompt_reserve_def Let_def)
    with Cons.IH [OF apply_prompt_reserve_wf [OF Cons.prems, of n]] show ?case by simp
  qed
  moreover have "snd (apply_prompt_reserve k b) \<le> snd (apply_prompt_reserve m b)" if "k \<le> m"
    using scaled_reserve_mono [OF that, of "base_synthesis_reserve_s b"]
    by (auto simp: apply_prompt_reserve_def Let_def)
  ultimately show ?thesis by (auto simp: budget_wf_def)
qed

theorem synthesis_reserve_floor_witness:
  "20 \<le> synthesis_reserve_s (fold (\<lambda>n b. fst (apply_prompt_reserve n b)) [9000, 100]
           (from_settings default_budget_settings 0))"
  using synthesis_reserve_floor
    [OF from_settings_wf [of default_budget_settings 0], where ns = "[9000, 100]"]
  by (simp add: from_settings_def post_init_def Let_def default_budget_settings_def)

end
