(* ===== verification/Memory.thy ===== *)
theory Memory
  imports Prelude
begin

text \<open>
  The conversation memory (\<open>core/memory/service.py\<close>): turns and rolling summaries per session,
  and a response cache. A table is a list of its rows in key order or a map from its primary key;
  a time stamp is its number of microseconds (\<open>isoformat\<close> and \<open>fromisoformat\<close> are inverse).
  The language model is a parameter: the function from the prompt it is sent to its reply.
  The creation and migration of the SQLite schema is left out.
\<close>

section \<open>The store\<close>

record turn =
  turn_id :: int
  turn_session :: string
  turn_role :: string
  turn_content :: string
  turn_created :: int
  turn_tokens :: int
  folded_at :: "int option"

record session_row =
  session_created :: int
  session_summary :: string
  summary_token_count :: int

record cache_row =
  cached_json :: string
  cached_at :: int

record memory_db =
  sessions :: "string \<rightharpoonup> session_row"
  turns :: "turn list"
  next_turn_id :: int
  response_cache :: "string \<rightharpoonup> cache_row"

record memory_settings =
  cache_ttl_seconds :: int
  token_budget :: int
  recent_turns_to_keep :: int

definition empty_db :: memory_db where
  "empty_db = \<lparr>sessions = Map.empty, turns = [], next_turn_id = 1, response_cache = Map.empty\<rparr>"

text \<open>\<open>max(1, math.ceil(len(text) / 4))\<close>, and 0 for the empty text.\<close>

definition estimate_tokens :: "string \<Rightarrow> int" where
  "estimate_tokens s = (if s = [] then 0 else max 1 ((int (length s) + 3) div 4))"

definition ensure_session :: "string \<Rightarrow> int \<Rightarrow> memory_db \<Rightarrow> memory_db" where
  "ensure_session sid now db =
     (case sessions db sid of
        Some r \<Rightarrow> db
      | None \<Rightarrow> db\<lparr>sessions := (sessions db)(sid \<mapsto>
          \<lparr>session_created = now, session_summary = '''', summary_token_count = 0\<rparr>)\<rparr>)"

definition insert_turn :: "string \<Rightarrow> string \<Rightarrow> string \<Rightarrow> int \<Rightarrow> memory_db \<Rightarrow> memory_db" where
  "insert_turn sid role content now db =
     (let db = ensure_session sid now db
      in db\<lparr>turns := turns db @
              [\<lparr>turn_id = next_turn_id db, turn_session = sid, turn_role = role,
                turn_content = content, turn_created = now,
                turn_tokens = estimate_tokens content, folded_at = None\<rparr>],
            next_turn_id := next_turn_id db + 1\<rparr>)"

definition unfolded_turn_rows :: "string \<Rightarrow> memory_db \<Rightarrow> turn list" where
  "unfolded_turn_rows sid db =
     filter (\<lambda>t. turn_session t = sid \<and> folded_at t = None) (turns db)"

definition recent_unfolded_turn_rows :: "string \<Rightarrow> memory_db \<Rightarrow> turn list" where
  "recent_unfolded_turn_rows sid db = rev (unfolded_turn_rows sid db)"

section \<open>Reading the context\<close>

text \<open>The loop over the rows, newest first: it stops at the first turn that does not fit.\<close>

fun choose_turns :: "int \<Rightarrow> int \<Rightarrow> turn list \<Rightarrow> turn list" where
  "choose_turns remaining running [] = []"
| "choose_turns remaining running (t # ts) =
     (if remaining < running + turn_tokens t then []
      else t # choose_turns remaining (running + turn_tokens t) ts)"

definition get_context :: "string \<Rightarrow> int \<Rightarrow> memory_db \<Rightarrow> string \<times> turn list" where
  "get_context sid budget db =
     (case sessions db sid of
        None \<Rightarrow> ('''', [])
      | Some r \<Rightarrow>
          (let remaining = max (budget - summary_token_count r) 0;
               chosen = choose_turns remaining 0 (recent_unfolded_turn_rows sid db)
           in (session_summary r, rev chosen)))"

section \<open>Summarizing\<close>

text \<open>\<open>xs[:-k]\<close> and \<open>xs[-k:]\<close> for an \<open>int\<close> \<open>k\<close>: for \<open>k = 0\<close> they are \<open>xs[:0]\<close> and \<open>xs[0:]\<close>.\<close>

definition slice_index :: "int \<Rightarrow> 'a list \<Rightarrow> nat" where
  "slice_index k xs =
     (let i = - k in if i < 0 then nat (max 0 (int (length xs) + i)) else nat i)"

definition slice_upto_neg :: "int \<Rightarrow> 'a list \<Rightarrow> 'a list" where
  "slice_upto_neg k xs = take (slice_index k xs) xs"

definition slice_from_neg :: "int \<Rightarrow> 'a list \<Rightarrow> 'a list" where
  "slice_from_neg k xs = drop (slice_index k xs) xs"

definition build_summary_prompt :: "string \<Rightarrow> turn list \<Rightarrow> nat \<Rightarrow> string" where
  "build_summary_prompt existing folded retained_turn_count =
     (let listed = join newline (map (\<lambda>t. ''- ['' @ turn_role t @ ''] '' @ turn_content t) folded);
          folded_lines = (if listed = [] then ''- none'' else listed)
      in ''Update the rolling conversation summary using ONLY the folded turns below.'' @ newline
         @ ''Do not include or infer details from retained turns that are not shown here.''
         @ newline @ newline
         @ ''Existing summary:'' @ newline
         @ (if existing = [] then ''(empty)'' else existing) @ newline @ newline
         @ ''Folded turns to summarize:'' @ newline
         @ folded_lines @ newline @ newline
         @ ''Recent turns retained verbatim outside the summary: ''
         @ str_nat retained_turn_count)"

text \<open>
  \<open>summarize_session\<close> up to the call of the model: either it returns, or it asks the model with a
  prompt and holds the rows to fold.
\<close>

datatype summary_plan = Return string | AskModel string "turn list"

definition summarize_plan :: "memory_settings \<Rightarrow> string \<Rightarrow> memory_db \<Rightarrow> summary_plan" where
  "summarize_plan st sid db =
     (case sessions db sid of
        None \<Rightarrow> Return ''''
      | Some r \<Rightarrow>
          (let all_rows = unfolded_turn_rows sid db; keep = recent_turns_to_keep st in
           if int (length all_rows) \<le> keep then Return (session_summary r)
           else
             (let folded = slice_upto_neg keep all_rows; retained = slice_from_neg keep all_rows
              in AskModel (build_summary_prompt (session_summary r) folded (length retained)) folded)))"

text \<open>From the reply on: both updates, in one commit.\<close>

definition fold_turns :: "int \<Rightarrow> int list \<Rightarrow> turn list \<Rightarrow> turn list" where
  "fold_turns now ids ts =
     map (\<lambda>t. if turn_id t \<in> set ids then t\<lparr>folded_at := Some now\<rparr> else t) ts"

definition summarize_commit ::
    "string \<Rightarrow> string \<Rightarrow> turn list \<Rightarrow> int \<Rightarrow> memory_db \<Rightarrow> memory_db" where
  "summarize_commit sid summary folded now db =
     db\<lparr>sessions := (case sessions db sid of
          None \<Rightarrow> sessions db
        | Some r \<Rightarrow> (sessions db)(sid \<mapsto>
            r\<lparr>session_summary := summary, summary_token_count := estimate_tokens summary\<rparr>)),
        turns := fold_turns now (map turn_id folded) (turns db)\<rparr>"

text \<open>The model's reply: an error, or a result whose \<open>parsed\<close> is a \<open>SummaryPayload\<close> or not.\<close>

type_synonym summarizer = "string \<Rightarrow> string option result"

definition summary_type_error :: exn where
  "summary_type_error =
     OtherError ''TypeError'' ''summarize_session expected SummaryPayload from LLM provider''"

definition summarize_session ::
    "memory_settings \<Rightarrow> summarizer \<Rightarrow> string \<Rightarrow> int \<Rightarrow> memory_db \<Rightarrow> memory_db \<times> string result" where
  "summarize_session st llm sid now db =
     (case summarize_plan st sid db of
        Return s \<Rightarrow> (db, Inr s)
      | AskModel prompt folded \<Rightarrow>
          (case llm prompt of
             Inl e \<Rightarrow> (db, Inl e)
           | Inr None \<Rightarrow> (db, Inl summary_type_error)
           | Inr (Some s) \<Rightarrow>
               (summarize_commit sid (strip s) folded now db, Inr (strip s))))"

definition needs_summary :: "memory_settings \<Rightarrow> string \<Rightarrow> memory_db \<Rightarrow> bool" where
  "needs_summary st sid db =
     (case sessions db sid of
        None \<Rightarrow> False
      | Some r \<Rightarrow>
          (let rows = unfolded_turn_rows sid db;
               total = summary_token_count r + sum_list (map turn_tokens rows)
           in token_budget st < total \<and> recent_turns_to_keep st < int (length rows)))"

definition append_turn ::
    "memory_settings \<Rightarrow> summarizer \<Rightarrow> string \<Rightarrow> string \<Rightarrow> string \<Rightarrow> int \<Rightarrow> int \<Rightarrow> memory_db
      \<Rightarrow> memory_db \<times> unit result" where
  "append_turn st llm sid role content now later db =
     (let db1 = insert_turn sid role content now db in
      if needs_summary st sid db1
      then (case summarize_session st llm sid later db1 of
              (db2, Inl e) \<Rightarrow> (db2, Inl e)
            | (db2, Inr s) \<Rightarrow> (db2, Inr ()))
      else (db1, Inr ()))"

section \<open>The response cache\<close>

text \<open>\<open>dumps\<close> and \<open>loads\<close> are the JSON encoder and decoder.\<close>

definition cache_get ::
    "(string \<Rightarrow> pyval) \<Rightarrow> memory_settings \<Rightarrow> string \<Rightarrow> int \<Rightarrow> memory_db
      \<Rightarrow> memory_db \<times> (string \<times> pyval \<times> int) option" where
  "cache_get loads st key now db =
     (let cutoff = now - cache_ttl_seconds st * 1000000 in
      case response_cache db key of
        None \<Rightarrow> (db, None)
      | Some r \<Rightarrow>
          if cached_at r < cutoff
          then (db\<lparr>response_cache := (response_cache db)(key := None)\<rparr>, None)
          else (db, Some (key, loads (cached_json r), cached_at r)))"

definition cache_put ::
    "(pyval \<Rightarrow> string) \<Rightarrow> string \<Rightarrow> pyval \<Rightarrow> int \<Rightarrow> memory_db \<Rightarrow> memory_db" where
  "cache_put dumps key v now db =
     db\<lparr>response_cache := (response_cache db)(key \<mapsto> \<lparr>cached_json = dumps v, cached_at = now\<rparr>)\<rparr>"

section \<open>The running service\<close>

text \<open>
  Two requests on one session may be between the model call and the update at the same time, so
  a step asks the model or commits one of the summaries that were asked for.
\<close>

record memory_sys =
  sys_db :: memory_db
  sys_asked :: "(string \<times> string \<times> turn list) list"

definition memory_start :: memory_sys where
  "memory_start = \<lparr>sys_db = empty_db, sys_asked = []\<rparr>"

inductive memory_step :: "memory_settings \<Rightarrow> memory_sys \<Rightarrow> memory_sys \<Rightarrow> bool" for st where
  Append: "memory_step st s (s\<lparr>sys_db := insert_turn sid role content now (sys_db s)\<rparr>)"
| Ask: "summarize_plan st sid (sys_db s) = AskModel prompt folded \<Longrightarrow>
     memory_step st s (s\<lparr>sys_asked := (sid, prompt, folded) # sys_asked s\<rparr>)"
| Commit: "(sid, prompt, folded) \<in> set (sys_asked s) \<Longrightarrow>
     memory_step st s
       (s\<lparr>sys_db := summarize_commit sid (strip reply) folded now (sys_db s),
          sys_asked := remove1 (sid, prompt, folded) (sys_asked s)\<rparr>)"
| Fail: "memory_step st s (s\<lparr>sys_asked := remove1 a (sys_asked s)\<rparr>)"
| Cache_Get: "memory_step st s (s\<lparr>sys_db := fst (cache_get loads st key now (sys_db s))\<rparr>)"
| Cache_Put: "memory_step st s (s\<lparr>sys_db := cache_put dumps key v now (sys_db s)\<rparr>)"

inductive memory_reach :: "memory_settings \<Rightarrow> memory_sys \<Rightarrow> bool" for st where
  Start: "memory_reach st memory_start"
| Step: "memory_reach st s \<Longrightarrow> memory_step st s s' \<Longrightarrow> memory_reach st s'"

definition db_inv :: "memory_db \<Rightarrow> bool" where
  "db_inv db \<longleftrightarrow>
     sorted_wrt (<) (map turn_id (turns db)) \<and>
     (\<forall>t \<in> set (turns db). turn_id t < next_turn_id db \<and> turn_session t \<in> dom (sessions db) \<and>
        turn_tokens t = estimate_tokens (turn_content t)) \<and>
     (\<forall>r \<in> ran (sessions db). summary_token_count r = estimate_tokens (session_summary r))"

text \<open>Within a session no unfolded turn is older than a folded one.\<close>

definition folded_oldest :: "memory_db \<Rightarrow> bool" where
  "folded_oldest db \<longleftrightarrow>
     (\<forall>t \<in> set (turns db). \<forall>u \<in> set (turns db).
        turn_session t = turn_session u \<and> turn_id t < turn_id u \<and> folded_at u \<noteq> None
          \<longrightarrow> folded_at t \<noteq> None)"

text \<open>The rows a pending summary will fold reach down to the oldest unfolded turn.\<close>

definition ask_inv :: "memory_db \<Rightarrow> string \<times> string \<times> turn list \<Rightarrow> bool" where
  "ask_inv db a =
     (case a of (sid, prompt, folded) \<Rightarrow>
        (\<forall>f \<in> set folded. \<forall>t \<in> set (turns db).
           turn_id t = turn_id f \<longrightarrow> turn_session t = sid) \<and>
        (\<forall>f \<in> set folded. turn_id f < next_turn_id db) \<and>
        (\<forall>f \<in> set folded. \<forall>t \<in> set (turns db).
           turn_session t = sid \<and> folded_at t = None \<and> turn_id t \<le> turn_id f
             \<longrightarrow> turn_id t \<in> turn_id ` set folded))"

definition memory_inv :: "memory_sys \<Rightarrow> bool" where
  "memory_inv s \<longleftrightarrow> db_inv (sys_db s) \<and> folded_oldest (sys_db s) \<and>
     (\<forall>a \<in> set (sys_asked s). ask_inv (sys_db s) a)"

section \<open>Lemmas\<close>

lemma estimate_tokens_nonneg: "0 \<le> estimate_tokens s"
  by (auto simp: estimate_tokens_def)

lemma ensure_session_simps [simp]:
  "turns (ensure_session sid now db) = turns db"
  "next_turn_id (ensure_session sid now db) = next_turn_id db"
  "response_cache (ensure_session sid now db) = response_cache db"
  "dom (sessions (ensure_session sid now db)) = insert sid (dom (sessions db))"
  by (auto simp: ensure_session_def split: option.split)

lemma set_fold_turns:
  "set (fold_turns now ids ts) =
     (\<lambda>t. if turn_id t \<in> set ids then t\<lparr>folded_at := Some now\<rparr> else t) ` set ts"
  by (simp add: fold_turns_def)

lemma map_turn_id_fold [simp]: "map turn_id (fold_turns now ids ts) = map turn_id ts"
  by (simp add: fold_turns_def cong: map_cong)

lemma commit_simps [simp]:
  "turns (summarize_commit sid sm folded now db) = fold_turns now (map turn_id folded) (turns db)"
  "next_turn_id (summarize_commit sid sm folded now db) = next_turn_id db"
  "dom (sessions (summarize_commit sid sm folded now db)) = dom (sessions db)"
  "response_cache (summarize_commit sid sm folded now db) = response_cache db"
  by (auto simp: summarize_commit_def split: option.split)

lemma cache_get_frame:
  "turns (fst (cache_get loads st key now db)) = turns db"
  "next_turn_id (fst (cache_get loads st key now db)) = next_turn_id db"
  "sessions (fst (cache_get loads st key now db)) = sessions db"
  by (auto simp: cache_get_def Let_def split: option.split)

lemma cache_put_frame:
  "turns (cache_put dumps key v now db) = turns db"
  "next_turn_id (cache_put dumps key v now db) = next_turn_id db"
  "sessions (cache_put dumps key v now db) = sessions db"
  by (simp_all add: cache_put_def)

lemma inv_frame:
  assumes "turns db' = turns db" "next_turn_id db' = next_turn_id db" "sessions db' = sessions db"
  shows "db_inv db' = db_inv db" "folded_oldest db' = folded_oldest db" "ask_inv db' a = ask_inv db a"
  using assms by (simp_all add: db_inv_def folded_oldest_def ask_inv_def)

lemma insert_turn_inv:
  assumes "db_inv db"
  shows "db_inv (insert_turn sid role content now db)"
proof -
  have "ran (sessions (ensure_session sid now db)) \<subseteq>
      insert \<lparr>session_created = now, session_summary = '''', summary_token_count = 0\<rparr>
        (ran (sessions db))"
    by (auto simp: ensure_session_def ran_def split: option.splits if_splits)
  with assms show ?thesis
    unfolding db_inv_def insert_turn_def Let_def
    by (auto simp: sorted_wrt_append estimate_tokens_def [of "[]"])
qed

lemma insert_turn_folded:
  assumes "db_inv db" and "folded_oldest db"
  shows "folded_oldest (insert_turn sid role content now db)"
  using assms unfolding db_inv_def folded_oldest_def insert_turn_def Let_def by fastforce

lemma insert_turn_ask:
  assumes "db_inv db" and "ask_inv db a"
  shows "ask_inv (insert_turn sid role content now db) a"
proof -
  obtain sid' prompt folded where a: "a = (sid', prompt, folded)" by (cases a)
  have "turn_id f < next_turn_id db" if "f \<in> set folded" for f
    using assms(2) that by (simp add: ask_inv_def a)
  then have "turn_id f \<noteq> next_turn_id db" "\<not> next_turn_id db \<le> turn_id f"
    "turn_id f < next_turn_id db + 1" if "f \<in> set folded" for f
    using that by force+
  with assms(2) show ?thesis
    unfolding ask_inv_def a insert_turn_def Let_def by auto
qed

lemma plan_ask:
  assumes "summarize_plan st sid db = AskModel prompt folded"
  shows "folded = slice_upto_neg (recent_turns_to_keep st) (unfolded_turn_rows sid db)"
    and "recent_turns_to_keep st < int (length (unfolded_turn_rows sid db))"
    and "sid \<in> dom (sessions db)"
  using assms by (auto simp: summarize_plan_def Let_def split: option.splits if_splits)

lemma sorted_wrt_id_unique:
  assumes "sorted_wrt (<) (map turn_id ts)" "t \<in> set ts" "u \<in> set ts" "turn_id t = turn_id u"
  shows "t = u"
proof -
  have "inj_on turn_id (set ts)"
    using assms(1) by (simp add: strict_sorted_iff distinct_map)
  with assms(2-4) show ?thesis by (auto dest: inj_onD)
qed

lemma take_downward:
  assumes "sorted_wrt (<) (map turn_id ts)" "f \<in> set (take n ts)" "t \<in> set ts"
    and "turn_id t \<le> turn_id f"
  shows "t \<in> set (take n ts)"
proof (rule ccontr)
  assume "t \<notin> set (take n ts)"
  moreover have "set ts = set (take n ts) \<union> set (drop n ts)"
    by (metis append_take_drop_id set_append)
  ultimately have "t \<in> set (drop n ts)" using assms(3) by blast
  moreover have "sorted_wrt (<) (map turn_id (take n ts) @ map turn_id (drop n ts))"
    using assms(1) by (metis append_take_drop_id map_append)
  ultimately have "turn_id f < turn_id t" using assms(2) by (simp add: sorted_wrt_append)
  with assms(4) show False by simp
qed

lemma plan_ask_inv:
  assumes "db_inv db" and "summarize_plan st sid db = AskModel prompt folded"
  shows "ask_inv db (sid, prompt, folded)"
proof -
  let ?rows = "unfolded_turn_rows sid db"
  have folded: "folded = take (slice_index (recent_turns_to_keep st) ?rows) ?rows"
    using plan_ask(1) [OF assms(2)] by (simp add: slice_upto_neg_def)
  have sorted: "sorted_wrt (<) (map turn_id (turns db))" using assms(1) by (simp add: db_inv_def)
  have rows_sorted: "sorted_wrt (<) (map turn_id ?rows)"
    using sorted unfolding unfolded_turn_rows_def sorted_wrt_map by (rule sorted_wrt_filter)
  have row: "f \<in> set (turns db) \<and> turn_session f = sid" if "f \<in> set folded" for f
    using that folded by (auto dest!: in_set_takeD simp: unfolded_turn_rows_def)
  show ?thesis
    unfolding ask_inv_def
  proof (simp only: prod.case, intro conjI ballI impI)
    fix f t assume "f \<in> set folded" "t \<in> set (turns db)" "turn_id t = turn_id f"
    then show "turn_session t = sid" using sorted_wrt_id_unique [OF sorted] row by metis
  next
    fix f t assume f: "f \<in> set folded" and t: "t \<in> set (turns db)"
      and le: "turn_session t = sid \<and> folded_at t = None \<and> turn_id t \<le> turn_id f"
    then have "t \<in> set ?rows" by (simp add: unfolded_turn_rows_def)
    then have "t \<in> set folded"
      using take_downward [OF rows_sorted] f folded le by metis
    then show "turn_id t \<in> turn_id ` set folded" by blast
  next
    fix f assume "f \<in> set folded"
    with row assms(1) show "turn_id f < next_turn_id db" by (auto simp: db_inv_def)
  qed
qed

lemma commit_db_inv: "db_inv db \<Longrightarrow> db_inv (summarize_commit sid sm folded now db)"
proof -
  assume inv: "db_inv db"
  have "\<forall>r \<in> ran (sessions (summarize_commit sid sm folded now db)).
      summary_token_count r = estimate_tokens (session_summary r)"
    using inv
    by (auto simp: db_inv_def summarize_commit_def ran_def split: option.splits if_splits)
  moreover have "\<forall>t \<in> set (fold_turns now (map turn_id folded) (turns db)).
      turn_id t < next_turn_id db \<and> turn_session t \<in> dom (sessions db) \<and>
      turn_tokens t = estimate_tokens (turn_content t)"
    using inv by (auto simp: db_inv_def set_fold_turns)
  ultimately show ?thesis using inv by (simp add: db_inv_def)
qed

lemma commit_folded_oldest:
  assumes "ask_inv db (sid, prompt, folded)" and "folded_oldest db"
  shows "folded_oldest (summarize_commit sid sm folded now db)"
proof -
  let ?ids = "turn_id ` set folded"
  have *: "folded_at t \<noteq> None \<or> turn_id t \<in> ?ids"
    if t: "t \<in> set (turns db)" and u: "u \<in> set (turns db)" and eq: "turn_session t = turn_session u"
      and lt: "turn_id t < turn_id u" and f: "folded_at u \<noteq> None \<or> turn_id u \<in> ?ids" for t u
  proof (cases "turn_id u \<in> ?ids")
    case True
    then obtain f where "f \<in> set folded" "turn_id u = turn_id f" by auto
    with assms(1) t u eq lt show ?thesis unfolding ask_inv_def by fastforce
  next
    case False
    with f assms(2) t u eq lt show ?thesis unfolding folded_oldest_def by blast
  qed
  let ?g = "\<lambda>t. if turn_id t \<in> ?ids then t\<lparr>folded_at := Some now\<rparr> else t"
  have g: "turn_session (?g t) = turn_session t" "turn_id (?g t) = turn_id t"
    "folded_at (?g t) \<noteq> None \<longleftrightarrow> folded_at t \<noteq> None \<or> turn_id t \<in> ?ids" for t
    by auto
  show ?thesis
    unfolding folded_oldest_def commit_simps set_fold_turns list.set_map
    by (intro ballI impI; elim imageE conjE; simp only: g) (rule *; assumption)
qed

lemma commit_ask_inv:
  assumes "ask_inv db a"
  shows "ask_inv (summarize_commit sid sm folded now db) a"
  using assms unfolding ask_inv_def commit_simps set_fold_turns
  by (auto split: prod.splits if_splits)

lemma memory_step_inv:
  assumes "memory_step st s s'" and "memory_inv s"
  shows "memory_inv s'"
  using assms
proof (cases rule: memory_step.cases)
  case (Append sid role content now)
  with assms(2) show ?thesis
    by (simp add: memory_inv_def insert_turn_inv insert_turn_folded insert_turn_ask)
next
  case (Ask sid prompt folded)
  with assms(2) show ?thesis by (simp add: memory_inv_def plan_ask_inv)
next
  case (Commit sid prompt folded reply now)
  have "ask_inv (sys_db s) (sid, prompt, folded)"
    using assms(2) Commit(2) unfolding memory_inv_def by blast
  with assms(2) Commit(1) show ?thesis
    unfolding memory_inv_def
    by (auto intro: commit_db_inv commit_folded_oldest commit_ask_inv dest: notin_set_remove1)
next
  case (Fail a)
  with assms(2) show ?thesis
    unfolding memory_inv_def by (auto dest: notin_set_remove1)
next
  case Cache_Get
  with assms(2) show ?thesis
    by (simp add: memory_inv_def inv_frame [OF cache_get_frame])
next
  case Cache_Put
  with assms(2) show ?thesis
    by (simp add: memory_inv_def inv_frame [OF cache_put_frame])
qed

lemma memory_start_inv: "memory_inv memory_start"
  by (simp add: memory_inv_def memory_start_def empty_db_def db_inv_def folded_oldest_def)

lemma memory_reach_inv: "memory_reach st s \<Longrightarrow> memory_inv s"
  by (induction rule: memory_reach.induct) (auto intro: memory_start_inv memory_step_inv)

lemma slice_keep:
  assumes "0 < k" "k < int (length xs)"
  shows "slice_upto_neg k xs = take (length xs - nat k) xs"
    and "slice_from_neg k xs = drop (length xs - nat k) xs"
proof -
  have "slice_index k xs = length xs - nat k"
    using assms by (simp add: slice_index_def Let_def nat_minus_as_int)
  then show "slice_upto_neg k xs = take (length xs - nat k) xs"
    "slice_from_neg k xs = drop (length xs - nat k) xs"
    by (simp_all add: slice_upto_neg_def slice_from_neg_def)
qed

lemma unfolded_commit:
  "unfolded_turn_rows s (summarize_commit sid sm folded now db)
     = filter (\<lambda>t. turn_id t \<notin> turn_id ` set folded) (unfolded_turn_rows s db)"
proof -
  have "filter (\<lambda>t. turn_session t = s \<and> folded_at t = None) (fold_turns now ids ts)
      = filter (\<lambda>t. turn_id t \<notin> set ids) (filter (\<lambda>t. turn_session t = s \<and> folded_at t = None) ts)"
    for ids ts by (induction ts) (auto simp: fold_turns_def)
  then show ?thesis by (simp add: unfolded_turn_rows_def)
qed

lemma filter_take_drop:
  "distinct (map f xs) \<Longrightarrow> filter (\<lambda>x. f x \<notin> f ` set (take n xs)) xs = drop n xs"
proof (induction xs arbitrary: n)
  case Nil
  then show ?case by simp
next
  case (Cons x xs)
  show ?case
  proof (cases n)
    case 0
    then show ?thesis by (simp add: filter_id_conv)
  next
    case (Suc m)
    have "f y \<noteq> f x" if "y \<in> set xs" for y
      using Cons.prems that by (metis distinct.simps(2) image_eqI list.set_map list.simps(9))
    then have "filter (\<lambda>y. f y \<notin> f ` set (take n (x # xs))) (x # xs)
        = filter (\<lambda>y. f y \<notin> f ` set (take m xs)) xs"
      by (simp add: Suc cong: filter_cong)
    with Cons Suc show ?thesis by simp
  qed
qed

lemma unfolded_distinct: "db_inv db \<Longrightarrow> distinct (map turn_id (unfolded_turn_rows sid db))"
  by (simp add: db_inv_def unfolded_turn_rows_def strict_sorted_iff distinct_map_filter)

lemma commit_session:
  "sid \<in> dom (sessions db) \<Longrightarrow>
     \<exists>r. sessions (summarize_commit sid sm folded now db) sid = Some r \<and> session_summary r = sm
       \<and> summary_token_count r = estimate_tokens sm"
  by (auto simp: summarize_commit_def)

lemma commit_other_session:
  "other \<noteq> sid \<Longrightarrow> sessions (summarize_commit sid sm folded now db) other = sessions db other"
  by (auto simp: summarize_commit_def split: option.split)

text \<open>Every turn that is folded is in the prompt the model summarizes.\<close>

lemma contains_listing:
  assumes "t \<in> set ts"
  shows "contains (c t) (join sep (map (\<lambda>t. p @ r t @ q @ c t) ts))"
proof (rule contains_trans)
  show "contains (p @ r t @ q @ c t) (join sep (map (\<lambda>t. p @ r t @ q @ c t) ts))"
    using assms by (intro contains_join) auto
  show "contains (c t) (p @ r t @ q @ c t)"
    unfolding contains_iff by (intro exI [of _ "p @ r t @ q"] exI [of _ "[]"]) simp
qed

lemma contains_twelfth:
  "contains b x \<Longrightarrow>
   contains b (a1 @ a2 @ a3 @ a4 @ a5 @ a6 @ a7 @ a8 @ a9 @ a10 @ a11 @ a12 @ x @ y)"
  using contains_middle [of b x "a1 @ a2 @ a3 @ a4 @ a5 @ a6 @ a7 @ a8 @ a9 @ a10 @ a11 @ a12" y]
  by simp

lemma contains_or_default: "contains b l \<Longrightarrow> contains b (if l = [] then d else l)"
  by (cases l) (simp_all add: contains_Nil)

lemma prompt_shows_folded:
  assumes "t \<in> set folded"
  shows "contains (turn_content t) (build_summary_prompt old folded n)"
  unfolding build_summary_prompt_def Let_def
  by (intro contains_twelfth contains_or_default contains_listing assms)

lemma summarize_keeps_text:
  "map (\<lambda>t. t\<lparr>folded_at := None\<rparr>) (turns (fst (summarize_session st llm sid now db)))
     = map (\<lambda>t. t\<lparr>folded_at := None\<rparr>) (turns db)"
  by (auto simp: summarize_session_def fold_turns_def split: summary_plan.split sum.split option.split)

lemma summarize_answers:
  assumes inv: "db_inv db" and keep: "0 < recent_turns_to_keep st"
    and plan: "summarize_plan st sid db = AskModel prompt folded"
    and reply: "llm prompt = Inr (Some s)"
    and db': "db' = summarize_commit sid (strip s) folded now db"
  shows "summarize_session st llm sid now db = (db', Inr (strip s))"
    and "unfolded_turn_rows sid db = folded @ unfolded_turn_rows sid db'"
    and "int (length (unfolded_turn_rows sid db')) = recent_turns_to_keep st"
    and "summarize_plan st sid db' = Return (strip s)"
    and "other \<noteq> sid \<Longrightarrow> unfolded_turn_rows other db' = unfolded_turn_rows other db"
proof -
  let ?rows = "unfolded_turn_rows sid db" and ?k = "recent_turns_to_keep st"
  have folded: "folded = take (length ?rows - nat ?k) ?rows" and long: "?k < int (length ?rows)"
    using plan_ask [OF plan] keep by (simp_all add: slice_keep)
  show "summarize_session st llm sid now db = (db', Inr (strip s))"
    by (simp add: summarize_session_def plan reply db')
  have rest: "unfolded_turn_rows sid db' = drop (length ?rows - nat ?k) ?rows"
    unfolding db' unfolded_commit
    by (subst folded) (rule filter_take_drop [OF unfolded_distinct [OF inv]])
  then show "?rows = folded @ unfolded_turn_rows sid db'" using folded by (metis append_take_drop_id)
  show len: "int (length (unfolded_turn_rows sid db')) = ?k" using rest long keep by simp
  obtain r where "sessions db' sid = Some r" "session_summary r = strip s"
    using commit_session [OF plan_ask(3) [OF plan]] db' by blast
  with len show "summarize_plan st sid db' = Return (strip s)"
    by (simp add: summarize_plan_def)
  show "unfolded_turn_rows other db' = unfolded_turn_rows other db" if "other \<noteq> sid"
  proof -
    have "turn_id t \<notin> turn_id ` set folded" if "t \<in> set (unfolded_turn_rows other db)" for t
      using plan_ask_inv [OF inv plan] that \<open>other \<noteq> sid\<close>
      by (auto simp: ask_inv_def unfolded_turn_rows_def)
    then show ?thesis by (simp add: db' unfolded_commit filter_id_conv)
  qed
qed

lemma choose_turns_spec:
  "0 \<le> remaining - running \<Longrightarrow> \<exists>rest. ts = choose_turns remaining running ts @ rest
     \<and> running + sum_list (map turn_tokens (choose_turns remaining running ts)) \<le> remaining
     \<and> (rest = [] \<or> remaining < running
          + sum_list (map turn_tokens (choose_turns remaining running ts)) + turn_tokens (hd rest))"
proof (induction remaining running ts rule: choose_turns.induct)
  case (1 remaining running)
  then show ?case by simp
next
  case (2 remaining running t ts)
  show ?case
  proof (cases "remaining < running + turn_tokens t")
    case True
    with 2 show ?thesis by simp
  next
    case False
    with 2 obtain rest where
      "ts = choose_turns remaining (running + turn_tokens t) ts @ rest"
      "running + turn_tokens t
         + sum_list (map turn_tokens (choose_turns remaining (running + turn_tokens t) ts)) \<le> remaining"
      "rest = [] \<or> remaining < running + turn_tokens t
         + sum_list (map turn_tokens (choose_turns remaining (running + turn_tokens t) ts))
         + turn_tokens (hd rest)"
      by auto
    with False show ?thesis by (intro exI [of _ rest]) (simp add: algebra_simps)
  qed
qed

text \<open>A successful append leaves a session that needs no summary.\<close>

lemma needs_summary_long:
  "needs_summary st sid db \<Longrightarrow> recent_turns_to_keep st < int (length (unfolded_turn_rows sid db))
     \<and> sid \<in> dom (sessions db)"
  by (auto simp: needs_summary_def Let_def split: option.splits)

lemma long_asks:
  "recent_turns_to_keep st < int (length (unfolded_turn_rows sid db)) \<Longrightarrow> sid \<in> dom (sessions db)
     \<Longrightarrow> \<exists>prompt folded. summarize_plan st sid db = AskModel prompt folded"
  by (auto simp: summarize_plan_def Let_def)

definition sample_memory :: memory_settings where
  "sample_memory = \<lparr>cache_ttl_seconds = 60, token_budget = 1, recent_turns_to_keep = 1\<rparr>"

definition two_turns :: memory_db where
  "two_turns = insert_turn ''s'' ''user'' ''second'' 2 (insert_turn ''s'' ''user'' ''first'' 1 empty_db)"

lemma two_turns_inv: "db_inv two_turns"
  unfolding two_turns_def by (intro insert_turn_inv) (simp add: empty_db_def db_inv_def)

section \<open>Properties\<close>

text \<open>
  C32: In every state the service can reach, with turns appended, summaries asked for and
  committed in any order, also overlapping on one session, and cache operations in between:
  turn ids strictly increase, every turn belongs to a stored session and carries the estimate of
  its content, every summary the estimate of its text, and within a session no unfolded turn is
  older than a folded one.
\<close>

theorem memory_reach_wellformed:
  assumes "memory_reach st s"
  shows "db_inv (sys_db s) \<and> folded_oldest (sys_db s)"
  using memory_reach_inv [OF assms] by (simp add: memory_inv_def)

theorem memory_reach_wellformed_witness:
  "folded_oldest (insert_turn ''s'' ''user'' ''first'' 1 empty_db)"
proof -
  have "memory_reach sample_memory
      (memory_start\<lparr>sys_db := insert_turn ''s'' ''user'' ''first'' 1 (sys_db memory_start)\<rparr>)"
    by (rule memory_reach.Step [OF memory_reach.Start memory_step.Append])
  from memory_reach_wellformed [OF this] show ?thesis by (simp add: memory_start_def)
qed

text \<open>
  C16: Summarizing a session that has more than the configured number of unfolded turns, with the
  model answering, folds exactly the oldest of them and keeps exactly the configured number of
  the newest; the prompt shows every folded turn; the stored and returned summary is the stripped
  reply; no turn's text changes and no other session does; and a second call folds nothing and
  returns the same summary, whatever the model would say.
\<close>

theorem summarize_folds_older_turns:
  assumes "db_inv db" and "0 < recent_turns_to_keep st" and "sid \<in> dom (sessions db)"
    and "recent_turns_to_keep st < int (length (unfolded_turn_rows sid db))"
    and "\<And>prompt. llm prompt = Inr (Some (f prompt))"
  shows "\<exists>db' prompt folded.
    summarize_session st llm sid now db = (db', Inr (strip (f prompt)))
    \<and> unfolded_turn_rows sid db = folded @ unfolded_turn_rows sid db'
    \<and> int (length (unfolded_turn_rows sid db')) = recent_turns_to_keep st
    \<and> (\<forall>t \<in> set folded. contains (turn_content t) prompt)
    \<and> (\<exists>r. sessions db' sid = Some r \<and> session_summary r = strip (f prompt))
    \<and> map (\<lambda>t. t\<lparr>folded_at := None\<rparr>) (turns db') = map (\<lambda>t. t\<lparr>folded_at := None\<rparr>) (turns db)
    \<and> (\<forall>other. other \<noteq> sid \<longrightarrow> sessions db' other = sessions db other
          \<and> unfolded_turn_rows other db' = unfolded_turn_rows other db)
    \<and> summarize_session st llm' sid later db' = (db', Inr (strip (f prompt)))"
proof -
  obtain prompt folded where plan: "summarize_plan st sid db = AskModel prompt folded"
    using long_asks [OF assms(4,3)] by blast
  define db' where "db' = summarize_commit sid (strip (f prompt)) folded now db"
  note answers = summarize_answers [where llm = llm and s = "f prompt", OF assms(1,2) plan assms(5) db'_def]
  have "contains (turn_content t) prompt" if "t \<in> set folded" for t
    using plan that prompt_shows_folded
    by (auto simp: summarize_plan_def Let_def split: option.splits if_splits)
  moreover have "map (\<lambda>t. t\<lparr>folded_at := None\<rparr>) (turns db') = map (\<lambda>t. t\<lparr>folded_at := None\<rparr>) (turns db)"
    using summarize_keeps_text [of st llm sid now db] answers(1) by simp
  moreover have "\<exists>r. sessions db' sid = Some r \<and> session_summary r = strip (f prompt)"
    using commit_session [OF assms(3)] unfolding db'_def by blast
  moreover have "summarize_session st llm' sid later db' = (db', Inr (strip (f prompt)))"
    using answers(4) by (simp add: summarize_session_def)
  moreover have "sessions db' other = sessions db other" if "other \<noteq> sid" for other
    using commit_other_session that unfolding db'_def by metis
  ultimately show ?thesis using answers(1,2,3,5) by blast
qed

theorem summarize_folds_older_turns_witness:
  "\<exists>db'. summarize_session sample_memory (\<lambda>p. Inr (Some ''summary'')) ''s'' 3 two_turns
           = (db', Inr (strip ''summary''))
     \<and> length (unfolded_turn_rows ''s'' db') = 1"
proof -
  have "\<exists>db' prompt folded.
    summarize_session sample_memory (\<lambda>p. Inr (Some ''summary'')) ''s'' 3 two_turns
      = (db', Inr (strip ''summary''))
    \<and> unfolded_turn_rows ''s'' two_turns = folded @ unfolded_turn_rows ''s'' db'
    \<and> int (length (unfolded_turn_rows ''s'' db')) = recent_turns_to_keep sample_memory
    \<and> (\<forall>t \<in> set folded. contains (turn_content t) prompt)
    \<and> (\<exists>r. sessions db' ''s'' = Some r \<and> session_summary r = strip ''summary'')
    \<and> map (\<lambda>t. t\<lparr>folded_at := None\<rparr>) (turns db') = map (\<lambda>t. t\<lparr>folded_at := None\<rparr>) (turns two_turns)
    \<and> (\<forall>other. other \<noteq> ''s'' \<longrightarrow> sessions db' other = sessions two_turns other
          \<and> unfolded_turn_rows other db' = unfolded_turn_rows other two_turns)
    \<and> summarize_session sample_memory (\<lambda>p. Inl Cancelled) ''s'' 4 db' = (db', Inr (strip ''summary''))"
    by (rule summarize_folds_older_turns [OF two_turns_inv])
      (simp_all add: sample_memory_def two_turns_def insert_turn_def ensure_session_def empty_db_def
        unfolded_turn_rows_def Let_def)
  then show ?thesis by (auto simp: sample_memory_def)
qed

text \<open>
  After a successful append the session fits: its summary and unfolded turns are within the
  token budget, or no more turns than the configured window are unfolded.
\<close>

theorem append_keeps_session_small:
  assumes "db_inv db" and "0 < recent_turns_to_keep st"
    and "append_turn st llm sid role content now later db = (db', Inr ())"
  shows "\<not> needs_summary st sid db'"
proof (cases "needs_summary st sid (insert_turn sid role content now db)")
  case False
  with assms(3) show ?thesis by (simp add: append_turn_def Let_def)
next
  case True
  let ?db1 = "insert_turn sid role content now db"
  obtain prompt folded where plan: "summarize_plan st sid ?db1 = AskModel prompt folded"
    using long_asks needs_summary_long [OF True] by blast
  then obtain s where s: "llm prompt = Inr (Some s)"
    and db': "db' = summarize_commit sid (strip s) folded later ?db1"
    using assms(3) True
    by (auto simp: append_turn_def Let_def summarize_session_def split: sum.splits option.splits)
  have "int (length (unfolded_turn_rows sid db')) = recent_turns_to_keep st"
    using insert_turn_inv [OF assms(1)] assms(2) plan s db' by (rule summarize_answers(3))
  then show ?thesis using needs_summary_long [of st sid db'] by auto
qed

theorem append_keeps_session_small_witness:
  "\<exists>db'. append_turn sample_memory (\<lambda>p. Inr (Some '''')) ''s'' ''user'' ''third'' 3 4 two_turns = (db', Inr ())
     \<and> \<not> needs_summary sample_memory ''s'' db'"
proof -
  obtain db' r where eq:
    "append_turn sample_memory (\<lambda>p. Inr (Some '''')) ''s'' ''user'' ''third'' 3 4 two_turns = (db', r)"
    by (cases "append_turn sample_memory (\<lambda>p. Inr (Some '''')) ''s'' ''user'' ''third'' 3 4 two_turns")
  then have "r = Inr ()"
    by (auto simp: append_turn_def Let_def summarize_session_def split: if_splits summary_plan.splits)
  moreover have "0 < recent_turns_to_keep sample_memory" by (simp add: sample_memory_def)
  ultimately show ?thesis using append_keeps_session_small [OF two_turns_inv _ ] eq by blast
qed

text \<open>
  The context of a known session is its summary and the longest run of its newest unfolded
  turns, in order, whose estimates fit into what the budget leaves beside the summary: the next
  older turn would not fit.
\<close>

theorem context_is_longest_fitting_suffix:
  "case sessions db sid of
     None \<Rightarrow> get_context sid budget db = ('''', [])
   | Some r \<Rightarrow>
       (\<exists>older recent.
          get_context sid budget db = (session_summary r, recent)
          \<and> unfolded_turn_rows sid db = older @ recent
          \<and> sum_list (map turn_tokens recent) \<le> max (budget - summary_token_count r) 0
          \<and> (older = [] \<or>
             max (budget - summary_token_count r) 0
               < sum_list (map turn_tokens recent) + turn_tokens (last older)))"
proof (cases "sessions db sid")
  case None
  then show ?thesis by (simp add: get_context_def)
next
  case (Some r)
  let ?rem = "max (budget - summary_token_count r) 0" and ?rows = "unfolded_turn_rows sid db"
  let ?chosen = "choose_turns ?rem 0 (rev ?rows)"
  obtain rest where rest: "rev ?rows = ?chosen @ rest"
    "sum_list (map turn_tokens ?chosen) \<le> ?rem"
    "rest = [] \<or> ?rem < sum_list (map turn_tokens ?chosen) + turn_tokens (hd rest)"
    using choose_turns_spec [of ?rem 0 "rev ?rows"] by auto
  from rest(1) have "?rows = rev rest @ rev ?chosen" by (metis rev_append rev_rev_ident)
  with rest(2,3) Some show ?thesis
    by (auto simp: get_context_def recent_unfolded_turn_rows_def Let_def last_rev rev_map [symmetric]
        sum_list_rev intro!: exI [of _ "rev rest"])
qed

text \<open>
  A cached response is returned as it was put, with its time of storage, until its time to
  live has passed; after that it is gone for good, and looking never changes another key.
\<close>

theorem cache_roundtrip:
  assumes "loads (dumps v) = v"
  shows "cache_get loads st key later (cache_put dumps key v now db) =
      (if later \<le> now + cache_ttl_seconds st * 1000000
       then (cache_put dumps key v now db, Some (key, v, now))
       else ((cache_put dumps key v now db)
              \<lparr>response_cache := (response_cache db)(key := None)\<rparr>, None))
    \<and> (\<forall>other. other \<noteq> key \<longrightarrow>
         response_cache (fst (cache_get loads st key later db)) other = response_cache db other)"
  using assms by (auto simp: cache_get_def cache_put_def Let_def split: option.split)

definition sample_dumps :: "pyval \<Rightarrow> string" where
  "sample_dumps v = (case v of PyInt i \<Rightarrow> str_int i | _ \<Rightarrow> ''null'')"

definition sample_loads :: "string \<Rightarrow> pyval" where
  "sample_loads s = (if s = ''1'' then PyInt 1 else PyNone)"

theorem cache_roundtrip_witness:
  "snd (cache_get sample_loads sample_memory ''k'' 50000000
     (cache_put sample_dumps ''k'' (PyInt 1) 0 empty_db)) = Some (''k'', PyInt 1, 0)"
proof -
  have "sample_loads (sample_dumps (PyInt 1)) = PyInt 1" by code_simp
  from cache_roundtrip [where loads = sample_loads and dumps = sample_dumps, OF this,
      where st = sample_memory and key = "''k''" and later = 50000000 and now = 0 and db = empty_db]
  show ?thesis by (simp add: sample_memory_def)
qed

text \<open>
  With a window of zero turns a summary folds nothing: the slice that should hold the older
  turns is empty, so the model is asked to summarize no turn, none is marked, and a session over
  its token budget stays over it if the reply is as long as the summary it replaces.
\<close>

theorem zero_window_never_folds:
  assumes "recent_turns_to_keep st = 0" and "sessions db sid = Some r"
    and "unfolded_turn_rows sid db \<noteq> []"
  shows "summarize_plan st sid db =
      AskModel (build_summary_prompt (session_summary r) [] (length (unfolded_turn_rows sid db))) []
    \<and> turns (fst (summarize_session st llm sid now db)) = turns db
    \<and> (llm (build_summary_prompt (session_summary r) [] (length (unfolded_turn_rows sid db)))
           = Inr (Some s) \<and> summary_token_count r \<le> estimate_tokens (strip s)
         \<and> needs_summary st sid db \<longrightarrow>
       needs_summary st sid (fst (summarize_session st llm sid now db)))"
proof -
  have plan: "summarize_plan st sid db =
      AskModel (build_summary_prompt (session_summary r) [] (length (unfolded_turn_rows sid db))) []"
    using assms by (simp add: summarize_plan_def Let_def slice_upto_neg_def slice_from_neg_def slice_index_def)
  have fold: "fold_turns now [] ts = ts" for ts by (simp add: fold_turns_def)
  have turns: "turns (fst (summarize_session st llm sid now db)) = turns db"
    by (auto simp: summarize_session_def plan fold split: sum.split option.split)
  then have "unfolded_turn_rows sid (fst (summarize_session st llm sid now db)) = unfolded_turn_rows sid db"
    by (simp add: unfolded_turn_rows_def)
  with plan turns assms show ?thesis
    by (auto simp: needs_summary_def summarize_session_def summarize_commit_def Let_def)
qed

theorem zero_window_never_folds_witness:
  "turns (fst (summarize_session (sample_memory\<lparr>recent_turns_to_keep := 0\<rparr>) (\<lambda>p. Inr (Some ''x'')) ''s'' 3
     two_turns)) = turns two_turns"
proof -
  obtain r where "sessions two_turns ''s'' = Some r"
    by (simp add: two_turns_def insert_turn_def ensure_session_def empty_db_def Let_def)
  moreover have "unfolded_turn_rows ''s'' two_turns \<noteq> []"
    by (simp add: two_turns_def insert_turn_def ensure_session_def empty_db_def Let_def
        unfolded_turn_rows_def)
  ultimately show ?thesis
    using zero_window_never_folds [where st = "sample_memory\<lparr>recent_turns_to_keep := 0\<rparr>"] by simp
qed

text \<open>
  Two summaries of one session that overlap can lose a turn. The first asks the model, a turn
  is appended, a second one asks and commits, and then the first commits: the stored summary is
  then the reply to the first prompt, which shows only the turns the first one held, while the
  turn that only the second one held is folded as well, so neither the summary nor the unfolded
  turns contain it.
\<close>

theorem overlapping_summaries_lose_turn:
  assumes "db_inv db" and "0 < recent_turns_to_keep st"
    and "summarize_plan st sid db = AskModel p1 f1"
    and "db1 = insert_turn sid role content t0 db"
    and "summarize_plan st sid db1 = AskModel p2 f2"
    and "db2 = summarize_commit sid (strip (f p2)) f2 t2 db1"
    and "db3 = summarize_commit sid (strip (f p1)) f1 t1 db2"
  shows "\<exists>r lost. sessions db3 sid = Some r \<and> session_summary r = strip (f p1)
    \<and> (\<exists>old n. p1 = build_summary_prompt old f1 n)
    \<and> lost \<in> set (turns db1) \<and> turn_session lost = sid
    \<and> lost \<notin> set f1
    \<and> turn_id lost \<notin> turn_id ` set (unfolded_turn_rows sid db3)"
proof -
  let ?k = "recent_turns_to_keep st" and ?rows = "unfolded_turn_rows sid db"
  obtain new where rows1: "unfolded_turn_rows sid db1 = ?rows @ [new]"
    by (simp add: assms(4) insert_turn_def unfolded_turn_rows_def Let_def)
  have long: "?k < int (length ?rows)" using plan_ask(2) [OF assms(3)] .
  have f1: "f1 = take (length ?rows - nat ?k) ?rows"
    using plan_ask(1) [OF assms(3)] slice_keep(1) [OF assms(2) long] by simp
  have f2: "f2 = take (length ?rows + 1 - nat ?k) (?rows @ [new])"
    using plan_ask(1) [OF assms(5)] slice_keep(1) [OF assms(2), of "?rows @ [new]"] long
    by (simp add: rows1)
  let ?m = "length ?rows - nat ?k"
  define lost where "lost = ?rows ! ?m"
  have m: "?m < length ?rows" using long assms(2) by simp
  have f2': "f2 = f1 @ [lost]"
    using m long by (simp add: f1 f2 lost_def Suc_diff_le take_Suc_conv_app_nth)
  have lost1: "lost \<in> set (unfolded_turn_rows sid db1)" using m by (simp add: rows1 lost_def)
  have "distinct (map turn_id (f1 @ [lost]))"
    using unfolded_distinct [OF assms(1), of sid] m
    by (metis f1 f2' take_Suc_conv_app_nth lost_def take_map distinct_take)
  then have notin: "lost \<notin> set f1" by (auto simp: image_iff)
  have "turn_id lost \<notin> turn_id ` set (unfolded_turn_rows sid db3)"
    by (auto simp: assms(6,7) unfolded_commit f2')
  moreover have "sid \<in> dom (sessions db2)"
    using plan_ask(3) [OF assms(5)] by (simp add: assms(6))
  then obtain r where "sessions db3 sid = Some r" "session_summary r = strip (f p1)"
    using commit_session assms(7) by blast
  moreover have "\<exists>old n. p1 = build_summary_prompt old f1 n"
    using assms(3) by (auto simp: summarize_plan_def Let_def split: option.splits if_splits)
  ultimately show ?thesis
    using lost1 notin by (auto simp: unfolded_turn_rows_def)
qed

theorem overlapping_summaries_lose_turn_witness:
  "\<exists>p1 f1 p2 f2 lost.
     summarize_plan sample_memory ''s'' two_turns = AskModel p1 f1
     \<and> summarize_plan sample_memory ''s'' (insert_turn ''s'' ''user'' ''third'' 3 two_turns) = AskModel p2 f2
     \<and> lost \<notin> set f1
     \<and> turn_id lost \<notin> turn_id ` set (unfolded_turn_rows ''s''
         (summarize_commit ''s'' (strip p1) f1 5
           (summarize_commit ''s'' (strip p2) f2 4 (insert_turn ''s'' ''user'' ''third'' 3 two_turns))))"
proof -
  have asks: "\<exists>p f. summarize_plan sample_memory ''s'' db = AskModel p f"
    if "''s'' \<in> dom (sessions db)" "1 < length (unfolded_turn_rows ''s'' db)" for db
    using that by (intro long_asks) (simp_all add: sample_memory_def)
  have "\<exists>p f. summarize_plan sample_memory ''s'' two_turns = AskModel p f"
    by (rule asks) (simp_all add: two_turns_def insert_turn_def ensure_session_def empty_db_def
        unfolded_turn_rows_def Let_def)
  then obtain p1 f1 where 1: "summarize_plan sample_memory ''s'' two_turns = AskModel p1 f1" by blast
  have "\<exists>p f. summarize_plan sample_memory ''s'' (insert_turn ''s'' ''user'' ''third'' 3 two_turns)
      = AskModel p f"
    by (rule asks) (simp_all add: two_turns_def insert_turn_def ensure_session_def empty_db_def
        unfolded_turn_rows_def Let_def)
  then obtain p2 f2 where 2: "summarize_plan sample_memory ''s''
      (insert_turn ''s'' ''user'' ''third'' 3 two_turns) = AskModel p2 f2" by blast
  have keep: "0 < recent_turns_to_keep sample_memory" by (simp add: sample_memory_def)
  show ?thesis
    using overlapping_summaries_lose_turn [OF two_turns_inv keep 1 refl 2 refl refl,
        where f = "\<lambda>p. p" and ?t1.0 = 5 and ?t2.0 = 4] 1 2
    by blast
qed

end
