(* ===== verification/CypherGuard.thy ===== *)
theory CypherGuard
  imports PyRegex
begin

text \<open>
  The guard in front of the read-only graph transaction (\<open>core/querying/safety.py\<close>): comments
  are removed and string and quoted-identifier literals masked, the rest is upper-cased, and
  the query is rejected when a write clause is left in it. Texts are ASCII.
\<close>

section \<open>Masking\<close>

text \<open>The inner loop over a block comment, and the step over its end.\<close>

fun skip_block :: "string \<Rightarrow> string" where
  "skip_block (x # y # s) = (if x = CHR ''*'' \<and> y = CHR ''/'' then s else skip_block (y # s))"
| "skip_block _ = []"

text \<open>The inner loop over a quoted literal: backslash pairs and doubled quotes stay inside.\<close>

fun skip_quoted :: "char \<Rightarrow> string \<Rightarrow> string" where
  "skip_quoted q [] = []"
| "skip_quoted q [c] = []"
| "skip_quoted q (c # d # s) =
     (if c = CHR 0x5C then skip_quoted q s
      else if c = q then (if d = q then skip_quoted q s else d # s)
      else skip_quoted q (d # s))"

lemma length_skip_block: "length (skip_block s) \<le> length s"
  by (induction s rule: skip_block.induct) auto

lemma length_skip_quoted: "length (skip_quoted q s) \<le> length s"
  by (induction q s rule: skip_quoted.induct) auto

definition is_quote :: "char \<Rightarrow> bool" where
  "is_quote c \<longleftrightarrow> c = CHR 0x27 \<or> c = CHR 0x22 \<or> c = CHR 0x60"

function strip_comments_and_strings :: "string \<Rightarrow> string" where
  "strip_comments_and_strings [] = []"
| "strip_comments_and_strings (c # s) =
     (if c = CHR ''/'' \<and> starts_with s ''/''
      then strip_comments_and_strings (dropWhile (\<lambda>d. d \<noteq> CHR 0x0A) (tl s))
      else if c = CHR ''/'' \<and> starts_with s ''*''
      then strip_comments_and_strings (skip_block (tl s))
      else if is_quote c
      then CHR '' '' # strip_comments_and_strings (skip_quoted c s)
      else c # strip_comments_and_strings s)"
  by pat_completeness auto
termination
  by (relation "measure length")
    (auto simp: less_Suc_eq_le intro: length_skip_quoted
      order_trans [OF length_dropWhile_le] order_trans [OF length_skip_block])

definition normalize_cypher :: "string \<Rightarrow> string" where
  "normalize_cypher cypher = py_upper (strip_comments_and_strings cypher)"

section \<open>The guard\<close>

definition call_db :: string where
  "call_db = ''CALL db.*''"

definition call_db_rx :: rx where
  "call_db_rx = Seq WordB (Seq (Lit ''CALL'') (Seq (Plus (Chr is_space)) (Lit ''DB.'')))"

definition load_csv_rx :: rx where
  "load_csv_rx =
     Seq WordB (Seq (Lit ''LOAD'') (Seq (Plus (Chr is_space)) (Seq (Lit ''CSV'') WordB)))"

definition write_words :: "string list" where
  "write_words = [''CREATE'', ''MERGE'', ''DELETE'', ''DETACH'', ''SET'', ''REMOVE'', ''DROP'']"

definition write_clauses :: "(string \<times> rx) list" where
  "write_clauses =
     map (\<lambda>w. (w, word_rx w)) write_words @ [(call_db, call_db_rx), (''LOAD CSV'', load_csv_rx)]"

definition trusted_call :: "string \<Rightarrow> bool" where
  "trusted_call snippet \<longleftrightarrow>
     starts_with snippet ''CALL DB.INDEX.FULLTEXT.QUERYNODES'' \<or>
     starts_with snippet ''CALL DB.INDEX.VECTOR.QUERYNODES''"

text \<open>The position of the clause's match, for \<open>CALL db.*\<close> the first that is not trusted.\<close>

definition clause_start :: "string \<Rightarrow> string \<times> rx \<Rightarrow> nat option" where
  "clause_start n cl =
     (case cl of (clause, r) \<Rightarrow>
        (case search r n of
           None \<Rightarrow> None
         | Some (start, stop) \<Rightarrow>
             if clause = call_db
             then map_option fst
                    (find (\<lambda>(k, j). \<not> trusted_call (drop k n)) (find_all_from r n 0))
             else Some start))"

definition earlier ::
    "string \<Rightarrow> string \<times> rx \<Rightarrow> (nat \<times> string) option \<Rightarrow> (nat \<times> string) option" where
  "earlier n cl earliest =
     (case clause_start n cl of
        None \<Rightarrow> earliest
      | Some start \<Rightarrow>
          (case earliest of
             None \<Rightarrow> Some (start, fst cl)
           | Some (e, c) \<Rightarrow> if start < e then Some (start, fst cl) else earliest))"

datatype query_rejected = QueryRejected string

definition guard_readonly :: "string \<Rightarrow> query_rejected + string" where
  "guard_readonly cypher =
     (case fold (earlier (normalize_cypher cypher)) write_clauses None of
        Some (start, clause) \<Rightarrow> Inl (QueryRejected clause)
      | None \<Rightarrow> Inr cypher)"

definition has_limit :: "string \<Rightarrow> bool" where
  "has_limit cypher = found (word_rx ''LIMIT'') (normalize_cypher cypher)"

section \<open>What the guard rejects\<close>

text \<open>A write clause at a position of the normalized text.\<close>

definition offends :: "string \<Rightarrow> string \<Rightarrow> nat \<Rightarrow> bool" where
  "offends n clause k \<longleftrightarrow> k \<le> length n \<and>
     (\<exists>r j. (clause, r) \<in> set write_clauses \<and> matches r n k j \<and>
        (clause = call_db \<longrightarrow> \<not> trusted_call (drop k n)))"

lemma matches_spaces:
  "matches r s i j \<Longrightarrow> r = Star (Chr is_space) \<Longrightarrow> \<forall>m. i \<le> m \<and> m < j \<longrightarrow> is_space (s ! m)"
proof (induction rule: matches.induct)
  case (StarC a s i j k)
  then have "matches (Chr is_space) s i j" by simp
  then have "j = Suc i" "is_space (s ! i)" by (auto elim: matches_ChrE)
  with StarC show ?case by (metis Suc_leI le_neq_implies_less rx.inject(5))
qed auto

lemma lit_nth:
  assumes "matches (Lit w) s i j" "i \<le> m" "m < j"
  shows "s ! m = w ! (m - i)" and "m - i < length w"
proof -
  from assms(1) have w: "take (length w) (drop i s) = w" "j = i + length w" "i \<le> length s"
    by (auto elim!: matches_LitE simp: slice_def)
  then have len: "i + length w \<le> length s" by (intro take_drop_length) simp_all
  from w(2) assms(2,3) show less: "m - i < length w" by linarith
  have "w ! (m - i) = take (length w) (drop i s) ! (m - i)" using w(1) by simp
  also have "\<dots> = s ! (i + (m - i))" using less w(3) by (simp del: add_diff_inverse_nat)
  finally show "s ! m = w ! (m - i)" using assms(2) by simp
qed

text \<open>Inside a match of \<open>CALL db.\<close> no other one starts, so \<open>finditer\<close> visits all of them.\<close>

lemma call_db_inner:
  assumes "matches call_db_rx s k j" "k < m" "m < j"
  shows "s ! m \<noteq> CHR ''C''"
proof -
  from assms(1) obtain a b c where
    l1: "matches (Lit ''CALL'') s k a" and sp: "matches (Chr is_space) s a b"
    and sps: "matches (Star (Chr is_space)) s b c" and l2: "matches (Lit ''DB.'') s c j"
    unfolding call_db_rx_def by (auto elim!: matches_SeqE matches_WordBE)
  from l1 have a: "a = k + 4" by (auto elim!: matches_LitE)
  from sp have b: "b = Suc a" "is_space (s ! a)" by (auto elim: matches_ChrE)
  consider "m < a" | "m = a" | "b \<le> m" "m < c" | "c \<le> m" using b by linarith
  then show ?thesis
  proof cases
    case 1
    then have "m - k = 1 \<or> m - k = 2 \<or> m - k = 3" using assms(2) a by linarith
    with lit_nth(1) [OF l1, of m] 1 assms(2) show ?thesis by auto
  next
    case 2
    with b show ?thesis by (auto simp: is_space_def in_range_def)
  next
    case 3
    with matches_spaces [OF sps] show ?thesis by (auto simp: is_space_def in_range_def)
  next
    case 4
    then have "s ! m \<in> set ''DB.''" using lit_nth [OF l2 _ assms(3)] nth_mem by metis
    then show ?thesis by auto
  qed
qed

lemma call_db_starts: "matches call_db_rx s k j \<Longrightarrow> s ! k = CHR ''C'' \<and> k + 4 \<le> j"
proof -
  assume "matches call_db_rx s k j"
  then obtain a b c where l1: "matches (Lit ''CALL'') s k a" and sp: "matches (Chr is_space) s a b"
    and sps: "matches (Star (Chr is_space)) s b c" and l2: "matches (Lit ''DB.'') s c j"
    unfolding call_db_rx_def by (auto elim!: matches_SeqE matches_WordBE)
  from l1 have "a = k + 4" by (auto elim!: matches_LitE)
  moreover from l1 this have "a \<le> length s"
    using matches_range [OF l1] by (auto elim: matches_LitE)
  moreover from this sp have "b \<le> length s" using matches_range [OF sp] by simp
  moreover from this sps have "b \<le> c" using matches_range [OF sps] by simp
  moreover from l2 have "c \<le> j" by (auto elim!: matches_LitE)
  moreover from sp have "a \<le> b" by (auto elim!: matches_ChrE)
  ultimately show ?thesis using lit_nth(1) [OF l1, of k] by simp
qed

lemma call_db_visited:
  assumes "matches call_db_rx s m j" "m \<le> length s"
  shows "\<exists>j'. (m, j') \<in> set (find_all_from call_db_rx s 0)"
  using find_all_from_complete [OF _ assms(1) _ assms(2)] call_db_inner call_db_starts by blast

lemma find_sorted:
  "sorted (map f xs) \<Longrightarrow> find P xs = Some x \<Longrightarrow> x \<in> set xs \<and> P x \<and> (\<forall>y \<in> set xs. P y \<longrightarrow> f x \<le> f y)"
  by (induction xs) (auto split: if_splits)

lemma distinct_clauses: "(c, r) \<in> set write_clauses \<Longrightarrow> (c, r') \<in> set write_clauses \<Longrightarrow> r = r'"
  by (auto simp: write_clauses_def write_words_def call_db_def)

lemma call_db_clause: "(call_db, r) \<in> set write_clauses \<Longrightarrow> r = call_db_rx"
  by (auto simp: write_clauses_def write_words_def call_db_def)

text \<open>A clause's start is its first offence.\<close>

lemma clause_start_spec:
  assumes "(c, r) \<in> set write_clauses"
  shows "case clause_start n (c, r) of
           None \<Rightarrow> (\<forall>k. \<not> offends n c k)
         | Some k \<Rightarrow> offends n c k \<and> (\<forall>m. offends n c m \<longrightarrow> k \<le> m)"
proof (cases "c = call_db")
  case False
  show ?thesis
  proof (cases "search r n")
    case None
    then have "\<not> found r n" by (simp add: search_None)
    then have "\<not> offends n c k" for k
      using distinct_clauses [OF assms] unfolding offends_def found_iff by blast
    with None show ?thesis by (simp add: clause_start_def)
  next
    case (Some p)
    obtain k j where p: "p = (k, j)" by (cases p)
    from Some p have kj: "search r n = Some (k, j)" by simp
    have "offends n c k"
      unfolding offends_def using search_Some(1,2) [OF kj] assms False by blast
    moreover have "k \<le> m" if "offends n c m" for m
      using that search_Some(3) [OF kj] distinct_clauses [OF assms] unfolding offends_def
      by (metis not_le)
    ultimately show ?thesis using kj False by (simp add: clause_start_def)
  qed
next
  case True
  with assms have r: "r = call_db_rx" using call_db_clause by simp
  let ?bad = "\<lambda>(k, j). \<not> trusted_call (drop k n)" and ?all = "find_all_from call_db_rx n 0"
  have off: "offends n call_db k \<longleftrightarrow> (\<exists>j. (k, j) \<in> set ?all \<and> \<not> trusted_call (drop k n))" for k
  proof
    assume "offends n call_db k"
    then obtain r' j where "(call_db, r') \<in> set write_clauses" "matches r' n k j" "k \<le> length n"
      "\<not> trusted_call (drop k n)" by (auto simp: offends_def)
    with call_db_visited call_db_clause show "\<exists>j. (k, j) \<in> set ?all \<and> \<not> trusted_call (drop k n)"
      by blast
  next
    assume "\<exists>j. (k, j) \<in> set ?all \<and> \<not> trusted_call (drop k n)"
    with find_all_from_sound show "offends n call_db k"
      unfolding offends_def using assms True r by blast
  qed
  show ?thesis
  proof (cases "search call_db_rx n")
    case None
    then have "\<not> found call_db_rx n" by (simp add: search_None)
    then have "\<not> offends n call_db k" for k
      using call_db_clause unfolding offends_def found_iff by blast
    with None True r show ?thesis by (simp add: clause_start_def)
  next
    case (Some p)
    then have start: "clause_start n (c, r) = map_option fst (find ?bad ?all)"
      using True r by (auto simp: clause_start_def split: prod.split)
    show ?thesis
    proof (cases "find ?bad ?all")
      case None
      then have "\<forall>k. \<not> offends n call_db k" unfolding off find_None_iff by auto
      with None start True show ?thesis by simp
    next
      case (Some q)
      from find_sorted [OF find_all_from_sorted this]
      have q: "q \<in> set ?all" "?bad q" and min: "\<And>y. y \<in> set ?all \<Longrightarrow> ?bad y \<Longrightarrow> fst q \<le> fst y"
        by blast+
      obtain k j where kj: "q = (k, j)" by (cases q)
      have "offends n call_db (fst q)" unfolding off using q unfolding kj prod.case fst_conv by blast
      moreover have "fst q \<le> m" if "offends n call_db m" for m
      proof -
        from that obtain j' where "(m, j') \<in> set ?all" "\<not> trusted_call (drop m n)"
          unfolding off by blast
        with min [of "(m, j')"] show ?thesis unfolding prod.case fst_conv by blast
      qed
      ultimately have "offends n call_db (fst q) \<and> (\<forall>m. offends n call_db m \<longrightarrow> fst q \<le> m)"
        by blast
      with Some start True show ?thesis by simp
    qed
  qed
qed

lemma earlier_fold:
  assumes "set cls \<subseteq> set write_clauses"
    and "case e of None \<Rightarrow> (\<forall>c k. c \<in> D \<longrightarrow> \<not> offends n c k)
         | Some (k, c) \<Rightarrow> offends n c k \<and> (\<forall>c' m. c' \<in> D \<longrightarrow> offends n c' m \<longrightarrow> k \<le> m)"
  shows "case fold (earlier n) cls e of
           None \<Rightarrow> (\<forall>c k. c \<in> D \<union> fst ` set cls \<longrightarrow> \<not> offends n c k)
         | Some (k, c) \<Rightarrow> offends n c k \<and>
             (\<forall>c' m. c' \<in> D \<union> fst ` set cls \<longrightarrow> offends n c' m \<longrightarrow> k \<le> m)"
  using assms
proof (induction cls arbitrary: e D)
  case Nil
  then show ?case by (cases e) auto
next
  case (Cons cl cls)
  obtain c r where cl: "cl = (c, r)" by (cases cl)
  have spec: "case clause_start n (c, r) of None \<Rightarrow> (\<forall>k. \<not> offends n c k)
         | Some k \<Rightarrow> offends n c k \<and> (\<forall>m. offends n c m \<longrightarrow> k \<le> m)"
    using Cons.prems(1) cl by (intro clause_start_spec) simp
  have "case earlier n cl e of None \<Rightarrow> (\<forall>c' k. c' \<in> insert c D \<longrightarrow> \<not> offends n c' k)
         | Some (k, c0) \<Rightarrow> offends n c0 k \<and> (\<forall>c' m. c' \<in> insert c D \<longrightarrow> offends n c' m \<longrightarrow> k \<le> m)"
  proof (cases "clause_start n (c, r)")
    case None
    with spec Cons.prems(2) show ?thesis
      by (auto simp: earlier_def cl split: option.splits)
  next
    case (Some k)
    with spec have k: "offends n c k" "\<And>m. offends n c m \<Longrightarrow> k \<le> m" by auto
    show ?thesis
    proof (cases e)
      case None
      with Some k Cons.prems(2) show ?thesis by (auto simp: earlier_def cl)
    next
      case (Some p)
      obtain k0 c0 where p: "p = (k0, c0)" by (cases p)
      with Some Cons.prems(2) have "offends n c0 k0"
        "\<And>c' m. c' \<in> D \<Longrightarrow> offends n c' m \<Longrightarrow> k0 \<le> m" by auto
      with k \<open>clause_start n (c, r) = Some k\<close> Some p show ?thesis
        by (auto simp: earlier_def cl intro: order_trans) (meson le_trans nat_le_linear not_less)+
    qed
  qed
  then have "case fold (earlier n) cls (earlier n cl e) of
      None \<Rightarrow> (\<forall>c' k. c' \<in> insert c D \<union> fst ` set cls \<longrightarrow> \<not> offends n c' k)
    | Some (k, c0) \<Rightarrow> offends n c0 k \<and>
        (\<forall>c' m. c' \<in> insert c D \<union> fst ` set cls \<longrightarrow> offends n c' m \<longrightarrow> k \<le> m)"
    using Cons.prems(1) by (intro Cons.IH) simp_all
  moreover have "insert c D \<union> fst ` set cls = D \<union> fst ` set (cl # cls)" by (auto simp: cl)
  ultimately show ?case by (simp only: fold_simps)
qed

lemma guard_cases:
  "case guard_readonly s of
     Inr s' \<Rightarrow> s' = s \<and> (\<forall>c k. \<not> offends (normalize_cypher s) c k)
   | Inl (QueryRejected c) \<Rightarrow>
       \<exists>k. offends (normalize_cypher s) c k \<and>
           (\<forall>c' m. offends (normalize_cypher s) c' m \<longrightarrow> k \<le> m)"
proof -
  let ?n = "normalize_cypher s"
  have all: "c \<in> fst ` set write_clauses" if "offends ?n c k" for c k
    using that by (force simp: offends_def)
  have "case fold (earlier ?n) write_clauses None of
      None \<Rightarrow> (\<forall>c k. c \<in> {} \<union> fst ` set write_clauses \<longrightarrow> \<not> offends ?n c k)
    | Some (k, c) \<Rightarrow> offends ?n c k \<and>
        (\<forall>c' m. c' \<in> {} \<union> fst ` set write_clauses \<longrightarrow> offends ?n c' m \<longrightarrow> k \<le> m)"
    by (rule earlier_fold) simp_all
  with all show ?thesis unfolding guard_readonly_def
    by (cases "fold (earlier ?n) write_clauses None") (auto, blast+)
qed

text \<open>A write keyword offends wherever it stands as a whole word.\<close>

lemma write_word_offends:
  assumes "w \<in> set write_words" and "n = u @ w @ t"
    and "boundary n (length u)" and "boundary n (length (u @ w))"
  shows "offends n w (length u)"
proof -
  have "matches (word_rx w) n (length u) (length (u @ w))"
    using assms(2-4) by (subst matches_word_rx) auto
  moreover have "(w, word_rx w) \<in> set write_clauses" "w \<noteq> call_db"
    using assms(1) by (auto simp: write_clauses_def write_words_def call_db_def)
  ultimately show ?thesis using assms(2) by (auto simp: offends_def)
qed

section \<open>What is masked\<close>

text \<open>A query as a sequence of code characters, comments and literals.\<close>

datatype piece = Code char | Line_Comment string | Block_Comment string | Quoted char string

fun render :: "piece \<Rightarrow> string" where
  "render (Code c) = [c]"
| "render (Line_Comment b) = ''//'' @ b"
| "render (Block_Comment b) = ''/*'' @ b @ ''*/''"
| "render (Quoted q b) = q # b @ [q]"

fun masked :: "piece \<Rightarrow> string" where
  "masked (Code c) = [c]"
| "masked (Line_Comment b) = []"
| "masked (Block_Comment b) = []"
| "masked (Quoted q b) = '' ''"

fun quoted_body :: "char \<Rightarrow> string \<Rightarrow> bool" where
  "quoted_body q [] = True"
| "quoted_body q [c] = (c \<noteq> CHR 0x5C \<and> c \<noteq> q)"
| "quoted_body q (c # d # s) =
     (if c = CHR 0x5C then quoted_body q s
      else if c = q then d = q \<and> quoted_body q s
      else quoted_body q (d # s))"

text \<open>A piece before the text \<open>t\<close> ends where it says.\<close>

fun piece_ok :: "piece \<Rightarrow> string \<Rightarrow> bool" where
  "piece_ok (Code c) t =
     (\<not> is_quote c \<and> (c = CHR ''/'' \<longrightarrow> \<not> starts_with t ''/'' \<and> \<not> starts_with t ''*''))"
| "piece_ok (Line_Comment b) t = (CHR 0x0A \<notin> set b \<and> (t = [] \<or> hd t = CHR 0x0A))"
| "piece_ok (Block_Comment b) t = (\<not> contains ''*/'' (b @ ''*''))"
| "piece_ok (Quoted q b) t = (is_quote q \<and> quoted_body q b \<and> \<not> starts_with t [q])"

fun pieces_ok :: "piece list \<Rightarrow> bool" where
  "pieces_ok [] = True"
| "pieces_ok (p # ps) = (piece_ok p (concat (map render ps)) \<and> pieces_ok ps)"

lemma skip_block_ok: "\<not> contains ''*/'' (b @ ''*'') \<Longrightarrow> skip_block (b @ CHR ''*'' # CHR ''/'' # t) = t"
proof (induction b)
  case Nil
  show ?case by simp
next
  case (Cons x b)
  then have ih: "skip_block (b @ CHR ''*'' # CHR ''/'' # t) = t" by simp
  have "\<not> starts_with (x # b @ ''*'') ''*/''" using Cons.prems by simp
  then have "skip_block ((x # b) @ CHR ''*'' # CHR ''/'' # t) = skip_block (b @ CHR ''*'' # CHR ''/'' # t)"
    by (cases b) auto
  with ih show ?case by simp
qed

lemma skip_quoted_ok:
  "q \<noteq> CHR 0x5C \<Longrightarrow> quoted_body q b \<Longrightarrow> \<not> starts_with t [q] \<Longrightarrow> skip_quoted q (b @ q # t) = t"
proof (induction q b rule: quoted_body.induct)
  case (1 q)
  then show ?case by (cases t) auto
next
  case (2 q c)
  then show ?case by (cases t) auto
next
  case (3 q c d s)
  then show ?case by (auto split: if_splits)
qed

lemma dropWhile_line:
  "CHR 0x0A \<notin> set b \<Longrightarrow> t = [] \<or> hd t = CHR 0x0A \<Longrightarrow> dropWhile (\<lambda>d. d \<noteq> CHR 0x0A) (b @ t) = t"
  by (cases t) (auto simp: dropWhile_append3)

lemma strip_piece:
  assumes "piece_ok p t"
  shows "strip_comments_and_strings (render p @ t) = masked p @ strip_comments_and_strings t"
proof (cases p)
  case (Code c)
  with assms show ?thesis by auto
next
  case (Line_Comment b)
  with assms dropWhile_line [of b t] show ?thesis by simp
next
  case (Block_Comment b)
  with assms have "skip_block (b @ CHR ''*'' # CHR ''/'' # t) = t" by (intro skip_block_ok) simp
  with Block_Comment show ?thesis by simp
next
  case (Quoted q b)
  with assms have q: "q \<noteq> CHR 0x5C" "q \<noteq> CHR ''/''" by (auto simp: is_quote_def)
  with Quoted assms have "skip_quoted q (b @ q # t) = t" by (intro skip_quoted_ok) auto
  with Quoted assms q show ?thesis by simp
qed

lemma strip_pieces: "pieces_ok ps \<Longrightarrow> strip_comments_and_strings (concat (map render ps)) = concat (map masked ps)"
  by (induction ps) (simp_all add: strip_piece)

section \<open>Properties\<close>

text \<open>
  C2: The guard is exact on the masked, upper-cased text. It accepts a query, unchanged, exactly
  when no write clause stands in that text: no write keyword as a whole word, no \<open>LOAD CSV\<close>, and
  no call of a \<open>db.\<close> procedure other than the two index queries, at any of its occurrences. When
  it rejects, it names a clause that offends and no clause offends at an earlier position.
\<close>

theorem guard_readonly_exact:
  "case guard_readonly s of
     Inr s' \<Rightarrow> s' = s \<and> (\<forall>c k. \<not> offends (normalize_cypher s) c k) \<and>
       (\<forall>w \<in> set write_words. \<not> found (word_rx w) (normalize_cypher s))
   | Inl (QueryRejected c) \<Rightarrow>
       \<exists>k. offends (normalize_cypher s) c k \<and>
           (\<forall>c' m. offends (normalize_cypher s) c' m \<longrightarrow> k \<le> m)"
proof -
  have "\<exists>k. offends n w k" if "w \<in> set write_words" "found (word_rx w) n" for n w
    using that write_word_offends unfolding found_word_rx by blast
  then have "\<not> found (word_rx w) (normalize_cypher s)"
    if "w \<in> set write_words" "\<forall>c k. \<not> offends (normalize_cypher s) c k" for w
    using that by blast
  with guard_cases [of s] show ?thesis
    by (cases "guard_readonly s") (simp_all split: query_rejected.split)
qed

theorem guard_readonly_exact_witness:
  "\<not> found (word_rx ''SET'') (normalize_cypher ''RETURN 'SET' AS n'')"
proof -
  have "guard_readonly ''RETURN 'SET' AS n''
      = Inr ''RETURN 'SET' AS n''"
    by code_simp
  with guard_readonly_exact [of "''RETURN 'SET' AS n''"] show ?thesis
    by (simp add: write_words_def)
qed

text \<open>
  C25: Masking is exact on lexed queries: for any sequence of code characters, comments and
  quoted literals, each ending where it says, what is left is the code characters with each
  literal replaced by one blank. So nothing inside a comment or a literal can trigger or hide a
  keyword.
\<close>

theorem masking_removes_comments_and_literals:
  assumes "pieces_ok ps"
  shows "strip_comments_and_strings (concat (map render ps)) = concat (map masked ps)"
  using assms by (rule strip_pieces)

definition sample_pieces :: "piece list" where
  "sample_pieces =
     [Code CHR ''n'', Quoted CHR 0x27 (''it'' @ [CHR 0x27, CHR 0x27]), Block_Comment ''* SET *'', Code CHR ''x'',
      Line_Comment '' DROP'']"

theorem masking_removes_comments_and_literals_witness:
  "strip_comments_and_strings (concat (map render sample_pieces)) = ''n x''"
proof -
  have "pieces_ok sample_pieces" by code_simp
  from masking_removes_comments_and_literals [OF this] show ?thesis
    by (simp add: sample_pieces_def)
qed

text \<open>
  A block comment is removed without leaving a separator, so it joins the words on its two
  sides and the guard gives the same verdict as on the joined text: a write keyword that only a
  comment separates from the word before it is not seen.
\<close>

theorem comment_joins_words:
  assumes "pieces_ok (ps @ Block_Comment b # qs)" and "pieces_ok (ps @ qs)"
  shows "(guard_readonly (concat (map render (ps @ Block_Comment b # qs)))
            = Inr (concat (map render (ps @ Block_Comment b # qs))))
     \<longleftrightarrow> (guard_readonly (concat (map render (ps @ qs))) = Inr (concat (map render (ps @ qs))))"
proof -
  have "normalize_cypher (concat (map render (ps @ Block_Comment b # qs)))
      = normalize_cypher (concat (map render (ps @ qs)))"
    using strip_pieces [OF assms(1)] strip_pieces [OF assms(2)] by (simp add: normalize_cypher_def)
  then show ?thesis by (simp add: guard_readonly_def split: option.split)
qed

theorem comment_joins_words_witness:
  "guard_readonly ''WITH n/**/SET n.x = 1'' = Inr ''WITH n/**/SET n.x = 1''
   \<and> guard_readonly ''WITH n SET n.x = 1'' = Inl (QueryRejected ''SET'')"
proof
  let ?ps = "map Code ''WITH n''" and ?qs = "map Code ''SET n.x = 1''"
  have 1: "pieces_ok (?ps @ Block_Comment '''' # ?qs)" by code_simp
  have 2: "pieces_ok (?ps @ ?qs)" by code_simp
  have "guard_readonly ''WITH nSET n.x = 1'' = Inr ''WITH nSET n.x = 1''"
    by code_simp
  then show "guard_readonly ''WITH n/**/SET n.x = 1'' = Inr ''WITH n/**/SET n.x = 1''"
    using comment_joins_words [OF 1 2] by simp
  show "guard_readonly ''WITH n SET n.x = 1'' = Inl (QueryRejected ''SET'')" by code_simp
qed

end
