(* ===== verification/Router.thy ===== *)
theory Router
  imports PyRegex Ledger Memory
begin

text \<open>
  Query routing (\<open>core/orchestration/router.py\<close>, \<open>scope.py\<close>, \<open>models.py\<close>): the heuristic entity
  extraction, the keyword rules, the normalization that keeps codebase questions grounded in
  the graph, and the one call of the routing model with its fallback on the rules. The model is
  a parameter, a function of the prompt it is sent; queries are ASCII text.
\<close>

section \<open>Models\<close>

datatype agent_name = Indexer | GraphQuery | CodeAnalyst | MemoryAgent

text \<open>The position in \<open>_AGENT_ORDER\<close> orders the agents.\<close>

fun agent_rank :: "agent_name \<Rightarrow> nat" where
  "agent_rank Indexer = 0"
| "agent_rank GraphQuery = 1"
| "agent_rank CodeAnalyst = 2"
| "agent_rank MemoryAgent = 3"

lemma agent_rank_inj: "agent_rank a = agent_rank b \<longleftrightarrow> a = b"
  by (cases a; cases b) simp_all

instantiation agent_name :: linorder
begin

definition less_eq_agent_name :: "agent_name \<Rightarrow> agent_name \<Rightarrow> bool" where
  "a \<le> b \<longleftrightarrow> agent_rank a \<le> agent_rank b"

definition less_agent_name :: "agent_name \<Rightarrow> agent_name \<Rightarrow> bool" where
  "a < b \<longleftrightarrow> agent_rank a < agent_rank b"

instance
  by standard (auto simp: less_eq_agent_name_def less_agent_name_def agent_rank_inj)

end

fun agent_str :: "agent_name \<Rightarrow> string" where
  "agent_str Indexer = ''indexer''"
| "agent_str GraphQuery = ''graph_query''"
| "agent_str CodeAnalyst = ''code_analyst''"
| "agent_str MemoryAgent = ''memory''"

datatype routing_mode = By_LLM | By_Rules | By_Fallback

datatype intent_kind =
  Lookup | Relationship | Explanation | Pattern | Comparison | Indexing | Mixed

record query_intent =
  qi_mode :: routing_mode
  qi_intent :: intent_kind
  qi_entities :: "string list"
  qi_targets :: "agent_name list"
  qi_reasoning :: string

record execution_plan =
  pl_mode :: routing_mode
  pl_intent :: query_intent
  pl_agents :: "agent_name list"
  pl_terms :: "string list option"
  pl_iteration :: int
  pl_refinement :: string
  pl_retry_tools :: "string list option"

record rule_route =
  rr_targets :: "agent_name list"
  rr_matched :: "string list"
  rr_ambiguous :: bool

text \<open>\<open>ConversationContext\<close>: the summary and the recent turns.\<close>

type_synonym context_window = "string \<times> turn list"

section \<open>Patterns\<close>

definition referring_words :: "string list" where
  "referring_words =
     [''it'', ''its'', ''this'', ''that'', ''these'', ''those'', ''them'', ''they'', ''their'']"

definition referring_rx :: rx where
  "referring_rx = seqs [WordB, alts (map Lit referring_words), WordB]"

definition grounding_words :: "string list" where
  "grounding_words =
     [''example'', ''examples'', ''implementation'', ''implemented'', ''codebase'', ''source'', ''snippet'']"

definition lower_digit :: "char \<Rightarrow> bool" where
  "lower_digit c \<longleftrightarrow> is_lower c \<or> is_digit c"

definition word_char_lower :: "char \<Rightarrow> bool" where
  "word_char_lower c \<longleftrightarrow> lower_digit c \<or> c = CHR ''_''"

definition identifier_rx :: rx where
  "identifier_rx =
     seqs [WordB,
       alts [Seq (Chr is_upper) (Plus (Chr is_word)),
             seqs [Chr (\<lambda>c. is_lower c \<or> c = CHR ''_''), Star (Chr word_char_lower), Lit ''.'',
                   Plus (Chr (\<lambda>c. word_char_lower c \<or> c = CHR ''.''))],
             seqs [Chr is_lower, Star (Chr lower_digit), Plus (Seq (Lit ''_'') (Plus (Chr lower_digit)))]],
       WordB]"

definition quoted_rx :: rx where
  "quoted_rx =
     alts (map (\<lambda>q. seqs [Lit [q], Plus (Chr (\<lambda>c. c \<noteq> q)), Lit [q]])
             [CHR 0x60, CHR 0x22, CHR 0x27])"

definition query_token_rx :: rx where
  "query_token_rx =
     Seq (Chr (\<lambda>c. is_upper c \<or> is_lower c \<or> c = CHR ''_'')) (Star (Chr is_word))"

definition lookup_filler :: "string list" where
  "lookup_filler =
     [''a'', ''an'', ''and'', ''are'', ''as'', ''at'', ''be'', ''by'', ''class'', ''classes'',
      ''compare'', ''depend'', ''dependent'', ''dependents'', ''depends'', ''does'', ''explain'',
      ''file'', ''files'', ''find'', ''for'', ''from'', ''function'', ''functions'', ''how'',
      ''inherit'', ''inherits'', ''is'', ''its'', ''list'', ''method'', ''methods'', ''module'',
      ''modules'', ''of'', ''on'', ''please'', ''show'', ''the'', ''then'', ''this'', ''what'',
      ''where'', ''who'', ''why'']"

definition identifier_filler_exceptions :: "string list" where
  "identifier_filler_exceptions =
     [''class'', ''classes'', ''depend'', ''dependent'', ''dependents'', ''depends'', ''file'',
      ''files'', ''function'', ''functions'', ''inherit'', ''inherits'', ''method'', ''methods'',
      ''module'', ''modules'']"

definition supported_patterns :: "string list" where
  "supported_patterns = [''decorator'', ''dependency_injection'', ''factory'']"

text \<open>A pattern name as a regular expression: an underscore stands for white space.\<close>

definition name_rx :: "string \<Rightarrow> rx list" where
  "name_rx name = map (\<lambda>c. if c = CHR ''_'' then Plus (Chr is_space) else Lit [c]) name"

definition pattern_intent_regex :: rx where
  "pattern_intent_regex =
     seqs [WordB,
       alts (seqs [Lit ''pattern'', Opt (Lit ''s'')]
             # map (\<lambda>name. if ends_with name ''y''
                            then seqs (name_rx (butlast name) @ [alts [Lit ''y'', Lit ''ies'']])
                            else seqs (name_rx name @ [Opt (Lit ''s'')])) supported_patterns),
       WordB]"

definition out_of_scope_words :: "string list" where
  "out_of_scope_words =
     [''django'', ''rails'', ''activerecord'', ''kubernetes'', ''tensorflow'', ''gradienttape'',
      ''postgresql'', ''postgres'', ''useeffect'']"

definition out_of_scope_rx :: rx where
  "out_of_scope_rx =
     alts [seqs [WordB, alts (map Lit out_of_scope_words), WordB],
           seqs [Lit ''write'', Chr (\<lambda>c. c = CHR ''-'' \<or> is_space c), Lit ''ahead'', Plus (Chr is_space),
                 Lit ''log'', Opt (Lit ''ging'')],
           seqs [WordB, Lit ''react'', Opt (Lit [CHR 0x27, CHR ''s'']), WordB]]"

definition is_out_of_scope :: "string \<Rightarrow> bool" where
  "is_out_of_scope query = found out_of_scope_rx (py_lower query)"

section \<open>Entities and search terms\<close>

definition dedupe :: "string list \<Rightarrow> string list" where
  "dedupe items = add_all_new [] items"

text \<open>
  A quoted match has one non-empty group, the text between the quotes; it counts if it is not
  blank.
\<close>

definition rule_based_entities :: "string \<Rightarrow> string list" where
  "rule_based_entities query =
     (let quoted = map (\<lambda>(i, j). strip (slice query (Suc i) (j - 1))) (find_all_from quoted_rx query 0);
          skip = (\<lambda>token. py_lower token \<in> set lookup_filler \<and>
                          py_lower token \<notin> set identifier_filler_exceptions)
      in dedupe (filter (\<lambda>t. t \<noteq> []) quoted
                 @ filter (\<lambda>t. \<not> skip t) (find_all identifier_rx query)))"

definition wants_codebase_grounding :: "string \<Rightarrow> bool" where
  "wants_codebase_grounding query = found (alts (map Lit grounding_words)) (py_lower query)"

definition has_conceptual_residue :: "string \<Rightarrow> string list \<Rightarrow> bool" where
  "has_conceptual_residue query identifiers =
     (let known = map py_lower identifiers
      in list_ex (\<lambda>token. 1 < length token \<and> py_lower token \<notin> set lookup_filler
                    \<and> py_lower token \<notin> set known)
           (find_all query_token_rx query))"

definition retrieval_search_terms :: "string \<Rightarrow> string list option \<Rightarrow> string list" where
  "retrieval_search_terms query entities =
     (let given = (case entities of Some es \<Rightarrow> es | None \<Rightarrow> []);
          extracted = filter (\<lambda>t. t \<noteq> []) (map strip given);
          stripped = strip query;
          identifiers = dedupe (extracted @ rule_based_entities query)
      in if stripped \<noteq> [] \<and> (identifiers = [] \<or> wants_codebase_grounding query
                             \<or> has_conceptual_residue stripped identifiers)
         then dedupe (identifiers @ [stripped])
         else if identifiers \<noteq> [] then identifiers
         else if stripped \<noteq> [] then [stripped] else [])"

definition estimated_query_tokens :: "string \<Rightarrow> int" where
  "estimated_query_tokens query = (if query = [] then 0 else max 1 ((int (length query) + 3) div 4))"

definition has_referring_expression :: "string \<Rightarrow> bool" where
  "has_referring_expression query = found referring_rx (py_lower query)"

definition entities_from_context :: "context_window option \<Rightarrow> string list" where
  "entities_from_context ctx =
     (case ctx of
        None \<Rightarrow> []
      | Some (summary, recent_turns) \<Rightarrow>
          (let from_turns = concat (map (\<lambda>t. rule_based_entities (turn_content t))
                              (filter (\<lambda>t. turn_role t = ''user'') (rev recent_turns)));
               s = strip summary
           in dedupe (from_turns @ (if s = [] then [] else rule_based_entities s))))"

definition resolve_entities :: "string \<Rightarrow> string list \<Rightarrow> context_window option \<Rightarrow> string list" where
  "resolve_entities query extracted ctx =
     (let prior = entities_from_context ctx in
      if extracted = [] then prior
      else if has_referring_expression query \<and> prior \<noteq> [] then dedupe (prior @ extracted)
      else extracted)"

section \<open>Agents of an intent\<close>

definition agent_order :: "agent_name list" where
  "agent_order = [Indexer, GraphQuery, CodeAnalyst, MemoryAgent]"

text \<open>The two loops over the order and over the given agents.\<close>

definition ordered_agents :: "agent_name list \<Rightarrow> agent_name list" where
  "ordered_agents agents =
     add_all_new (add_all_new [] (filter (\<lambda>a. a \<in> set agents) agent_order)) agents"

definition index_rx :: rx where
  "index_rx = alts [seqs [WordB, Lit ''index'', WordB], seqs [WordB, Lit ''reindex'', WordB]]"

definition fallback_target_agents :: "string \<Rightarrow> agent_name list" where
  "fallback_target_agents query =
     (let agents = [GraphQuery, CodeAnalyst];
          agents = (if found index_rx (py_lower query) then Indexer # agents else agents)
      in ordered_agents agents)"

definition grounded_kind :: "intent_kind \<Rightarrow> agent_name list \<Rightarrow> intent_kind" where
  "grounded_kind k agents =
     (if k = Indexing \<and> (GraphQuery \<in> set agents \<or> CodeAnalyst \<in> set agents) then Mixed
      else if k = Lookup \<or> k = Pattern then Explanation
      else if k = Relationship \<and> CodeAnalyst \<in> set agents then Mixed
      else k)"

definition normalize_grounded_intent :: "query_intent \<Rightarrow> string \<Rightarrow> query_intent" where
  "normalize_grounded_intent qi query =
     (if \<not> wants_codebase_grounding query then qi
      else
        (let agents = ordered_agents (qi_targets qi);
             agents = (if GraphQuery \<notin> set agents then ordered_agents (agents @ [GraphQuery]) else agents);
             agents = (if CodeAnalyst \<notin> set agents then ordered_agents (agents @ [CodeAnalyst]) else agents);
             new_kind = grounded_kind (qi_intent qi) agents
         in if agents = qi_targets qi \<and> new_kind = qi_intent qi then qi
            else qi\<lparr>qi_targets := agents, qi_intent := new_kind\<rparr>))"

section \<open>The keyword rules\<close>

definition wants_explanation :: "string \<Rightarrow> bool" where
  "wants_explanation lowered = found (alts [Lit ''explain'', Lit ''how does'', Lit ''why'']) lowered"

definition wants_relationships :: "string \<Rightarrow> bool" where
  "wants_relationships lowered =
     found (alts [Lit ''who calls'', Lit ''depends on'', Lit ''who depends'', Lit ''dependents'',
                  seqs [WordB, Lit ''import'', Opt (Lit ''s''), WordB],
                  Lit ''inherit'', Lit ''extends'', Lit ''subclass'', word_rx ''uses'']) lowered"

definition wants_lookup :: "string \<Rightarrow> bool" where
  "wants_lookup lowered \<longleftrightarrow>
     found (seqs [Bol, alts (map Lit [''what is'', ''where is'', ''find'', ''show'', ''list'']), WordB]) lowered
     \<or> contains ''what classes'' lowered \<or> contains ''what functions'' lowered
     \<or> contains ''what modules'' lowered"

definition no_route :: "string list \<Rightarrow> rule_route" where
  "no_route matched = \<lparr>rr_targets = [], rr_matched = matched, rr_ambiguous = True\<rparr>"

text \<open>
  Every wish adds one rule and one category; the two lists are kept side by side.
\<close>

definition matched_rules :: "string \<Rightarrow> (string \<times> string) list" where
  "matched_rules query =
     (let lowered = py_lower query;
          hits = map snd (filter fst
            [(found index_rx lowered, (''index'', ''indexing'')),
             (wants_relationships lowered, (''relationship'', ''relationship'')),
             (wants_lookup lowered, (''lookup'', ''lookup'')),
             (contains ''compare'' lowered, (''compare'', ''comparison'')),
             (wants_explanation lowered, (''explain'', ''explain'')),
             (found (alts (map Lit grounding_words)) lowered, (''examples'', ''examples'')),
             (found pattern_intent_regex lowered, (''pattern'', ''pattern''))]);
          hits = (if hits = [] \<and> has_referring_expression query then [(''lookup'', ''lookup'')] else hits)
      in if ''pattern'' \<in> set (map snd hits) \<and> ''explain'' \<in> set (map snd hits)
         then filter (\<lambda>h. snd h \<noteq> ''explain'') hits else hits)"

definition targets_of :: "string \<Rightarrow> agent_name list" where
  "targets_of category =
     (if category = ''indexing'' then [Indexer]
      else if category = ''lookup'' \<or> category = ''relationship'' then [GraphQuery]
      else if category = ''comparison'' then [GraphQuery, CodeAnalyst]
      else if category = ''pattern'' then [CodeAnalyst]
      else [GraphQuery, CodeAnalyst])"

definition rule_based_route :: "int \<Rightarrow> string \<Rightarrow> rule_route" where
  "rule_based_route rules_max_query_tokens query =
     (if rules_max_query_tokens < estimated_query_tokens query then no_route [''too_long'']
      else
        (let hits = matched_rules query;
             matched = map fst hits;
             compatible = filter (\<lambda>c. c \<noteq> ''lookup'') (map snd hits)
         in if matched = [] \<or> 1 < length compatible then no_route matched
            else
              (let category = (case compatible of c # _ \<Rightarrow> c | [] \<Rightarrow> ''lookup'')
               in \<lparr>rr_targets = targets_of category, rr_matched = matched, rr_ambiguous = False\<rparr>)))"

definition intent_from_rule_result ::
    "string \<Rightarrow> rule_route \<Rightarrow> routing_mode \<Rightarrow> context_window option \<Rightarrow> query_intent" where
  "intent_from_rule_result query route mode ctx =
     (let kind =
        (if rr_targets route = [Indexer] then Indexing
         else if rr_targets route = [CodeAnalyst] then Pattern
         else if rr_targets route = [GraphQuery]
         then (if ''relationship'' \<in> set (rr_matched route) then Relationship else Lookup)
         else if ''compare'' \<in> set (rr_matched route) then Comparison
         else Explanation)
      in normalize_grounded_intent
           \<lparr>qi_mode = mode, qi_intent = kind,
            qi_entities = resolve_entities query (rule_based_entities query) ctx,
            qi_targets = rr_targets route,
            qi_reasoning = ''rules: matched '' @ join '', '' (rr_matched route)\<rparr> query)"

section \<open>The routing model\<close>

definition apply_conversation_entities ::
    "query_intent \<Rightarrow> string \<Rightarrow> context_window option \<Rightarrow> query_intent" where
  "apply_conversation_entities qi query ctx =
     (let resolved = resolve_entities query (qi_entities qi) ctx
      in if resolved = qi_entities qi then qi else qi\<lparr>qi_entities := resolved\<rparr>)"

definition prior_entities_block :: "context_window option \<Rightarrow> string" where
  "prior_entities_block ctx =
     (let prior = entities_from_context ctx in
      if prior = [] then ''''
      else newline
        @ ''Previously mentioned entities (resolve referring expressions against these): ''
        @ join '', '' prior @ newline)"

text \<open>\<open>ROUTER_USER_PROMPT.format(...)\<close>\<close>

definition router_user_prompt :: "string \<Rightarrow> string \<Rightarrow> string" where
  "router_user_prompt query block =
     ''User query:'' @ newline @ query @ newline @ block @ newline
     @ ''Decide:'' @ newline
     @ ''- intent: what kind of task this is'' @ newline
     @ ''- entities: relevant names or file paths (if any)'' @ newline
     @ ''- target_agents: which agents should act. Valid agents: indexer, graph_query, code_analyst, memory.''
     @ newline
     @ ''  Repository-grounded questions (codebase / examples / source / implementation)'' @ newline
     @ ''  MUST include graph_query.'' @ newline
     @ ''- reasoning: short justification'' @ newline"

definition intent_from_rules_fallback ::
    "int \<Rightarrow> string \<Rightarrow> context_window option \<Rightarrow> query_intent" where
  "intent_from_rules_fallback max_tokens query ctx =
     (let fallback = rule_based_route max_tokens query in
      if rr_ambiguous fallback
      then normalize_grounded_intent
             \<lparr>qi_mode = By_Fallback, qi_intent = Mixed,
              qi_entities = resolve_entities query (rule_based_entities query) ctx,
              qi_targets = fallback_target_agents query,
              qi_reasoning = ''rules_fallback: ambiguous fallback defaulted to mixed''\<rparr> query
      else intent_from_rule_result query fallback By_Fallback ctx)"

text \<open>
  The model's reply: an exception, or the parsed intent if the reply has one, with its usage,
  which is charged to the request before the reply is looked at. \<open>CancelledError\<close> is no
  \<open>Exception\<close>.
\<close>

type_synonym router_model = "string \<Rightarrow> (query_intent option \<times> token_usage) result"

definition analyze_query ::
    "router_model \<Rightarrow> int \<Rightarrow> llm_settings \<Rightarrow> string option \<Rightarrow> string \<Rightarrow> context_window option
      \<Rightarrow> ledger option \<Rightarrow> ledger option \<times> query_intent result" where
  "analyze_query model max_tokens st cid query ctx l =
     (case model (router_user_prompt query (prior_entities_block ctx)) of
        Inl (RoutingError a m) \<Rightarrow> (l, Inl (RoutingError a m))
      | Inl Cancelled \<Rightarrow> (l, Inl Cancelled)
      | Inl e \<Rightarrow> (l, Inr (intent_from_rules_fallback max_tokens query ctx))
      | Inr (parsed, usage) \<Rightarrow>
          (let l' = (case (l, cid) of
                       (Some lg, Some c) \<Rightarrow> Some (record_usage st c Routing usage lg)
                     | _ \<Rightarrow> l)
           in (l', Inr (case parsed of
                          Some qi \<Rightarrow>
                            normalize_grounded_intent (apply_conversation_entities qi query ctx) query
                        | None \<Rightarrow> intent_from_rules_fallback max_tokens query ctx))))"

definition route_to_agents :: "query_intent \<Rightarrow> execution_plan result" where
  "route_to_agents qi =
     (if qi_targets qi = []
      then Inl (RoutingError ''orchestrator'' ''cannot route query: no target agents selected'')
      else Inr \<lparr>pl_mode = qi_mode qi, pl_intent = qi, pl_agents = qi_targets qi, pl_terms = None,
                pl_iteration = 1, pl_refinement = '''', pl_retry_tools = None\<rparr>)"

section \<open>Lemmas\<close>

lemma set_agent_order: "set agent_order = UNIV"
proof -
  have "a \<in> set agent_order" for a by (cases a) (simp_all add: agent_order_def)
  then show ?thesis by blast
qed

lemma ordered_agents_eq: "ordered_agents agents = filter (\<lambda>a. a \<in> set agents) agent_order"
proof -
  let ?f = "filter (\<lambda>a. a \<in> set agents) agent_order"
  have "distinct ?f" by (intro distinct_filter) (simp add: agent_order_def)
  then have "add_all_new [] ?f = ?f" using add_all_new_fresh [of ?f "[]"] by simp
  moreover have "add_all_new ?f agents = ?f"
    by (rule add_all_new_absorb) (auto simp: set_agent_order)
  ultimately show ?thesis by (simp add: ordered_agents_def)
qed

lemma set_ordered_agents [simp]: "set (ordered_agents agents) = set agents"
  by (auto simp: ordered_agents_eq set_agent_order)

lemma sorted_agent_order: "sorted_wrt (<) agent_order"
  by (simp add: agent_order_def less_agent_name_def)

text \<open>Ordering the agents is sorting their set.\<close>

lemma ordered_agents_sorted: "ordered_agents agents = sorted_list_of_set (set agents)"
proof (rule sorted_distinct_set_unique)
  have "sorted_wrt (<) (ordered_agents agents)"
    unfolding ordered_agents_eq by (rule sorted_wrt_filter [OF sorted_agent_order])
  then show "sorted (ordered_agents agents)" "distinct (ordered_agents agents)"
    by (simp_all add: strict_sorted_iff)
qed simp_all

lemma ordered_agents_cong: "set a = set b \<Longrightarrow> ordered_agents a = ordered_agents b"
  by (simp add: ordered_agents_sorted)

lemma normalize_not_grounded [simp]:
  "\<not> wants_codebase_grounding query \<Longrightarrow> normalize_grounded_intent qi query = qi"
  by (simp add: normalize_grounded_intent_def)

lemma keep_equal:
  "(if ts = qi_targets qi \<and> k = qi_intent qi then qi else qi\<lparr>qi_targets := ts, qi_intent := k\<rparr>)
     = qi\<lparr>qi_targets := ts, qi_intent := k\<rparr>"
  by simp

text \<open>A grounded query: both agents join, in order, and the kind is adapted to them.\<close>

lemma normalize_grounded:
  assumes "wants_codebase_grounding query"
  shows "normalize_grounded_intent qi query =
    qi\<lparr>qi_targets := ordered_agents (qi_targets qi @ [GraphQuery, CodeAnalyst]),
       qi_intent := grounded_kind (qi_intent qi) [GraphQuery, CodeAnalyst]\<rparr>"
proof -
  let ?A = "ordered_agents (qi_targets qi @ [GraphQuery, CodeAnalyst])"
  define a where "a = ordered_agents (qi_targets qi)"
  define a1 where "a1 = (if GraphQuery \<notin> set a then ordered_agents (a @ [GraphQuery]) else a)"
  define a2 where "a2 = (if CodeAnalyst \<notin> set a1 then ordered_agents (a1 @ [CodeAnalyst]) else a1)"
  have a: "set a = set (qi_targets qi)" by (simp add: a_def)
  have a1: "a1 = ordered_agents (qi_targets qi @ [GraphQuery])"
    unfolding a1_def using a by (auto simp: a_def intro: ordered_agents_cong)
  then have "set a1 = insert GraphQuery (set a)" by (auto simp: a)
  then have a2: "a2 = ?A"
    unfolding a2_def by (auto simp: a1 a intro!: ordered_agents_cong)
  have kind: "grounded_kind k ?A = grounded_kind k [GraphQuery, CodeAnalyst]" for k
    by (simp add: grounded_kind_def)
  have "normalize_grounded_intent qi query =
      (if a2 = qi_targets qi \<and> grounded_kind (qi_intent qi) a2 = qi_intent qi then qi
       else qi\<lparr>qi_targets := a2, qi_intent := grounded_kind (qi_intent qi) a2\<rparr>)"
    unfolding normalize_grounded_intent_def Let_def a_def a1_def a2_def using assms by simp
  also have "\<dots> = qi\<lparr>qi_targets := ?A, qi_intent := grounded_kind (qi_intent qi) ?A\<rparr>"
    unfolding a2 by (rule keep_equal)
  finally show ?thesis by (simp only: kind)
qed

lemma grounded_kind_idem:
  "grounded_kind (grounded_kind k [GraphQuery, CodeAnalyst]) [GraphQuery, CodeAnalyst]
     = grounded_kind k [GraphQuery, CodeAnalyst]"
  by (cases k) (simp_all add: grounded_kind_def)

lemma normalize_idem:
  "normalize_grounded_intent (normalize_grounded_intent qi query) query
     = normalize_grounded_intent qi query"
proof (cases "wants_codebase_grounding query")
  case True
  let ?ts = "qi_targets qi @ [GraphQuery, CodeAnalyst]"
  have "ordered_agents (ordered_agents ?ts @ [GraphQuery, CodeAnalyst]) = ordered_agents ?ts"
    by (rule ordered_agents_cong) auto
  with True show ?thesis by (simp add: normalize_grounded grounded_kind_idem)
qed simp

lemma normalize_targets_set:
  "set (qi_targets qi) \<subseteq> set (qi_targets (normalize_grounded_intent qi query))"
  by (cases "wants_codebase_grounding query") (auto simp: normalize_grounded)

lemma distinct_ordered_agents [simp]: "distinct (ordered_agents agents)"
  by (simp add: ordered_agents_sorted)

text \<open>The rules: a route is ambiguous exactly when it selects no agent.\<close>

lemma targets_of_ok: "targets_of c \<noteq> [] \<and> distinct (targets_of c)"
  by (simp add: targets_of_def)

lemma rule_route_ambiguous:
  "rr_ambiguous (rule_based_route n query) \<longleftrightarrow> rr_targets (rule_based_route n query) = []"
  using targets_of_ok by (auto simp: rule_based_route_def no_route_def Let_def)

lemma rule_route_distinct: "distinct (rr_targets (rule_based_route n query))"
  using targets_of_ok by (auto simp: rule_based_route_def no_route_def Let_def)

lemma fallback_targets: "distinct (fallback_target_agents q) \<and> {GraphQuery, CodeAnalyst} \<subseteq> set (fallback_target_agents q)"
  by (simp add: fallback_target_agents_def Let_def)

lemma normalize_distinct:
  "distinct (qi_targets qi) \<Longrightarrow> distinct (qi_targets (normalize_grounded_intent qi query))"
  by (cases "wants_codebase_grounding query") (auto simp: normalize_grounded)

lemma normalize_contains:
  "wants_codebase_grounding query \<Longrightarrow>
     {GraphQuery, CodeAnalyst} \<subseteq> set (qi_targets (normalize_grounded_intent qi query))"
  by (simp add: normalize_grounded)

text \<open>What the rules fallback builds can always be routed.\<close>

definition routable :: "string \<Rightarrow> query_intent \<Rightarrow> bool" where
  "routable query qi \<longleftrightarrow>
     qi_targets qi \<noteq> [] \<and> distinct (qi_targets qi) \<and>
     (wants_codebase_grounding query \<longrightarrow> {GraphQuery, CodeAnalyst} \<subseteq> set (qi_targets qi))"

lemma normalize_routable:
  assumes "qi_targets qi \<noteq> []" and "distinct (qi_targets qi)"
  shows "routable query (normalize_grounded_intent qi query)"
proof -
  have "set (qi_targets (normalize_grounded_intent qi query)) \<noteq> {}"
    using assms(1) normalize_targets_set [of qi query] by auto
  then show ?thesis
    using normalize_distinct [OF assms(2)] normalize_contains by (auto simp: routable_def)
qed

lemma fallback_routable: "routable query (intent_from_rules_fallback n query ctx)"
proof (cases "rr_ambiguous (rule_based_route n query)")
  case True
  have "fallback_target_agents query \<noteq> []" using fallback_targets [of query] by auto
  with True show ?thesis
    unfolding intent_from_rules_fallback_def Let_def
    using fallback_targets [of query] by (auto intro!: normalize_routable)
next
  case False
  then have "rr_targets (rule_based_route n query) \<noteq> []" by (simp add: rule_route_ambiguous)
  with False show ?thesis
    unfolding intent_from_rules_fallback_def intent_from_rule_result_def Let_def
    using rule_route_distinct by (auto intro!: normalize_routable)
qed

section \<open>Properties\<close>



text \<open>
  A question about the repository's code always reaches the graph and the analyst, whichever
  way it was routed: normalization adds exactly these two to the chosen agents, puts the result
  into the fixed agent order without duplicates, never leaves a kind of intent that would skip
  them, changes nothing else and nothing on other questions, and is idempotent.
\<close>

theorem grounded_intent_normal_form:
  "(if wants_codebase_grounding query
    then qi_targets (normalize_grounded_intent qi query)
           = sorted_list_of_set (set (qi_targets qi) \<union> {GraphQuery, CodeAnalyst})
         \<and> qi_intent (normalize_grounded_intent qi query) \<in> {Explanation, Comparison, Mixed}
    else normalize_grounded_intent qi query = qi)
   \<and> qi_entities (normalize_grounded_intent qi query) = qi_entities qi
   \<and> normalize_grounded_intent (normalize_grounded_intent qi query) query
       = normalize_grounded_intent qi query"
proof -
  have "insert GraphQuery (insert CodeAnalyst S) = S \<union> {GraphQuery, CodeAnalyst}" for S by auto
  moreover have "grounded_kind (qi_intent qi) [GraphQuery, CodeAnalyst] \<in> {Explanation, Comparison, Mixed}"
    by (cases "qi_intent qi") (simp_all add: grounded_kind_def)
  ultimately show ?thesis
    by (auto simp: normalize_idem normalize_grounded ordered_agents_sorted)
qed

end
