(* ===== verification/Evidence.thy ===== *)
theory Evidence
  imports Router
begin

text \<open>
  What the orchestrator makes of the specialists' answers: the tool plan of an intent (the pure
  part of \<open>core/orchestration/executor.py\<close>), the assessment of the evidence, the heuristic
  follow-up plan and the merging of rounds (\<open>core/orchestration/evidence.py\<close>). The output of an
  agent is a payload; a model object in it is seen through its \<open>model_dump\<close>.
\<close>

section \<open>Tool plans\<close>

record tool_plan =
  tp_first :: "string list"
  tp_parallel :: "string list"

definition no_tools :: tool_plan where
  "no_tools = \<lparr>tp_first = [], tp_parallel = []\<rparr>"

definition relationship_tools :: "string list" where
  "relationship_tools = [''get_dependencies'', ''get_dependents'', ''trace_imports'', ''find_related'']"

text \<open>\<open>INTENT_TOOL_MAP\<close>, with the empty plan for the missing entries.\<close>

fun intent_tool_map :: "intent_kind \<Rightarrow> agent_name \<Rightarrow> tool_plan" where
  "intent_tool_map Lookup GraphQuery = \<lparr>tp_first = [''find_entity''], tp_parallel = []\<rparr>"
| "intent_tool_map Lookup CodeAnalyst =
     \<lparr>tp_first = [], tp_parallel = [''get_code_snippet'', ''analyze_class'']\<rparr>"
| "intent_tool_map Relationship GraphQuery =
     \<lparr>tp_first = [''find_entity''], tp_parallel = relationship_tools\<rparr>"
| "intent_tool_map Explanation GraphQuery = \<lparr>tp_first = [''find_entity''], tp_parallel = []\<rparr>"
| "intent_tool_map Explanation CodeAnalyst =
     \<lparr>tp_first = [], tp_parallel =
        [''explain_implementation'', ''analyze_function'', ''analyze_class'', ''get_code_snippet'']\<rparr>"
| "intent_tool_map Comparison GraphQuery = \<lparr>tp_first = [''find_entity''], tp_parallel = []\<rparr>"
| "intent_tool_map Comparison CodeAnalyst =
     \<lparr>tp_first = [], tp_parallel = [''compare_implementations'']\<rparr>"
| "intent_tool_map Pattern CodeAnalyst = \<lparr>tp_first = [], tp_parallel = [''find_patterns'']\<rparr>"
| "intent_tool_map Indexing Indexer = \<lparr>tp_first = [], tp_parallel = [''index_repository'']\<rparr>"
| "intent_tool_map Mixed GraphQuery = \<lparr>tp_first = [''find_entity''], tp_parallel = relationship_tools\<rparr>"
| "intent_tool_map Mixed CodeAnalyst =
     \<lparr>tp_first = [], tp_parallel =
        [''get_code_snippet'', ''explain_implementation'', ''analyze_function'', ''analyze_class'']\<rparr>"
| "intent_tool_map _ _ = no_tools"

definition wants_comparison :: "string \<Rightarrow> bool" where
  "wants_comparison query = contains ''compare'' (py_lower query)"

definition dependents_rx :: rx where
  "dependents_rx = seqs [WordB, Lit ''dependent'', Opt (Lit ''s''), WordB]"

definition imports_rx :: rx where
  "imports_rx = seqs [WordB, Lit ''import'', Opt (Lit ''s''), WordB]"

definition inherit_rx :: rx where
  "inherit_rx = alts [Lit ''inherit'', Lit ''extends'', Lit ''subclass'']"

definition calls_rx :: rx where
  "calls_rx = alts [Lit ''who calls'', word_rx ''called by'']"

definition relationship_tools_for_query :: "string \<Rightarrow> string list" where
  "relationship_tools_for_query query =
     (let lowered = py_lower query in
      (if found (alts [Lit ''who depends'', dependents_rx, word_rx ''depends on them'']) lowered
       then [''get_dependents'']
       else if found (alts [word_rx ''depends on'', word_rx ''uses'']) lowered
       then [''get_dependencies''] else [])
      @ (if found imports_rx lowered then [''trace_imports''] else [])
      @ (if found (Alt inherit_rx calls_rx) lowered then [''find_related''] else []))"

definition plan_tools :: "intent_kind \<Rightarrow> agent_name \<Rightarrow> string \<Rightarrow> tool_plan" where
  "plan_tools k agent query =
     (if wants_comparison query \<and> (k = Comparison \<or> k = Mixed) \<and> agent = GraphQuery
      then \<lparr>tp_first = [''find_entity''], tp_parallel = relationship_tools_for_query query\<rparr>
      else if wants_comparison query \<and> (k = Comparison \<or> k = Mixed) \<and> agent = CodeAnalyst
      then \<lparr>tp_first = [], tp_parallel = [''compare_implementations'']\<rparr>
      else intent_tool_map k agent)"

definition entity_tools :: "string list" where
  "entity_tools =
     [''get_code_snippet'', ''explain_implementation'', ''analyze_function'', ''analyze_class'',
      ''compare_implementations'']"

definition code_analyst_can_start_now :: "query_intent \<Rightarrow> string \<Rightarrow> bool" where
  "code_analyst_can_start_now qi query =
     (let parallel = tp_parallel (plan_tools (qi_intent qi) CodeAnalyst query) in
      if parallel = [] then False
      else if list_ex (\<lambda>t. t \<in> set entity_tools) parallel then False
      else ''find_patterns'' \<in> set parallel)"

definition related_relationship_type :: "string \<Rightarrow> string option" where
  "related_relationship_type query =
     (let lowered = py_lower query in
      if found inherit_rx lowered then Some ''INHERITS_FROM''
      else if found calls_rx lowered then Some ''CALLS''
      else if found imports_rx lowered then Some ''IMPORTS''
      else if found (alts [word_rx ''depends on'', dependents_rx, word_rx ''uses'']) lowered
      then Some ''DEPENDS_ON''
      else None)"

definition pattern_name :: "string \<Rightarrow> string list \<Rightarrow> string" where
  "pattern_name query entities =
     (let lowered = replace_char CHR ''-'' CHR ''_'' (py_lower query) in
      case find (\<lambda>name. contains name lowered
                   \<or> contains (replace_char CHR ''_'' CHR '' '' name) lowered) supported_patterns of
        Some name \<Rightarrow> name
      | None \<Rightarrow>
          (case find (\<lambda>c. c \<in> set supported_patterns)
                  (map (\<lambda>e. replace_char CHR '' '' CHR ''_''
                              (replace_char CHR ''-'' CHR ''_'' (py_lower e))) entities) of
             Some c \<Rightarrow> c
           | None \<Rightarrow> ''decorator''))"

section \<open>Outputs and assessments\<close>

record agent_output =
  ao_agent :: agent_name
  ao_ok :: bool
  ao_output :: pyval
  ao_error :: "string option"
  ao_note :: "string option"
  ao_tools :: "string list"

type_synonym outputs = "(agent_name \<times> agent_output) list"

record assessment =
  as_sufficient :: bool
  as_reason :: string
  as_terms :: "string list"
  as_agents :: "agent_name list"
  as_tools :: "string list"

text \<open>\<open>bool(s)\<close> of an optional string.\<close>

definition given :: "string option \<Rightarrow> bool" where
  "given s = (case s of None \<Rightarrow> False | Some t \<Rightarrow> t \<noteq> [])"

definition agent_failed :: "agent_output option \<Rightarrow> bool" where
  "agent_failed ao =
     (case ao of
        None \<Rightarrow> False
      | Some a \<Rightarrow> \<not> ao_ok a \<or> given (ao_note a) \<or> given (ao_error a))"

definition is_entity_hit :: "pyval \<Rightarrow> bool" where
  "is_entity_hit v =
     (case v of
        PyDict m \<Rightarrow> truthy (get_or m [''qualified_name'', ''file_path'', ''filePath'', ''name'', ''path''])
      | _ \<Rightarrow> False)"

text \<open>The output mapping of an agent, when there is one.\<close>

definition inner_of :: "outputs \<Rightarrow> agent_name \<Rightarrow> pydict option" where
  "inner_of outs a = (case map_of outs a of None \<Rightarrow> None | Some ao \<Rightarrow> as_dict (ao_output ao))"

definition entity_item_hits :: "pyval \<Rightarrow> bool" where
  "entity_item_hits item =
     (case item of
        PyDict m \<Rightarrow>
          (case dget m ''matches'' of PyList ms \<Rightarrow> list_ex is_entity_hit ms | _ \<Rightarrow> False)
          \<or> is_entity_hit item
      | _ \<Rightarrow> False)"

definition has_graph_hits :: "outputs \<Rightarrow> bool" where
  "has_graph_hits outs =
     (case inner_of outs GraphQuery of
        None \<Rightarrow> False
      | Some inner \<Rightarrow>
          (case dget inner ''candidates'' of PyList cs \<Rightarrow> list_ex is_entity_hit cs | _ \<Rightarrow> False)
          \<or> (case dget inner ''entities'' of PyList es \<Rightarrow> list_ex entity_item_hits es | _ \<Rightarrow> False))"

definition usable_analysis :: "pyval \<Rightarrow> bool" where
  "usable_analysis v =
     (case v of
        PyDict m \<Rightarrow>
          \<not> truthy (dget m ''error'') \<and>
          truthy (get_or m [''explanation'', ''analysis'', ''summary'', ''text'', ''comparison'',
                            ''instances'', ''pattern''])
      | _ \<Rightarrow> False)"

definition usable_snippet :: "pyval \<Rightarrow> bool" where
  "usable_snippet v =
     (case v of
        PyDict m \<Rightarrow> truthy (dget m ''text'') \<and> \<not> truthy (dget m ''error'')
      | _ \<Rightarrow> False)"

definition has_analyst_evidence :: "outputs \<Rightarrow> bool" where
  "has_analyst_evidence outs =
     (case inner_of outs CodeAnalyst of
        None \<Rightarrow> False
      | Some inner \<Rightarrow>
          (case dget inner ''snippets'' of PyList ss \<Rightarrow> list_ex usable_snippet ss | _ \<Rightarrow> False)
          \<or> list_ex (\<lambda>key. case dget inner key of
                 PyList vs \<Rightarrow> list_ex usable_analysis vs
               | v \<Rightarrow> usable_analysis v)
              [''explanations'', ''function_analyses'', ''comparison'', ''patterns''])"

definition tried_terms :: "execution_plan \<Rightarrow> outputs \<Rightarrow> string list" where
  "tried_terms plan outs =
     (case pl_terms plan of None \<Rightarrow> [] | Some ts \<Rightarrow> ts) @ qi_entities (pl_intent plan)
     @ (case inner_of outs GraphQuery of
          None \<Rightarrow> []
        | Some inner \<Rightarrow>
            (case dget inner ''queried_entities'' of PyList qs \<Rightarrow> map py_str qs | _ \<Rightarrow> []))"

definition term_produced_hits :: "pyval \<Rightarrow> bool" where
  "term_produced_hits v =
     (case v of
        PyDict m \<Rightarrow>
          (case dget m ''matches'' of PyList ms \<Rightarrow> list_ex is_entity_hit ms | _ \<Rightarrow> is_entity_hit v)
      | _ \<Rightarrow> False)"

definition not_blank :: "string \<Rightarrow> bool" where
  "not_blank s \<longleftrightarrow> strip s \<noteq> []"

definition successful_search_terms :: "execution_plan \<Rightarrow> outputs \<Rightarrow> string list" where
  "successful_search_terms plan outs =
     (if \<not> has_graph_hits outs then []
      else
        (let inner = (case inner_of outs GraphQuery of Some m \<Rightarrow> m | None \<Rightarrow> []);
             queried = (case dget inner ''queried_entities'' of
                          PyList qs \<Rightarrow> filter not_blank (map py_str qs) | _ \<Rightarrow> []);
             entities = (case dget inner ''entities'' of PyList es \<Rightarrow> es | _ \<Rightarrow> []);
             kept = (if queried \<noteq> [] \<and> entities \<noteq> [] \<and> length queried = length entities
                     then map fst (filter (\<lambda>(t, r). term_produced_hits r) (zip queried entities))
                     else [])
         in if kept \<noteq> [] then kept
            else if queried \<noteq> [] then queried
            else (case pl_terms plan of
                    Some (t # ts) \<Rightarrow> filter not_blank (t # ts)
                  | _ \<Rightarrow> filter not_blank (qi_entities (pl_intent plan)))))"

definition invoked_tool_names :: "agent_output option \<Rightarrow> string list" where
  "invoked_tool_names ao =
     (case ao of
        None \<Rightarrow> []
      | Some a \<Rightarrow>
          map (\<lambda>item. case partition_at CHR ''.'' item of (h, f, t) \<Rightarrow> if f then t else item)
            (filter (\<lambda>item. item \<noteq> []) (ao_tools a)))"

definition analyst_tool_bucket :: "string \<Rightarrow> string option" where
  "analyst_tool_bucket tool =
     map_of [(''explain_implementation'', ''explanations''), (''analyze_function'', ''function_analyses''),
             (''analyze_class'', ''class_analyses''), (''get_code_snippet'', ''snippets''),
             (''compare_implementations'', ''comparison''), (''find_patterns'', ''patterns'')] tool"

definition analyst_tool_succeeded :: "string \<Rightarrow> pydict option \<Rightarrow> bool" where
  "analyst_tool_succeeded tool inner =
     (case inner of
        None \<Rightarrow> False
      | Some m \<Rightarrow>
          (case analyst_tool_bucket tool of
             None \<Rightarrow> False
           | Some bucket \<Rightarrow>
               (if tool = ''get_code_snippet''
                then (case dget m bucket of PyList vs \<Rightarrow> list_ex usable_snippet vs | _ \<Rightarrow> False)
                else (case dget m bucket of
                        PyList vs \<Rightarrow> list_ex usable_analysis vs
                      | v \<Rightarrow> usable_analysis v))))"

definition failed_analyst_tools :: "string \<Rightarrow> execution_plan \<Rightarrow> outputs \<Rightarrow> string list" where
  "failed_analyst_tools query plan outs =
     (if CodeAnalyst \<notin> set (pl_agents plan) then []
      else
        (let planned = tp_parallel (plan_tools (qi_intent (pl_intent plan)) CodeAnalyst query);
             analyst = map_of outs CodeAnalyst;
             invoked = invoked_tool_names analyst
         in filter (\<lambda>tool. \<not> analyst_tool_succeeded tool (inner_of outs CodeAnalyst) \<and>
                      (tool \<in> set invoked \<or> agent_failed analyst \<or> \<not> has_graph_hits outs))
              planned))"

section \<open>Refinement terms\<close>

definition refinement_stopwords :: "string list" where
  "refinement_stopwords =
    [''about'', ''across'', ''all'', ''also'', ''any'', ''been'', ''being'', ''both'', ''but'',
     ''can'', ''code'', ''codebase'', ''could'', ''did'', ''do'', ''done'', ''each'',
     ''example'', ''examples'', ''few'', ''get'', ''give'', ''got'', ''had'', ''handle'',
     ''handles'', ''handling'', ''has'', ''have'', ''implementation'', ''implemented'', ''in'',
     ''injection'', ''into'', ''it'', ''just'', ''like'', ''made'', ''make'', ''me'', ''more'',
     ''most'', ''need'', ''not'', ''off'', ''only'', ''or'', ''other'', ''out'', ''over'',
     ''request'', ''same'', ''should'', ''snippet'', ''some'', ''source'', ''such'', ''tell'',
     ''than'', ''that'', ''their'', ''them'', ''these'', ''those'', ''to'', ''under'', ''use'',
     ''used'', ''using'', ''validation'', ''via'', ''want'', ''was'', ''we'', ''were'',
     ''with'', ''work'', ''working'', ''works'', ''would'', ''you'', ''your'']"

definition token_rx :: rx where
  "token_rx =
     Seq query_token_rx (Star (Seq (Lit ''.'') query_token_rx))"

definition looks_like_identifier :: "string \<Rightarrow> bool" where
  "looks_like_identifier token =
     (let stripped = strip token in
      if stripped = [] \<or> list_ex is_space stripped then False
      else if CHR ''.'' \<in> set stripped \<or> CHR ''_'' \<in> set stripped then True
      else list_ex is_upper stripped \<and> list_ex is_lower stripped)"

definition is_refinement_token :: "string \<Rightarrow> bool" where
  "is_refinement_token token =
     (let stripped = strip token; lowered = py_lower stripped in
      if length stripped \<le> 2 then False
      else if lowered \<in> set lookup_filler \<or> lowered \<in> set refinement_stopwords then False
      else looks_like_identifier stripped)"

text \<open>
  One pass of \<open>_broader_terms\<close>: the stripped items that are not blank, not yet listed up to case,
  and acceptable are appended. The set \<open>seen\<close> holds the listed terms in lower case.
\<close>

definition extend_terms :: "(string \<Rightarrow> bool) \<Rightarrow> string list \<Rightarrow> string list \<Rightarrow> string list" where
  "extend_terms ok items broader =
     foldl (\<lambda>b item.
        (let key = strip item in
         if key = [] \<or> py_lower key \<in> set (map py_lower b) \<or> \<not> ok key then b else b @ [key]))
       broader items"

definition broader_terms :: "string \<Rightarrow> string list \<Rightarrow> string list \<Rightarrow> string list" where
  "broader_terms query already_tried keep_terms =
     (let tried = map (\<lambda>t. py_lower (strip t)) (filter not_blank already_tried);
          candidates = retrieval_search_terms query None
                       @ filter is_refinement_token (find_all token_rx query);
          untried = (\<lambda>key. py_lower key \<notin> set tried)
      in extend_terms untried [query]
           (extend_terms (\<lambda>key. untried key \<and> is_refinement_token key) candidates
             (extend_terms (\<lambda>key. True) keep_terms [])))"

section \<open>Assessment\<close>

definition sufficient :: "string \<Rightarrow> assessment" where
  "sufficient reason =
     \<lparr>as_sufficient = True, as_reason = reason, as_terms = [], as_agents = [], as_tools = []\<rparr>"

definition insufficient ::
    "string \<Rightarrow> string list \<Rightarrow> agent_name list \<Rightarrow> string list \<Rightarrow> assessment" where
  "insufficient reason terms agents tools =
     \<lparr>as_sufficient = False, as_reason = reason, as_terms = terms, as_agents = agents,
      as_tools = tools\<rparr>"

definition needs_graph :: "intent_kind \<Rightarrow> bool" where
  "needs_graph k \<longleftrightarrow> k \<in> {Lookup, Relationship, Explanation, Comparison, Mixed}"

definition needs_analyst :: "execution_plan \<Rightarrow> bool" where
  "needs_analyst plan =
     (let k = qi_intent (pl_intent plan) in
      if k \<in> {Lookup, Relationship} \<and> CodeAnalyst \<in> set (pl_agents plan) then True
      else k \<in> {Explanation, Comparison, Mixed})"

definition evaluate_evidence :: "string \<Rightarrow> execution_plan \<Rightarrow> outputs \<Rightarrow> assessment" where
  "evaluate_evidence query plan outs =
     (let k = qi_intent (pl_intent plan);
          planned = set (pl_agents plan);
          graph_hits = has_graph_hits outs;
          analyst_evidence = has_analyst_evidence outs;
          graph_failed = agent_failed (map_of outs GraphQuery);
          analyst_failed = agent_failed (map_of outs CodeAnalyst);
          broader = broader_terms query (tried_terms plan outs) (successful_search_terms plan outs);
          failed_analyst = failed_analyst_tools query plan outs
      in if is_out_of_scope query then sufficient ''out_of_scope''
         else if k = Indexing
         then (case map_of outs Indexer of
                 Some ix \<Rightarrow> if ao_ok ix then sufficient ''index_complete''
                            else insufficient ''indexer_failed'' [] [Indexer] []
               | None \<Rightarrow> insufficient ''indexer_failed'' [] [Indexer] [])
         else if k = Pattern
         then (if analyst_evidence \<or> map_of outs CodeAnalyst \<noteq> None \<and> \<not> analyst_failed
               then sufficient ''pattern_complete''
               else insufficient ''pattern_empty'' broader
                      (if CodeAnalyst \<notin> planned then [CodeAnalyst] else []) failed_analyst)
         else if needs_graph k \<and> graph_hits
         then (if needs_analyst plan \<and> \<not> analyst_evidence \<and> CodeAnalyst \<notin> planned
               then insufficient ''missing_analyst'' [] [CodeAnalyst] []
               else if needs_analyst plan \<and> analyst_failed \<and> \<not> analyst_evidence
               then insufficient ''analyst_failed'' broader [CodeAnalyst] failed_analyst
               else sufficient ''graph_hits'')
         else if analyst_evidence then sufficient ''analyst_evidence''
         else insufficient
                (if graph_failed then ''graph_failed''
                 else if needs_analyst plan \<and> \<not> analyst_evidence then ''insufficient_evidence''
                 else ''no_graph_hits'')
                broader
                ((if CodeAnalyst \<notin> planned then [CodeAnalyst] else [])
                 @ (if GraphQuery \<notin> planned \<and> needs_graph k then [GraphQuery] else []))
                (let start = (if needs_graph k then [''find_entity''] else [])
                 in start @ filter (\<lambda>t. t \<notin> set start) failed_analyst))"

section \<open>The follow-up plan\<close>

definition graph_tools :: "string list" where
  "graph_tools =
     [''find_entity'', ''get_dependencies'', ''get_dependents'', ''trace_imports'', ''find_related'']"

definition refined_kind :: "bool \<Rightarrow> intent_kind \<Rightarrow> agent_name list \<Rightarrow> intent_kind" where
  "refined_kind changed_agents k new_agents =
     (if changed_agents \<and> k = Lookup \<and> CodeAnalyst \<in> set new_agents then Mixed
      else if changed_agents \<and> k \<in> {Lookup, Relationship} \<and> CodeAnalyst \<in> set new_agents
      then (if k = Lookup then Explanation else k)
      else k)"

definition refine_plan ::
    "execution_plan \<Rightarrow> assessment \<Rightarrow> execution_plan option result" where
  "refine_plan plan a =
     (if as_sufficient a then Inr None
      else
        (let qi = pl_intent plan;
             new_agents = add_all_new (qi_targets qi) (as_agents a);
             new_terms = filter not_blank (as_terms a);
             new_entities = add_all_new (qi_entities qi) new_terms;
             retry_tools = (if CodeAnalyst \<in> set (pl_agents plan)
                            then Some (filter (\<lambda>t. t \<notin> set graph_tools) (as_tools a)) else None);
             changed_agents = (new_agents \<noteq> qi_targets qi);
             no_retry = (case retry_tools of None \<Rightarrow> True | Some ts \<Rightarrow> ts = [])
         in if \<not> changed_agents \<and> new_terms = [] \<and> no_retry then Inr None
            else
              (case route_to_agents
                      (qi\<lparr>qi_entities := new_entities, qi_targets := new_agents,
                          qi_intent := refined_kind changed_agents (qi_intent qi) new_agents,
                          qi_reasoning := ''refine: '' @ as_reason a\<rparr>) of
                 Inl e \<Rightarrow> Inl e
               | Inr follow_up \<Rightarrow>
                   Inr (Some (follow_up
                     \<lparr>pl_terms := (if new_terms = [] then None else Some new_terms),
                      pl_iteration := pl_iteration plan + 1,
                      pl_refinement := as_reason a,
                      pl_retry_tools := retry_tools\<rparr>)))))"

section \<open>Merging rounds\<close>

definition merge_field :: "pydict \<Rightarrow> string \<times> pyval \<Rightarrow> pydict" where
  "merge_field combined kv =
     (case kv of (key, v) \<Rightarrow>
        dset key (case (v, dget combined key) of
                    (PyList new, PyList old) \<Rightarrow> PyList (old @ new)
                  | _ \<Rightarrow> v) combined)"

definition merge_one :: "agent_output \<Rightarrow> agent_output \<Rightarrow> agent_output" where
  "merge_one previous incoming =
     (let tools = add_all_new (ao_tools previous) (ao_tools incoming) in
      if ao_ok incoming \<and> \<not> ao_ok previous then incoming\<lparr>ao_tools := tools\<rparr>
      else if ao_ok incoming \<and> ao_ok previous
      then
        (let prev_out = (case ao_output previous of PyDict m \<Rightarrow> m | _ \<Rightarrow> []);
             new_out = (case ao_output incoming of PyDict m \<Rightarrow> m | _ \<Rightarrow> []);
             combined = foldl merge_field prev_out new_out
         in incoming
              \<lparr>ao_output := (if combined = [] then ao_output incoming else PyDict combined),
               ao_tools := tools,
               ao_note := (if given (ao_note incoming) then ao_note incoming else ao_note previous)\<rparr>)
      else if ao_ok previous then previous\<lparr>ao_tools := tools\<rparr>
      else incoming\<lparr>ao_tools := tools\<rparr>)"

definition merge_agent_outputs :: "outputs \<Rightarrow> outputs \<Rightarrow> outputs" where
  "merge_agent_outputs base extra =
     foldl (\<lambda>merged (agent, incoming).
        AList.update agent
          (case map_of merged agent of None \<Rightarrow> incoming | Some previous \<Rightarrow> merge_one previous incoming)
          merged)
       base extra"

section \<open>Lemmas\<close>

text \<open>What a pass over the terms keeps and what it adds.\<close>

lemma extend_terms_spec:
  assumes "distinct (map py_lower b)"
  shows "\<exists>new. extend_terms ok items b = b @ new
    \<and> set new \<subseteq> strip ` set items \<and> (\<forall>t \<in> set new. t \<noteq> [] \<and> ok t)
    \<and> distinct (map py_lower (extend_terms ok items b))"
  using assms
proof (induction items arbitrary: b)
  case Nil
  then show ?case by (simp add: extend_terms_def)
next
  case (Cons item items)
  define step where "step = (let key = strip item in
    if key = [] \<or> py_lower key \<in> set (map py_lower b) \<or> \<not> ok key then b else b @ [key])"
  have eq: "extend_terms ok (item # items) b = extend_terms ok items step"
    by (simp add: extend_terms_def step_def)
  consider "step = b" | "step = b @ [strip item]" "strip item \<noteq> []" "ok (strip item)"
      "py_lower (strip item) \<notin> set (map py_lower b)"
    unfolding step_def Let_def
    by (cases "strip item = [] \<or> py_lower (strip item) \<in> set (map py_lower b) \<or> \<not> ok (strip item)") auto
  then show ?case
  proof cases
    case 1
    with Cons.IH [OF Cons.prems] eq show ?thesis by auto
  next
    case 2
    then have "distinct (map py_lower step)" using Cons.prems by simp
    from Cons.IH [OF this] obtain new where
      "extend_terms ok items step = step @ new" "set new \<subseteq> strip ` set items"
      "\<forall>t \<in> set new. t \<noteq> [] \<and> ok t" "distinct (map py_lower (extend_terms ok items step))"
      by blast
    with 2 eq show ?thesis by (intro exI [of _ "strip item # new"]) auto
  qed
qed

lemma broader_terms_spec:
  "\<exists>kept new. broader_terms query tried keep = kept @ new
    \<and> set kept \<subseteq> strip ` set keep
    \<and> (\<forall>t \<in> set new. py_lower t \<notin> set (map (\<lambda>t. py_lower (strip t)) (filter not_blank tried)))
    \<and> (\<forall>t \<in> set (kept @ new). t \<noteq> [])
    \<and> distinct (map py_lower (kept @ new))"
proof -
  let ?tried = "map (\<lambda>t. py_lower (strip t)) (filter not_blank tried)"
  let ?cands = "retrieval_search_terms query None @ filter is_refinement_token (find_all token_rx query)"
  let ?k1 = "extend_terms (\<lambda>key. True) keep []"
  let ?ok2 = "\<lambda>key. py_lower key \<notin> set ?tried \<and> is_refinement_token key"
  let ?ok3 = "\<lambda>key. py_lower key \<notin> set ?tried"
  have "distinct (map py_lower [])" by simp
  from extend_terms_spec [OF this, of "\<lambda>key. True" keep] have k1:
    "set ?k1 \<subseteq> strip ` set keep" "\<forall>t \<in> set ?k1. t \<noteq> []" "distinct (map py_lower ?k1)" by auto
  from extend_terms_spec [OF k1(3), of ?ok2 ?cands] obtain n2 where n2:
    "extend_terms ?ok2 ?cands ?k1 = ?k1 @ n2" "\<forall>t \<in> set n2. t \<noteq> [] \<and> ?ok2 t"
    "distinct (map py_lower (extend_terms ?ok2 ?cands ?k1))" by blast
  from extend_terms_spec [OF n2(3), of ?ok3 "[query]"] obtain n3 where n3:
    "extend_terms ?ok3 [query] (extend_terms ?ok2 ?cands ?k1) = extend_terms ?ok2 ?cands ?k1 @ n3"
    "\<forall>t \<in> set n3. t \<noteq> [] \<and> ?ok3 t"
    "distinct (map py_lower (extend_terms ?ok3 [query] (extend_terms ?ok2 ?cands ?k1)))" by blast
  have eq: "broader_terms query tried keep = ?k1 @ n2 @ n3"
    using n2(1) n3(1) by (simp add: broader_terms_def Let_def)
  have "\<forall>t \<in> set (n2 @ n3). py_lower t \<notin> set ?tried" using n2(2) n3(2) by auto
  moreover have "\<forall>t \<in> set (?k1 @ n2 @ n3). t \<noteq> []" using k1(2) n2(2) n3(2) by auto
  moreover have "extend_terms ?ok3 [query] (extend_terms ?ok2 ?cands ?k1) = ?k1 @ n2 @ n3"
    using n3(1) n2(1) by simp
  with n3(3) have "distinct (map py_lower (?k1 @ n2 @ n3))" by (simp only:)
  ultimately show ?thesis using eq k1(1) by blast
qed

lemma refine_plan_Some:
  assumes "refine_plan plan a = Inr (Some plan')"
  shows "\<not> as_sufficient a"
    and "qi_targets (pl_intent plan') = add_all_new (qi_targets (pl_intent plan)) (as_agents a)"
    and "pl_agents plan' = qi_targets (pl_intent plan')"
    and "qi_entities (pl_intent plan')
           = add_all_new (qi_entities (pl_intent plan)) (filter not_blank (as_terms a))"
    and "pl_iteration plan' = pl_iteration plan + 1"
    and "pl_agents plan' \<noteq> []"
  using assms
  by (auto simp: refine_plan_def route_to_agents_def Let_def split: if_splits)

lemma refine_plan_terms:
  "refine_plan plan a = Inr (Some plan') \<Longrightarrow>
     pl_terms plan' = (if filter not_blank (as_terms a) = [] then None
                       else Some (filter not_blank (as_terms a)))"
  by (auto simp: refine_plan_def route_to_agents_def Let_def split: if_splits)

lemma evaluate_terms:
  "as_terms (evaluate_evidence query plan outs) \<in>
     {[], broader_terms query (tried_terms plan outs) (successful_search_terms plan outs)}"
  unfolding evaluate_evidence_def Let_def sufficient_def insufficient_def
  by (cases "map_of outs Indexer") (simp_all split: if_split)

lemma filter_map_notin:
  "x \<notin> set (map f (filter P xs)) \<longleftrightarrow> (\<forall>u \<in> set xs. P u \<longrightarrow> x \<noteq> f u)"
  by auto

lemma refined_terms:
  assumes "refine_plan plan (evaluate_evidence query plan outs) = Inr (Some plan')"
    and "pl_terms plan' = Some ts"
  shows "distinct (map py_lower ts)"
    and "t \<in> set ts \<Longrightarrow> t \<in> strip ` set (successful_search_terms plan outs)
      \<or> (\<forall>u \<in> set (tried_terms plan outs). not_blank u \<longrightarrow> py_lower t \<noteq> py_lower (strip u))"
proof -
  let ?bt = "broader_terms query (tried_terms plan outs) (successful_search_terms plan outs)"
  obtain kept new where bt: "?bt = kept @ new"
    and kept: "set kept \<subseteq> strip ` set (successful_search_terms plan outs)"
    and new: "\<forall>t \<in> set new. py_lower t \<notin> set (map (\<lambda>t. py_lower (strip t)) (filter not_blank (tried_terms plan outs)))"
    and dist: "distinct (map py_lower (kept @ new))"
    using broader_terms_spec [of query "tried_terms plan outs" "successful_search_terms plan outs"]
    by (elim exE conjE) rule
  have "ts = filter not_blank (as_terms (evaluate_evidence query plan outs))"
    using refine_plan_terms [OF assms(1)] assms(2) by (simp split: if_splits)
  moreover have "as_terms (evaluate_evidence query plan outs) = [] \<or>
      as_terms (evaluate_evidence query plan outs) = kept @ new"
    using evaluate_terms [of query plan outs] unfolding bt by blast
  ultimately have ts: "ts = [] \<or> ts = filter not_blank (kept @ new)" by auto
  moreover have "distinct (map py_lower (filter not_blank (kept @ new)))"
    using dist by (rule distinct_map_filter)
  ultimately show "distinct (map py_lower ts)" by auto
  assume "t \<in> set ts"
  with ts have "t \<in> set kept \<or> t \<in> set new" by auto
  then show "t \<in> strip ` set (successful_search_terms plan outs)
      \<or> (\<forall>u \<in> set (tried_terms plan outs). not_blank u \<longrightarrow> py_lower t \<noteq> py_lower (strip u))"
    using kept new unfolding filter_map_notin by blast
qed

lemma refine_plan_new:
  assumes "refine_plan plan a = Inr (Some plan')"
  shows "qi_targets (pl_intent plan') \<noteq> qi_targets (pl_intent plan)
     \<or> (\<exists>t ts. pl_terms plan' = Some (t # ts)) \<or> (\<exists>t ts. pl_retry_tools plan' = Some (t # ts))"
  using assms
  by (auto simp: refine_plan_def route_to_agents_def Let_def neq_Nil_conv split: if_splits)

lemma refine_plan_routes:
  "qi_targets (pl_intent plan) \<noteq> [] \<Longrightarrow> \<exists>p. refine_plan plan a = Inr p"
proof -
  assume "qi_targets (pl_intent plan) \<noteq> []"
  then have "add_all_new (qi_targets (pl_intent plan)) xs \<noteq> []" for xs
    using prefix_add_all_new [of "qi_targets (pl_intent plan)" xs] by auto
  then show ?thesis by (simp add: refine_plan_def route_to_agents_def Let_def)
qed

subsection \<open>Merging keeps the evidence\<close>

definition list_or_absent :: "pydict \<Rightarrow> string \<Rightarrow> bool" where
  "list_or_absent m key \<longleftrightarrow> dget m key = PyNone \<and> key \<notin> fst ` set m \<or> (\<exists>xs. dget m key = PyList xs)"

lemma merge_fold_other:
  "key \<notin> fst ` set new \<Longrightarrow> dget (foldl merge_field old new) key = dget old key"
  by (induction new arbitrary: old) (auto simp: merge_field_def)

text \<open>A list that both sides have is concatenated.\<close>

lemma merge_fold_list:
  assumes "distinct (map fst new)" and "list_or_absent new key" and "dget old key = PyList xs"
  shows "\<exists>ys. dget (foldl merge_field old new) key = PyList (xs @ ys)"
  using assms
proof (induction new arbitrary: old)
  case Nil
  then show ?case by simp
next
  case (Cons kv new)
  obtain k v where kv: "kv = (k, v)" by (cases kv)
  show ?case
  proof (cases "k = key")
    case True
    then obtain ys where v: "v = PyList ys"
      using Cons.prems(2) by (auto simp: list_or_absent_def kv)
    have "key \<notin> fst ` set new" using Cons.prems(1) True by (auto simp: kv)
    then have "dget (foldl merge_field (merge_field old kv) new) key = dget (merge_field old kv) key"
      by (rule merge_fold_other)
    also have "\<dots> = PyList (xs @ ys)" using Cons.prems(3) True by (simp add: kv v merge_field_def)
    finally show ?thesis by simp
  next
    case False
    have "list_or_absent new key" using Cons.prems(2) False by (simp add: list_or_absent_def kv)
    moreover have "dget (merge_field old kv) key = PyList xs"
      using False Cons.prems(3) by (simp add: merge_field_def kv)
    ultimately show ?thesis using Cons.IH Cons.prems(1) by simp
  qed
qed

lemma map_of_merge:
  assumes "distinct (map fst extra)"
  shows "map_of (merge_agent_outputs base extra) agent =
    (case map_of extra agent of
       None \<Rightarrow> map_of base agent
     | Some incoming \<Rightarrow>
         Some (case map_of base agent of None \<Rightarrow> incoming | Some p \<Rightarrow> merge_one p incoming))"
  using assms
proof (induction extra arbitrary: base)
  case Nil
  show ?case by (simp add: merge_agent_outputs_def)
next
  case (Cons e extra)
  obtain a inc where e: "e = (a, inc)" by (cases e)
  let ?base = "AList.update a (case map_of base a of None \<Rightarrow> inc | Some p \<Rightarrow> merge_one p inc) base"
  have "merge_agent_outputs base (e # extra) = merge_agent_outputs ?base extra"
    by (simp add: merge_agent_outputs_def e)
  moreover have "map_of extra a = None" using Cons.prems by (auto simp: e map_of_eq_None_iff)
  ultimately show ?case
    using Cons.IH [of ?base] Cons.prems by (auto simp: e update_conv' split: option.split)
qed

lemma graph_hits_keep:
  assumes "has_graph_hits base" and "map_of base GraphQuery = Some p" and "ao_output p = PyDict old"
    and "map_of outs GraphQuery = Some q" and "ao_output q = PyDict m"
    and "\<And>key xs. dget old key = PyList xs \<Longrightarrow> key \<in> {''candidates'', ''entities''} \<Longrightarrow>
           \<exists>ys. dget m key = PyList (xs @ ys)"
  shows "has_graph_hits outs"
proof -
  from assms(1-3) consider
    cs where "dget old ''candidates'' = PyList cs" "list_ex is_entity_hit cs"
  | es where "dget old ''entities'' = PyList es" "list_ex entity_item_hits es"
    by (auto simp: has_graph_hits_def inner_of_def as_dict_def split: pyval.splits)
  then show ?thesis
  proof cases
    case 1
    with assms(6) [of "''candidates''"] obtain ys where "dget m ''candidates'' = PyList (cs @ ys)" by auto
    with 1 assms(4,5) show ?thesis
      by (auto simp: has_graph_hits_def inner_of_def as_dict_def)
  next
    case 2
    with assms(6) [of "''entities''"] obtain ys where "dget m ''entities'' = PyList (es @ ys)" by auto
    with 2 assms(4,5) show ?thesis
      by (auto simp: has_graph_hits_def inner_of_def as_dict_def)
  qed
qed

lemma graph_hits_dict:
  "has_graph_hits outs \<Longrightarrow> \<exists>p m. map_of outs GraphQuery = Some p \<and> ao_output p = PyDict m \<and> m \<noteq> []"
  by (auto simp: has_graph_hits_def inner_of_def as_dict_def split: option.splits pyval.splits)

lemma merge_one_output:
  assumes "ao_ok p" and "ao_ok i" and "ao_output p = PyDict old" and "old \<noteq> []"
  shows "ao_output (merge_one p i)
    = PyDict (foldl merge_field old (case ao_output i of PyDict m \<Rightarrow> m | _ \<Rightarrow> []))"
proof -
  have "merge_field m kv \<noteq> []" for m kv
    by (cases kv) (simp add: merge_field_def)
  then have "m \<noteq> [] \<Longrightarrow> foldl merge_field m new \<noteq> []" for m new
    by (induction new arbitrary: m) auto
  with assms show ?thesis by (simp add: merge_one_def Let_def)
qed

section \<open>Properties\<close>


definition lookup_plan :: execution_plan where
  "lookup_plan =
     \<lparr>pl_mode = By_Rules,
      pl_intent = \<lparr>qi_mode = By_Rules, qi_intent = Lookup, qi_entities = [''APIRouter''],
                   qi_targets = [GraphQuery], qi_reasoning = ''''\<rparr>,
      pl_agents = [GraphQuery], pl_terms = None, pl_iteration = 1, pl_refinement = '''',
      pl_retry_tools = None\<rparr>"

definition graph_output :: "pyval \<Rightarrow> agent_output" where
  "graph_output v =
     \<lparr>ao_agent = GraphQuery, ao_ok = True, ao_output = v, ao_error = None, ao_note = None,
      ao_tools = [''graph_query.find_entity'']\<rparr>"

definition hit_output :: outputs where
  "hit_output =
     [(GraphQuery, graph_output
        (PyDict [(''candidates'', PyList [PyDict [(''name'', PyStr ''APIRouter'')]])]))]"


text \<open>
  A follow-up plan is routable and new. It keeps the agents and entities of the first plan
  in front, counts one iteration more, and adds an agent, carries search terms, or retries
  analyst tools; each of its search terms either produced hits already or differs, also in
  lower case, from every term tried so far, and no two of them are equal up to case.
\<close>

theorem follow_up_plan_is_new:
  assumes "refine_plan plan (evaluate_evidence query plan outs) = Inr (Some plan')"
  shows "pl_agents plan' \<noteq> [] \<and> pl_agents plan' = qi_targets (pl_intent plan')
    \<and> pl_iteration plan' = pl_iteration plan + 1
    \<and> prefix (qi_targets (pl_intent plan)) (qi_targets (pl_intent plan'))
    \<and> prefix (qi_entities (pl_intent plan)) (qi_entities (pl_intent plan'))
    \<and> (qi_targets (pl_intent plan') \<noteq> qi_targets (pl_intent plan)
       \<or> (\<exists>t ts. pl_terms plan' = Some (t # ts)) \<or> (\<exists>t ts. pl_retry_tools plan' = Some (t # ts)))
    \<and> (\<forall>ts. pl_terms plan' = Some ts \<longrightarrow>
         distinct (map py_lower ts) \<and>
         (\<forall>t \<in> set ts. t \<in> strip ` set (successful_search_terms plan outs)
            \<or> (\<forall>u \<in> set (tried_terms plan outs). not_blank u \<longrightarrow> py_lower t \<noteq> py_lower (strip u))))"
proof (intro conjI allI impI ballI)
  note facts = refine_plan_Some [OF assms]
  show "pl_agents plan' \<noteq> []" by (rule facts(6))
  show "pl_agents plan' = qi_targets (pl_intent plan')" by (rule facts(3))
  show "pl_iteration plan' = pl_iteration plan + 1" by (rule facts(5))
  show "prefix (qi_targets (pl_intent plan)) (qi_targets (pl_intent plan'))"
    unfolding facts(2) by (rule prefix_add_all_new)
  show "prefix (qi_entities (pl_intent plan)) (qi_entities (pl_intent plan'))"
    unfolding facts(4) by (rule prefix_add_all_new)
  show "qi_targets (pl_intent plan') \<noteq> qi_targets (pl_intent plan)
       \<or> (\<exists>t ts. pl_terms plan' = Some (t # ts)) \<or> (\<exists>t ts. pl_retry_tools plan' = Some (t # ts))"
    by (rule refine_plan_new [OF assms])
  fix ts
  assume ts: "pl_terms plan' = Some ts"
  show "distinct (map py_lower ts)" by (rule refined_terms(1) [OF assms ts])
  fix t
  assume "t \<in> set ts"
  then show "t \<in> strip ` set (successful_search_terms plan outs)
      \<or> (\<forall>u \<in> set (tried_terms plan outs). not_blank u \<longrightarrow> py_lower t \<noteq> py_lower (strip u))"
    by (rule refined_terms(2) [OF assms ts])
qed

theorem follow_up_plan_is_new_witness:
  "\<exists>plan'. refine_plan lookup_plan (evaluate_evidence ''find APIRouter'' lookup_plan []) = Inr (Some plan')
     \<and> pl_agents plan' \<noteq> []"
proof -
  let ?a = "evaluate_evidence ''find APIRouter'' lookup_plan []"
  have "\<not> is_out_of_scope ''find APIRouter''" by code_simp
  then have "\<not> as_sufficient ?a" "as_agents ?a = [CodeAnalyst]"
    by (simp_all add: evaluate_evidence_def Let_def has_graph_hits_def has_analyst_evidence_def
        inner_of_def lookup_plan_def insufficient_def needs_graph_def)
  then have "\<exists>plan'. refine_plan lookup_plan ?a = Inr (Some plan')"
    by (simp add: refine_plan_def route_to_agents_def Let_def lookup_plan_def add_new_def)
  then obtain plan' where
    p: "refine_plan lookup_plan (evaluate_evidence ''find APIRouter'' lookup_plan []) = Inr (Some plan')"
    by blast
  from follow_up_plan_is_new [OF p] p show ?thesis by blast
qed

text \<open>
  Merging a later round never loses what the graph had found: hits of a successful round
  stay visible after the merge, whether the later call failed, succeeded without output, or
  succeeded with lists of its own.
\<close>

theorem merge_keeps_graph_hits:
  assumes "has_graph_hits base" and "map_of base GraphQuery = Some p" and "ao_ok p"
    and "distinct (map fst extra)"
    and "\<And>i m. map_of extra GraphQuery = Some i \<Longrightarrow> ao_output i = PyDict m \<Longrightarrow>
           distinct (map fst m) \<and> list_or_absent m ''candidates'' \<and> list_or_absent m ''entities''"
  shows "has_graph_hits (merge_agent_outputs base extra)"
proof -
  obtain old where old: "ao_output p = PyDict old" "old \<noteq> []"
    using graph_hits_dict [OF assms(1)] assms(2) by auto
  note merged = map_of_merge [OF assms(4), of base GraphQuery]
  show ?thesis
  proof (cases "map_of extra GraphQuery")
    case None
    with merged assms(2) have q: "map_of (merge_agent_outputs base extra) GraphQuery = Some p" by simp
    show ?thesis
      by (rule graph_hits_keep [OF assms(1,2) old(1) q old(1)]) auto
  next
    case (Some i)
    with merged assms(2) have q: "map_of (merge_agent_outputs base extra) GraphQuery = Some (merge_one p i)"
      by simp
    show ?thesis
    proof (cases "ao_ok i")
      case False
      then have "ao_output (merge_one p i) = PyDict old"
        using assms(3) old by (simp add: merge_one_def Let_def)
      then show ?thesis by (rule graph_hits_keep [OF assms(1,2) old(1) q]) auto
    next
      case True
      let ?new = "case ao_output i of PyDict m \<Rightarrow> m | _ \<Rightarrow> []"
      have new: "distinct (map fst ?new) \<and> list_or_absent ?new ''candidates'' \<and> list_or_absent ?new ''entities''"
        using assms(5) [OF Some] by (auto simp: list_or_absent_def split: pyval.split)
      have "ao_output (merge_one p i) = PyDict (foldl merge_field old ?new)"
        using merge_one_output [OF assms(3) True old] .
      then show ?thesis
        by (rule graph_hits_keep [OF assms(1,2) old(1) q])
          (use new merge_fold_list in auto)
    qed
  qed
qed

theorem merge_keeps_graph_hits_witness:
  "has_graph_hits (merge_agent_outputs hit_output [(GraphQuery, graph_output (PyDict [(''candidates'', PyList [])]))])"
proof (rule merge_keeps_graph_hits)
  show "has_graph_hits hit_output" by code_simp
  show "map_of hit_output GraphQuery = Some (graph_output
        (PyDict [(''candidates'', PyList [PyDict [(''name'', PyStr ''APIRouter'')]])]))"
    by (simp add: hit_output_def)
qed (auto simp: graph_output_def list_or_absent_def)

text \<open>
  The analyst's class analyses do not count as evidence: an output whose only content is a
  usable class analysis makes the tool a success, so it is not retried, and yet shows no analyst
  evidence, so a question it answers is assessed as if the analyst had returned nothing.
\<close>

theorem class_analysis_is_no_evidence:
  assumes "usable_analysis v" and "ao_output ca = PyDict [(''class_analyses'', PyList [v])]"
  shows "analyst_tool_succeeded ''analyze_class'' (inner_of [(CodeAnalyst, ca)] CodeAnalyst)
    \<and> \<not> has_analyst_evidence [(CodeAnalyst, ca)]
    \<and> (qi_intent (pl_intent plan) \<in> {Explanation, Mixed} \<and> \<not> is_out_of_scope query \<longrightarrow>
        as_reason (evaluate_evidence query plan [(CodeAnalyst, ca)]) = ''insufficient_evidence'')"
proof -
  have inner: "inner_of [(CodeAnalyst, ca)] CodeAnalyst = Some [(''class_analyses'', PyList [v])]"
    by (simp add: inner_of_def as_dict_def assms(2))
  have no: "\<not> has_analyst_evidence [(CodeAnalyst, ca)]"
    by (simp add: has_analyst_evidence_def inner usable_analysis_def)
  have "\<not> has_graph_hits [(CodeAnalyst, ca)]"
    by (simp add: has_graph_hits_def inner_of_def)
  with no have "as_reason (evaluate_evidence query plan [(CodeAnalyst, ca)]) = ''insufficient_evidence''"
    if "qi_intent (pl_intent plan) \<in> {Explanation, Mixed}" "\<not> is_out_of_scope query"
    using that
    by (auto simp: evaluate_evidence_def Let_def insufficient_def agent_failed_def needs_analyst_def)
  with no inner assms(1) show ?thesis
    by (simp add: analyst_tool_succeeded_def analyst_tool_bucket_def)
qed

theorem class_analysis_is_no_evidence_witness:
  "\<not> has_analyst_evidence
     [(CodeAnalyst, (graph_output (PyDict [(''class_analyses'', PyList [PyDict [(''summary'', PyStr ''a class'')]])]))
        \<lparr>ao_agent := CodeAnalyst\<rparr>)]"
  using class_analysis_is_no_evidence [where v = "PyDict [(''summary'', PyStr ''a class'')]"
      and ca = "(graph_output (PyDict [(''class_analyses'', PyList [PyDict [(''summary'', PyStr ''a class'')]])]))
        \<lparr>ao_agent := CodeAnalyst\<rparr>"]
  by (simp add: usable_analysis_def graph_output_def get_or_def)

end
