(* ===== verification/RefineLoop.thy ===== *)
theory RefineLoop
  imports Evidence Budget
begin

text \<open>
  The evidence-driven refinement loop (\<open>core/orchestration/loop.py\<close>): execute a plan, assess what
  came back, refine the plan, until the evidence suffices or a bound stops it. Its environment is
  a record of what it calls: the clock (the \<open>k\<close>-th reading made in a state of the world), the
  ledger, \<open>run_plan\<close>, and the estimate of the synthesis prompt.
\<close>

record 'w loop_env =
  le_clock :: "'w \<Rightarrow> nat \<Rightarrow> real"
  le_ledger :: "'w \<Rightarrow> ledger option"
  le_run :: "execution_plan \<Rightarrow> request_budget option \<Rightarrow> 'w
              \<Rightarrow> outputs result \<times> request_budget option \<times> 'w"
  le_estimate :: "outputs \<Rightarrow> int"

record plan_iteration =
  it_number :: int
  it_mode :: routing_mode
  it_agents :: "agent_name list"
  it_tools :: "string list"
  it_terms :: "string list"
  it_sufficient :: bool
  it_reason :: string
  it_refinement :: "string option"

definition tools_invoked :: "execution_plan \<Rightarrow> outputs \<Rightarrow> string list" where
  "tools_invoked plan outs =
     concat (map (\<lambda>agent. case map_of outs agent of Some ao \<Rightarrow> ao_tools ao | None \<Rightarrow> [])
               (pl_agents plan))"

definition iteration_of :: "execution_plan \<Rightarrow> outputs \<Rightarrow> assessment \<Rightarrow> plan_iteration" where
  "iteration_of plan outs a =
     \<lparr>it_number = pl_iteration plan, it_mode = pl_mode plan, it_agents = pl_agents plan,
      it_tools = tools_invoked plan outs,
      it_terms = (case pl_terms plan of
                    Some (t # ts) \<Rightarrow> t # ts | _ \<Rightarrow> qi_entities (pl_intent plan)),
      it_sufficient = as_sufficient a, it_reason = as_reason a,
      it_refinement = (if pl_refinement plan = [] then None else Some (pl_refinement plan))\<rparr>"

text \<open>The budget's say before a round, and the plan of the round if there is one.\<close>

definition may_start ::
    "'w loop_env \<Rightarrow> string \<Rightarrow> request_budget option \<Rightarrow> 'w \<Rightarrow> request_budget option \<times> bool" where
  "may_start env cid budget w =
     (case budget of
        None \<Rightarrow> (None, True)
      | Some b \<Rightarrow>
          (case allow_new_call (le_ledger env w) cid (le_clock env w 0) (le_clock env w 1) b of
             (b', ok) \<Rightarrow> (Some b', ok)))"

definition next_plan ::
    "'w loop_env \<Rightarrow> real \<Rightarrow> nat \<Rightarrow> execution_plan \<Rightarrow> assessment option \<Rightarrow> 'w
      \<Rightarrow> execution_plan option result" where
  "next_plan env deadline round_index current a w =
     (if round_index = 0 then Inr (Some current)
      else if deadline - le_clock env w 2 \<le> 0 then Inr None
      else (case a of None \<Rightarrow> Inr None | Some x \<Rightarrow> refine_plan current x))"

fun rounds ::
    "'w loop_env \<Rightarrow> string \<Rightarrow> string \<Rightarrow> real \<Rightarrow> nat \<Rightarrow> nat \<Rightarrow> execution_plan \<Rightarrow> assessment option
      \<Rightarrow> outputs \<Rightarrow> plan_iteration list \<Rightarrow> request_budget option \<Rightarrow> 'w
      \<Rightarrow> (outputs \<times> plan_iteration list) result \<times> request_budget option \<times> 'w" where
  "rounds env query cid deadline 0 i current a combined iterations budget w =
     (Inr (combined, iterations), budget, w)"
| "rounds env query cid deadline (Suc n) i current a combined iterations budget w =
     (case may_start env cid budget w of
        (budget1, False) \<Rightarrow> (Inr (combined, iterations), budget1, w)
      | (budget1, True) \<Rightarrow>
          (case next_plan env deadline i current a w of
             Inl e \<Rightarrow> (Inl e, budget1, w)
           | Inr None \<Rightarrow> (Inr (combined, iterations), budget1, w)
           | Inr (Some plan) \<Rightarrow>
               (case le_run env plan budget1 w of
                  (Inl e, budget2, w') \<Rightarrow> (Inl e, budget2, w')
                | (Inr outs, budget2, w') \<Rightarrow>
                    (let combined' = (if combined = [] then outs else merge_agent_outputs combined outs);
                         a' = evaluate_evidence query plan combined';
                         budget3 = map_option
                           (\<lambda>b. fst (apply_prompt_reserve (le_estimate env combined') b)) budget2;
                         iterations' = iterations @ [iteration_of plan outs a']
                     in if as_sufficient a' then (Inr (combined', iterations'), budget3, w')
                        else rounds env query cid deadline n (Suc i) plan (Some a') combined'
                               iterations' budget3 w'))))"

definition plan_cutoff ::
    "real \<Rightarrow> real \<Rightarrow> real option \<Rightarrow> request_budget option \<Rightarrow> real" where
  "plan_cutoff now plan_deadline deadline_monotonic_opt budget =
     (let cutoff = now + plan_deadline;
          cutoff = (case deadline_monotonic_opt of None \<Rightarrow> cutoff | Some d \<Rightarrow> min cutoff d)
      in (case budget of
            None \<Rightarrow> cutoff
          | Some b \<Rightarrow> min cutoff (deadline_monotonic b - synthesis_reserve_s b)))"

definition run_refinement_loop ::
    "'w loop_env \<Rightarrow> int \<Rightarrow> real \<Rightarrow> string \<Rightarrow> string \<Rightarrow> real option \<Rightarrow> execution_plan
      \<Rightarrow> request_budget option \<Rightarrow> 'w
      \<Rightarrow> (outputs \<times> plan_iteration list) result \<times> request_budget option \<times> 'w" where
  "run_refinement_loop env max_plan_iterations plan_deadline query cid deadline_opt plan budget w =
     (let max_iterations = nat (max 1 max_plan_iterations);
          deadline = plan_cutoff (le_clock env w 0) plan_deadline deadline_opt budget;
          plan_started = le_clock env w 1
      in case rounds env query cid deadline max_iterations 0 plan None [] [] budget w of
           (r, budget', w') \<Rightarrow>
             (r, map_option
                   (\<lambda>b. b\<lparr>plan_duration_s := max 0 (le_clock env w' 3 - plan_started)\<rparr>) budget', w'))"

section \<open>Lemmas\<close>

text \<open>
  The plan of round \<open>i\<close> carries the number \<open>i\<close> steps above the first; the rounds recorded so far
  are numbered in order and none before the last was sufficient.
\<close>

definition in_order :: "int \<Rightarrow> plan_iteration list \<Rightarrow> bool" where
  "in_order first its \<longleftrightarrow>
     map it_number its = map (\<lambda>k. first + int k) [0..<length its] \<and>
     list_all (\<lambda>it. \<not> it_sufficient it) (butlast its)"

lemma in_order_snoc:
  assumes "in_order first its" and "list_all (\<lambda>it. \<not> it_sufficient it) its"
    and "it_number it = first + int (length its)"
  shows "in_order first (its @ [it])"
  using assms by (simp add: in_order_def)

lemma next_plan_number:
  assumes "next_plan env d i current a w = Inr (Some plan)"
  shows "pl_iteration plan = (if i = 0 then pl_iteration current else pl_iteration current + 1)"
  using assms refine_plan_Some(5) by (auto simp: next_plan_def split: if_splits option.splits)

lemma rounds_record:
  assumes "rounds env query cid d n i current a combined its budget w = (Inr (outs, its'), budget', w')"
    and "in_order first its" and "list_all (\<lambda>it. \<not> it_sufficient it) its" and "i = length its"
    and "pl_iteration current = (if i = 0 then first else first + int i - 1)"
  shows "in_order first its' \<and> length its' \<le> length its + n"
  using assms
proof (induction n arbitrary: i current a combined its budget w)
  case 0
  then show ?case by simp
next
  case (Suc n)
  obtain b1 ok where ms: "may_start env cid budget w = (b1, ok)" by (cases "may_start env cid budget w")
  show ?case
  proof (cases ok)
    case False
    with ms Suc.prems show ?thesis by simp
  next
    case True
    with ms have go: "may_start env cid budget w = (b1, True)" by simp
    show ?thesis
    proof (cases "next_plan env d i current a w")
      case (Inl e)
      with go Suc.prems(1) show ?thesis by simp
    next
      case (Inr p)
      show ?thesis
      proof (cases p)
        case None
        with Inr go Suc.prems show ?thesis by simp
      next
        case (Some plan)
        obtain r b2 w2 where run: "le_run env plan b1 w = (r, b2, w2)" by (cases "le_run env plan b1 w")
        from Suc.prems(1) go Inr Some run obtain o' where r: "r = Inr o'" by (cases r) auto
        define c' where "c' = (if combined = [] then o' else merge_agent_outputs combined o')"
        define a' where "a' = evaluate_evidence query plan c'"
        define it where "it = iteration_of plan o' a'"
        have num: "pl_iteration plan = first + int (length its)"
          using next_plan_number [of env d i current a w plan] Inr Some Suc.prems(4,5) by auto
        have order: "in_order first (its @ [it])"
          by (rule in_order_snoc [OF Suc.prems(2,3)]) (simp add: it_def iteration_of_def num)
        note eq = Suc.prems(1) [unfolded rounds.simps go Inr Some run r prod.case bool.case
            sum.case option.case Let_def, folded c'_def, folded a'_def, folded it_def]
        show ?thesis
        proof (cases "as_sufficient a'")
          case True
          with eq order show ?thesis by auto
        next
          case False
          then have "list_all (\<lambda>it. \<not> it_sufficient it) (its @ [it])"
            using Suc.prems(3) by (simp add: it_def iteration_of_def)
          from Suc.IH [OF _ order this] eq False Suc.prems(4) num
          show ?thesis by fastforce
        qed
      qed
    qed
  qed
qed

text \<open>The same environment with a counter of the calls of \<open>run_plan\<close>.\<close>

definition counted_env :: "'w loop_env \<Rightarrow> (nat \<times> 'w) loop_env" where
  "counted_env env =
     \<lparr>le_clock = (\<lambda>(k, w). le_clock env w), le_ledger = (\<lambda>(k, w). le_ledger env w),
      le_run = (\<lambda>p b (k, w). case le_run env p b w of (r, b', w') \<Rightarrow> (r, b', (Suc k, w'))),
      le_estimate = le_estimate env\<rparr>"

lemma rounds_counted:
  assumes "rounds (counted_env env) query cid d n i current a combined its budget (k, w) = (r, b', (k', w'))"
  shows "k' \<le> k + n \<and> (\<forall>outs its'. r = Inr (outs, its') \<longrightarrow> k' + length its = k + length its')"
  using assms
proof (induction n arbitrary: i current a combined its budget k w)
  case 0
  then show ?case by auto
next
  case (Suc n)
  obtain b1 ok where ms: "may_start (counted_env env) cid budget (k, w) = (b1, ok)"
    by (cases "may_start (counted_env env) cid budget (k, w)")
  show ?case
  proof (cases "ok \<and> (\<exists>plan. next_plan (counted_env env) d i current a (k, w) = Inr (Some plan))")
    case False
    with ms Suc.prems show ?thesis by (auto split: bool.splits sum.splits option.splits)
  next
    case True
    then obtain plan where go: "may_start (counted_env env) cid budget (k, w) = (b1, True)"
      and np: "next_plan (counted_env env) d i current a (k, w) = Inr (Some plan)"
      using ms by auto
    obtain q b2 w2 where run0: "le_run env plan b1 w = (q, b2, w2)" by (cases "le_run env plan b1 w")
    then have run: "le_run (counted_env env) plan b1 (k, w) = (q, b2, (Suc k, w2))"
      by (simp add: counted_env_def)
    show ?thesis
    proof (cases q)
      case (Inl e)
      with Suc.prems go np run show ?thesis by auto
    next
      case (Inr o')
      define c' where "c' = (if combined = [] then o' else merge_agent_outputs combined o')"
      define a' where "a' = evaluate_evidence query plan c'"
      define it where "it = iteration_of plan o' a'"
      note eq = Suc.prems [unfolded rounds.simps go np run Inr prod.case bool.case
          sum.case option.case Let_def, folded c'_def, folded a'_def, folded it_def]
      show ?thesis
      proof (cases "as_sufficient a'")
        case True
        with eq show ?thesis by auto
      next
        case False
        with eq Suc.IH show ?thesis by fastforce
      qed
    qed
  qed
qed

section \<open>Properties\<close>

text \<open>
  C17: The loop ends after at most the configured number of rounds (and at least allows one): it
  calls \<open>run_plan\<close> no more often than that, whatever the plans return; when it returns, it has
  recorded exactly one iteration per call, numbered upwards from the first plan's number, and
  only the last one can have found the evidence sufficient.
\<close>

theorem refinement_rounds_bounded:
  "case run_refinement_loop (counted_env env) max_it plan_deadline query cid dl plan budget (0, w) of
     (r, budget', (calls, w')) \<Rightarrow>
       int calls \<le> max 1 max_it \<and>
       (case r of
          Inl e \<Rightarrow> True
        | Inr (outs, its) \<Rightarrow>
            calls = length its \<and>
            map it_number its = map (\<lambda>k. pl_iteration plan + int k) [0..<length its] \<and>
            list_all (\<lambda>it. \<not> it_sufficient it) (butlast its))"
proof -
  let ?d = "plan_cutoff (le_clock (counted_env env) (0, w) 0) plan_deadline dl budget"
  let ?rs = "rounds (counted_env env) query cid ?d (nat (max 1 max_it)) 0 plan None [] [] budget (0, w)"
  obtain r b' calls w' where rs: "?rs = (r, b', (calls, w'))" by (cases ?rs) auto
  have calls: "int calls \<le> max 1 max_it" using rounds_counted [OF rs] by linarith
  show ?thesis
  proof (cases r)
    case (Inl e)
    with rs calls show ?thesis by (simp add: run_refinement_loop_def Let_def)
  next
    case (Inr p)
    obtain outs its where p: "p = (outs, its)" by (cases p)
    have "in_order (pl_iteration plan) its"
      using rounds_record [OF rs [unfolded Inr p]] by (simp add: in_order_def)
    moreover have "calls = length its" using rounds_counted [OF rs] Inr p by simp
    ultimately show ?thesis
      using rs calls Inr p by (simp add: run_refinement_loop_def Let_def in_order_def)
  qed
qed

text \<open>
  A request whose recorded spend has reached a ceiling runs no round at all: whatever plan it
  has and however many rounds are configured, the loop returns no outputs and no iterations and
  the world is as before.
\<close>

theorem spent_request_runs_no_round:
  assumes "le_ledger env w = Some l"
    and "over_tokens (token_ceiling b) (ledger_spent l cid) \<or>
         over_cost (cost_usd_max b) (ledger_spent l cid)"
  shows "\<exists>b'. run_refinement_loop env max_it plan_deadline query cid dl plan (Some b) w
    = (Inr ([], []), Some b', w)"
proof -
  obtain n where n: "nat (max 1 max_it) = Suc n" by (cases "nat (max 1 max_it)") auto
  have "\<not> snd (allow_new_call (Some l) cid (le_clock env w 0) (le_clock env w 1) b)"
    using assms(2) by (rule allow_new_call_over)
  then obtain b' where "may_start env cid (Some b) w = (Some b', False)"
    by (cases "allow_new_call (Some l) cid (le_clock env w 0) (le_clock env w 1) b")
      (auto simp: may_start_def assms(1))
  then show ?thesis by (simp add: run_refinement_loop_def Let_def n)
qed

definition sample_env :: "nat loop_env" where
  "sample_env =
     \<lparr>le_clock = (\<lambda>w k. 1),
      le_ledger = (\<lambda>w. Some (record_usage sample_settings ''r1'' Synthesis sample_usage Map.empty)),
      le_run = (\<lambda>p b w. (Inr [], b, Suc w)),
      le_estimate = (\<lambda>outs. 0)\<rparr>"

theorem spent_request_runs_no_round_witness:
  "\<exists>b'. run_refinement_loop sample_env 2 35 ''q'' ''r1'' None lookup_plan
      (Some ((from_settings default_budget_settings 0)\<lparr>token_ceiling := Some 1000\<rparr>)) 7
    = (Inr ([], []), Some b', 7)"
proof (rule spent_request_runs_no_round)
  show "le_ledger sample_env 7 = Some (record_usage sample_settings ''r1'' Synthesis sample_usage Map.empty)"
    by (simp add: sample_env_def)
  show "over_tokens (token_ceiling ((from_settings default_budget_settings 0)\<lparr>token_ceiling := Some 1000\<rparr>))
      (ledger_spent (record_usage sample_settings ''r1'' Synthesis sample_usage Map.empty) ''r1'') \<or>
    over_cost (cost_usd_max ((from_settings default_budget_settings 0)\<lparr>token_ceiling := Some 1000\<rparr>))
      (ledger_spent (record_usage sample_settings ''r1'' Synthesis sample_usage Map.empty) ''r1'')"
    by (simp add: over_tokens_def ledger_spent_eq record_usage_def charge_entry_def Let_def
        sample_usage_def entry_of_def empty_entry_def)
qed

end
