(* ===== verification/PromptBudget.thy ===== *)
theory PromptBudget
  imports Evidence Budget
begin

text \<open>
  The token cap on the synthesis prompt (\<open>core/orchestration/prompt_budget.py\<close>,
  \<open>prompts.py\<close>): how the payload is written into the prompt, how the prompt is measured, the
  compaction of neighbour lists and the rounds that shorten snippets and lists until the prompt
  fits. A payload is a tree of plain data (no two of its containers are one object), so the
  in-place updates of the deep copy are updates of a value.
\<close>

section \<open>The prompt\<close>

text \<open>\<open>json.dumps(payload, indent=2)\<close>, with the ASCII escapes.\<close>

definition json_char :: "char \<Rightarrow> string" where
  "json_char c =
     (if c = CHR 0x22 \<or> c = CHR 0x5C then [CHR 0x5C, c]
      else if c = CHR 0x0A then [CHR 0x5C, CHR ''n'']
      else if c = CHR 0x0D then [CHR 0x5C, CHR ''r'']
      else if c = CHR 0x09 then [CHR 0x5C, CHR ''t'']
      else if c = CHR 0x0C then [CHR 0x5C, CHR ''f'']
      else if c = CHR 0x08 then [CHR 0x5C, CHR ''b'']
      else if in_range c 32 126 then [c]
      else [CHR 0x5C, CHR ''u'', CHR ''0'', CHR ''0'', hex_digit (of_char c div 16),
            hex_digit (of_char c mod 16)])"

definition json_str :: "string \<Rightarrow> string" where
  "json_str s = [CHR 0x22] @ concat (map json_char s) @ [CHR 0x22]"

definition json_break :: "nat \<Rightarrow> string" where
  "json_break level = newline @ replicate (2 * level) CHR '' ''"

fun json_value :: "nat \<Rightarrow> pyval \<Rightarrow> string"
  and json_items :: "nat \<Rightarrow> pyval list \<Rightarrow> string list"
  and json_fields :: "nat \<Rightarrow> (string \<times> pyval) list \<Rightarrow> string list" where
  "json_value l PyNone = ''null''"
| "json_value l (PyBool b) = (if b then ''true'' else ''false'')"
| "json_value l (PyInt i) = str_int i"
| "json_value l (PyFloat t) = t"
| "json_value l (PyStr s) = json_str s"
| "json_value l (PyList xs) =
     (if xs = [] then ''[]''
      else ''['' @ json_break (Suc l) @ join ('','' @ json_break (Suc l)) (json_items (Suc l) xs)
           @ json_break l @ '']'')"
| "json_value l (PyDict m) =
     (if m = [] then ''{}''
      else ''{'' @ json_break (Suc l) @ join ('','' @ json_break (Suc l)) (json_fields (Suc l) m)
           @ json_break l @ ''}'')"
| "json_items l [] = []"
| "json_items l (v # vs) = json_value l v # json_items l vs"
| "json_fields l [] = []"
| "json_fields l ((k, v) # m) = (json_str k @ '': '' @ json_value l v) # json_fields l m"

definition dump_agent_payload :: "pydict \<Rightarrow> string" where
  "dump_agent_payload payload = json_value 0 (PyDict payload)"

definition synthesis_system_prompt :: string where
  "synthesis_system_prompt =
     ''You are an orchestrator synthesizer. Combine partial results from specialized ''
     @ ''agents into one coherent final answer. Do not fabricate sources. ''
     @ ''When the user asks for codebase examples, cite only modules, classes, functions, ''
     @ ''file paths, and line ranges present in the agent outputs. ''
     @ ''Never invent tutorial examples, third-party libraries, or paths that were not retrieved. ''
     @ ''Never quote a docstring, parameter list, or function signature unless that exact text ''
     @ ''is present in the agent evidence. If a docstring or signature was not retrieved, say so ''
     @ ''instead of inventing one. ''
     @ ''When graph neighbor payloads include result_count, total_count, truncated, or summary, ''
     @ ''report those counts; do not enumerate every neighbor.''"

definition render_synthesis_user_prompt :: "string \<Rightarrow> string \<Rightarrow> pydict \<Rightarrow> string" where
  "render_synthesis_user_prompt query session_context_block payload =
     ''User query:'' @ newline @ query @ newline @ session_context_block @ newline
     @ ''Agent outputs (each may be degraded):'' @ newline
     @ dump_agent_payload payload @ newline @ newline
     @ ''Write the final answer from the retrieved repository evidence. Include a 'Sources' section''
     @ newline
     @ ''with file paths and line ranges from the agent outputs. If those outputs contain no''
     @ newline
     @ ''indexed symbols or snippets, say so instead of inventing examples.'' @ newline"

definition estimate_prompt_tokens :: "string \<Rightarrow> int" where
  "estimate_prompt_tokens s = (if s = [] then 0 else max 1 ((int (length s) + 3) div 4))"

definition measure_synthesis_prompt :: "string \<Rightarrow> string \<Rightarrow> pydict \<Rightarrow> int \<times> int" where
  "measure_synthesis_prompt query block payload =
     (let prompt = synthesis_system_prompt @ newline @ render_synthesis_user_prompt query block payload
      in (int (length prompt), estimate_prompt_tokens prompt))"

section \<open>Compacting neighbour lists\<close>

definition neighbor_prompt_keep :: nat where
  "neighbor_prompt_keep = 8"

definition graph_neighbor_list_keys :: "string list" where
  "graph_neighbor_list_keys = [''dependents'', ''dependencies'', ''related'']"

text \<open>\<open>int(a or b or n)\<close>; \<open>to_int\<close> is \<open>int(...)\<close> on a count that is not an \<open>int\<close> already.\<close>

definition neighbor_total :: "(pyval \<Rightarrow> int) \<Rightarrow> pydict \<Rightarrow> nat \<Rightarrow> int" where
  "neighbor_total to_int item n =
     (case py_or [dget item ''total_count'', dget item ''result_count'', PyInt (int n)] of
        PyInt i \<Rightarrow> i | v \<Rightarrow> to_int v)"

definition summarize_neighbor_result :: "(pyval \<Rightarrow> int) \<Rightarrow> nat \<Rightarrow> pyval \<Rightarrow> pyval" where
  "summarize_neighbor_result to_int keep v =
     (case v of
        PyDict item \<Rightarrow>
          (case dget item ''neighbors'' of
             PyList neighbors \<Rightarrow>
               if length neighbors \<le> keep then v
               else
                 (let total = neighbor_total to_int item (length neighbors);
                      omitted = max 0 (total - int keep)
                  in PyDict
                       (dset ''summary''
                          (PyStr (str_int total @ '' neighbors; showing '' @ str_nat keep
                                  @ '', omitted '' @ str_int omitted))
                       (dset ''omitted'' (PyInt omitted)
                       (dset ''truncated'' (PyBool True)
                       (dset ''total_count'' (PyInt total)
                       (dset ''result_count'' (PyInt (int keep))
                       (dset ''neighbors'' (PyList (take keep neighbors)) item)))))))
           | _ \<Rightarrow> v)
      | _ \<Rightarrow> v)"

definition compact_rows :: "(pyval \<Rightarrow> int) \<Rightarrow> nat \<Rightarrow> pydict \<Rightarrow> string \<Rightarrow> pydict" where
  "compact_rows to_int keep inner key =
     (case map_of inner key of
        Some (PyList rows) \<Rightarrow> dset key (PyList (map (summarize_neighbor_result to_int keep) rows)) inner
      | Some (PyDict row) \<Rightarrow> dset key (summarize_neighbor_result to_int keep (PyDict row)) inner
      | _ \<Rightarrow> inner)"

definition compact_inner :: "(pyval \<Rightarrow> int) \<Rightarrow> nat \<Rightarrow> pydict \<Rightarrow> pydict" where
  "compact_inner to_int keep inner = foldl (compact_rows to_int keep) inner graph_neighbor_list_keys"

definition compact_neighbor_payloads :: "(pyval \<Rightarrow> int) \<Rightarrow> nat \<Rightarrow> pydict \<Rightarrow> pydict" where
  "compact_neighbor_payloads to_int keep payload =
     (case dget payload ''graph_query'' of
        PyDict graph \<Rightarrow>
          (case dget graph ''output'' of
             PyDict output \<Rightarrow>
               dset ''graph_query'' (PyDict (dset ''output'' (PyDict (compact_inner to_int keep output)) graph))
                 payload
           | _ \<Rightarrow>
               if list_ex (\<lambda>k. k \<in> fst ` set graph) (''neighbors'' # graph_neighbor_list_keys)
               then dset ''graph_query'' (PyDict (compact_inner to_int keep graph)) payload
               else payload)
      | _ \<Rightarrow> payload)"

section \<open>Paths\<close>

datatype path_part = Key string | Idx nat

type_synonym path = "path_part list"

text \<open>\<open>_walk\<close>: every value below the tree with its path, in document order.\<close>

fun walk :: "path \<Rightarrow> pyval \<Rightarrow> (path \<times> pyval) list"
  and walk_items :: "path \<Rightarrow> nat \<Rightarrow> pyval list \<Rightarrow> (path \<times> pyval) list"
  and walk_fields :: "path \<Rightarrow> (string \<times> pyval) list \<Rightarrow> (path \<times> pyval) list" where
  "walk p (PyList xs) = walk_items p 0 xs"
| "walk p (PyDict m) = walk_fields p m"
| "walk p _ = []"
| "walk_items p i [] = []"
| "walk_items p i (v # vs) =
     (p @ [Idx i], v) # walk (p @ [Idx i]) v @ walk_items p (Suc i) vs"
| "walk_fields p [] = []"
| "walk_fields p ((k, v) # m) = (p @ [Key k], v) # walk (p @ [Key k]) v @ walk_fields p m"

text \<open>\<open>_set\<close>, on a path that \<open>_walk\<close> has visited.\<close>

fun set_at :: "path \<Rightarrow> pyval \<Rightarrow> pyval \<Rightarrow> pyval" where
  "set_at [] new v = new"
| "set_at (Idx i # p) new (PyList xs) =
     (if i < length xs then PyList (xs[i := set_at p new (xs ! i)]) else PyList xs)"
| "set_at (Key k # p) new (PyDict m) =
     (case map_of m k of
        Some v \<Rightarrow> PyDict (dset k (set_at p new v) m)
      | None \<Rightarrow> PyDict m)"
| "set_at _ new v = v"

definition set_path :: "pydict \<Rightarrow> path \<Rightarrow> pyval \<Rightarrow> pydict" where
  "set_path payload p new = (case set_at p new (PyDict payload) of PyDict m \<Rightarrow> m | _ \<Rightarrow> payload)"

definition parent_key :: "path \<Rightarrow> string option" where
  "parent_key p =
     (case filter (\<lambda>x. case x of Key k \<Rightarrow> True | Idx i \<Rightarrow> False) (rev p) of
        Key k # _ \<Rightarrow> Some k
      | _ \<Rightarrow> None)"

definition format_part :: "string \<Rightarrow> path_part \<Rightarrow> string" where
  "format_part rendered part =
     (case part of
        Idx i \<Rightarrow> rendered @ ''['' @ str_nat i @ '']''
      | Key k \<Rightarrow> if rendered = [] then k else rendered @ ''.'' @ k)"

definition format_path :: "path \<Rightarrow> string" where
  "format_path p = foldl format_part '''' p"

section \<open>Truncation\<close>

definition snippet_body_keys :: "string list" where
  "snippet_body_keys =
     [''text'', ''snippet'', ''snippet_a'', ''snippet_b'', ''code'', ''source'', ''body'']"

definition min_snippet_chars :: nat where "min_snippet_chars = 80"

definition min_list_len :: nat where "min_list_len = 2"

definition max_trim_rounds :: nat where "max_trim_rounds = 64"

definition omission_suffix :: string where
  "omission_suffix = newline @ ''... (truncated)''"

datatype drop_kind = Snippet | ListItems

record dropped =
  dr_path :: string
  dr_kind :: drop_kind
  dr_original :: nat
  dr_kept :: nat

text \<open>The loops that look for the first longest candidate above the threshold.\<close>

definition longest_step ::
    "(path \<times> pyval \<Rightarrow> 'a list option) \<Rightarrow> (path \<times> 'a list) option \<times> nat \<Rightarrow> path \<times> pyval
      \<Rightarrow> (path \<times> 'a list) option \<times> nat" where
  "longest_step cand bn pv =
     (case bn of (best, n) \<Rightarrow>
        (case cand pv of
           Some xs \<Rightarrow> if length xs \<le> n then (best, n) else (Some (fst pv, xs), length xs)
         | None \<Rightarrow> (best, n)))"

definition longest ::
    "(path \<times> pyval \<Rightarrow> 'a list option) \<Rightarrow> nat \<Rightarrow> (path \<times> pyval) list \<Rightarrow> (path \<times> 'a list) option"
where
  "longest cand start vs = fst (foldl (longest_step cand) (None, start) vs)"

definition snippet_candidate :: "path \<times> pyval \<Rightarrow> string option" where
  "snippet_candidate pv =
     (case pv of
        (p, PyStr s) \<Rightarrow>
          (case parent_key p of
             Some k \<Rightarrow> if k \<in> set snippet_body_keys then Some s else None
           | None \<Rightarrow> None)
      | _ \<Rightarrow> None)"

definition list_candidate :: "path \<times> pyval \<Rightarrow> pyval list option" where
  "list_candidate pv = (case pv of (p, PyList xs) \<Rightarrow> Some xs | _ \<Rightarrow> None)"

definition clip_snippet :: "int \<Rightarrow> string \<Rightarrow> string" where
  "clip_snippet excess_chars s =
     (let keep = max 0 (int (length s) - excess_chars);
          keep = (if int (length s) \<le> keep then max 0 (int (length s) div 2) else keep)
      in if keep \<noteq> 0 then take (nat keep) s @ omission_suffix else '''')"

definition truncate_longest_snippet ::
    "int \<Rightarrow> pydict \<Rightarrow> (pydict \<times> dropped) option" where
  "truncate_longest_snippet excess_chars payload =
     (case longest snippet_candidate min_snippet_chars (walk [] (PyDict payload)) of
        None \<Rightarrow> None
      | Some (p, s) \<Rightarrow>
          (let clipped = clip_snippet excess_chars s
           in Some (set_path payload p (PyStr clipped),
                    \<lparr>dr_path = format_path p, dr_kind = Snippet, dr_original = length s,
                     dr_kept = length clipped\<rparr>)))"

definition trim_longest_list :: "pydict \<Rightarrow> (pydict \<times> dropped) option" where
  "trim_longest_list payload =
     (case longest list_candidate (min_list_len - 1) (walk [] (PyDict payload)) of
        None \<Rightarrow> None
      | Some (p, items) \<Rightarrow>
          if length items < min_list_len then None
          else
            (let keep_len = max 1 (length items div 2)
             in Some (set_path payload p (PyList (take keep_len items)),
                      \<lparr>dr_path = format_path p, dr_kind = ListItems, dr_original = length items,
                       dr_kept = keep_len\<rparr>)))"

datatype truncation_order = Snippets_Then_Lists | Lists_Then_Snippets

definition trim_once ::
    "truncation_order \<Rightarrow> int \<Rightarrow> pydict \<Rightarrow> (pydict \<times> dropped) option" where
  "trim_once order excess_chars payload =
     (case order of
        Lists_Then_Snippets \<Rightarrow>
          (case trim_longest_list payload of
             Some r \<Rightarrow> Some r | None \<Rightarrow> truncate_longest_snippet excess_chars payload)
      | Snippets_Then_Lists \<Rightarrow>
          (case truncate_longest_snippet excess_chars payload of
             Some r \<Rightarrow> Some r | None \<Rightarrow> trim_longest_list payload))"

text \<open>The loop of \<open>apply_prompt_budget\<close>; \<open>tokens\<close> measures the prompt of a payload.\<close>

fun trim_rounds ::
    "(pydict \<Rightarrow> int) \<Rightarrow> int \<Rightarrow> truncation_order \<Rightarrow> nat \<Rightarrow> pydict \<Rightarrow> dropped list
      \<Rightarrow> pydict \<times> dropped list" where
  "trim_rounds tokens budget order 0 payload ds = (payload, ds)"
| "trim_rounds tokens budget order (Suc n) payload ds =
     (if tokens payload \<le> budget then (payload, ds)
      else
        (case trim_once order (max 1 ((tokens payload - budget) * 4)) payload of
           None \<Rightarrow> (payload, ds)
         | Some (payload', d) \<Rightarrow> trim_rounds tokens budget order n payload' (ds @ [d])))"

record truncation =
  original_estimated_tokens :: int
  final_estimated_tokens :: int
  token_cap :: int
  dropped_fields :: "dropped list"

definition apply_prompt_budget ::
    "string \<Rightarrow> string \<Rightarrow> int \<Rightarrow> truncation_order \<Rightarrow> pydict \<Rightarrow> pydict \<times> truncation option" where
  "apply_prompt_budget query block budget order payload =
     (let tokens = (\<lambda>p. snd (measure_synthesis_prompt query block p));
          original = tokens payload
      in if budget \<le> 0 \<or> original \<le> budget then (payload, None)
         else
           (case trim_rounds tokens budget order max_trim_rounds payload [] of
              (payload', ds) \<Rightarrow>
                (payload',
                 if ds = [] then None
                 else Some \<lparr>original_estimated_tokens = original,
                            final_estimated_tokens = tokens payload', token_cap = budget,
                            dropped_fields = ds\<rparr>)))"

section \<open>The estimate for the refinement loop\<close>

text \<open>\<open>AgentOutput.model_dump()\<close>\<close>

definition opt_str :: "string option \<Rightarrow> pyval" where
  "opt_str s = (case s of None \<Rightarrow> PyNone | Some t \<Rightarrow> PyStr t)"

definition dump_output :: "agent_output \<Rightarrow> pyval" where
  "dump_output ao =
     PyDict [(''agent'', PyStr (agent_str (ao_agent ao))), (''ok'', PyBool (ao_ok ao)),
             (''output'', ao_output ao), (''error'', opt_str (ao_error ao)),
             (''degraded_note'', opt_str (ao_note ao)),
             (''tools_invoked'', PyList (map PyStr (ao_tools ao)))]"

definition agent_payload_dict :: "outputs \<Rightarrow> pydict" where
  "agent_payload_dict outs = map (\<lambda>(a, ao). (agent_str a, dump_output ao)) outs"

definition estimated_synthesis_prompt_tokens ::
    "(pyval \<Rightarrow> int) \<Rightarrow> string \<Rightarrow> outputs \<Rightarrow> string \<Rightarrow> int \<Rightarrow> truncation_order \<Rightarrow> int" where
  "estimated_synthesis_prompt_tokens to_int query outs block cap order =
     (let payload = compact_neighbor_payloads to_int neighbor_prompt_keep (agent_payload_dict outs);
          budgeted = fst (apply_prompt_budget query block cap order payload)
      in snd (measure_synthesis_prompt query block budgeted))"

section \<open>What trimming may change\<close>

text \<open>A tree of plain data: no dictionary has a key twice.\<close>

fun tree_wf :: "pyval \<Rightarrow> bool" where
  "tree_wf (PyList xs) = (\<forall>v \<in> set xs. tree_wf v)"
| "tree_wf (PyDict m) = (distinct (map fst m) \<and> (\<forall>kv \<in> set m. tree_wf (snd kv)))"
| "tree_wf _ = True"

text \<open>
  The second value is the first with lists cut to a prefix and strings below a snippet key
  replaced; the flag says whether the nearest key above is one of these.
\<close>

inductive trimmed :: "bool \<Rightarrow> pyval \<Rightarrow> pyval \<Rightarrow> bool" where
  Same: "trimmed b v v"
| Clip: "trimmed True (PyStr s) (PyStr t)"
| Items: "length ys \<le> length xs \<Longrightarrow> (\<And>i. i < length ys \<Longrightarrow> trimmed b (xs ! i) (ys ! i))
    \<Longrightarrow> trimmed b (PyList xs) (PyList ys)"
| Fields: "map fst m' = map fst m \<Longrightarrow>
    (\<And>i. i < length m \<Longrightarrow> trimmed (fst (m ! i) \<in> set snippet_body_keys) (snd (m ! i)) (snd (m' ! i)))
    \<Longrightarrow> trimmed b (PyDict m) (PyDict m')"

inductive_cases trimmed_ListE: "trimmed b (PyList xs) w"
inductive_cases trimmed_DictE: "trimmed b (PyDict m) w"
inductive_cases trimmed_StrE: "trimmed b (PyStr s) w"

lemma trimmed_trans: "trimmed b u v \<Longrightarrow> trimmed b v w \<Longrightarrow> trimmed b u w"
proof (induction arbitrary: w rule: trimmed.induct)
  case (Same b v)
  then show ?case .
next
  case (Clip s t)
  then show ?case by (auto elim!: trimmed_StrE intro: trimmed.Clip trimmed.Same)
next
  case (Items ys xs b)
  from Items.prems consider "w = PyList ys"
    | zs where "w = PyList zs" "length zs \<le> length ys" "\<And>i. i < length zs \<Longrightarrow> trimmed b (ys ! i) (zs ! i)"
    by (auto elim: trimmed_ListE)
  then show ?case
  proof cases
    case 1
    with Items.hyps show ?thesis by (auto intro: trimmed.Items)
  next
    case (2 zs)
    with Items.hyps(1) Items.IH show ?thesis by (auto intro!: trimmed.Items)
  qed
next
  case (Fields m' m b)
  have len: "length m' = length m" using Fields.hyps(1) by (metis length_map)
  have fst: "fst (m' ! i) = fst (m ! i)" if "i < length m" for i
    using that len Fields.hyps(1) by (metis nth_map)
  from Fields.prems consider "w = PyDict m'"
    | m'' where "w = PyDict m''" "map fst m'' = map fst m'"
        "\<And>i. i < length m' \<Longrightarrow>
           trimmed (fst (m' ! i) \<in> set snippet_body_keys) (snd (m' ! i)) (snd (m'' ! i))"
    by (auto elim: trimmed_DictE)
  then show ?case
  proof cases
    case 1
    with Fields.hyps show ?thesis by (auto intro: trimmed.Fields)
  next
    case (2 m'')
    have "trimmed (fst (m ! i) \<in> set snippet_body_keys) (snd (m ! i)) (snd (m'' ! i))"
      if "i < length m" for i
      using Fields.IH [OF that] 2(3) [of i] fst [OF that] that len by simp
    with 2(1,2) Fields.hyps(1) show ?thesis by (auto intro: trimmed.Fields)
  qed
qed

fun key_body :: "bool \<Rightarrow> path \<Rightarrow> bool" where
  "key_body b [] = b"
| "key_body b (Idx i # p) = key_body b p"
| "key_body b (Key k # p) = key_body (k \<in> set snippet_body_keys) p"

lemma key_body_snoc [simp]:
  "key_body b (p @ [Idx i]) = key_body b p"
  "key_body b (p @ [Key k]) = (k \<in> set snippet_body_keys)"
  by (induction b p rule: key_body.induct) simp_all

lemma parent_key_snoc [simp]:
  "parent_key (p @ [Idx i]) = parent_key p"
  "parent_key (p @ [Key k]) = Some k"
  by (simp_all add: parent_key_def)

lemma key_body_parent: "parent_key p = Some k \<Longrightarrow> key_body b p = (k \<in> set snippet_body_keys)"
proof (induction p rule: rev_induct)
  case Nil
  then show ?case by (simp add: parent_key_def)
next
  case (snoc x p)
  then show ?case by (cases x) auto
qed

subsection \<open>Where the walk leads\<close>

lemma walk_items_mem:
  "(q, v) \<in> set (walk_items p i vs) \<Longrightarrow>
     \<exists>j < length vs. (q = p @ [Idx (i + j)] \<and> v = vs ! j) \<or> (q, v) \<in> set (walk (p @ [Idx (i + j)]) (vs ! j))"
proof (induction vs arbitrary: i)
  case (Cons x vs)
  from Cons.prems consider "q = p @ [Idx i]" "v = x" | "(q, v) \<in> set (walk (p @ [Idx i]) x)"
    | "(q, v) \<in> set (walk_items p (Suc i) vs)" by auto
  then show ?case
  proof cases
    case 3
    from Cons.IH [OF this] obtain j where "j < length vs"
      "(q = p @ [Idx (Suc i + j)] \<and> v = vs ! j) \<or> (q, v) \<in> set (walk (p @ [Idx (Suc i + j)]) (vs ! j))"
      by blast
    then show ?thesis by (intro exI [of _ "Suc j"]) simp
  qed (auto intro!: exI [of _ 0])
qed simp

lemma walk_fields_mem:
  "(q, v) \<in> set (walk_fields p m) \<Longrightarrow>
     \<exists>k w. (k, w) \<in> set m \<and> ((q = p @ [Key k] \<and> v = w) \<or> (q, v) \<in> set (walk (p @ [Key k]) w))"
proof (induction m)
  case (Cons kw m)
  obtain k w where kw: "kw = (k, w)" by (cases kw)
  from Cons.prems consider "q = p @ [Key k]" "v = w" | "(q, v) \<in> set (walk (p @ [Key k]) w)"
    | "(q, v) \<in> set (walk_fields p m)" by (auto simp: kw)
  then show ?case
  proof cases
    case 3
    with Cons.IH obtain k' w' where "(k', w') \<in> set m"
      "(q = p @ [Key k'] \<and> v = w') \<or> (q, v) \<in> set (walk (p @ [Key k']) w')" by blast
    then show ?thesis by (intro exI [of _ k'] exI [of _ w']) simp
  qed (intro exI [of _ k] exI [of _ w]; simp add: kw)+
qed simp

text \<open>
  Setting the value that the walk saw changes nothing; setting one that is trimmed from it trims
  the tree.
\<close>

definition settable :: "bool \<Rightarrow> pyval \<Rightarrow> path \<Rightarrow> pyval \<Rightarrow> bool" where
  "settable b tree r v \<longleftrightarrow>
     tree_wf v \<and> set_at r v tree = tree \<and>
     (\<forall>new. trimmed (key_body b r) v new \<longrightarrow> trimmed b tree (set_at r new tree)) \<and>
     (\<forall>new. tree_wf new \<longrightarrow> tree_wf (set_at r new tree))"

lemma settable_Nil: "tree_wf v \<Longrightarrow> settable b v [] v"
  by (simp add: settable_def)

lemma settable_item:
  assumes "tree_wf (PyList xs)" and "j < length xs" and "settable b (xs ! j) r v"
  shows "settable b (PyList xs) (Idx j # r) v"
  unfolding settable_def
proof (intro conjI allI impI)
  show "tree_wf v" "set_at (Idx j # r) v (PyList xs) = PyList xs"
    using assms(2,3) by (simp_all add: settable_def)
  show "trimmed b (PyList xs) (set_at (Idx j # r) new (PyList xs))"
    if "trimmed (key_body b (Idx j # r)) v new" for new
    using that assms(2,3) by (auto simp: settable_def nth_list_update intro!: trimmed.Items trimmed.Same)
  show "tree_wf (set_at (Idx j # r) new (PyList xs))" if "tree_wf new" for new
    using that assms by (auto simp: settable_def dest!: set_update_subset_insert [THEN subsetD])
qed

lemma nth_update:
  assumes "distinct (map fst m)" and "j < length m" and "fst (m ! j) = k"
  shows "AList.update k v m = m[j := (k, v)]"
  using assms
proof (induction m arbitrary: j)
  case (Cons a m)
  show ?case
  proof (cases j)
    case 0
    with Cons.prems show ?thesis by (cases a) simp
  next
    case (Suc i)
    have "m ! i \<in> set m" using Cons.prems(2) Suc by simp
    then have "fst a \<noteq> k" using Cons.prems(1,3) Suc by auto
    with Suc Cons show ?thesis by (cases a) simp
  qed
qed simp

lemma settable_field:
  assumes "tree_wf (PyDict m)" and "(k, w) \<in> set m" and "settable (k \<in> set snippet_body_keys) w r v"
  shows "settable b (PyDict m) (Key k # r) v"
proof -
  from assms(2) obtain j where j: "j < length m" "m ! j = (k, w)" by (auto simp: in_set_conv_nth)
  have dist: "distinct (map fst m)" using assms(1) by simp
  have mk: "map_of m k = Some w" using dist assms(2) by simp
  have set: "set_at (Key k # r) new (PyDict m) = PyDict (m[j := (k, set_at r new w)])" for new
    using nth_update [OF dist j(1), of k] j(2) by (simp add: mk)
  show ?thesis
    unfolding settable_def set
  proof (intro conjI allI impI)
    show "tree_wf v" using assms(3) by (simp add: settable_def)
    show "PyDict (m[j := (k, set_at r v w)]) = PyDict m"
      using assms(3) j by (simp add: settable_def list_update_same_conv)
    show "trimmed b (PyDict m) (PyDict (m[j := (k, set_at r new w)]))"
      if "trimmed (key_body b (Key k # r)) v new" for new
    proof (rule trimmed.Fields)
      show "map fst (m[j := (k, set_at r new w)]) = map fst m"
        using j by (simp add: map_update list_update_same_conv)
      show "trimmed (fst (m ! i) \<in> set snippet_body_keys) (snd (m ! i))
          (snd (m[j := (k, set_at r new w)] ! i))" if "i < length m" for i
        using assms(3) j that \<open>trimmed (key_body b (Key k # r)) v new\<close>
        by (cases "i = j") (auto simp: settable_def intro: trimmed.Same)
    qed
    show "tree_wf (PyDict (m[j := (k, set_at r new w)]))" if "tree_wf new" for new
    proof -
      have "map fst (m[j := (k, set_at r new w)]) = map fst m"
        using j by (simp add: map_update list_update_same_conv)
      moreover have "tree_wf (snd kv)" if "kv \<in> set (m[j := (k, set_at r new w)])" for kv
        using that set_update_subset_insert [of m j "(k, set_at r new w)"] assms(1,3) \<open>tree_wf new\<close>
        by (auto simp: settable_def)
      ultimately show ?thesis using dist by simp
    qed
  qed
qed

lemma walk_settable:
  "(q, v) \<in> set (walk p tree) \<Longrightarrow> tree_wf tree \<Longrightarrow> \<exists>r. q = p @ r \<and> settable b tree r v"
proof (induction tree arbitrary: p b)
  case (PyList xs)
  then obtain j where j: "j < length xs"
    "(q = p @ [Idx j] \<and> v = xs ! j) \<or> (q, v) \<in> set (walk (p @ [Idx j]) (xs ! j))"
    using walk_items_mem [of q v p 0 xs] by auto
  have wf: "tree_wf (xs ! j)" using PyList.prems(2) j(1) by simp
  from j(2) show ?case
  proof
    assume "q = p @ [Idx j] \<and> v = xs ! j"
    then show ?thesis using settable_item [OF PyList.prems(2) j(1) settable_Nil [OF wf]] by auto
  next
    assume "(q, v) \<in> set (walk (p @ [Idx j]) (xs ! j))"
    from PyList.IH [OF nth_mem [OF j(1)] this wf, of b] obtain r where
      "q = (p @ [Idx j]) @ r" "settable b (xs ! j) r v" by blast
    then show ?thesis using settable_item [OF PyList.prems(2) j(1)] by auto
  qed
next
  case (PyDict m)
  then obtain k w where kw: "(k, w) \<in> set m"
    "(q = p @ [Key k] \<and> v = w) \<or> (q, v) \<in> set (walk (p @ [Key k]) w)"
    using walk_fields_mem [of q v p m] by auto
  have wf: "tree_wf w" using PyDict.prems(2) kw(1) by fastforce
  from kw(2) show ?case
  proof
    assume "q = p @ [Key k] \<and> v = w"
    then show ?thesis using settable_field [OF PyDict.prems(2) kw(1) settable_Nil [OF wf]] by auto
  next
    assume "(q, v) \<in> set (walk (p @ [Key k]) w)"
    then obtain r where "q = (p @ [Key k]) @ r" "settable (k \<in> set snippet_body_keys) w r v"
      using PyDict.IH [OF kw(1), of w "p @ [Key k]" "k \<in> set snippet_body_keys"] wf by auto
    then show ?thesis using settable_field [OF PyDict.prems(2) kw(1)] by auto
  qed
qed simp_all

subsection \<open>One trimming step\<close>

lemma set_path_dict:
  assumes "settable b (PyDict m) r v" and "trimmed (key_body b r) v new"
  shows "set_at r new (PyDict m) = PyDict (set_path m r new)"
proof -
  have "trimmed b (PyDict m) (set_at r new (PyDict m))" using assms(1,2) by (simp add: settable_def)
  then obtain m' where "set_at r new (PyDict m) = PyDict m'" by (auto elim: trimmed_DictE)
  then show ?thesis by (simp add: set_path_def)
qed

lemma longest_fold:
  assumes "best \<noteq> None \<longrightarrow> (\<exists>pv \<in> V. cand pv = Some (snd (the best)) \<and> fst (the best) = fst pv \<and>
             start < length (snd (the best)))" and "start \<le> n"
    and "foldl (longest_step cand) (best, n) vs = (best', n')" and "set vs \<subseteq> V"
  shows "best' \<noteq> None \<longrightarrow> (\<exists>pv \<in> V. cand pv = Some (snd (the best')) \<and> fst (the best') = fst pv \<and>
             start < length (snd (the best')))"
  using assms
proof (induction vs arbitrary: best n)
  case Nil
  then show ?case by simp
next
  case (Cons pv vs)
  obtain b1 n1 where st: "longest_step cand (best, n) pv = (b1, n1)"
    by (cases "longest_step cand (best, n) pv")
  have "b1 \<noteq> None \<longrightarrow> (\<exists>pv \<in> V. cand pv = Some (snd (the b1)) \<and> fst (the b1) = fst pv \<and>
             start < length (snd (the b1)))" and "start \<le> n1"
    using st Cons.prems by (auto simp: longest_step_def split: option.splits if_splits)
  from Cons.IH [OF this] Cons.prems(3,4) st show ?case by simp
qed

lemma longest_Some:
  assumes "longest cand start vs = Some (p, xs)"
  shows "\<exists>pv \<in> set vs. cand pv = Some xs \<and> fst pv = p \<and> start < length xs"
proof -
  obtain best n where f: "foldl (longest_step cand) (None, start) vs = (best, n)"
    by (cases "foldl (longest_step cand) (None, start) vs")
  with assms have "best = Some (p, xs)" by (simp add: longest_def)
  with longest_fold [OF _ _ f, of "set vs" start] show ?thesis by auto
qed

lemma snippet_candidate_Some:
  "snippet_candidate pv = Some s \<Longrightarrow> snd pv = PyStr s \<and> key_body False (fst pv)"
  by (auto simp: snippet_candidate_def key_body_parent split: prod.splits pyval.splits option.splits if_splits)

lemma list_candidate_Some: "list_candidate pv = Some xs \<Longrightarrow> snd pv = PyList xs"
  by (auto simp: list_candidate_def split: prod.splits pyval.splits)

lemma set_walked:
  assumes "(q, v) \<in> set (walk [] (PyDict m))" and "tree_wf (PyDict m)"
    and "trimmed (key_body False q) v new" and "tree_wf new"
  shows "trimmed False (PyDict m) (PyDict (set_path m q new)) \<and> tree_wf (PyDict (set_path m q new))"
    and "set_path m q v = m"
proof -
  obtain r where r: "q = [] @ r" "settable False (PyDict m) r v"
    using walk_settable [OF assms(1,2)] by blast
  have "set_at r new (PyDict m) = PyDict (set_path m r new)"
    using set_path_dict [OF r(2)] assms(3) r(1) by simp
  with r assms(3,4) show "trimmed False (PyDict m) (PyDict (set_path m q new)) \<and>
      tree_wf (PyDict (set_path m q new))"
    unfolding settable_def by (metis append_Nil)
  show "set_path m q v = m" using r by (simp add: set_path_def settable_def)
qed

lemma trim_once_trimmed:
  assumes "trim_once order excess m = Some (m', d)" and "tree_wf (PyDict m)"
  shows "trimmed False (PyDict m) (PyDict m') \<and> tree_wf (PyDict m')"
proof -
  have snip: "trimmed False (PyDict m) (PyDict m') \<and> tree_wf (PyDict m')"
    if t: "truncate_longest_snippet excess m = Some (m', d)"
  proof -
    from t obtain p s where l: "longest snippet_candidate min_snippet_chars (walk [] (PyDict m)) = Some (p, s)"
      and m': "m' = set_path m p (PyStr (clip_snippet excess s))"
      by (auto simp: truncate_longest_snippet_def Let_def split: option.splits)
    from longest_Some [OF l] have "(p, PyStr s) \<in> set (walk [] (PyDict m))" "key_body False p"
      using snippet_candidate_Some by (metis prod.collapse)+
    then show ?thesis
      unfolding m' using assms(2) by (intro set_walked(1)) (auto intro: trimmed.Clip)
  qed
  have lst: "trimmed False (PyDict m) (PyDict m') \<and> tree_wf (PyDict m')"
    if t: "trim_longest_list m = Some (m', d)"
  proof -
    from t obtain p xs where l: "longest list_candidate (min_list_len - 1) (walk [] (PyDict m)) = Some (p, xs)"
      and m': "m' = set_path m p (PyList (take (max 1 (length xs div 2)) xs))"
      by (auto simp: trim_longest_list_def Let_def split: option.splits if_splits)
    from longest_Some [OF l] have w: "(p, PyList xs) \<in> set (walk [] (PyDict m))"
      using list_candidate_Some by (metis prod.collapse)
    obtain r where "settable False (PyDict m) r (PyList xs)"
      using walk_settable [OF w assms(2), of False] by auto
    then have "tree_wf (PyList xs)" by (simp add: settable_def)
    then have "tree_wf (PyList (take n xs))" for n by (auto dest: in_set_takeD)
    moreover have "trimmed b (PyList xs) (PyList (take n xs))" for b n
      by (rule trimmed.Items) (auto intro: trimmed.Same)
    ultimately show ?thesis unfolding m' using w assms(2) by (intro set_walked(1))
  qed
  from assms(1) snip lst show ?thesis
    by (auto simp: trim_once_def split: truncation_order.splits option.splits)
qed

lemma trim_rounds_spec:
  assumes "trim_rounds tokens budget order n m ds = (m', ds')" and "tree_wf (PyDict m)"
  shows "trimmed False (PyDict m) (PyDict m') \<and> length ds' \<le> length ds + n \<and> prefix ds ds'
    \<and> (tokens m' \<le> budget \<or> length ds' = length ds + n
       \<or> trim_once order (max 1 ((tokens m' - budget) * 4)) m' = None)
    \<and> (ds' = ds \<longrightarrow> m' = m)"
  using assms
proof (induction tokens budget order n m ds rule: trim_rounds.induct)
  case (1 tokens budget order payload ds)
  then show ?case by (auto intro: trimmed.Same)
next
  case (2 tokens budget order n payload ds)
  show ?case
  proof (cases "tokens payload \<le> budget")
    case True
    with 2 show ?thesis by (auto intro: trimmed.Same)
  next
    case False
    let ?e = "max 1 ((tokens payload - budget) * 4)"
    show ?thesis
    proof (cases "trim_once order ?e payload")
      case None
      with 2 False show ?thesis by (auto intro: trimmed.Same)
    next
      case (Some pd)
      obtain p d where pd: "pd = (p, d)" by (cases pd)
      have step: "trimmed False (PyDict payload) (PyDict p)" "tree_wf (PyDict p)"
        using trim_once_trimmed [of order ?e payload p d] Some pd "2.prems"(2) by auto
      have "trim_rounds tokens budget order n p (ds @ [d]) = (m', ds')"
        using "2.prems"(1) False Some pd by simp
      from "2.IH" [OF False Some pd [symmetric] this step(2)] step(1) show ?thesis
        by (auto intro: trimmed_trans simp: prefix_def)
    qed
  qed
qed

subsection \<open>The fixed point of the snippet step\<close>

lemma clip_stalls:
  assumes "excess = int (length omission_suffix)" and "u \<noteq> []"
  shows "clip_snippet excess (u @ omission_suffix) = u @ omission_suffix"
  using assms by (simp add: clip_snippet_def Let_def omission_suffix_def newline_def)

lemma snippet_step_stalls:
  assumes "longest snippet_candidate min_snippet_chars (walk [] (PyDict m)) = Some (p, u @ omission_suffix)"
    and "u \<noteq> []" and "tree_wf (PyDict m)"
  shows "\<exists>d. trim_once Snippets_Then_Lists 16 m = Some (m, d)"
proof -
  have len: "int (length omission_suffix) = 16" by (simp add: omission_suffix_def newline_def)
  have clip: "clip_snippet 16 (u @ omission_suffix) = u @ omission_suffix"
    using clip_stalls [OF len [symmetric] assms(2)] .
  from longest_Some [OF assms(1)] have w: "(p, PyStr (u @ omission_suffix)) \<in> set (walk [] (PyDict m))"
    using snippet_candidate_Some by (metis prod.collapse)
  have "set_path m p (PyStr (u @ omission_suffix)) = m"
    using set_walked(2) [OF w assms(3) trimmed.Same] by simp
  with assms(1) clip show ?thesis
    by (simp add: trim_once_def truncate_longest_snippet_def Let_def)
qed

lemma trim_rounds_stall:
  assumes "tokens m = budget + 4" and "\<exists>d. trim_once order 16 m = Some (m, d)"
  shows "\<exists>ds'. trim_rounds tokens budget order n m ds = (m, ds') \<and> length ds' = length ds + n"
proof (induction n arbitrary: ds)
  case 0
  then show ?case by simp
next
  case (Suc n)
  from assms(2) obtain d where "trim_once order 16 m = Some (m, d)" by blast
  moreover from Suc [of "ds @ [d]"] obtain ds' where
    "trim_rounds tokens budget order n m (ds @ [d]) = (m, ds')" "length ds' = length ds + Suc n" by auto
  ultimately show ?case using assms(1) by simp
qed

section \<open>Properties\<close>

text \<open>
  Capping the prompt only removes evidence: in the payload that is sent every list is a
  prefix of the original list, every dictionary has its keys, every value outside the snippet
  fields is the original one, cut in the same way. Nothing is touched when the prompt fits
  already. When something was dropped, the record tells the true measure of what is sent, at
  most 64 fields were cut, and the prompt is within the budget, or all 64 rounds were used, or
  nothing is left that could be cut.
\<close>

theorem prompt_budget_only_trims:
  assumes "tree_wf (PyDict payload)"
  shows "case apply_prompt_budget query block budget order payload of
     (sent, None) \<Rightarrow> sent = payload \<and>
        (budget \<le> 0 \<or> snd (measure_synthesis_prompt query block payload) \<le> budget
         \<or> trim_once order (max 1 ((snd (measure_synthesis_prompt query block payload) - budget) * 4)) payload = None)
   | (sent, Some t) \<Rightarrow> trimmed False (PyDict payload) (PyDict sent)
        \<and> final_estimated_tokens t = snd (measure_synthesis_prompt query block sent)
        \<and> budget < original_estimated_tokens t
        \<and> length (dropped_fields t) \<le> 64
        \<and> (final_estimated_tokens t \<le> budget \<or> length (dropped_fields t) = 64
           \<or> trim_once order (max 1 ((final_estimated_tokens t - budget) * 4)) sent = None)"
proof -
  let ?tokens = "\<lambda>p. snd (measure_synthesis_prompt query block p)"
  show ?thesis
  proof (cases "budget \<le> 0 \<or> ?tokens payload \<le> budget")
    case True
    then show ?thesis by (auto simp: apply_prompt_budget_def Let_def)
  next
    case False
    obtain sent ds where tr: "trim_rounds ?tokens budget order max_trim_rounds payload [] = (sent, ds)"
      by (cases "trim_rounds ?tokens budget order max_trim_rounds payload []")
    note spec = trim_rounds_spec [OF tr assms]
    from False tr have eq: "apply_prompt_budget query block budget order payload =
        (sent, if ds = [] then None
               else Some \<lparr>original_estimated_tokens = ?tokens payload,
                 final_estimated_tokens = ?tokens sent, token_cap = budget, dropped_fields = ds\<rparr>)"
      by (simp add: apply_prompt_budget_def Let_def)
    show ?thesis
    proof (cases "ds = []")
      case True
      with spec have "sent = payload" by simp
      with True eq spec False show ?thesis by (auto simp: max_trim_rounds_def)
    next
      case False
      with eq spec \<open>\<not> (budget \<le> 0 \<or> ?tokens payload \<le> budget)\<close> show ?thesis
        by (auto simp: max_trim_rounds_def)
    qed
  qed
qed

lemma estimate_above: "40 \<le> length s \<Longrightarrow> 4 < estimate_prompt_tokens s"
  by (auto simp: estimate_prompt_tokens_def)

definition big_payload :: pydict where
  "big_payload = [(''text'', PyStr (replicate 100 CHR ''x'' @ omission_suffix)), (''k'', PyList [PyNone, PyNone])]"

lemma big_payload_wf: "tree_wf (PyDict big_payload)"
  by (simp add: big_payload_def)

theorem prompt_budget_only_trims_witness:
  "fst (apply_prompt_budget ''q'' [] 0 Snippets_Then_Lists big_payload) = big_payload"
  using prompt_budget_only_trims [OF big_payload_wf, where query = "''q''" and block = "[]"
      and budget = 0 and order = Snippets_Then_Lists]
  by (simp add: apply_prompt_budget_def Let_def)

text \<open>
  The cap can stall above the budget. A snippet that was cut ends with the omission note of
  16 characters; when it is still the longest and the prompt is four tokens over the budget, the
  next round cuts 16 characters and appends the same 16. The payload does not change any more,
  all 64 rounds are used up on it, no list is ever shortened, and the prompt that is sent is over
  the budget.
\<close>

theorem prompt_budget_stalls_above_cap:
  assumes "longest snippet_candidate min_snippet_chars (walk [] (PyDict payload))
             = Some (p, u @ omission_suffix)"
    and "u \<noteq> []" and "tree_wf (PyDict payload)"
    and "snd (measure_synthesis_prompt query block payload) = budget + 4" and "0 < budget"
  shows "\<exists>t. apply_prompt_budget query block budget Snippets_Then_Lists payload = (payload, Some t)
    \<and> length (dropped_fields t) = 64 \<and> final_estimated_tokens t = budget + 4"
proof -
  from trim_rounds_stall [where n = max_trim_rounds and ds = "[]"
      and tokens = "\<lambda>p. snd (measure_synthesis_prompt query block p)",
      OF assms(4) snippet_step_stalls [OF assms(1-3)]]
  obtain ds where
    "trim_rounds (\<lambda>p. snd (measure_synthesis_prompt query block p)) budget Snippets_Then_Lists
       max_trim_rounds payload [] = (payload, ds)" "length ds = 64"
    by (auto simp: max_trim_rounds_def)
  moreover from this have "ds \<noteq> []" by auto
  ultimately show ?thesis using assms(4,5) by (auto simp: apply_prompt_budget_def Let_def)
qed

theorem prompt_budget_stalls_above_cap_witness:
  "\<exists>budget t. 0 < budget
     \<and> apply_prompt_budget ''q'' [] budget Snippets_Then_Lists big_payload = (big_payload, Some t)
     \<and> final_estimated_tokens t = budget + 4"
proof -
  let ?b = "snd (measure_synthesis_prompt ''q'' [] big_payload) - 4"
  have l: "longest snippet_candidate min_snippet_chars (walk [] (PyDict big_payload))
      = Some ([Key ''text''], replicate 100 CHR ''x'' @ omission_suffix)"
    by (simp add: big_payload_def longest_def longest_step_def snippet_candidate_def parent_key_def
        snippet_body_keys_def min_snippet_chars_def)
  have u: "replicate 100 CHR ''x'' \<noteq> []" by simp
  have b: "0 < ?b"
  proof -
    have "40 \<le> length synthesis_system_prompt" by (simp add: synthesis_system_prompt_def)
    then have "4 < estimate_prompt_tokens (synthesis_system_prompt @ rest)" for rest
      by (intro estimate_above) simp
    then show ?thesis by (simp add: measure_synthesis_prompt_def Let_def)
  qed
  have "snd (measure_synthesis_prompt ''q'' [] big_payload) = ?b + 4" by simp
  from prompt_budget_stalls_above_cap [OF l u big_payload_wf this b] b show ?thesis by blast
qed

end
