(* ===== verification/Gateway.thy ===== *)
theory Gateway
  imports Prelude
begin

text \<open>
  The gateway's chat service, job registry and rate limiter (\<open>core/gateway.py\<close>). The orchestrator
  client is a parameter: which callbacks it takes, the callbacks it makes while it handles the
  query, and what it ends with. A stream is the list of the events that are yielded and the
  error that ends it, if one does; the latency in the last event is an argument.
\<close>

section \<open>Events\<close>

datatype event_type = Routing_Event | Agent_Result | Answer | Done

record chat_event =
  ev_type :: event_type
  ev_correlation :: string
  ev_data :: pydict

definition event :: "event_type \<Rightarrow> string \<Rightarrow> pydict \<Rightarrow> chat_event" where
  "event t cid d = \<lparr>ev_type = t, ev_correlation = cid, ev_data = d\<rparr>"

definition empty_totals_dict :: pydict where
  "empty_totals_dict =
     [(''total'', PyInt 0), (''prompt'', PyInt 0), (''completion'', PyInt 0),
      (''cached_prompt'', PyInt 0), (''uncached_prompt'', PyInt 0), (''llm_calls'', PyInt 0),
      (''cost_usd'', PyFloat ''0.0''), (''by_purpose'', PyDict []), (''by_model'', PyDict [])]"

text \<open>\<open>m.get(k, default)\<close>\<close>

definition dget_default :: "pydict \<Rightarrow> string \<Rightarrow> pyval \<Rightarrow> pyval" where
  "dget_default m k d = (case map_of m k of Some v \<Rightarrow> v | None \<Rightarrow> d)"

definition str_list :: "pyval list \<Rightarrow> pyval" where
  "str_list vs = PyList (map (\<lambda>v. PyStr (py_str v)) vs)"

definition agents_from_tools :: "string list \<Rightarrow> string list" where
  "agents_from_tools tools =
     foldl (\<lambda>agents tool.
        case partition_at CHR ''.'' tool of
          (agent, True, rest) \<Rightarrow> if agent = [] then agents else add_new agent agents
        | _ \<Rightarrow> agents)
       [] tools"

definition expand_tools_invoked :: "string list \<Rightarrow> string list" where
  "expand_tools_invoked tools =
     add_all_new []
       (filter (\<lambda>c. c \<noteq> [])
         (concat (map (\<lambda>item. case partition_at CHR ''.'' item of
                         (h, True, t) \<Rightarrow> [item, t] | _ \<Rightarrow> [item]) tools)))"

text \<open>\<open>text[i:i+n]\<close> for \<open>i\<close> in steps of \<open>n\<close>.\<close>

function chunks_of :: "nat \<Rightarrow> string \<Rightarrow> string list" where
  "chunks_of n s = (if n = 0 \<or> s = [] then [] else take n s # chunks_of n (drop n s))"
  by pat_completeness auto
termination
  by (relation "measure (\<lambda>(n, s). length s)") auto

declare chunks_of.simps [simp del]

definition chunk_text :: "string \<Rightarrow> int \<Rightarrow> string list" where
  "chunk_text s chunk_size =
     (if chunk_size \<le> 0 then [s]
      else (case chunks_of (nat chunk_size) s of [] \<Rightarrow> [''''] | c # cs \<Rightarrow> c # cs))"

definition optional_bool :: "pyval \<Rightarrow> bool option" where
  "optional_bool v = (case v of PyBool b \<Rightarrow> Some b | _ \<Rightarrow> None)"

section \<open>The orchestrator's answer\<close>

record parsed_payload =
  pp_answer :: string
  pp_metadata :: "pydict option"
  pp_cached :: bool
  pp_degraded :: bool
  pp_routing_mode :: string
  pp_tools :: "string list"
  pp_tokens :: pydict
  pp_evidence_only :: bool
  pp_partial :: bool
  pp_reason :: "string option"
  pp_truncated :: "pydict option"
  pp_memory :: "bool option"
  pp_statistics :: "bool option"

definition given_str :: "pyval \<Rightarrow> string option" where
  "given_str v = (if v = PyNone then None else Some (py_str v))"

text \<open>The fields that both paths read in the same way; the routing mode is read differently.\<close>

definition parsed_of :: "string \<Rightarrow> pydict option \<Rightarrow> string \<Rightarrow> pydict \<Rightarrow> parsed_payload" where
  "parsed_of answer metadata mode m =
     \<lparr>pp_answer = answer, pp_metadata = metadata,
      pp_cached = truthy (dget m ''cached''), pp_degraded = truthy (dget m ''degraded''),
      pp_routing_mode = mode,
      pp_tools = (case dget m ''tools_invoked'' of PyList vs \<Rightarrow> map py_str vs | _ \<Rightarrow> []),
      pp_tokens = (case dget m ''tokens'' of PyDict d \<Rightarrow> d | _ \<Rightarrow> empty_totals_dict),
      pp_evidence_only = truthy (dget m ''evidence_only''), pp_partial = truthy (dget m ''partial''),
      pp_reason = given_str (dget m ''degraded_reason''),
      pp_truncated = as_dict (dget m ''prompt_truncated''),
      pp_memory = optional_bool (dget m ''memory_available''),
      pp_statistics = optional_bool (dget m ''graph_statistics_available'')\<rparr>"

text \<open>\<open>_payload_fields\<close>, which the live path uses.\<close>

definition payload_fields :: "pyval \<Rightarrow> parsed_payload" where
  "payload_fields payload =
     (let p = (case payload of
                 PyDict m \<Rightarrow> m | v \<Rightarrow> [(''answer'', PyStr (py_str v)), (''metadata'', PyDict [])]);
          meta = (case dget p ''metadata'' of PyDict m \<Rightarrow> m | _ \<Rightarrow> [])
      in parsed_of (py_str (dget_default p ''answer'' (PyStr '''')))
           (if meta = [] then None else Some meta)
           (py_str (py_or [dget meta ''routing_mode'', PyStr ''orchestrator''])) meta)"

text \<open>The waiting path reads the fields in place; the payload is a mapping.\<close>

definition waiting_fields :: "pydict \<Rightarrow> parsed_payload" where
  "waiting_fields p =
     (let meta = as_dict (dget p ''metadata''); m = (case meta of Some d \<Rightarrow> d | None \<Rightarrow> [])
      in parsed_of (py_str (dget_default p ''answer'' (PyStr ''''))) meta
           (case meta of
              None \<Rightarrow> ''orchestrator''
            | Some d \<Rightarrow> py_str (dget_default d ''routing_mode'' (PyStr ''orchestrator''))) m)"

text \<open>What Python says of a value that has no such attribute.\<close>

fun type_name :: "pyval \<Rightarrow> string" where
  "type_name PyNone = ''NoneType''"
| "type_name (PyBool b) = ''bool''"
| "type_name (PyInt i) = ''int''"
| "type_name (PyFloat t) = ''float''"
| "type_name (PyStr s) = ''str''"
| "type_name (PyList xs) = ''list''"
| "type_name (PyDict m) = ''dict''"

definition quoted_type :: "pyval \<Rightarrow> string" where
  "quoted_type v = [CHR 0x27] @ type_name v @ [CHR 0x27]"

definition no_attribute :: "pyval \<Rightarrow> string \<Rightarrow> string" where
  "no_attribute v a =
     quoted_type v @ '' object has no attribute '' @ [CHR 0x27] @ a @ [CHR 0x27]"

definition degraded_answer :: "exn \<Rightarrow> string" where
  "degraded_answer e = ''Degraded response: failed to run orchestrator ('' @ exn_str e @ '').''"

section \<open>Emitting\<close>

definition agents_or_default :: "string list \<Rightarrow> pyval" where
  "agents_or_default agents = PyList (map PyStr (if agents = [] then [''orchestrator''] else agents))"

definition routing_iteration ::
    "string \<Rightarrow> parsed_payload \<Rightarrow> pyval \<Rightarrow> pydict \<Rightarrow> chat_event" where
  "routing_iteration cid p breakers item =
     (let tools = PyList (map PyStr (pp_tools p)) in
      event Routing_Event cid
        [(''mode'', PyStr ''orchestrator''),
         (''routing_mode'', PyStr (py_str (py_or [dget item ''routing_mode'', PyStr (pp_routing_mode p)]))),
         (''iteration'', dget item ''iteration''),
         (''agents'', (case dget item ''agents'' of
                         PyList (a # as) \<Rightarrow> PyList (a # as)
                       | _ \<Rightarrow> agents_or_default (agents_from_tools (pp_tools p)))),
         (''tools_invoked'', py_or [dget item ''tools_invoked'', tools]),
         (''search_terms'', py_or [dget item ''search_terms'', PyList []]),
         (''sufficient'', dget item ''sufficient''), (''reason'', dget item ''reason''),
         (''refinement'', dget item ''refinement''), (''cached'', PyBool (pp_cached p)),
         (''degraded'', PyBool (pp_degraded p)), (''circuit_breakers'', breakers)])"

definition emit_routing_and_agent :: "string \<Rightarrow> parsed_payload \<Rightarrow> chat_event list" where
  "emit_routing_and_agent cid p =
     (let m = (case pp_metadata p of Some d \<Rightarrow> d | None \<Rightarrow> []);
          breakers = (case dget m ''circuit_breakers'' of PyDict d \<Rightarrow> PyDict d | _ \<Rightarrow> PyDict []);
          iterations = (case dget m ''plan_iterations'' of
                          PyList items \<Rightarrow> List.map_filter as_dict items | _ \<Rightarrow> [])
      in (if iterations \<noteq> []
          then map (routing_iteration cid p breakers) iterations
          else [event Routing_Event cid
                 [(''mode'', PyStr ''orchestrator''), (''routing_mode'', PyStr (pp_routing_mode p)),
                  (''agents'', agents_or_default (agents_from_tools (pp_tools p))),
                  (''tools_invoked'', PyList (map PyStr (pp_tools p))),
                  (''cached'', PyBool (pp_cached p)), (''degraded'', PyBool (pp_degraded p)),
                  (''circuit_breakers'', breakers)]])
         @ [event Agent_Result cid
              [(''agent'', PyStr ''orchestrator''), (''ok'', PyBool (\<not> pp_degraded p)),
               (''cached'', PyBool (pp_cached p)), (''degraded'', PyBool (pp_degraded p))]])"

definition done_payload :: "string \<Rightarrow> int \<Rightarrow> parsed_payload \<Rightarrow> pydict" where
  "done_payload cid latency_ms p =
     [(''correlation_id'', PyStr cid), (''cached'', PyBool (pp_cached p)),
      (''degraded'', PyBool (pp_degraded p)), (''routing_mode'', PyStr (pp_routing_mode p)),
      (''latency_ms'', PyInt latency_ms), (''tokens'', PyDict (pp_tokens p))]
     @ (if pp_evidence_only p then [(''evidence_only'', PyBool True)] else [])
     @ (if pp_partial p then [(''partial'', PyBool True)] else [])
     @ (case pp_reason p of None \<Rightarrow> [] | Some r \<Rightarrow> [(''degraded_reason'', PyStr r)])
     @ (case pp_truncated p of None \<Rightarrow> [] | Some d \<Rightarrow> [(''prompt_truncated'', PyDict d)])
     @ (case pp_memory p of None \<Rightarrow> [] | Some b \<Rightarrow> [(''memory_available'', PyBool b)])
     @ (case pp_statistics p of
          None \<Rightarrow> [] | Some b \<Rightarrow> [(''graph_statistics_available'', PyBool b)])"

definition answer_event :: "string \<Rightarrow> string \<Rightarrow> chat_event" where
  "answer_event cid chunk = event Answer cid [(''chunk'', PyStr chunk)]"

definition done_event :: "string \<Rightarrow> int \<Rightarrow> parsed_payload \<Rightarrow> chat_event" where
  "done_event cid latency p = event Done cid (done_payload cid latency p)"

section \<open>The stream\<close>

datatype callback = On_Token string | On_Event string pydict

record orchestrator_client =
  takes_token :: bool
  takes_event :: bool
  callbacks :: "callback list"
  outcome :: "pyval result"

text \<open>The errors that pass through, and those that \<open>except Exception\<close> turns into an answer.\<close>

fun propagated :: "exn \<Rightarrow> bool" where
  "propagated (AgentUnavailable a m) = True"
| "propagated (BreakerOpen a m) = True"
| "propagated (GraphLookupError a m) = True"
| "propagated (RoutingError a m) = True"
| "propagated (SchemaValidationError a m) = True"
| "propagated (SynthesisError a m) = True"
| "propagated Cancelled = True"
| "propagated _ = False"

text \<open>What a callback puts into the queue; a callback the client does not take is not made.\<close>

definition queued :: "orchestrator_client \<Rightarrow> string \<Rightarrow> callback \<Rightarrow> chat_event list" where
  "queued c cid cb =
     (case cb of
        On_Token chunk \<Rightarrow> if takes_token c \<and> chunk \<noteq> [] then [answer_event cid chunk] else []
      | On_Event t data \<Rightarrow>
          if \<not> takes_event c then []
          else if t = ''routing''
          then [event Routing_Event cid
                 (if ''mode'' \<in> fst ` set data then data else data @ [(''mode'', PyStr ''orchestrator'')])]
          else if t = ''agent_result'' then [event Agent_Result cid data]
          else [])"

definition live_events :: "orchestrator_client \<Rightarrow> string \<Rightarrow> chat_event list" where
  "live_events c cid = concat (map (queued c cid) (callbacks c))"

definition has_type :: "event_type \<Rightarrow> chat_event list \<Rightarrow> bool" where
  "has_type t evs = list_ex (\<lambda>e. ev_type e = t) evs"

definition stream ::
    "orchestrator_client \<Rightarrow> int \<Rightarrow> string \<Rightarrow> int \<Rightarrow> chat_event list \<times> exn option" where
  "stream c chunk_chars cid latency =
     (if takes_token c \<or> takes_event c
      then
        (let live = live_events c cid;
             finish = (\<lambda>payload.
               (let p = payload_fields payload
                in (live
                    @ (if has_type Routing_Event live then [] else emit_routing_and_agent cid p)
                    @ (if has_type Answer live then []
                       else map (answer_event cid) (chunk_text (pp_answer p) chunk_chars))
                    @ [done_event cid latency p], None)))
         in case outcome c of
              Inr payload \<Rightarrow> finish payload
            | Inl e \<Rightarrow>
                if propagated e then (live, Some e)
                else finish (PyDict [(''answer'', PyStr (degraded_answer e)),
                                     (''metadata'', PyDict [(''degraded'', PyBool True)])]))
      else
        (let finish = (\<lambda>p. (emit_routing_and_agent cid p
                            @ map (answer_event cid) (chunk_text (pp_answer p) chunk_chars)
                            @ [done_event cid latency p], None))
         in case outcome c of
              Inr (PyDict m) \<Rightarrow> finish (waiting_fields m)
            | Inr v \<Rightarrow>
                finish ((parsed_of
                           (degraded_answer (OtherError ''AttributeError'' (no_attribute v ''get'')))
                           None ''orchestrator'' [])\<lparr>pp_degraded := True\<rparr>)
            | Inl e \<Rightarrow>
                if propagated e then ([], Some e)
                else finish ((parsed_of (degraded_answer e) None ''orchestrator'' [])
                               \<lparr>pp_degraded := True\<rparr>)))"


section \<open>The collected answer\<close>

record chat_run =
  run_routing :: pydict
  run_agents :: "pydict list"
  run_answer :: string
  run_done :: pydict
  run_tools :: "string list"

definition empty_run :: chat_run where
  "empty_run = \<lparr>run_routing = [], run_agents = [], run_answer = '''', run_done = [], run_tools = []\<rparr>"

definition collect :: "chat_event \<Rightarrow> chat_run \<Rightarrow> chat_run" where
  "collect e r =
     (case ev_type e of
        Routing_Event \<Rightarrow> r\<lparr>run_routing := ev_data e\<rparr>
      | Agent_Result \<Rightarrow> r\<lparr>run_agents := run_agents r @ [ev_data e]\<rparr>
      | Answer \<Rightarrow> (case dget (ev_data e) ''chunk'' of
                    PyStr s \<Rightarrow> r\<lparr>run_answer := run_answer r @ s\<rparr> | _ \<Rightarrow> r)
      | Done \<Rightarrow> r\<lparr>run_done := ev_data e\<rparr>)"

text \<open>
  \<open>list(routing.get("tools_invoked") or [])\<close> and what \<open>"." in item\<close> and \<open>candidate in seen\<close> do
  with an item that is no string: an empty container is skipped, anything else raises.
\<close>

fun tool_name :: "pyval \<Rightarrow> string result" where
  "tool_name (PyStr s) = Inr s"
| "tool_name (PyList []) = Inr ''''"
| "tool_name (PyDict []) = Inr ''''"
| "tool_name (PyList (x # xs)) =
     (if PyStr ''.'' \<in> set (x # xs)
      then Inl (OtherError ''AttributeError'' (no_attribute (PyList (x # xs)) ''split''))
      else Inl (OtherError ''TypeError'' (''unhashable type: '' @ quoted_type (PyList []))))"
| "tool_name (PyDict (x # m)) =
     (if ''.'' \<in> fst ` set (x # m)
      then Inl (OtherError ''AttributeError'' (no_attribute (PyDict (x # m)) ''split''))
      else Inl (OtherError ''TypeError'' (''unhashable type: '' @ quoted_type (PyDict []))))"
| "tool_name v =
     Inl (OtherError ''TypeError'' (''argument of type '' @ quoted_type v @ '' is not iterable''))"

fun tool_names :: "pyval list \<Rightarrow> string list result" where
  "tool_names [] = Inr []"
| "tool_names (v # vs) =
     (case tool_name v of
        Inl e \<Rightarrow> Inl e
      | Inr s \<Rightarrow> (case tool_names vs of Inl e \<Rightarrow> Inl e | Inr ss \<Rightarrow> Inr (s # ss)))"

definition listed :: "pyval \<Rightarrow> pyval list result" where
  "listed v =
     (if \<not> truthy v then Inr []
      else case v of
        PyList xs \<Rightarrow> Inr xs
      | PyStr s \<Rightarrow> Inr (map (\<lambda>c. PyStr [c]) s)
      | PyDict m \<Rightarrow> Inr (map (\<lambda>x. PyStr (fst x)) m)
      | _ \<Rightarrow> Inl (OtherError ''TypeError'' (quoted_type v @ '' object is not iterable'')))"

definition routing_tools :: "pydict \<Rightarrow> string list result" where
  "routing_tools routing =
     (case listed (dget routing ''tools_invoked'') of Inl e \<Rightarrow> Inl e | Inr vs \<Rightarrow> tool_names vs)"

definition run_chat ::
    "orchestrator_client \<Rightarrow> int \<Rightarrow> string \<Rightarrow> int \<Rightarrow> chat_run result" where
  "run_chat c chunk_chars cid latency =
     (case stream c chunk_chars cid latency of
        (evs, Some e) \<Rightarrow> Inl e
      | (evs, None) \<Rightarrow>
          (let r = fold collect evs empty_run
           in case routing_tools (run_routing r) of
                Inl e \<Rightarrow> Inl e
              | Inr tools \<Rightarrow> Inr (r\<lparr>run_tools := expand_tools_invoked tools\<rparr>)))"

section \<open>The job registry\<close>

datatype job_status = Pending | Running | Job_Done | Failed

datatype index_mode = Full | Incremental

record index_job =
  job_id :: string
  job_mode :: index_mode
  job_correlation :: string
  job_state :: job_status
  job_report :: "pydict option"
  job_error :: "string option"

type_synonym job_registry = "string \<rightharpoonup> index_job"

definition create_job ::
    "string \<Rightarrow> index_mode \<Rightarrow> string \<Rightarrow> job_registry \<Rightarrow> index_job \<times> job_registry" where
  "create_job fresh mode cid jobs =
     (let job = \<lparr>job_id = fresh, job_mode = mode, job_correlation = cid, job_state = Pending,
                 job_report = None, job_error = None\<rparr>
      in (job, jobs(fresh \<mapsto> job)))"

definition get_job :: "job_registry \<Rightarrow> string \<Rightarrow> index_job option" where
  "get_job jobs i = jobs i"

section \<open>The rate limiter\<close>

record rate_limiter =
  max_requests :: int
  window_s :: real
  hits :: "string \<rightharpoonup> real list"

definition live_hits :: "rate_limiter \<Rightarrow> string \<Rightarrow> real \<Rightarrow> real list" where
  "live_hits rl key now =
     dropWhile (\<lambda>t. t \<le> now - window_s rl) (case hits rl key of None \<Rightarrow> [] | Some ts \<Rightarrow> ts)"

definition allow :: "rate_limiter \<Rightarrow> string \<Rightarrow> real \<Rightarrow> bool \<times> rate_limiter" where
  "allow rl key now =
     (if max_requests rl \<le> 0 then (True, rl)
      else
        (let ts = live_hits rl key now
         in if int (length ts) \<ge> max_requests rl
            then (False, rl\<lparr>hits := (hits rl)(key \<mapsto> ts)\<rparr>)
            else (True, rl\<lparr>hits := (hits rl)(key \<mapsto> ts @ [now])\<rparr>)))"

text \<open>A sequence of requests: what was granted, in order.\<close>

fun allow_all :: "rate_limiter \<Rightarrow> (string \<times> real) list \<Rightarrow> bool list \<times> rate_limiter" where
  "allow_all rl [] = ([], rl)"
| "allow_all rl ((k, t) # rs) =
     (case allow rl k t of (b, rl') \<Rightarrow> (case allow_all rl' rs of (bs, rl'') \<Rightarrow> (b # bs, rl'')))"

definition granted :: "rate_limiter \<Rightarrow> (string \<times> real) list \<Rightarrow> (string \<times> real) list" where
  "granted rl rs = map fst (filter snd (zip rs (fst (allow_all rl rs))))"


section \<open>Facts about the chunks\<close>

lemma chunks_of_0 [simp]: "chunks_of n [] = []"
  by (subst chunks_of.simps) simp

lemma chunks_of_step: "0 < n \<Longrightarrow> s \<noteq> [] \<Longrightarrow> chunks_of n s = take n s # chunks_of n (drop n s)"
  by (subst chunks_of.simps) simp

lemma chunks_of_concat: "0 < n \<Longrightarrow> concat (chunks_of n s) = s"
proof (induction n s rule: chunks_of.induct)
  case (1 n s)
  show ?case
    by (cases "s = []") (use 1 in \<open>simp_all add: chunks_of_step [of n s]\<close>)
qed

lemma chunks_of_sizes: "0 < n \<Longrightarrow> c \<in> set (chunks_of n s) \<Longrightarrow> length c \<le> n"
proof (induction n s rule: chunks_of.induct)
  case (1 n s)
  show ?case
    by (cases "s = []") (use 1 in \<open>auto simp: chunks_of_step [of n s]\<close>)
qed

lemma chunks_of_full: "0 < n \<Longrightarrow> c \<in> set (butlast (chunks_of n s)) \<Longrightarrow> length c = n"
proof (induction n s rule: chunks_of.induct)
  case (1 n s)
  show ?case
  proof (cases "s = [] \<or> length s \<le> n")
    case True
    with 1 show ?thesis by (cases "s = []") (simp_all add: chunks_of_step [of n s])
  next
    case False
    with 1 show ?thesis
      by (auto simp: chunks_of_step [of n s] split: if_splits)
  qed
qed

lemma chunk_text_not_empty: "chunk_text s n \<noteq> []"
  by (simp add: chunk_text_def split: list.splits)

lemma chunk_text_concat: "concat (chunk_text s n) = s"
proof (cases "0 < n")
  case True
  with chunks_of_concat [of "nat n" s] show ?thesis
    by (cases "chunks_of (nat n) s") (simp_all add: chunk_text_def)
qed (simp add: chunk_text_def)

text \<open>
  Splitting an answer loses nothing: the chunks concatenate to the text, there is at least one,
  none is longer than the chunk size, and all but the last have exactly that size.
\<close>

theorem chunking_roundtrip:
  "concat (chunk_text s n) = s \<and> chunk_text s n \<noteq> [] \<and>
   (if n \<le> 0 then chunk_text s n = [s]
    else list_all (\<lambda>c. int (length c) \<le> n) (chunk_text s n) \<and>
         list_all (\<lambda>c. int (length c) = n) (butlast (chunk_text s n)))"
proof (cases "n \<le> 0")
  case True
  then show ?thesis by (simp add: chunk_text_def)
next
  case False
  then have "0 < nat n" by simp
  note F = chunks_of_concat [OF this] chunks_of_sizes [OF this] chunks_of_full [OF this]
  show ?thesis
  proof (cases "chunks_of (nat n) s")
    case Nil
    with F(1) [of s] False show ?thesis by (auto simp: chunk_text_def)
  next
    case (Cons c cs)
    then have "chunk_text s n = chunks_of (nat n) s" using False by (simp add: chunk_text_def)
    moreover have "int (length d) \<le> n" if "d \<in> set (chunks_of (nat n) s)" for d
      using F(2) [OF that] False by simp
    moreover have "int (length d) = n" if "d \<in> set (butlast (chunks_of (nat n) s))" for d
      using F(3) [OF that] False by simp
    ultimately show ?thesis using F(1) [of s] False Cons by (simp add: list_all_iff)
  qed
qed

section \<open>Facts about the limiter\<close>

definition stored :: "rate_limiter \<Rightarrow> string \<Rightarrow> real list" where
  "stored rl k = (case hits rl k of None \<Rightarrow> [] | Some ts \<Rightarrow> ts)"

definition times :: "string \<Rightarrow> (string \<times> real) list \<Rightarrow> real list" where
  "times k h = map snd (filter (\<lambda>r. fst r = k) h)"

text \<open>The requests of a client in a window that was granted.\<close>

definition in_window :: "real \<Rightarrow> real \<Rightarrow> real list \<Rightarrow> real list" where
  "in_window win t ts = filter (\<lambda>u. t - win < u \<and> u \<le> t) ts"

definition limiter_inv :: "rate_limiter \<Rightarrow> (string \<times> real) list \<Rightarrow> real \<Rightarrow> bool" where
  "limiter_inv rl h prev \<longleftrightarrow>
     (\<forall>k. sorted (stored rl k) \<and> (\<forall>u \<in> set (stored rl k). u \<le> prev) \<and>
          (\<forall>u \<in> set (times k h). u \<le> prev) \<and>
          (\<forall>now \<ge> prev. filter (\<lambda>u. now - window_s rl < u) (stored rl k) =
                         filter (\<lambda>u. now - window_s rl < u) (times k h)))"

lemma dropWhile_sorted:
  "sorted (ts :: real list) \<Longrightarrow> dropWhile (\<lambda>u. u \<le> c) ts = filter (\<lambda>u. c < u) ts"
proof (induction ts)
  case Nil
  show ?case by simp
next
  case (Cons u ts)
  show ?case
  proof (cases "u \<le> c")
    case True
    with Cons show ?thesis by simp
  next
    case False
    with Cons.prems have "\<forall>v \<in> set ts. c < v" by force
    then have "filter (\<lambda>v. c < v) ts = ts" by (rule filter_True)
    with False show ?thesis by simp
  qed
qed

lemma live_hits_stored: "live_hits rl k now = dropWhile (\<lambda>u. u \<le> now - window_s rl) (stored rl k)"
  by (simp add: live_hits_def stored_def)

lemma allow_parameters [simp]:
  "window_s (snd (allow rl k t)) = window_s rl" "max_requests (snd (allow rl k t)) = max_requests rl"
  by (simp_all add: allow_def Let_def)

lemma limiter_inv_start: "hits rl = Map.empty \<Longrightarrow> limiter_inv rl [] t"
  by (simp add: limiter_inv_def stored_def times_def)

lemma limiter_inv_live:
  assumes "limiter_inv rl h prev" "prev \<le> now"
  shows "live_hits rl k now = in_window (window_s rl) now (times k h)"
proof -
  have "live_hits rl k now = filter (\<lambda>u. now - window_s rl < u) (times k h)"
    using assms by (simp add: live_hits_stored dropWhile_sorted limiter_inv_def)
  also have "\<dots> = in_window (window_s rl) now (times k h)"
    unfolding in_window_def using assms
    by (intro filter_cong) (force simp: limiter_inv_def)+
  finally show ?thesis .
qed

lemma allow_decision:
  assumes "limiter_inv rl h prev" "prev \<le> now" "0 < max_requests rl"
  shows "fst (allow rl k now) \<longleftrightarrow>
           int (length (in_window (window_s rl) now (times k h))) < max_requests rl"
  using assms limiter_inv_live [OF assms(1,2)] by (simp add: allow_def Let_def)

lemma stored_allow:
  "0 < max_requests rl \<Longrightarrow> stored (snd (allow rl k now)) k' =
     (if k' = k then live_hits rl k now @ (if fst (allow rl k now) then [now] else [])
      else stored rl k')"
  by (simp add: allow_def stored_def Let_def)

lemma limiter_inv_step:
  assumes inv: "limiter_inv rl h prev" and le: "prev \<le> now" and max: "0 < max_requests rl"
  shows "limiter_inv (snd (allow rl k now)) (h @ (if fst (allow rl k now) then [(k, now)] else [])) now"
    (is "limiter_inv ?rl (h @ ?new) now")
  unfolding limiter_inv_def
proof (intro allI conjI)
  fix k'
  note I = inv [unfolded limiter_inv_def, rule_format, of k']
  have live: "live_hits rl k now = filter (\<lambda>u. now - window_s rl < u) (stored rl k)"
    using inv by (simp add: live_hits_stored dropWhile_sorted limiter_inv_def)
  have Ik: "sorted (stored rl k)"
      "\<forall>t \<ge> now. filter (\<lambda>u. t - window_s rl < u) (stored rl k) =
                  filter (\<lambda>u. t - window_s rl < u) (times k h)"
    using inv le by (simp_all add: limiter_inv_def)
  have Iu: "\<forall>u \<in> set (stored rl k). u \<le> now"
  proof
    fix u assume "u \<in> set (stored rl k)"
    with inv have "u \<le> prev" by (simp add: limiter_inv_def)
    with le show "u \<le> now" by simp
  qed
  have hist: "times k' (h @ ?new) =
      times k' h @ (if k' = k \<and> fst (allow rl k now) then [now] else [])"
    by (simp add: times_def)
  have L: "sorted (live_hits rl k now)" "\<forall>u \<in> set (live_hits rl k now). u \<le> now"
    using Iu by (simp_all add: live sorted_wrt_filter [OF Ik(1)])
  show "sorted (stored ?rl k')"
    using I L by (simp add: stored_allow [OF max] sorted_append)
  show "\<forall>u \<in> set (stored ?rl k'). u \<le> now"
    using I L le by (auto simp: stored_allow [OF max])
  show "\<forall>u \<in> set (times k' (h @ ?new)). u \<le> now"
    using I le by (auto simp: hist)
  show "now \<le> t \<longrightarrow> filter (\<lambda>u. t - window_s ?rl < u) (stored ?rl k') =
                  filter (\<lambda>u. t - window_s ?rl < u) (times k' (h @ ?new))" for t
  proof
    assume t: "now \<le> t"
    have "filter (\<lambda>u. t - window_s rl < u) (filter (\<lambda>u. now - window_s rl < u) (stored rl k)) =
          filter (\<lambda>u. t - window_s rl < u) (stored rl k)"
      using t by (auto simp: filter_filter intro: filter_cong)
    with I Ik(2) t le show "filter (\<lambda>u. t - window_s ?rl < u) (stored ?rl k') =
                  filter (\<lambda>u. t - window_s ?rl < u) (times k' (h @ ?new))"
      by (simp add: stored_allow [OF max] hist live)
  qed
qed

lemma granted_Cons:
  "granted rl ((k, t) # rs) =
     (if fst (allow rl k t) then [(k, t)] else []) @ granted (snd (allow rl k t)) rs"
  by (simp add: granted_def split: prod.splits)

lemma fst_allow_all_Cons:
  "fst (allow_all rl ((k, t) # rs)) = fst (allow rl k t) # fst (allow_all (snd (allow rl k t)) rs)"
  by (simp split: prod.splits)

lemma allow_all_decision:
  assumes "limiter_inv rl h prev" "sorted (prev # map snd rs @ [t])" "0 < max_requests rl"
  shows "fst (allow_all rl (rs @ [(k, t)])) = fst (allow_all rl rs) @
           [int (length (in_window (window_s rl) t (times k (h @ granted rl rs)))) < max_requests rl]"
  using assms
proof (induction rs arbitrary: rl h prev)
  case Nil
  then show ?case
    using allow_decision [of rl h prev t k] by (cases "allow rl k t") (simp add: granted_def)
next
  case (Cons r rs)
  obtain k' t' where r: "r = (k', t')" by (cases r)
  have "limiter_inv (snd (allow rl k' t'))
          (h @ (if fst (allow rl k' t') then [(k', t')] else [])) t'"
    using Cons.prems r by (intro limiter_inv_step) auto
  note IH = Cons.IH [OF this]
  from IH Cons.prems r show ?case
    by (simp add: granted_Cons fst_allow_all_Cons del: allow_all.simps)
qed


lemma sorted_snoc_bound: "sorted (xs @ [t]) \<Longrightarrow> u \<in> set xs \<Longrightarrow> u \<le> (t :: real)"
  by (simp add: sorted_append)

lemma length_allow_all [simp]: "length (fst (allow_all rl rs)) = length rs"
  by (induction rs arbitrary: rl) (auto simp: fst_allow_all_Cons simp del: allow_all.simps(2))

lemma granted_snoc:
  "fst (allow_all rl (rs @ [r])) = fst (allow_all rl rs) @ [b] \<Longrightarrow>
     granted rl (rs @ [r]) = granted rl rs @ (if b then [r] else [])"
  by (simp add: granted_def)

lemma times_granted: "set (times k (granted rl rs)) \<subseteq> snd ` set rs"
  by (force simp: times_def granted_def dest: set_zip_leftD)

lemma window_bound:
  assumes "0 < max_requests rl" "hits rl = Map.empty" "sorted (map snd rs)"
  shows "int (length (in_window (window_s rl) w (times k (granted rl rs)))) \<le> max_requests rl"
  using assms(3)
proof (induction rs rule: rev_induct)
  case Nil
  with assms(1) show ?case by (simp add: granted_def times_def in_window_def)
next
  case (snoc r rs)
  obtain k' t where r: "r = (k', t)" by (cases r)
  have sorted: "sorted (map snd rs @ [t])" using snoc.prems r by simp
  let ?now = "in_window (window_s rl) t (times k' (granted rl rs))"
  let ?old = "in_window (window_s rl) w (times k (granted rl rs))"
  let ?b = "int (length ?now) < max_requests rl"
  have "sorted ((case map snd rs @ [t] of u # us \<Rightarrow> u) # map snd rs @ [t])"
    using sorted by (cases "map snd rs") auto
  from allow_all_decision [OF limiter_inv_start [OF assms(2)] this assms(1)]
  have dec: "granted rl (rs @ [r]) = granted rl rs @ (if ?b then [r] else [])"
    unfolding r by (intro granted_snoc) simp
  have old: "int (length ?old) \<le> max_requests rl"
    using snoc.IH sorted by (simp add: sorted_append)
  show ?case
  proof (cases "?b \<and> k' = k \<and> w - window_s rl < t \<and> t \<le> w")
    case True
    have "?old = filter (\<lambda>u. w - window_s rl < u \<and> u \<le> w) ?now"
      using times_granted [of k rl rs] sorted True
      unfolding in_window_def filter_filter
      by (intro filter_cong) (force simp: sorted_append)+
    then have "length ?old \<le> length ?now" by (metis length_filter_le)
    with True show ?thesis unfolding dec by (auto simp: r times_def in_window_def)
  next
    case False
    with old show ?thesis unfolding dec by (auto simp: r times_def in_window_def)
  qed
qed

text \<open>
  C23: A fresh limiter that is asked at non-decreasing times grants a client's next request exactly
  when fewer than \<open>max_requests\<close> of that client's requests were granted in the window that
  ends then, whatever other clients do; so no window of length \<open>window_s\<close>, wherever it lies, ever
  holds more than \<open>max_requests\<close> granted requests of a client.
\<close>

theorem limiter_caps_every_window:
  assumes "0 < max_requests rl" "hits rl = Map.empty" "sorted (map snd (rs @ [(k, t)]))"
  shows "fst (allow_all rl (rs @ [(k, t)])) = fst (allow_all rl rs) @
           [int (length (in_window (window_s rl) t (times k (granted rl rs)))) < max_requests rl] \<and>
         int (length (in_window (window_s rl) w (times k (granted rl (rs @ [(k, t)]))))) \<le>
           max_requests rl"
proof -
  have "sorted ((case map snd rs @ [t] of u # us \<Rightarrow> u) # map snd rs @ [t])"
    using assms(3) by (cases "map snd rs") auto
  from allow_all_decision [OF limiter_inv_start [OF assms(2)] this assms(1)] window_bound [OF assms]
  show ?thesis by simp
qed

text \<open>Two requests a minute: the third within the minute is refused, one after it is not.\<close>

definition sample_limiter :: rate_limiter where
  "sample_limiter = \<lparr>max_requests = 2, window_s = 60, hits = Map.empty\<rparr>"

theorem limiter_caps_every_window_witness:
  "fst (allow_all sample_limiter [(''a'', 0), (''a'', 10), (''b'', 15), (''a'', 20)]) =
     [True, True, True, False] \<and>
   fst (allow_all sample_limiter ([(''a'', 0), (''a'', 10), (''a'', 20)] @ [(''a'', 60)])) =
     [True, True, False, True]"
  using limiter_caps_every_window
          [of sample_limiter "[(''a'', 0), (''a'', 10), (''b'', 15)]" "''a''" 20]
    limiter_caps_every_window
          [of sample_limiter "[(''a'', 0), (''a'', 10), (''a'', 20)]" "''a''" 60]
  by (simp add: sample_limiter_def allow_def live_hits_def in_window_def times_def granted_def)


section \<open>Facts about the stream\<close>

lemma event_simps [simp]:
  "ev_type (event t cid d) = t" "ev_correlation (event t cid d) = cid" "ev_data (event t cid d) = d"
  by (simp_all add: event_def)

lemma has_type_append [simp]: "has_type t (a @ b) \<longleftrightarrow> has_type t a \<or> has_type t b"
  by (simp add: has_type_def)

lemma has_type_Nil [simp]: "\<not> has_type t []"
  by (simp add: has_type_def)

lemma has_type_Cons [simp]: "has_type t (e # es) \<longleftrightarrow> ev_type e = t \<or> has_type t es"
  by (simp add: has_type_def)

lemma answer_event_simps [simp]:
  "ev_type (answer_event cid s) = Answer" "ev_correlation (answer_event cid s) = cid"
  "ev_data (answer_event cid s) = [(''chunk'', PyStr s)]"
  by (simp_all add: answer_event_def)

lemma done_event_simps [simp]:
  "ev_type (done_event cid l p) = Done" "ev_correlation (done_event cid l p) = cid"
  "ev_data (done_event cid l p) = done_payload cid l p"
  by (simp_all add: done_event_def)

lemma routing_iteration_simps [simp]:
  "ev_type (routing_iteration cid p b i) = Routing_Event"
  "ev_correlation (routing_iteration cid p b i) = cid"
  by (simp_all add: routing_iteration_def Let_def)

definition answer_events :: "string \<Rightarrow> parsed_payload \<Rightarrow> int \<Rightarrow> chat_event list" where
  "answer_events cid p n = map (answer_event cid) (chunk_text (pp_answer p) n)"

lemma answer_events_types:
  "\<exists>m. map ev_type (answer_events cid p n) = replicate (Suc m) Answer"
proof -
  obtain c cs where "chunk_text (pp_answer p) n = c # cs"
    using chunk_text_not_empty by (meson neq_Nil_conv)
  then have "map ev_type (answer_events cid p n) = replicate (Suc (length cs)) Answer"
    by (simp add: answer_events_def comp_def map_replicate_const)
  then show ?thesis ..
qed

lemma emit_types:
  "\<exists>k. map ev_type (emit_routing_and_agent cid p) = replicate (Suc k) Routing_Event @ [Agent_Result]"
proof -
  have "\<exists>rs. emit_routing_and_agent cid p = rs @ [event Agent_Result cid
              [(''agent'', PyStr ''orchestrator''), (''ok'', PyBool (\<not> pp_degraded p)),
               (''cached'', PyBool (pp_cached p)), (''degraded'', PyBool (pp_degraded p))]] \<and>
          rs \<noteq> [] \<and> (\<forall>e \<in> set rs. ev_type e = Routing_Event)"
    by (auto simp: emit_routing_and_agent_def Let_def)
  then obtain rs x where rs: "emit_routing_and_agent cid p = rs @ [event Agent_Result cid x]"
    "rs \<noteq> []" "\<forall>e \<in> set rs. ev_type e = Routing_Event" by blast
  then have "map ev_type rs = replicate (length rs) Routing_Event"
    by (simp add: map_replicate_const [symmetric] map_idI)
  with rs show ?thesis by (cases rs) auto
qed

lemma map_type_has: "has_type t es \<longleftrightarrow> t \<in> set (map ev_type es)"
  by (induction es) auto

lemma emit_has [simp]:
  "has_type Routing_Event (emit_routing_and_agent cid p)"
  "\<not> has_type Done (emit_routing_and_agent cid p)" "\<not> has_type Answer (emit_routing_and_agent cid p)"
  using emit_types [of cid p] by (auto simp: map_type_has simp del: set_map)

lemma answer_events_has [simp]:
  "has_type Answer (answer_events cid p n)" "\<not> has_type Done (answer_events cid p n)"
  "\<not> has_type Routing_Event (answer_events cid p n)"
  using answer_events_types [of cid p n] by (auto simp: map_type_has simp del: set_map)

lemma emit_correlation: "e \<in> set (emit_routing_and_agent cid p) \<Longrightarrow> ev_correlation e = cid"
  by (auto simp: emit_routing_and_agent_def Let_def split: if_splits)

lemma queued_facts:
  "e \<in> set (queued c cid cb) \<Longrightarrow> ev_correlation e = cid \<and> ev_type e \<noteq> Done"
  by (auto simp: queued_def split: callback.splits if_splits)

lemma live_facts: "e \<in> set (live_events c cid) \<Longrightarrow> ev_correlation e = cid \<and> ev_type e \<noteq> Done"
  by (auto simp: live_events_def dest: queued_facts)

lemma live_no_done [simp]: "\<not> has_type Done (live_events c cid)"
  by (auto simp: map_type_has dest: live_facts)

text \<open>What both paths make of the outcome: \<open>None\<close> when the error passes through.\<close>

definition fields_of :: "orchestrator_client \<Rightarrow> parsed_payload option" where
  "fields_of c =
     (if takes_token c \<or> takes_event c
      then (case outcome c of
              Inr payload \<Rightarrow> Some (payload_fields payload)
            | Inl e \<Rightarrow> if propagated e then None
                       else Some (payload_fields
                                   (PyDict [(''answer'', PyStr (degraded_answer e)),
                                            (''metadata'', PyDict [(''degraded'', PyBool True)])])))
      else (case outcome c of
              Inr (PyDict m) \<Rightarrow> Some (waiting_fields m)
            | Inr v \<Rightarrow>
                Some ((parsed_of
                         (degraded_answer (OtherError ''AttributeError'' (no_attribute v ''get'')))
                         None ''orchestrator'' [])\<lparr>pp_degraded := True\<rparr>)
            | Inl e \<Rightarrow>
                if propagated e then None
                else Some ((parsed_of (degraded_answer e) None ''orchestrator'' [])
                             \<lparr>pp_degraded := True\<rparr>)))"

lemma live_waiting: "\<not> (takes_token c \<or> takes_event c) \<Longrightarrow> live_events c cid = []"
  by (auto simp: live_events_def queued_def split: callback.splits)

lemma fields_of_None: "fields_of c = None \<longleftrightarrow> (\<exists>e. outcome c = Inl e \<and> propagated e)"
  by (auto simp: fields_of_def split: sum.splits pyval.splits)

lemma stream_fields:
  "stream c n cid l =
     (case fields_of c of
        None \<Rightarrow> (live_events c cid, (case outcome c of Inl e \<Rightarrow> Some e | Inr v \<Rightarrow> None))
      | Some p \<Rightarrow>
          (let live = live_events c cid
           in (live @ (if has_type Routing_Event live then [] else emit_routing_and_agent cid p)
                 @ (if has_type Answer live then [] else answer_events cid p n)
                 @ [done_event cid l p], None)))"
  using live_waiting [of c cid]
  by (auto simp: stream_def fields_of_def Let_def answer_events_def split: sum.splits pyval.splits)



text \<open>A client that waits, and one that streams its tokens.\<close>

definition waiting_client :: orchestrator_client where
  "waiting_client =
     \<lparr>takes_token = False, takes_event = False, callbacks = [],
      outcome = Inr (PyDict [(''answer'', PyStr ''hello''),
        (''metadata'', PyDict [(''tools_invoked'', PyList [PyStr ''graph_query.find''])])])\<rparr>"

definition streaming_client :: orchestrator_client where
  "streaming_client =
     \<lparr>takes_token = True, takes_event = True,
      callbacks = [On_Event ''routing'' [], On_Token ''he'', On_Token '''', On_Token ''llo''],
      outcome = Inr (PyDict [(''answer'', PyStr ''hello''), (''metadata'', PyDict [])])\<rparr>"


section \<open>Facts about the collected answer\<close>

definition chunk_of :: "chat_event \<Rightarrow> string" where
  "chunk_of e =
     (if ev_type e = Answer then (case dget (ev_data e) ''chunk'' of PyStr s \<Rightarrow> s | _ \<Rightarrow> '''') else '''')"

definition tokens_of :: "orchestrator_client \<Rightarrow> string" where
  "tokens_of c =
     (if takes_token c
      then concat (map (\<lambda>cb. case cb of On_Token s \<Rightarrow> s | On_Event t d \<Rightarrow> '''') (callbacks c)) else '''')"

lemma run_answer_collect: "run_answer (collect e r) = run_answer r @ chunk_of e"
  by (simp add: collect_def chunk_of_def split: event_type.splits pyval.splits)

lemma run_answer_fold: "run_answer (fold collect evs r) = run_answer r @ concat (map chunk_of evs)"
  by (induction evs arbitrary: r) (simp_all add: run_answer_collect)

lemma chunk_of_simps [simp]:
  "chunk_of (answer_event cid s) = s" "chunk_of (done_event cid l p) = ''''"
  by (simp_all add: chunk_of_def)

lemma no_chunks: "\<not> has_type Answer evs \<Longrightarrow> concat (map chunk_of evs) = ''''"
  by (induction evs) (simp_all add: chunk_of_def)

lemma answer_events_chunks [simp]:
  "concat (map chunk_of (answer_events cid p n)) = pp_answer p"
  using chunk_text_concat [of "pp_answer p" n] by (simp add: answer_events_def comp_def)

lemma live_chunks: "concat (map chunk_of (live_events c cid)) = tokens_of c"
proof -
  have "concat (map chunk_of (concat (map (queued c cid) cbs))) =
      (if takes_token c
       then concat (map (\<lambda>cb. case cb of On_Token s \<Rightarrow> s | On_Event t d \<Rightarrow> '''') cbs) else '''')" for cbs
    by (induction cbs) (auto simp: queued_def chunk_of_def split: callback.splits)
  then show ?thesis by (simp add: live_events_def tokens_of_def)
qed

lemma live_answer: "has_type Answer (live_events c cid) \<longleftrightarrow> tokens_of c \<noteq> ''''"
proof -
  have "has_type Answer (concat (map (queued c cid) cbs)) \<longleftrightarrow>
      (takes_token c \<and>
       concat (map (\<lambda>cb. case cb of On_Token s \<Rightarrow> s | On_Event t d \<Rightarrow> '''') cbs) \<noteq> '''')" for cbs
    by (induction cbs) (auto simp: queued_def split: callback.splits)
  then show ?thesis by (auto simp: live_events_def tokens_of_def)
qed

lemma run_chat_fields:
  "run_chat c n cid l = Inr r \<Longrightarrow>
     \<exists>p. fields_of c = Some p \<and> run_answer r = (if tokens_of c = '''' then pp_answer p else tokens_of c)"
proof -
  assume r: "run_chat c n cid l = Inr r"
  then obtain p where p: "fields_of c = Some p"
    by (cases "fields_of c") (auto simp: run_chat_def stream_fields fields_of_None)
  have "run_answer r = run_answer (fold collect (fst (stream c n cid l)) empty_run)"
    using r by (auto simp: run_chat_def Let_def split: prod.splits option.splits sum.splits)
  also have "\<dots> = concat (map chunk_of (fst (stream c n cid l)))"
    unfolding run_answer_fold by (simp add: empty_run_def)
  also have "\<dots> = (if tokens_of c = '''' then pp_answer p else tokens_of c)"
    by (simp add: p stream_fields Let_def live_chunks live_answer no_chunks)
  finally show ?thesis using p by blast
qed

text \<open>
  Collecting a stream into one response loses nothing: whatever the chunk size, the answer is
  the concatenation of the tokens the orchestrator streamed, or, if it streamed none, the answer of
  its payload.
\<close>

theorem collected_answer_complete:
  assumes "run_chat c n cid l = Inr r" "outcome c = Inr (PyDict m)"
  shows "run_answer r =
           (if tokens_of c = '''' then py_str (dget_default m ''answer'' (PyStr '''')) else tokens_of c)"
proof -
  obtain p where "fields_of c = Some p"
    "run_answer r = (if tokens_of c = '''' then pp_answer p else tokens_of c)"
    using run_chat_fields [OF assms(1)] by blast
  moreover have "pp_answer p = py_str (dget_default m ''answer'' (PyStr ''''))"
    if "fields_of c = Some p"
    using that assms(2)
    by (auto simp: fields_of_def payload_fields_def waiting_fields_def parsed_of_def Let_def
        split: if_splits)
  ultimately show ?thesis by simp
qed

theorem collected_answer_complete_witness:
  "\<exists>r. run_chat streaming_client 2 ''c'' 5 = Inr r \<and> run_answer r = ''hello''"
proof -
  have "case run_chat streaming_client 2 ''c'' 5 of Inr r \<Rightarrow> True | Inl e \<Rightarrow> False" by code_simp
  then obtain r where r: "run_chat streaming_client 2 ''c'' 5 = Inr r"
    by (auto split: sum.splits)
  have "tokens_of streaming_client = ''hello''" by code_simp
  with collected_answer_complete [OF r, unfolded streaming_client_def, simplified] r
  show ?thesis by (auto simp: streaming_client_def)
qed

text \<open>
  An orchestrator that fails before it reports anything: a typed routing, schema, graph,
  synthesis or availability error (and a cancellation) reaches the caller as it is; any other error
  becomes one degraded answer that names it, whichever kind of client it is, and is marked degraded
  in the agent result and in the last event.
\<close>

theorem failing_orchestrator_degrades:
  "callbacks c = [] \<Longrightarrow> outcome c = Inl e \<Longrightarrow>
     (if propagated e then run_chat c n cid l = Inl e
      else \<exists>r. run_chat c n cid l = Inr r \<and> run_answer r = degraded_answer e \<and>
               dget (run_done r) ''degraded'' = PyBool True \<and>
               map (\<lambda>d. dget d ''ok'') (run_agents r) = [PyBool False] \<and> run_tools r = [])"
proof -
  assume c: "callbacks c = []" "outcome c = Inl e"
  have live: "live_events c cid = []" by (simp add: live_events_def c)
  show ?thesis
  proof (cases "propagated e")
    case True
    then show ?thesis by (simp add: run_chat_def stream_def live c Let_def)
  next
    case False
    then obtain p where p: "fields_of c = Some p" by (cases "fields_of c") (auto simp: fields_of_None c)
    have fields: "pp_degraded p" "pp_tools p = []" "pp_answer p = degraded_answer e"
        "case pp_metadata p of None \<Rightarrow> True | Some d \<Rightarrow> d = [(''degraded'', PyBool True)]"
      using p False
      by (auto simp: fields_of_def c payload_fields_def parsed_of_def Let_def py_str_def
          dget_default_def split: if_splits)
    have answers: "fold collect (answer_events cid p n) r =
        r\<lparr>run_answer := run_answer r @ pp_answer p\<rparr>" for r
    proof -
      have "fold collect (map (answer_event cid) cs) r = r\<lparr>run_answer := run_answer r @ concat cs\<rparr>"
        for cs r by (induction cs arbitrary: r) (simp_all add: collect_def)
      then show ?thesis by (simp add: answer_events_def chunk_text_concat)
    qed
    show ?thesis
      using False fields
      by (cases "pp_metadata p")
        (simp_all add: run_chat_def stream_fields p live Let_def answers emit_routing_and_agent_def
          collect_def empty_run_def done_payload_def routing_tools_def listed_def
          expand_tools_invoked_def List.map_filter_def)
  qed
qed

theorem failing_orchestrator_degrades_witness:
  "let c = waiting_client\<lparr>outcome := Inl (ConnectionError ''refused'')\<rparr>
   in \<exists>r. run_chat c 3 ''c'' 5 = Inr r \<and>
          run_answer r = ''Degraded response: failed to run orchestrator (refused).''"
proof -
  let ?c = "waiting_client\<lparr>outcome := Inl (ConnectionError ''refused'')\<rparr>"
  have "callbacks ?c = []" "outcome ?c = Inl (ConnectionError ''refused'')"
    by (simp_all add: waiting_client_def)
  from failing_orchestrator_degrades [OF this, of 3 "''c''" 5]
  show ?thesis by (auto simp: degraded_answer_def)
qed

end
