(* ===== verification/IndexJob.thy ===== *)
theory IndexJob
  imports Gateway
begin

text \<open>
  The background index job of the gateway (\<open>gateway/app.py\<close>: \<open>_run_index_job\<close>,
  \<open>_follow_index_job\<close>, \<open>_index_status\<close>, \<open>_as_report\<close>). The indexer is outside: what a poll finds
  is an observation, which holds the state of the dispatched call, the answer to the status
  request and the clock after it. A run over a list of observations is \<open>None\<close> while the loop
  is still polling after the last of them. Reports are compared as values.
\<close>

section \<open>Following a job\<close>

datatype dispatch_state = In_Flight | Returned pyval | Raised exn

record poll =
  dispatched :: dispatch_state
  status_reply :: "pyval result"
  clock :: real

record follow_settings =
  index_timeout_s :: real
  index_start_grace_s :: real
  timeout_text :: string
  grace_text :: string

definition index_status :: "pyval result \<Rightarrow> pydict option" where
  "index_status reply = (case reply of Inr (PyDict m) \<Rightarrow> Some m | _ \<Rightarrow> None)"

definition as_report :: "pyval \<Rightarrow> pydict" where
  "as_report v = (case v of PyDict m \<Rightarrow> m | _ \<Rightarrow> [(''result'', v)])"

text \<open>What the loop remembers between two polls; the error text is empty when there is none.\<close>

record follow_state =
  dispatch_error :: string
  observed_running :: bool
  unreachable :: nat

definition follow_start :: follow_state where
  "follow_start = \<lparr>dispatch_error = '''', observed_running = False, unreachable = 0\<rparr>"

definition unreachable_poll_limit :: nat where
  "unreachable_poll_limit = 2"

definition note_dispatch :: "dispatch_state \<Rightarrow> follow_state \<Rightarrow> follow_state" where
  "note_dispatch d st =
     (case d of
        Raised e \<Rightarrow> if dispatch_error st = [] then st\<lparr>dispatch_error := exn_str e\<rparr> else st
      | _ \<Rightarrow> st)"

text \<open>What a status reply decides: the end of the loop, or the state it goes on with.\<close>

definition note_status ::
    "pyval \<Rightarrow> pydict option \<Rightarrow> follow_state \<Rightarrow> follow_state + pydict result" where
  "note_status baseline_report status st =
     (case status of
        None \<Rightarrow>
          (let st' = st\<lparr>unreachable := unreachable st + 1\<rparr>
           in if dispatch_error st' \<noteq> [] \<and> unreachable st' \<ge> unreachable_poll_limit
              then Inr (Inl (OtherError ''RuntimeError'' (dispatch_error st')))
              else Inl st')
      | Some m \<Rightarrow>
          (let st' = st\<lparr>unreachable := 0\<rparr>
           in if truthy (dget m ''running'') then Inl (st'\<lparr>observed_running := True\<rparr>)
              else if observed_running st' \<or> dget m ''last_report'' \<noteq> baseline_report
              then Inr (Inr (as_report (dget m ''last_report'')))
              else Inl st'))"

definition check_clock ::
    "follow_settings \<Rightarrow> real \<Rightarrow> real \<Rightarrow> follow_state \<Rightarrow> exn option" where
  "check_clock s started now st =
     (if now > started + index_timeout_s s
      then Some (TimeoutError (''index did not finish within '' @ timeout_text s @ ''s''))
      else if \<not> observed_running st \<and> now > started + index_start_grace_s s
      then Some (TimeoutError
                   (''indexer did not start within '' @ grace_text s @ ''s'' @
                    (if dispatch_error st = [] then '''' else '': '' @ dispatch_error st)))
      else None)"

text \<open>One turn of the loop.\<close>

definition follow_poll ::
    "follow_settings \<Rightarrow> real \<Rightarrow> pyval \<Rightarrow> poll \<Rightarrow> follow_state \<Rightarrow> follow_state + pydict result" where
  "follow_poll s started baseline_report p st =
     (case dispatched p of
        Returned v \<Rightarrow> Inr (Inr (as_report v))
      | d \<Rightarrow>
          if d = Raised Cancelled then Inr (Inl Cancelled)
          else
            (case note_status baseline_report (index_status (status_reply p)) (note_dispatch d st) of
               Inr r \<Rightarrow> Inr r
             | Inl st' \<Rightarrow>
                 (case check_clock s started (clock p) st' of
                    Some e \<Rightarrow> Inr (Inl e) | None \<Rightarrow> Inl st')))"

fun follow_loop ::
    "follow_settings \<Rightarrow> real \<Rightarrow> pyval \<Rightarrow> poll list \<Rightarrow> follow_state \<Rightarrow> pydict result option" where
  "follow_loop s started b [] st = None"
| "follow_loop s started b (p # ps) st =
     (case follow_poll s started b p st of
        Inr r \<Rightarrow> Some r
      | Inl st' \<Rightarrow> follow_loop s started b ps st')"

text \<open>\<open>(baseline or {}).get("last_report")\<close>\<close>

definition baseline_report :: "pydict option \<Rightarrow> pyval" where
  "baseline_report b = (case b of None \<Rightarrow> PyNone | Some m \<Rightarrow> dget m ''last_report'')"

definition follow_index_job ::
    "follow_settings \<Rightarrow> real \<Rightarrow> pydict option \<Rightarrow> poll list \<Rightarrow> pydict result option" where
  "follow_index_job s started baseline ps =
     follow_loop s started (baseline_report baseline) ps follow_start"

section \<open>Running a job\<close>

definition finish_job :: "pydict result \<Rightarrow> index_job \<Rightarrow> index_job" where
  "finish_job r job =
     (case r of
        Inr report \<Rightarrow> job\<lparr>job_report := Some report, job_state := Job_Done\<rparr>
      | Inl e \<Rightarrow>
          if e = Cancelled then job
          else job\<lparr>job_state := Failed, job_error := Some (exn_str e)\<rparr>)"

definition run_index_job ::
    "follow_settings \<Rightarrow> real \<Rightarrow> string \<Rightarrow> pyval result \<Rightarrow> poll list \<Rightarrow> job_registry \<Rightarrow> job_registry" where
  "run_index_job s started i baseline_reply ps jobs =
     (case get_job jobs i of
        None \<Rightarrow> jobs
      | Some job \<Rightarrow>
          (let running = job\<lparr>job_state := Running\<rparr>
           in case follow_index_job s started (index_status baseline_reply) ps of
                None \<Rightarrow> jobs(i \<mapsto> running)
              | Some r \<Rightarrow> jobs(i \<mapsto> finish_job r running)))"

section \<open>When the loop ends\<close>

text \<open>The clock has passed the deadline, or the start deadline while nothing was ever seen running.\<close>

lemma follow_poll_late:
  "started + index_timeout_s s < clock p \<Longrightarrow> \<exists>r. follow_poll s started b p st = Inr r"
  by (cases "dispatched p")
    (auto simp: follow_poll_def check_clock_def split: sum.splits)

lemma follow_loop_ends:
  "\<exists>p \<in> set ps. started + index_timeout_s s < clock p \<Longrightarrow> follow_loop s started b ps st \<noteq> None"
proof (induction ps arbitrary: st)
  case Nil
  then show ?case by simp
next
  case (Cons p ps)
  show ?case
  proof (cases "follow_poll s started b p st")
    case (Inr r)
    then show ?thesis by simp
  next
    case (Inl st')
    with Cons.prems follow_poll_late [of started s p b st] have
      "\<exists>q \<in> set ps. started + index_timeout_s s < clock q" by auto
    from Cons.IH [OF this] Inl show ?thesis by simp
  qed
qed


lemma follow_poll_cancelled:
  "follow_poll s started b p st = Inr (Inl Cancelled) \<Longrightarrow> dispatched p = Raised Cancelled"
  by (cases "dispatched p")
    (auto simp: follow_poll_def check_clock_def note_status_def Let_def
      split: sum.splits option.splits if_splits)

lemma follow_loop_cancelled:
  "follow_loop s started b ps st = Some (Inl Cancelled) \<Longrightarrow>
     \<exists>p \<in> set ps. dispatched p = Raised Cancelled"
proof (induction ps arbitrary: st)
  case Nil
  then show ?case by simp
next
  case (Cons p ps)
  then show ?case
    by (cases "follow_poll s started b p st") (auto dest: follow_poll_cancelled)
qed

lemma finish_job_state:
  "r \<noteq> Inl Cancelled \<Longrightarrow> job_state (finish_job r job) \<in> {Job_Done, Failed}"
  by (auto simp: finish_job_def split: sum.splits if_splits)

text \<open>
  Every index job settles. Whatever the indexer answers, once a poll ends with the clock past
  \<open>index_timeout_s\<close> the job is done or failed, unless the dispatched call was cancelled from
  outside; no other job is touched.
\<close>

theorem index_job_settles:
  assumes "jobs i = Some job" "\<exists>p \<in> set ps. started + index_timeout_s s < clock p"
    and "\<forall>p \<in> set ps. dispatched p \<noteq> Raised Cancelled"
  shows "\<exists>job'. run_index_job s started i reply ps jobs = jobs(i \<mapsto> job') \<and>
           job_state job' \<in> {Job_Done, Failed} \<and>
           (job_state job' = Job_Done \<longrightarrow> job_report job' \<noteq> None)"
proof -
  let ?b = "baseline_report (index_status reply)"
  obtain r where r: "follow_loop s started ?b ps follow_start = Some r"
    using follow_loop_ends [OF assms(2)] by blast
  have ended: "r \<noteq> Inl Cancelled" using follow_loop_cancelled r assms(3) by blast
  show ?thesis
    using finish_job_state [OF ended] assms(1) r ended
    by (auto simp: run_index_job_def get_job_def follow_index_job_def Let_def finish_job_def
        split: sum.splits if_splits)
qed

section \<open>What the loop reports\<close>

text \<open>Where a report comes from, given whether the pass was seen running before.\<close>

definition reports :: "pyval \<Rightarrow> bool \<Rightarrow> poll \<Rightarrow> pydict \<Rightarrow> bool" where
  "reports b running p r \<longleftrightarrow>
     (\<exists>v. dispatched p = Returned v \<and> r = as_report v) \<or>
     (\<exists>m. index_status (status_reply p) = Some m \<and> \<not> truthy (dget m ''running'') \<and>
          r = as_report (dget m ''last_report'') \<and> (running \<or> dget m ''last_report'' \<noteq> b))"

definition seen_running :: "poll \<Rightarrow> bool" where
  "seen_running p =
     (case index_status (status_reply p) of None \<Rightarrow> False | Some m \<Rightarrow> truthy (dget m ''running''))"

lemma follow_poll_reports:
  "follow_poll s started b p st = Inr (Inr r) \<Longrightarrow> reports b (observed_running st) p r"
  by (cases "dispatched p")
    (auto simp: follow_poll_def reports_def note_status_def note_dispatch_def Let_def
      split: sum.splits option.splits if_splits)

lemma follow_poll_running:
  "follow_poll s started b p st = Inl st' \<Longrightarrow>
     observed_running st' \<longleftrightarrow> observed_running st \<or> seen_running p"
  by (cases "dispatched p")
    (auto simp: follow_poll_def seen_running_def note_status_def note_dispatch_def Let_def
      split: sum.splits option.splits if_splits)

lemma follow_loop_reports:
  "follow_loop s started b ps st = Some (Inr r) \<Longrightarrow>
     \<exists>qs p rest. ps = qs @ p # rest \<and>
       reports b (observed_running st \<or> list_ex seen_running qs) p r"
proof (induction ps arbitrary: st)
  case Nil
  then show ?case by simp
next
  case (Cons p ps)
  show ?case
  proof (cases "follow_poll s started b p st")
    case (Inr x)
    with Cons.prems follow_poll_reports [of s started b p st r]
    have "reports b (observed_running st) p r" by simp
    then show ?thesis by (intro exI [of _ "[]"] exI [of _ p] exI [of _ ps]) simp
  next
    case (Inl st')
    with Cons obtain qs q rest where "ps = qs @ q # rest"
      "reports b (observed_running st' \<or> list_ex seen_running qs) q r"
      by fastforce
    with follow_poll_running [OF Inl] show ?thesis
      by (intro exI [of _ "p # qs"] exI [of _ q] exI [of _ rest]) (simp add: disj_assoc)
  qed
qed

text \<open>
  A job is only reported done for a reason: the dispatched call returned the report itself, or a
  poll found the indexer idle, with that report, after it was seen running or with a report other
  than the one there was before the dispatch.
\<close>

theorem done_job_was_reported:
  assumes "follow_index_job s started baseline ps = Some (Inr r)"
  shows "\<exists>qs p rest. ps = qs @ p # rest \<and>
           reports (baseline_report baseline) (list_ex seen_running qs) p r"
  using follow_loop_reports [OF assms [unfolded follow_index_job_def]]
  by (simp add: follow_start_def)

text \<open>A pass that ends while it is polled.\<close>

definition sample_follow :: follow_settings where
  "sample_follow = \<lparr>index_timeout_s = 600, index_start_grace_s = 30, timeout_text = ''600.0'',
                    grace_text = ''30.0''\<rparr>"

definition status_poll :: "dispatch_state \<Rightarrow> bool \<Rightarrow> pyval \<Rightarrow> real \<Rightarrow> poll" where
  "status_poll d running report t =
     \<lparr>dispatched = d,
      status_reply = Inr (PyDict [(''running'', PyBool running), (''last_report'', report)]),
      clock = t\<rparr>"

definition new_report :: pyval where
  "new_report = PyDict [(''status'', PyStr ''ok''), (''files_indexed'', PyInt 4)]"

theorem done_job_was_reported_witness:
  "\<exists>qs p rest. [status_poll In_Flight True PyNone 2, status_poll In_Flight False new_report 4] =
       qs @ p # rest \<and> reports PyNone (list_ex seen_running qs) p
         [(''status'', PyStr ''ok''), (''files_indexed'', PyInt 4)]"
proof -
  have "follow_index_job sample_follow 0 None
      [status_poll In_Flight True PyNone 2, status_poll In_Flight False new_report 4] =
    Some (Inr [(''status'', PyStr ''ok''), (''files_indexed'', PyInt 4)])"
    by (simp add: follow_index_job_def follow_poll_def note_status_def note_dispatch_def
        check_clock_def index_status_def status_poll_def sample_follow_def follow_start_def
        as_report_def new_report_def Let_def)
  from done_job_was_reported [OF this] show ?thesis by (simp add: baseline_report_def)
qed

definition sample_job :: index_job where
  "sample_job = fst (create_job ''j'' Incremental ''c'' Map.empty)"

theorem index_job_settles_witness:
  "\<exists>job'. run_index_job sample_follow 0 ''j'' (Inl (ConnectionError ''down''))
            [status_poll In_Flight True PyNone 2, status_poll In_Flight True PyNone 601]
            [''j'' \<mapsto> sample_job] = [''j'' \<mapsto> job'] \<and>
          job_state job' \<in> {Job_Done, Failed}"
proof -
  have "\<exists>job'. run_index_job sample_follow 0 ''j'' (Inl (ConnectionError ''down''))
            [status_poll In_Flight True PyNone 2, status_poll In_Flight True PyNone 601]
            [''j'' \<mapsto> sample_job] = [''j'' \<mapsto> sample_job](''j'' \<mapsto> job') \<and>
          job_state job' \<in> {Job_Done, Failed} \<and>
          (job_state job' = Job_Done \<longrightarrow> job_report job' \<noteq> None)"
    by (rule index_job_settles) (auto simp: status_poll_def sample_follow_def)
  then show ?thesis by auto
qed

text \<open>
  A pass that crashes is reported done. When the dispatched call has failed, the pass was seen
  running, and the indexer is idle again with the report it already had before the dispatch, the
  job ends as done with that old report: the error is dropped.
\<close>

theorem crashed_pass_reported_done:
  assumes "dispatched p = Raised e" "dispatched q = Raised e" "e \<noteq> Cancelled"
    and "index_status reply = Some old" "seen_running p" "clock p \<le> started + index_timeout_s s"
    and "index_status (status_reply q) = Some m" "\<not> truthy (dget m ''running'')"
    and "dget m ''last_report'' = dget old ''last_report''" "jobs i = Some job"
  shows "run_index_job s started i reply (p # q # ps) jobs =
           jobs(i \<mapsto> job\<lparr>job_report := Some (as_report (dget old ''last_report'')),
                        job_state := Job_Done\<rparr>)"
proof -
  obtain st where st: "follow_poll s started (baseline_report (Some old)) p follow_start = Inl st"
      "observed_running st"
    using assms(1,3,5,6)
    by (auto simp: follow_poll_def seen_running_def note_status_def note_dispatch_def
        check_clock_def Let_def split: option.splits)
  have "follow_poll s started (baseline_report (Some old)) q st =
      Inr (Inr (as_report (dget old ''last_report'')))"
    using assms(2,3,7,8,9) st(2)
    by (auto simp: follow_poll_def note_status_def note_dispatch_def Let_def)
  with st show ?thesis
    using assms(4,10)
    by (simp add: run_index_job_def get_job_def follow_index_job_def finish_job_def Let_def)
qed

theorem crashed_pass_reported_done_witness:
  "run_index_job sample_follow 0 ''j''
     (Inr (PyDict [(''running'', PyBool False), (''last_report'', new_report)]))
     [status_poll (Raised (OtherError ''ToolError'' ''disk full'')) True new_report 2,
      status_poll (Raised (OtherError ''ToolError'' ''disk full'')) False new_report 4]
     [''j'' \<mapsto> sample_job] =
   [''j'' \<mapsto> sample_job\<lparr>job_report := Some (as_report new_report), job_state := Job_Done\<rparr>]"
  using crashed_pass_reported_done
    [of "status_poll (Raised (OtherError ''ToolError'' ''disk full'')) True new_report 2"
        "OtherError ''ToolError'' ''disk full''"
        "status_poll (Raised (OtherError ''ToolError'' ''disk full'')) False new_report 4"
        "Inr (PyDict [(''running'', PyBool False), (''last_report'', new_report)])"
        "[(''running'', PyBool False), (''last_report'', new_report)]" 0 sample_follow
        "[(''running'', PyBool False), (''last_report'', new_report)]" "[''j'' \<mapsto> sample_job]"
        "''j''" sample_job "[]"]
  by (simp add: status_poll_def sample_follow_def index_status_def seen_running_def)

end
