(* ===== verification/Parser.thy ===== *)
theory Parser
  imports Prelude
begin

text \<open>
  The source parser (\<open>core/indexing/parser.py\<close>) over the abstract syntax that \<open>ast.parse\<close>
  returns. A statement keeps what the parser reads of it: names, expressions, bodies and line
  numbers. Outside the model are the parsing itself, \<open>ast.unparse\<close>, \<open>inspect.cleandoc\<close> (which
  \<open>ast.get_docstring\<close> applies) and the hash: they are fields of the environment or arguments.
\<close>

named_theorems ast \<open>unfolding rules of the walk over the syntax tree\<close>

section \<open>Syntax trees\<close>

datatype expr =
    Name string
  | Attribute expr string
  | Call expr "expr list"
  | Str_Const string
  | Other_Expr string "expr list"

record arguments =
  posonlyargs :: "(string \<times> expr option) list"
  args :: "(string \<times> expr option) list"
  vararg :: "(string \<times> expr option) option"
  kwonlyargs :: "(string \<times> expr option) list"
  kw_defaults :: "expr option list"
  kwarg :: "(string \<times> expr option) option"
  defaults :: "expr list"

text \<open>The decorators of a definition, each with its line, and the lines of a statement.\<close>

type_synonym decorators = "(expr \<times> int) list"
type_synonym lines = "int \<times> int option"

text \<open>The fields of a block that hold statements; \<open>if\<close> and the definitions have their own form.\<close>

datatype block_field = Body | Orelse | Finalbody | Handler | Case

datatype stmt =
    FunctionDef bool string arguments "stmt list" decorators lines
  | ClassDef string "expr list" "stmt list" decorators lines
  | Import "(string \<times> string option) list" lines
  | ImportFrom "string option" nat "(string \<times> string option) list" lines
  | Expr_Stmt expr lines
  | If_Stmt expr "stmt list" "stmt list"
  | Block "part list"
  | Simple "expr list"
and part =
    Expr_Part expr
  | Stmts_Part block_field "stmt list"

record source_env =
  unparse :: "expr \<Rightarrow> string"
  cleandoc :: "string \<Rightarrow> string"
  source_lines :: "string list"

section \<open>Parsed records\<close>

record parsed_parameter =
  pp_name :: string
  pp_annotation :: "string option"
  pp_default :: "string option"
  pp_position :: nat

record parsed_docstring =
  pd_text :: string
  pd_summary :: string

record parsed_class =
  pc_name :: string
  pc_qualified_name :: string
  pc_parent :: string
  pc_bases :: "string list"
  pc_decorators :: "string list"
  pc_line_start :: int
  pc_line_end :: int
  pc_docstring :: "parsed_docstring option"
  pc_source_summary :: string

record parsed_callable =
  pf_name :: string
  pf_qualified_name :: string
  pf_parent :: string
  pf_parameters :: "parsed_parameter list"
  pf_decorators :: "string list"
  pf_line_start :: int
  pf_line_end :: int
  pf_is_async :: bool
  pf_calls :: "string list"
  pf_docstring :: "parsed_docstring option"
  pf_source_summary :: string

record parsed_import =
  pi_module :: "string option"
  pi_names :: "string list"
  pi_alias :: "string option"

type_synonym parsed_call = "string \<times> string"

record parsed_file =
  fl_path :: string
  fl_module :: string
  fl_hash :: string
  fl_line_start :: int
  fl_line_end :: int
  fl_docstring :: "parsed_docstring option"
  fl_classes :: "parsed_class list"
  fl_functions :: "parsed_callable list"
  fl_methods :: "parsed_callable list"
  fl_imports :: "parsed_import list"
  fl_calls :: "parsed_call list"
  fl_error :: "string option"

section \<open>Names\<close>

definition join_qn :: "string \<Rightarrow> string \<Rightarrow> string" where
  "join_qn namespace name = (if namespace = [] then name else namespace @ ''.'' @ name)"

fun chain_root_is_name :: "expr \<Rightarrow> bool" where
  "chain_root_is_name (Attribute v a) = chain_root_is_name v"
| "chain_root_is_name (Name i) = True"
| "chain_root_is_name e = False"

text \<open>The root of an attribute chain and the attributes from the root on.\<close>

fun attr_chain :: "expr \<Rightarrow> expr \<times> string list" where
  "attr_chain (Attribute v a) = (case attr_chain v of (r, ps) \<Rightarrow> (r, ps @ [a]))"
| "attr_chain e = (e, [])"

definition callee_name :: "expr \<Rightarrow> string option" where
  "callee_name e =
     (case e of
        Name i \<Rightarrow> Some i
      | Attribute v a \<Rightarrow>
          (case attr_chain e of
             (Name i, ps) \<Rightarrow> Some (join ''.'' (i # ps))
           | (r, ps) \<Rightarrow> Some (join ''.'' ps))
      | _ \<Rightarrow> None)"

fun decorator_name :: "source_env \<Rightarrow> expr \<Rightarrow> string" where
  "decorator_name env (Call f as) = decorator_name env f"
| "decorator_name env e =
     (case callee_name e of Some (c # cs) \<Rightarrow> c # cs | _ \<Rightarrow> unparse env e)"

definition span :: "decorators \<Rightarrow> lines \<Rightarrow> int \<times> int" where
  "span decs ls =
     (let start = (if decs = [] then fst ls else min (fst ls) (Min (set (map snd decs))))
      in (start, case snd ls of Some e \<Rightarrow> e | None \<Rightarrow> start))"

section \<open>Calls\<close>

text \<open>
  The call collector: every call of a body in the order of the tree, without the bodies of nested
  definitions, and only those whose callee is a name or an attribute chain that starts at one.
\<close>

fun expr_calls :: "expr \<Rightarrow> string list" and exprs_calls :: "expr list \<Rightarrow> string list" where
  "expr_calls (Name i) = []"
| "expr_calls (Attribute v a) = expr_calls v"
| "expr_calls (Call f as) =
     (if chain_root_is_name f
      then (case callee_name f of Some (c # cs) \<Rightarrow> [c # cs] | _ \<Rightarrow> []) else [])
     @ expr_calls f @ exprs_calls as"
| "expr_calls (Str_Const s) = []"
| "expr_calls (Other_Expr t es) = exprs_calls es"
| "exprs_calls [] = []"
| "exprs_calls (e # es) = expr_calls e @ exprs_calls es"

fun stmt_calls :: "stmt \<Rightarrow> string list"
  and stmts_calls :: "stmt list \<Rightarrow> string list"
  and part_calls :: "part \<Rightarrow> string list"
  and parts_calls :: "part list \<Rightarrow> string list" where
  "stmt_calls (FunctionDef b n as body ds ls) = []"
| "stmt_calls (ClassDef n bs body ds ls) = []"
| "stmt_calls (Import ns ls) = []"
| "stmt_calls (ImportFrom m l ns ls) = []"
| "stmt_calls (Expr_Stmt e ls) = expr_calls e"
| "stmt_calls (If_Stmt e body orelse) = expr_calls e @ stmts_calls body @ stmts_calls orelse"
| "stmt_calls (Block ps) = parts_calls ps"
| "stmt_calls (Simple es) = exprs_calls es"
| "stmts_calls [] = []"
| "stmts_calls (s # ss) = stmt_calls s @ stmts_calls ss"
| "part_calls (Expr_Part e) = expr_calls e"
| "part_calls (Stmts_Part f ss) = stmts_calls ss"
| "parts_calls [] = []"
| "parts_calls (p # ps) = part_calls p @ parts_calls ps"

definition collect_calls :: "stmt list \<Rightarrow> string list" where
  "collect_calls body = stmts_calls body"

section \<open>Parameters and docstrings\<close>

definition annotation :: "source_env \<Rightarrow> string \<times> expr option \<Rightarrow> string option" where
  "annotation env a =
     (case snd a of
        None \<Rightarrow> None
      | Some e \<Rightarrow> (let written = unparse env e in if written = [] then None else Some written))"

definition parameter ::
    "source_env \<Rightarrow> string \<times> expr option \<Rightarrow> expr option \<Rightarrow> nat \<Rightarrow> parsed_parameter" where
  "parameter env a d i =
     \<lparr>pp_name = fst a, pp_annotation = annotation env a, pp_default = map_option (unparse env) d,
      pp_position = i\<rparr>"

text \<open>The default of the positional parameter \<open>i\<close>: the defaults belong to the last ones.\<close>

definition positional_default :: "arguments \<Rightarrow> nat \<Rightarrow> expr option" where
  "positional_default as i =
     (let offset = int (length (posonlyargs as @ args as)) - int (length (defaults as))
      in if offset \<le> int i then Some (defaults as ! nat (int i - offset)) else None)"

definition signature :: "arguments \<Rightarrow> ((string \<times> expr option) \<times> expr option) list" where
  "signature as =
     (let positional = posonlyargs as @ args as
      in map (\<lambda>i. (positional ! i, positional_default as i)) [0..<length positional]
         @ (case vararg as of None \<Rightarrow> [] | Some a \<Rightarrow> [(a, None)])
         @ zip (kwonlyargs as) (kw_defaults as)
         @ (case kwarg as of None \<Rightarrow> [] | Some a \<Rightarrow> [(a, None)]))"

fun number_parameters ::
    "source_env \<Rightarrow> nat \<Rightarrow> ((string \<times> expr option) \<times> expr option) list \<Rightarrow> parsed_parameter list" where
  "number_parameters env position [] = []"
| "number_parameters env position ((a, d) # rest) =
     parameter env a d position # number_parameters env (position + 1) rest"

definition parse_parameters :: "source_env \<Rightarrow> arguments \<Rightarrow> parsed_parameter list" where
  "parse_parameters env as = number_parameters env 0 (signature as)"

definition parse_docstring :: "source_env \<Rightarrow> stmt list \<Rightarrow> parsed_docstring option" where
  "parse_docstring env body =
     (case body of
        Expr_Stmt (Str_Const s) ls # rest \<Rightarrow>
          (let doc = cleandoc env s; summary = strip (fst (partition_at CHR 0x0A doc))
           in if doc = [] \<or> summary = [] then None else Some \<lparr>pd_text = doc, pd_summary = summary\<rparr>)
      | _ \<Rightarrow> None)"

definition source_summary_max_lines :: nat where
  "source_summary_max_lines = 24"

definition source_summary :: "string list \<Rightarrow> int \<Rightarrow> int \<Rightarrow> string" where
  "source_summary lines start stop =
     (if start < 1 then ''''
      else
        (let chunk = take (nat (max start stop) - nat (start - 1)) (drop (nat (start - 1)) lines)
         in strip (join newline (take source_summary_max_lines chunk))))"

section \<open>Imports\<close>

fun is_type_checking :: "expr \<Rightarrow> bool" where
  "is_type_checking (Name i) = (i = ''TYPE_CHECKING'')"
| "is_type_checking (Attribute v a) = (a = ''TYPE_CHECKING'')"
| "is_type_checking e = False"

definition from_module :: "string option \<Rightarrow> nat \<Rightarrow> string option" where
  "from_module m level =
     (if level = 0 then m
      else (case m of
              Some (c # cs) \<Rightarrow> Some (replicate level CHR ''.'' @ c # cs)
            | _ \<Rightarrow> Some (replicate level CHR ''.'')))"

text \<open>The single alias that an import statement keeps.\<close>

definition kept_alias :: "(string \<times> string option) list \<Rightarrow> string option" where
  "kept_alias names =
     (case names of
        [(n, a)] \<Rightarrow> a
      | _ \<Rightarrow> (case remdups (List.map_filter snd names) of [a] \<Rightarrow> Some a | _ \<Rightarrow> None))"

fun collect_imports :: "stmt list \<Rightarrow> parsed_import list \<Rightarrow> parsed_import list" where
  "collect_imports [] acc = acc"
| "collect_imports (Import names ls # ss) acc =
     collect_imports ss
       (acc @ map (\<lambda>(n, a). \<lparr>pi_module = Some n, pi_names = [n], pi_alias = a\<rparr>) names)"
| "collect_imports (ImportFrom m level names ls # ss) acc =
     collect_imports ss
       (acc @ [\<lparr>pi_module = from_module m level, pi_names = map fst names,
                pi_alias = kept_alias names\<rparr>])"
| "collect_imports (If_Stmt test body orelse # ss) acc =
     collect_imports ss (if is_type_checking test then collect_imports body acc else acc)"
| "collect_imports (s # ss) acc = collect_imports ss acc"


section \<open>Definitions\<close>

record collected =
  cl_classes :: "parsed_class list"
  cl_functions :: "parsed_callable list"
  cl_methods :: "parsed_callable list"
  cl_calls :: "parsed_call list"

definition no_definitions :: collected where
  "no_definitions = \<lparr>cl_classes = [], cl_functions = [], cl_methods = [], cl_calls = []\<rparr>"

definition parse_callable ::
    "source_env \<Rightarrow> string \<Rightarrow> bool \<Rightarrow> string \<Rightarrow> arguments \<Rightarrow> stmt list \<Rightarrow> decorators \<Rightarrow> lines
      \<Rightarrow> parsed_callable" where
  "parse_callable env namespace async name as body decs ls =
     (case span decs ls of
        (start, stop) \<Rightarrow>
          \<lparr>pf_name = name, pf_qualified_name = join_qn namespace name, pf_parent = namespace,
           pf_parameters = parse_parameters env as,
           pf_decorators = map (\<lambda>d. decorator_name env (fst d)) decs,
           pf_line_start = start, pf_line_end = stop, pf_is_async = async,
           pf_calls = collect_calls body, pf_docstring = parse_docstring env body,
           pf_source_summary = source_summary (source_lines env) start stop\<rparr>)"

definition parse_class ::
    "source_env \<Rightarrow> string \<Rightarrow> string \<Rightarrow> expr list \<Rightarrow> stmt list \<Rightarrow> decorators \<Rightarrow> lines \<Rightarrow> parsed_class" where
  "parse_class env namespace name bases body decs ls =
     (case span decs ls of
        (start, stop) \<Rightarrow>
          \<lparr>pc_name = name, pc_qualified_name = join_qn namespace name, pc_parent = namespace,
           pc_bases = map (unparse env) bases,
           pc_decorators = map (\<lambda>d. decorator_name env (fst d)) decs,
           pc_line_start = start, pc_line_end = stop,
           pc_docstring = parse_docstring env body,
           pc_source_summary = source_summary (source_lines env) start stop\<rparr>)"

definition add_callable :: "string option \<Rightarrow> parsed_callable \<Rightarrow> collected \<Rightarrow> collected" where
  "add_callable class_qn f c =
     (let c = (if class_qn \<noteq> None then c\<lparr>cl_methods := cl_methods c @ [f]\<rparr>
               else c\<lparr>cl_functions := cl_functions c @ [f]\<rparr>)
      in c\<lparr>cl_calls := cl_calls c @ map (\<lambda>callee. (pf_qualified_name f, callee)) (pf_calls f)\<rparr>)"

definition add_class :: "parsed_class \<Rightarrow> collected \<Rightarrow> collected" where
  "add_class k c = c\<lparr>cl_classes := cl_classes c @ [k]\<rparr>"

text \<open>
  \<open>_collect_definitions\<close>. The bodies of a block are walked field by field (\<open>_block_bodies\<close>):
  body, else, finally, then the handlers and the cases.
\<close>

fun collect_stmts ::
    "source_env \<Rightarrow> string \<Rightarrow> string option \<Rightarrow> stmt list \<Rightarrow> collected \<Rightarrow> collected"
  and collect_stmt ::
    "source_env \<Rightarrow> string \<Rightarrow> string option \<Rightarrow> stmt \<Rightarrow> collected \<Rightarrow> collected"
  and collect_field ::
    "source_env \<Rightarrow> string \<Rightarrow> string option \<Rightarrow> block_field \<Rightarrow> part list \<Rightarrow> collected \<Rightarrow> collected"
  and collect_part ::
    "source_env \<Rightarrow> string \<Rightarrow> string option \<Rightarrow> block_field \<Rightarrow> part \<Rightarrow> collected \<Rightarrow> collected" where
  "collect_stmts env ns cls [] c = c"
| "collect_stmts env ns cls (s # ss) c = collect_stmts env ns cls ss (collect_stmt env ns cls s c)"
| "collect_stmt env ns cls (FunctionDef async name as body decs ls) c =
     collect_stmts env (join_qn ns name) None body
       (add_callable cls (parse_callable env ns async name as body decs ls) c)"
| "collect_stmt env ns cls (ClassDef name bases body decs ls) c =
     collect_stmts env (join_qn ns name) (Some (join_qn ns name)) body
       (add_class (parse_class env ns name bases body decs ls) c)"
| "collect_stmt env ns cls (If_Stmt test body orelse) c =
     collect_stmts env ns cls orelse (collect_stmts env ns cls body c)"
| "collect_stmt env ns cls (Block ps) c =
     collect_field env ns cls Case ps
       (collect_field env ns cls Handler ps
         (collect_field env ns cls Finalbody ps
           (collect_field env ns cls Orelse ps (collect_field env ns cls Body ps c))))"
| "collect_stmt env ns cls (Import names ls) c = c"
| "collect_stmt env ns cls (ImportFrom m l names ls) c = c"
| "collect_stmt env ns cls (Expr_Stmt e ls) c = c"
| "collect_stmt env ns cls (Simple es) c = c"
| "collect_field env ns cls f [] c = c"
| "collect_field env ns cls f (p # ps) c =
     collect_field env ns cls f ps (collect_part env ns cls f p c)"
| "collect_part env ns cls f (Stmts_Part g body) c =
     (if f = g then collect_stmts env ns cls body c else c)"
| "collect_part env ns cls f (Expr_Part e) c = c"

section \<open>Files\<close>

fun import_header_end :: "stmt list \<Rightarrow> int \<times> bool \<Rightarrow> int \<times> bool" where
  "import_header_end (Import names ls # ss) (stop, saw) =
     import_header_end ss (max stop (snd (span [] ls)), True)"
| "import_header_end (ImportFrom m l names ls # ss) (stop, saw) =
     import_header_end ss (max stop (snd (span [] ls)), True)"
| "import_header_end ss r = r"

definition module_header_span :: "stmt list \<Rightarrow> int \<times> int" where
  "module_header_span body =
     (case body of
        Expr_Stmt (Str_Const s) ls # rest \<Rightarrow> span [] ls
      | _ \<Rightarrow> (case import_header_end body (1, False) of
                (stop, saw) \<Rightarrow> if saw then (1, stop) else (1, 1)))"

text \<open>\<open>_parse_source\<close>, from what \<open>ast.parse\<close> gives: the message of its error, or the module body.\<close>

definition parse_source ::
    "source_env \<Rightarrow> string \<Rightarrow> string \<Rightarrow> string \<Rightarrow> string + stmt list \<Rightarrow> parsed_file" where
  "parse_source env path modname content_hash parsed =
     (case parsed of
        Inl message \<Rightarrow>
          \<lparr>fl_path = path, fl_module = modname, fl_hash = content_hash, fl_line_start = 1,
           fl_line_end = 1, fl_docstring = None, fl_classes = [], fl_functions = [],
           fl_methods = [], fl_imports = [], fl_calls = [], fl_error = Some message\<rparr>
      | Inr body \<Rightarrow>
          (let c = collect_stmts env modname None body no_definitions;
               header = module_header_span body
           in \<lparr>fl_path = path, fl_module = modname, fl_hash = content_hash,
               fl_line_start = fst header, fl_line_end = snd header,
               fl_docstring = parse_docstring env body, fl_classes = cl_classes c,
               fl_functions = cl_functions c, fl_methods = cl_methods c,
               fl_imports = collect_imports body [], fl_calls = cl_calls c, fl_error = None\<rparr>))"

text \<open>\<open>module_name_from_path\<close> on the components of the path below the root.\<close>

definition without_suffix :: "string \<Rightarrow> string" where
  "without_suffix name =
     (case partition_at CHR ''.'' (rev name) of
        (ext, True, c # stem) \<Rightarrow> if ext = [] then name else rev (c # stem)
      | _ \<Rightarrow> name)"

definition module_name_from_path :: "string list \<Rightarrow> string" where
  "module_name_from_path rel =
     (let parts = (if rel = [] then [] else butlast rel @ [without_suffix (last rel)])
      in join ''.'' (if parts \<noteq> [] \<and> last parts = ''__init__'' then butlast parts else parts))"

section \<open>What is recorded\<close>

text \<open>
  The reference: \<open>holds_def body ns cls ns' k\<close> says that the body, read in namespace \<open>ns\<close> with
  class parent \<open>cls\<close>, holds at some depth the definition \<open>k\<close>, whose own namespace is \<open>ns'\<close>.
\<close>

datatype definition_kind = A_Class | A_Function | A_Method

fun sub_bodies :: "stmt \<Rightarrow> stmt list list" where
  "sub_bodies (If_Stmt test body orelse) = [body, orelse]"
| "sub_bodies (Block ps) = List.map_filter (\<lambda>p. case p of Stmts_Part f b \<Rightarrow> Some b | _ \<Rightarrow> None) ps"
| "sub_bodies s = []"

inductive holds_def :: "string \<Rightarrow> bool \<Rightarrow> stmt list \<Rightarrow> definition_kind \<Rightarrow> string \<Rightarrow> bool" where
  def_function:
    "FunctionDef async name as body decs ls \<in> set ss \<Longrightarrow>
     holds_def ns in_class ss (if in_class then A_Method else A_Function) (join_qn ns name)"
| def_class:
    "ClassDef name bases body decs ls \<in> set ss \<Longrightarrow> holds_def ns in_class ss A_Class (join_qn ns name)"
| in_function:
    "FunctionDef async name as body decs ls \<in> set ss \<Longrightarrow> holds_def (join_qn ns name) False body k q \<Longrightarrow>
     holds_def ns in_class ss k q"
| in_class:
    "ClassDef name bases body decs ls \<in> set ss \<Longrightarrow> holds_def (join_qn ns name) True body k q \<Longrightarrow>
     holds_def ns in_class ss k q"
| in_block:
    "s \<in> set ss \<Longrightarrow> body \<in> set (sub_bodies s) \<Longrightarrow> holds_def ns in_class body k q \<Longrightarrow>
     holds_def ns in_class ss k q"

definition recorded :: "collected \<Rightarrow> definition_kind \<Rightarrow> string set" where
  "recorded c k =
     (case k of
        A_Class \<Rightarrow> pc_qualified_name ` set (cl_classes c)
      | A_Function \<Rightarrow> pf_qualified_name ` set (cl_functions c)
      | A_Method \<Rightarrow> pf_qualified_name ` set (cl_methods c))"


lemma holds_def_Nil [simp]: "\<not> holds_def ns i [] k q"
  by (auto elim: holds_def.cases)

lemma holds_def_mono: "holds_def ns i ss k q \<Longrightarrow> set ss \<subseteq> set ts \<Longrightarrow> holds_def ns i ts k q"
  by (induction rule: holds_def.induct) (blast intro: holds_def.intros)+

lemma holds_def_member: "holds_def ns i ss k q \<Longrightarrow> \<exists>s \<in> set ss. holds_def ns i [s] k q"
  by (erule holds_def.cases) (fastforce intro: holds_def.intros)+

lemma holds_def_Cons: "holds_def ns i (s # ss) k q \<longleftrightarrow> holds_def ns i [s] k q \<or> holds_def ns i ss k q"
proof
  assume "holds_def ns i (s # ss) k q"
  from holds_def_member [OF this] obtain x where "x = s \<or> x \<in> set ss" "holds_def ns i [x] k q"
    by auto
  then show "holds_def ns i [s] k q \<or> holds_def ns i ss k q"
    by (auto intro: holds_def_mono [of ns i "[x]" k q ss])
qed (auto intro: holds_def_mono)

inductive_simps holds_def_one: "holds_def ns i [s] k q"

lemma holds_def_definition [ast]:
  "holds_def ns i [FunctionDef async name as body decs ls] k q \<longleftrightarrow>
     k = (if i then A_Method else A_Function) \<and> q = join_qn ns name \<or>
     holds_def (join_qn ns name) False body k q"
  "holds_def ns i [ClassDef name bases body decs ls] k q \<longleftrightarrow>
     k = A_Class \<and> q = join_qn ns name \<or> holds_def (join_qn ns name) True body k q"
  by (cases ls, auto simp: holds_def_one)+

lemma sub_bodies_Block: "b \<in> set (sub_bodies (Block ps)) \<longleftrightarrow> (\<exists>f. Stmts_Part f b \<in> set ps)"
  by (induction ps) (auto simp: List.map_filter_def split: part.splits)

lemma holds_def_block [ast]:
  "holds_def ns i [If_Stmt test b1 b2] k q \<longleftrightarrow> holds_def ns i b1 k q \<or> holds_def ns i b2 k q"
  "holds_def ns i [Block ps] k q \<longleftrightarrow>
     (\<exists>f b. Stmts_Part f b \<in> set ps \<and> holds_def ns i b k q)"
  by (auto simp: holds_def_one sub_bodies_Block simp del: sub_bodies.simps(2))

lemma holds_def_other [ast]:
  "\<not> holds_def ns i [Import names ls] k q" "\<not> holds_def ns i [ImportFrom m l names ls] k q"
  "\<not> holds_def ns i [Expr_Stmt e ls] k q" "\<not> holds_def ns i [Simple es] k q"
  by (auto simp: holds_def_one)

lemma recorded_add [ast]:
  "recorded (add_class x c) k = (if k = A_Class then {pc_qualified_name x} else {}) \<union> recorded c k"
  "recorded (add_callable cls f c) k =
     (if k = (if cls \<noteq> None then A_Method else A_Function) then {pf_qualified_name f} else {}) \<union>
     recorded c k"
  by (auto simp: recorded_def add_class_def add_callable_def Let_def split: definition_kind.splits)

lemma qualified_names [simp]:
  "pf_qualified_name (parse_callable env ns async name as body decs ls) = join_qn ns name"
  "pc_qualified_name (parse_class env ns name bases body decs ls) = join_qn ns name"
  by (simp_all add: parse_callable_def parse_class_def split: prod.splits)

lemma ex_block_field:
  "(\<exists>f. P f) \<longleftrightarrow> P Case \<or> P Handler \<or> P Finalbody \<or> P Orelse \<or> P Body"
  by (metis block_field.exhaust)

lemma recorded_collect:
  "recorded (collect_stmts env ns cls ss c) k =
     {q. holds_def ns (cls \<noteq> None) ss k q} \<union> recorded c k"
  "recorded (collect_stmt env ns cls s c) k =
     {q. holds_def ns (cls \<noteq> None) [s] k q} \<union> recorded c k"
  "recorded (collect_field env ns cls f ps c) k =
     {q. \<exists>b. Stmts_Part f b \<in> set ps \<and> holds_def ns (cls \<noteq> None) b k q} \<union> recorded c k"
  "recorded (collect_part env ns cls f p c) k =
     {q. \<exists>b. p = Stmts_Part f b \<and> holds_def ns (cls \<noteq> None) b k q} \<union> recorded c k"
proof (induction env ns cls ss c and env ns cls s c and env ns cls f ps c and env ns cls f p c
    rule: collect_stmts_collect_stmt_collect_field_collect_part.induct)
  case (2 env ns cls s ss c)
  from 2 holds_def_Cons [of ns "cls \<noteq> None" s ss k] show ?case by simp blast
next
  case (3 env ns cls async name as body decs ls c)
  then show ?case by (simp add: ast) blast
next
  case (4 env ns cls name bases body decs ls c)
  then show ?case by (simp add: ast) blast
next
  case (5 env ns cls test body orelse c)
  then show ?case by (simp add: ast) blast
next
  case (6 env ns cls ps c)
  from 6 show ?case by (simp add: holds_def_block ex_block_field) blast
next
  case (12 env ns cls f p ps c)
  then show ?case by simp blast
next
  case (13 env ns cls f g body c)
  then show ?case by auto
qed (simp_all add: ast)



section \<open>Calls and parameters\<close>

text \<open>The calls of a collection are those of its callables, under their qualified names.\<close>

definition own_calls :: "collected \<Rightarrow> parsed_call set" where
  "own_calls c =
     (\<Union>f \<in> set (cl_functions c) \<union> set (cl_methods c).
        (\<lambda>callee. (pf_qualified_name f, callee)) ` set (pf_calls f))"

lemma own_calls_add [ast]:
  "set (cl_calls c) = own_calls c \<Longrightarrow>
     set (cl_calls (add_callable cls f c)) = own_calls (add_callable cls f c)"
  "set (cl_calls c) = own_calls c \<Longrightarrow>
     set (cl_calls (add_class x c)) = own_calls (add_class x c)"
  by (auto simp: own_calls_def add_callable_def add_class_def Let_def)

lemma own_calls_collect:
  "set (cl_calls c) = own_calls c \<Longrightarrow>
     set (cl_calls (collect_stmts env ns cls ss c)) = own_calls (collect_stmts env ns cls ss c)"
  "set (cl_calls c) = own_calls c \<Longrightarrow>
     set (cl_calls (collect_stmt env ns cls s c)) = own_calls (collect_stmt env ns cls s c)"
  "set (cl_calls c) = own_calls c \<Longrightarrow>
     set (cl_calls (collect_field env ns cls f ps c)) = own_calls (collect_field env ns cls f ps c)"
  "set (cl_calls c) = own_calls c \<Longrightarrow>
     set (cl_calls (collect_part env ns cls f p c)) = own_calls (collect_part env ns cls f p c)"
  by (induction env ns cls ss c and env ns cls s c and env ns cls f ps c and env ns cls f p c
      rule: collect_stmts_collect_stmt_collect_field_collect_part.induct) (simp_all add: ast)

lemma number_parameters_eq:
  "number_parameters env i ps =
     map (\<lambda>(j, a, d). parameter env a d j) (zip [i..<i + length ps] ps)"
  by (induction ps arbitrary: i) (auto simp: upt_conv_Cons simp del: upt_Suc)

lemma signature_length:
  "length (kw_defaults as) = length (kwonlyargs as) \<Longrightarrow>
     map fst (signature as) = posonlyargs as @ args as @
       (case vararg as of None \<Rightarrow> [] | Some a \<Rightarrow> [a]) @ kwonlyargs as @
       (case kwarg as of None \<Rightarrow> [] | Some a \<Rightarrow> [a])"
  using map_nth [of "posonlyargs as @ args as"]
  by (simp add: signature_def Let_def comp_def split: option.splits)

text \<open>
  Parameters keep the order of the signature: positional-only, positional, \<open>*args\<close>,
  keyword-only, \<open>**kwargs\<close>, numbered from zero without gaps; and the \<open>d\<close> defaults of the
  positional ones belong to the last \<open>d\<close> of them, in order, the others having none.
\<close>

theorem parameters_follow_signature:
  assumes "length (kw_defaults as) = length (kwonlyargs as)"
    and "length (defaults as) \<le> length (posonlyargs as @ args as)"
  shows "map pp_name (parse_parameters env as) =
           map fst (posonlyargs as @ args as @ (case vararg as of None \<Rightarrow> [] | Some a \<Rightarrow> [a]) @
             kwonlyargs as @ (case kwarg as of None \<Rightarrow> [] | Some a \<Rightarrow> [a]))
         \<and> map pp_position (parse_parameters env as) = [0..<length (parse_parameters env as)]
         \<and> map pp_default (take (length (posonlyargs as @ args as)) (parse_parameters env as)) =
           replicate (length (posonlyargs as @ args as) - length (defaults as)) None @
           map (\<lambda>e. Some (unparse env e)) (defaults as)"
proof -
  let ?n = "length (posonlyargs as @ args as)" and ?d = "length (defaults as)"
  have names: "map pp_name (parse_parameters env as) = map fst (map fst (signature as))"
    by (rule nth_equalityI)
      (simp_all add: parse_parameters_def number_parameters_eq parameter_def case_prod_beta)
  have positions: "map pp_position (parse_parameters env as) = [0..<length (parse_parameters env as)]"
    by (simp add: parse_parameters_def number_parameters_eq parameter_def case_prod_beta comp_def)
  have "take ?n (map snd (signature as)) = map (positional_default as) [0..<?n]"
    by (simp add: signature_def Let_def comp_def)
  also have "\<dots> = replicate (?n - ?d) None @ map Some (defaults as)"
    using assms(2) by (intro nth_equalityI) (auto simp: positional_default_def nth_append Let_def nat_diff_distrib nat_int_add)
  finally have "map (map_option (unparse env)) (take ?n (map snd (signature as))) =
      replicate (?n - ?d) None @ map (\<lambda>e. Some (unparse env e)) (defaults as)"
    by simp
  moreover have "map pp_default (parse_parameters env as) =
      map (map_option (unparse env)) (map snd (signature as))"
    by (rule nth_equalityI)
      (simp_all add: parse_parameters_def number_parameters_eq parameter_def case_prod_beta)
  ultimately have "map pp_default (take ?n (parse_parameters env as)) =
      replicate (?n - ?d) None @ map (\<lambda>e. Some (unparse env e)) (defaults as)"
    unfolding take_map [symmetric] by (simp only:)
  with names positions signature_length [OF assms(1)] show ?thesis by simp
qed


definition sample_source_env :: source_env where
  "sample_source_env = \<lparr>unparse = (\<lambda>e. case callee_name e of Some s \<Rightarrow> s | None \<Rightarrow> ''?''),
                        cleandoc = strip, source_lines = []\<rparr>"

definition sample_arguments :: arguments where
  "sample_arguments =
     \<lparr>posonlyargs = [(''a'', None)], args = [(''b'', Some (Name ''int''))],
      vararg = Some (''rest'', None), kwonlyargs = [(''c'', None)], kw_defaults = [None],
      kwarg = None, defaults = [Name ''one'']\<rparr>"

theorem parameters_follow_signature_witness:
  "map pp_name (parse_parameters sample_source_env sample_arguments) = [''a'', ''b'', ''rest'', ''c'']
   \<and> map pp_default (take 2 (parse_parameters sample_source_env sample_arguments)) =
       [None, Some ''one'']"
  using parameters_follow_signature [of sample_arguments sample_source_env]
  by (simp add: sample_arguments_def sample_source_env_def callee_name_def numeral_2_eq_2)

text \<open>A call is attributed to the callable whose own body makes it, under its qualified name.\<close>

theorem recorded_calls_are_own:
  "set (cl_calls (collect_stmts env ns cls ss no_definitions)) =
     own_calls (collect_stmts env ns cls ss no_definitions)"
  by (rule own_calls_collect) (simp add: own_calls_def no_definitions_def)

end
