(* ===== verification/NameResolution.thy ===== *)
theory NameResolution
  imports Parser
begin

text \<open>
  How the indexer resolves names (\<open>core/indexing/indexer.py\<close>): relative imports, the bindings an
  import statement creates, the owner of a dotted name, re-exports, and the callee or base class
  of a reference. The tables are the dictionaries of the source, as association lists.
\<close>

named_theorems dotted \<open>facts on dotted names\<close>

section \<open>Tables\<close>

record name_tables =
  tb_qn :: "(string \<times> string) list"
  tb_names :: "(string \<times> string list) list"

definition empty_tables :: name_tables where
  "empty_tables = \<lparr>tb_qn = [], tb_names = []\<rparr>"

definition names_of :: "name_tables \<Rightarrow> string \<Rightarrow> string list" where
  "names_of t n = (case map_of (tb_names t) n of None \<Rightarrow> [] | Some qs \<Rightarrow> qs)"

definition add_name :: "string \<Rightarrow> string \<Rightarrow> name_tables \<Rightarrow> name_tables" where
  "add_name qualified name t =
     t\<lparr>tb_qn := dset qualified qualified (tb_qn t),
       tb_names := dset name (add_new qualified (names_of t name)) (tb_names t)\<rparr>"

definition indexed :: "name_tables \<Rightarrow> string list" where
  "indexed t = map fst (tb_qn t)"

section \<open>Imports\<close>

text \<open>\<open>text.lstrip(".")\<close> and the number of dots it takes off.\<close>

definition leading_dots :: "string \<Rightarrow> nat \<times> string" where
  "leading_dots ref = (length (takeWhile (\<lambda>c. c = CHR ''.'') ref), dropWhile (\<lambda>c. c = CHR ''.'') ref)"

definition parent_module :: "string \<Rightarrow> string" where
  "parent_module m = rpartition_head CHR ''.'' m"

definition resolve_relative_module :: "string \<Rightarrow> string \<Rightarrow> bool \<Rightarrow> string" where
  "resolve_relative_module ref current is_package =
     (case leading_dots ref of
        (level, stripped) \<Rightarrow>
          if level = 0 then ref
          else
            (let base = (if is_package then current else parent_module current);
                 base = (parent_module ^^ (level - 1)) base
             in if base = [] then stripped
                else if stripped \<noteq> [] then base @ ''.'' @ stripped else base))"

text \<open>\<open>m.setdefault(k, v)\<close>\<close>

definition setdefault :: "string \<Rightarrow> string \<Rightarrow> (string \<times> string) list \<Rightarrow> (string \<times> string) list" where
  "setdefault k v m = (if k \<in> set (map fst m) then m else m @ [(k, v)])"

text \<open>\<open>alias or name\<close>\<close>

definition bound_name :: "string option \<Rightarrow> string \<Rightarrow> string" where
  "bound_name alias name = (case alias of Some (c # cs) \<Rightarrow> c # cs | _ \<Rightarrow> name)"

definition under :: "string \<Rightarrow> string \<Rightarrow> string" where
  "under target name = (if target \<noteq> [] then target @ ''.'' @ name else name)"

definition bind_import ::
    "string \<Rightarrow> bool \<Rightarrow> parsed_import \<Rightarrow> (string \<times> string) list \<Rightarrow> (string \<times> string) list" where
  "bind_import modname is_package imp m =
     (let raw = (case pi_module imp of None \<Rightarrow> '''' | Some r \<Rightarrow> r);
          target = resolve_relative_module raw modname is_package
      in if \<not> starts_with raw ''.'' \<and> pi_names imp = [raw]
         then (let head = fst (partition_at CHR ''.'' raw)
               in setdefault head head (setdefault (bound_name (pi_alias imp) raw) raw m))
         else fold (\<lambda>n. setdefault (bound_name (pi_alias imp) n) (under target n)) (pi_names imp) m)"

definition bindings_from_imports ::
    "string \<Rightarrow> bool \<Rightarrow> parsed_import list \<Rightarrow> (string \<times> string) list" where
  "bindings_from_imports modname is_package imps = fold (bind_import modname is_package) imps []"

section \<open>Owners\<close>

text \<open>The nearest prefix at a dot that is in the list: the loop of \<open>_owning_module\<close>.\<close>

function nearest_prefix :: "string list \<Rightarrow> string \<Rightarrow> string option" where
  "nearest_prefix known p =
     (if p = [] then None
      else if p \<in> set known then Some p
      else nearest_prefix known (rpartition_head CHR ''.'' p))"
  by pat_completeness auto
termination
  by (relation "measure (\<lambda>(known, p). length p)") (auto simp: rpartition_head_length)

declare nearest_prefix.simps [simp del]

definition owning_module :: "string \<Rightarrow> string list \<Rightarrow> string option" where
  "owning_module qualified module_qns = nearest_prefix module_qns qualified"

definition enclosing_class :: "string \<Rightarrow> string list \<Rightarrow> string option" where
  "enclosing_class qualified class_qns =
     nearest_prefix class_qns (rpartition_head CHR ''.'' qualified)"

section \<open>Re-exports\<close>

type_synonym reexports = "(string \<times> (string \<times> string) list) list"

definition reexport_max_hops :: nat where
  "reexport_max_hops = 4"

text \<open>One hop: the first segment after the owning module is replaced by what the module binds it to.\<close>

definition next_name :: "string list \<Rightarrow> reexports \<Rightarrow> string \<Rightarrow> string option" where
  "next_name module_qns reex current =
     (case owning_module current module_qns of
        None \<Rightarrow> None
      | Some owner \<Rightarrow>
          if owner = current then None
          else
            (case partition_at CHR ''.'' (drop (length owner + 1) current) of
               (first, dot, tail) \<Rightarrow>
                 (case map_of (case map_of reex owner of None \<Rightarrow> [] | Some b \<Rightarrow> b) first of
                    Some (c # cs) \<Rightarrow> Some (if dot then (c # cs) @ ''.'' @ tail else c # cs)
                  | _ \<Rightarrow> None)))"

fun follow_hops ::
    "name_tables \<Rightarrow> string list option \<Rightarrow> reexports option \<Rightarrow> nat \<Rightarrow> string list \<Rightarrow> string
      \<Rightarrow> string option" where
  "follow_hops t mods reex 0 visited current = None"
| "follow_hops t mods reex (Suc n) visited current =
     (case map_of (tb_qn t) current of
        Some q \<Rightarrow> Some q
      | None \<Rightarrow>
          (case (mods, reex) of
             (Some ms, Some (r # rs)) \<Rightarrow>
               if current \<in> set visited then None
               else (case next_name ms (r # rs) current of
                       None \<Rightarrow> None
                     | Some target \<Rightarrow> follow_hops t mods reex n (current # visited) target)
           | _ \<Rightarrow> None))"

definition follow_reexports ::
    "string \<Rightarrow> name_tables \<Rightarrow> string list option \<Rightarrow> reexports option \<Rightarrow> string option" where
  "follow_reexports candidate t mods reex =
     follow_hops t mods reex (reexport_max_hops + 1) [] candidate"

fun first_indexed ::
    "string list \<Rightarrow> string list \<Rightarrow> name_tables \<Rightarrow> string list option \<Rightarrow> reexports option
      \<Rightarrow> string option" where
  "first_indexed seen [] t mods reex = None"
| "first_indexed seen (c # cs) t mods reex =
     (if c \<in> set seen then first_indexed seen cs t mods reex
      else (case follow_reexports c t mods reex of
              Some q \<Rightarrow> Some q
            | None \<Rightarrow> first_indexed (c # seen) cs t mods reex))"

section \<open>References\<close>

record reference =
  rf_module :: string
  rf_caller :: string
  rf_bindings :: "(string \<times> string) list option"
  rf_visible :: "string list option"
  rf_modules :: "string list option"
  rf_classes :: "string list option"
  rf_reexports :: "reexports option"

definition instance_names :: "string list" where
  "instance_names = [''self'', ''cls'']"

definition receiver_class :: "reference \<Rightarrow> string option" where
  "receiver_class r =
     (case rf_classes r of
        Some classes \<Rightarrow> enclosing_class (rf_caller r) classes
      | None \<Rightarrow>
          (let owner = rpartition_head CHR ''.'' (rf_caller r)
           in if owner = [] then None else Some owner))"

definition bound_candidates :: "reference \<Rightarrow> string \<Rightarrow> bool \<Rightarrow> string \<Rightarrow> string list" where
  "bound_candidates r head dot rest =
     (case rf_bindings r of
        None \<Rightarrow> []
      | Some m \<Rightarrow>
          (case map_of m head of
             Some (c # cs) \<Rightarrow> [if dot then (c # cs) @ ''.'' @ rest else c # cs]
           | _ \<Rightarrow> []))"

definition candidates :: "reference \<Rightarrow> string \<Rightarrow> string list" where
  "candidates r callee =
     (case partition_at CHR ''.'' callee of
        (head, dot, rest) \<Rightarrow>
          bound_candidates r head dot rest
          @ (if rf_module r \<noteq> [] then [rf_module r @ ''.'' @ callee] else []) @ [callee])"

definition visible_matches :: "reference \<Rightarrow> name_tables \<Rightarrow> string \<Rightarrow> string list" where
  "visible_matches r t callee =
     (case (rf_visible r, rf_modules r) of
        (Some visible, Some mods) \<Rightarrow>
          filter (\<lambda>q. case owning_module q mods of None \<Rightarrow> False | Some o' \<Rightarrow> o' \<in> set visible)
            (names_of t callee)
      | _ \<Rightarrow> names_of t callee)"

definition resolve_name :: "reference \<Rightarrow> name_tables \<Rightarrow> string \<Rightarrow> string option" where
  "resolve_name r t callee =
     (case partition_at CHR ''.'' callee of
        (head, dot, rest) \<Rightarrow>
          if head \<in> set instance_names \<and> dot
          then
            (if CHR ''.'' \<in> set rest then None
             else (case receiver_class r of
                     None \<Rightarrow> None
                   | Some owner \<Rightarrow>
                       first_indexed [] [owner @ ''.'' @ rest] t (rf_modules r) (rf_reexports r)))
          else
            (case first_indexed [] (candidates r callee) t (rf_modules r) (rf_reexports r) of
               Some q \<Rightarrow> Some q
             | None \<Rightarrow>
                 if dot then None
                 else (case visible_matches r t callee of [q] \<Rightarrow> Some q | _ \<Rightarrow> None)))"


section \<open>Dotted names\<close>

text \<open>\<open>p\<close> is \<open>q\<close> or ends in \<open>q\<close> right before a dot.\<close>

definition dotted_prefix :: "string \<Rightarrow> string \<Rightarrow> bool" where
  "dotted_prefix p q \<longleftrightarrow> p \<noteq> [] \<and> (p = q \<or> (\<exists>s. q = p @ ''.'' @ s))"

lemma rpartition_head_cases:
  "(CHR ''.'' \<notin> set q \<and> rpartition_head CHR ''.'' q = []) \<or>
   (\<exists>t. CHR ''.'' \<notin> set t \<and> q = rpartition_head CHR ''.'' q @ CHR ''.'' # t)"
proof (cases "CHR ''.'' \<in> set q")
  case True
  then obtain s t where "q = s @ CHR ''.'' # t" "CHR ''.'' \<notin> set t"
    by (metis in_set_conv_decomp_last)
  then show ?thesis by (auto simp: rpartition_head_found)
qed (simp add: rpartition_head_absent)

lemma dotted_prefix_head [dotted]:
  "dotted_prefix p q \<longleftrightarrow> p \<noteq> [] \<and> (p = q \<or> dotted_prefix p (rpartition_head CHR ''.'' q))"
proof -
  consider "CHR ''.'' \<notin> set q" "rpartition_head CHR ''.'' q = []"
    | t where "CHR ''.'' \<notin> set t" "q = rpartition_head CHR ''.'' q @ CHR ''.'' # t"
    using rpartition_head_cases by blast
  then show ?thesis
  proof cases
    case 1
    then show ?thesis by (auto simp: dotted_prefix_def)
  next
    case 2
    let ?h = "rpartition_head CHR ''.'' q"
    have "(\<exists>s. q = p @ ''.'' @ s) \<longleftrightarrow> p = ?h \<or> (\<exists>s. ?h = p @ ''.'' @ s)"
    proof
      assume "\<exists>s. q = p @ ''.'' @ s"
      then obtain s where "?h @ CHR ''.'' # t = p @ CHR ''.'' # s" using 2(2) by auto
      then obtain us where "(?h = p @ us \<and> us @ CHR ''.'' # t = CHR ''.'' # s) \<or>
          (?h @ us = p \<and> CHR ''.'' # t = us @ CHR ''.'' # s)"
        by (auto simp: append_eq_append_conv2)
      with 2(1) show "p = ?h \<or> (\<exists>s. ?h = p @ ''.'' @ s)"
        by (cases us) auto
    next
      assume "p = ?h \<or> (\<exists>s. ?h = p @ ''.'' @ s)"
      then show "\<exists>s. q = p @ ''.'' @ s" by (subst 2(2)) auto
    qed
    then show ?thesis by (auto simp: dotted_prefix_def)
  qed
qed

lemma not_dotted_prefix_Nil [simp]: "\<not> dotted_prefix [] q"
  by (simp add: dotted_prefix_def)

lemma dotted_prefix_length: "dotted_prefix p q \<Longrightarrow> length p \<le> length q"
  by (auto simp: dotted_prefix_def)

text \<open>
  The owner of a dotted name is the longest of its prefixes at a dot that is a known module
  (for a class, of its proper prefixes), and there is none exactly when no prefix is known.
\<close>

lemma nearest_prefix_spec:
  "case nearest_prefix known q of
     Some p \<Rightarrow> p \<in> set known \<and> dotted_prefix p q \<and>
       (\<forall>p' \<in> set known. dotted_prefix p' q \<longrightarrow> length p' \<le> length p)
   | None \<Rightarrow> \<forall>p' \<in> set known. \<not> dotted_prefix p' q"
proof (induction known q rule: nearest_prefix.induct)
  case (1 known q)
  consider "q = []" | "q \<noteq> []" "q \<in> set known" | "q \<noteq> []" "q \<notin> set known" by blast
  then show ?case
  proof cases
    case 1
    then show ?thesis by (subst nearest_prefix.simps) (simp add: dotted_prefix_def)
  next
    case 2
    then show ?thesis
      by (subst nearest_prefix.simps) (auto simp: dotted_prefix_length, simp add: dotted_prefix_def)
  next
    case 3
    have "nearest_prefix known q = nearest_prefix known (rpartition_head CHR ''.'' q)"
      using 3 by (subst nearest_prefix.simps) simp
    with 1 [OF 3] 3 show ?thesis
      by (auto split: option.splits simp: dotted_prefix_head [of _ q])
  qed
qed

section \<open>Re-export chains\<close>

text \<open>The names a chain of hops goes through.\<close>

fun hops :: "string list \<Rightarrow> reexports \<Rightarrow> nat \<Rightarrow> string \<Rightarrow> string option" where
  "hops ms reex 0 c = Some c"
| "hops ms reex (Suc k) c =
     (case next_name ms reex c of None \<Rightarrow> None | Some d \<Rightarrow> hops ms reex k d)"

text \<open>The same search without the memory of visited names.\<close>

fun search_hops :: "name_tables \<Rightarrow> string list \<Rightarrow> reexports \<Rightarrow> nat \<Rightarrow> string \<Rightarrow> string option" where
  "search_hops t ms reex 0 c = None"
| "search_hops t ms reex (Suc n) c =
     (case map_of (tb_qn t) c of
        Some q \<Rightarrow> Some q
      | None \<Rightarrow> (case next_name ms reex c of None \<Rightarrow> None | Some d \<Rightarrow> search_hops t ms reex n d))"

lemma search_hops_cycle:
  "\<forall>x \<in> V. map_of (tb_qn t) x = None \<and> (\<exists>y \<in> V. next_name ms reex x = Some y) \<Longrightarrow> c \<in> V \<Longrightarrow>
     search_hops t ms reex n c = None"
  by (induction n arbitrary: c) force+

lemma follow_hops_search:
  assumes "r \<noteq> []"
  shows "\<forall>x \<in> set visited. map_of (tb_qn t) x = None \<and>
           (\<exists>y \<in> insert c (set visited). next_name ms r x = Some y) \<Longrightarrow>
         follow_hops t (Some ms) (Some r) n visited c = search_hops t ms r n c"
proof (induction n arbitrary: visited c)
  case 0
  show ?case by simp
next
  case (Suc n)
  obtain x xs where r: "r = x # xs" using assms by (cases r) auto
  show ?case
  proof (cases "map_of (tb_qn t) c")
    case (Some q)
    then show ?thesis by (simp add: r)
  next
    case None
    show ?thesis
    proof (cases "c \<in> set visited")
      case True
      with Suc.prems have "\<forall>x \<in> set visited. map_of (tb_qn t) x = None \<and>
          (\<exists>y \<in> set visited. next_name ms r x = Some y)" by (simp add: insert_absorb)
      from search_hops_cycle [OF this True] have "search_hops t ms r (Suc n) c = None" .
      moreover have "follow_hops t (Some ms) (Some r) (Suc n) visited c = None"
        using True None by (simp add: r)
      ultimately show ?thesis by simp
    next
      case False
      show ?thesis
      proof (cases "next_name ms r c")
        case None
        with False \<open>map_of (tb_qn t) c = None\<close> show ?thesis by (simp add: r)
      next
        case (Some d)
        have "follow_hops t (Some ms) (Some r) n (c # visited) d = search_hops t ms r n d"
          using Suc.prems None Some by (intro Suc.IH) auto
        with None False Some show ?thesis by (simp add: r)
      qed
    qed
  qed
qed

lemma search_hops_iff:
  "search_hops t ms reex n c = Some q \<longleftrightarrow>
     (\<exists>k < n. \<exists>d. hops ms reex k c = Some d \<and> map_of (tb_qn t) d = Some q \<and>
        (\<forall>j < k. \<forall>e. hops ms reex j c = Some e \<longrightarrow> map_of (tb_qn t) e = None))"
proof (induction n arbitrary: c)
  case 0
  show ?case by simp
next
  case (Suc n)
  show ?case
    by (cases "map_of (tb_qn t) c"; cases "next_name ms reex c")
      (auto simp: Suc.IH Ex_less_Suc2 All_less_Suc2 split: option.splits)
qed

text \<open>
  C11: Following re-exports finds the first indexed name among the candidate and the at most four
  names that the packages' own imports rewrite it to; that the source also remembers the names it
  has visited, to stop at import cycles, never changes the result.
\<close>

theorem reexports_first_indexed_hop:
  assumes "reex \<noteq> []"
  shows "follow_reexports c t (Some ms) (Some reex) = Some q \<longleftrightarrow>
     (\<exists>k \<le> 4. \<exists>d. hops ms reex k c = Some d \<and> map_of (tb_qn t) d = Some q \<and>
        (\<forall>j < k. \<forall>e. hops ms reex j c = Some e \<longrightarrow> map_of (tb_qn t) e = None))"
  using follow_hops_search [OF assms, of "[]" t c ms 5] search_hops_iff [of t ms reex 5 c q]
  by (simp add: follow_reexports_def reexport_max_hops_def less_Suc_eq_le numeral_eq_Suc)


text \<open>The sample package: \<open>p\<close> re-exports \<open>D\<close> from \<open>p.params\<close>.\<close>

definition tables_of :: "(string \<times> string) list \<Rightarrow> name_tables" where
  "tables_of ps = fold (\<lambda>(q, n). add_name q n) ps empty_tables"

definition sample_tables :: name_tables where
  "sample_tables = tables_of [(''p.params.D'', ''D''), (''p.app.App.get'', ''get'')]"

definition sample_reexports :: reexports where
  "sample_reexports = [(''p'', [(''D'', ''p.params.D'')])]"

theorem reexports_first_indexed_hop_witness:
  "follow_reexports ''p.D'' sample_tables (Some [''p'', ''p.params'']) (Some sample_reexports) =
     Some ''p.params.D''"
proof -
  have "hops [''p'', ''p.params''] sample_reexports 1 ''p.D'' = Some ''p.params.D''"
    "map_of (tb_qn sample_tables) ''p.params.D'' = Some ''p.params.D''"
    "map_of (tb_qn sample_tables) ''p.D'' = None" "sample_reexports \<noteq> []"
    by code_simp+
  then show ?thesis
    using reexports_first_indexed_hop [of sample_reexports "''p.D''" sample_tables
        "[''p'', ''p.params'']" "''p.params.D''"]
    by (metis One_nat_def hops.simps(1) less_one one_le_numeral option.inject)
qed

section \<open>Resolution\<close>

definition tables_wf :: "name_tables \<Rightarrow> bool" where
  "tables_wf t \<longleftrightarrow>
     (\<forall>k v. map_of (tb_qn t) k = Some v \<longrightarrow> v = k) \<and> (\<forall>n. set (names_of t n) \<subseteq> set (indexed t))"

lemma names_of_add:
  "names_of (add_name q n t) n' = (if n' = n then add_new q (names_of t n) else names_of t n')"
  by (simp add: names_of_def add_name_def update_conv')

lemma indexed_add [simp]: "set (indexed (add_name q n t)) = insert q (set (indexed t))"
  by (simp add: indexed_def add_name_def dom_update [symmetric] dom_map_of_conv_image_fst [symmetric]
      update_conv')

lemma tables_wf_add: "tables_wf t \<Longrightarrow> tables_wf (add_name q n t)"
  by (auto simp: tables_wf_def names_of_add) (auto simp: add_name_def update_conv' split: if_splits)

lemma tables_wf_empty: "tables_wf empty_tables"
  by (simp add: tables_wf_def empty_tables_def names_of_def)

lemma tables_of_facts:
  "tables_wf t \<Longrightarrow> tables_wf (fold (\<lambda>(q, n). add_name q n) ps t) \<and>
     set (indexed (fold (\<lambda>(q, n). add_name q n) ps t)) = fst ` set ps \<union> set (indexed t)"
  by (induction ps arbitrary: t) (force simp: tables_wf_add)+

lemma follow_hops_found:
  "follow_hops t mods reex n visited c = Some q \<Longrightarrow> \<exists>d. map_of (tb_qn t) d = Some q"
  by (induction t mods reex n visited c rule: follow_hops.induct)
    (auto split: option.splits list.splits if_splits)

lemma first_indexed_found:
  "first_indexed seen cs t mods reex = Some q \<Longrightarrow>
     \<exists>c \<in> set cs. follow_reexports c t mods reex = Some q"
  by (induction cs arbitrary: seen) (auto split: if_splits option.splits)

lemma indexed_lookup: "tables_wf t \<Longrightarrow> map_of (tb_qn t) d = Some q \<Longrightarrow> q \<in> set (indexed t)"
  using map_of_SomeD [of "tb_qn t" d q] by (force simp: tables_wf_def indexed_def)

lemma first_indexed_indexed:
  assumes "tables_wf t" "first_indexed seen cs t mods reex = Some q"
  shows "q \<in> set (indexed t)"
proof -
  obtain d where "map_of (tb_qn t) d = Some q"
    using first_indexed_found [OF assms(2)] follow_hops_found
    unfolding follow_reexports_def by blast
  from indexed_lookup [OF assms(1) this] show ?thesis .
qed

lemma visible_matches_indexed:
  "tables_wf t \<Longrightarrow> set (visible_matches r t callee) \<subseteq> set (indexed t)"
  by (fastforce simp: visible_matches_def tables_wf_def split: option.splits)


definition sample_reference :: reference where
  "sample_reference =
     \<lparr>rf_module = ''p.app'', rf_caller = ''p.app.App.run'', rf_bindings = Some [(''D'', ''p.D'')],
      rf_visible = Some [''p.app'', ''p''], rf_modules = Some [''p'', ''p.params'', ''p.app''],
      rf_classes = Some [''p.app.App''], rf_reexports = Some sample_reexports\<rparr>"



section \<open>Relative imports\<close>

text \<open>A path of names: each is non-empty and has no dot.\<close>

definition plain_path :: "string list \<Rightarrow> bool" where
  "plain_path ps = list_all (\<lambda>p. p \<noteq> [] \<and> CHR ''.'' \<notin> set p) ps"

lemma join_snoc: "ps \<noteq> [] \<Longrightarrow> join sep (ps @ [x]) = join sep ps @ sep @ x"
proof (induction ps)
  case (Cons p ps)
  then show ?case by (cases ps) auto
qed simp

lemma join_eq_Nil: "plain_path ps \<Longrightarrow> join ''.'' ps = [] \<longleftrightarrow> ps = []"
  by (cases ps rule: remdups_adj.cases) (auto simp: plain_path_def)

lemma parent_module_join: "plain_path ps \<Longrightarrow> parent_module (join ''.'' ps) = join ''.'' (butlast ps)"
proof (cases ps rule: rev_cases)
  case (snoc qs x)
  assume "plain_path ps"
  with snoc show ?thesis
    by (cases "qs = []") (auto simp: parent_module_def plain_path_def join_snoc rpartition_head_absent
        rpartition_head_found)
qed (simp add: parent_module_def rpartition_head_absent)

lemma plain_path_butlast: "plain_path ps \<Longrightarrow> plain_path (butlast ps)"
  by (auto simp: plain_path_def list_all_iff dest: in_set_butlastD)

lemma parent_modules_join:
  "plain_path ps \<Longrightarrow> (parent_module ^^ k) (join ''.'' ps) = join ''.'' (take (length ps - k) ps)"
proof (induction k arbitrary: ps)
  case 0
  show ?case by simp
next
  case (Suc k)
  have "(parent_module ^^ Suc k) (join ''.'' ps) = (parent_module ^^ k) (join ''.'' (butlast ps))"
    by (simp only: funpow_Suc_right comp_def parent_module_join [OF Suc.prems])
  also have "\<dots> = join ''.'' (take (length ps - Suc k) ps)"
    using Suc.IH [OF plain_path_butlast [OF Suc.prems]] by (simp add: butlast_conv_take min_def)
  finally show ?case .
qed

lemma leading_dots_ref:
  "\<not> starts_with rest ''.'' \<Longrightarrow> leading_dots (replicate level CHR ''.'' @ rest) = (level, rest)"
  by (induction level) (cases rest, auto simp: leading_dots_def)+

text \<open>
  Relative imports follow the import rule of the language as long as they stay inside the
  repository: from a module of the path \<open>ps\<close>, an import with \<open>level\<close> dots leaves as many levels
  as there are dots, one fewer when the file is a package, and appends the rest. An import that
  leaves more levels than there are is not rejected: it is read as the absolute name after the dots.
\<close>

theorem relative_imports_resolve:
  assumes "plain_path ps" "0 < level" "\<not> starts_with rest ''.''"
  shows "resolve_relative_module (replicate level CHR ''.'' @ rest) (join ''.'' ps) is_package =
    (let up = level - (if is_package then 1 else 0)
     in if up < length ps
        then join ''.'' (take (length ps - up) ps @ (if rest = [] then [] else [rest]))
        else rest)"
proof -
  let ?up = "level - (if is_package then 1 else 0)"
  have "(parent_module ^^ (level - 1))
          (if is_package then join ''.'' ps else parent_module (join ''.'' ps)) =
        join ''.'' (take (length ps - ?up) ps)"
  proof (cases is_package)
    case True
    then show ?thesis by (simp add: parent_modules_join [OF assms(1)])
  next
    case False
    have "(parent_module ^^ (level - 1)) (parent_module (join ''.'' ps)) =
        (parent_module ^^ level) (join ''.'' ps)"
      using assms(2) by (metis Suc_diff_1 comp_apply funpow_Suc_right)
    with False show ?thesis by (simp add: parent_modules_join [OF assms(1)])
  qed
  moreover have "plain_path (take (length ps - ?up) ps)"
    using assms(1) by (auto simp: plain_path_def list_all_iff dest: in_set_takeD)
  ultimately show ?thesis
    using assms(2) join_eq_Nil [of "take (length ps - ?up) ps"]
    by (auto simp: resolve_relative_module_def leading_dots_ref [OF assms(3)] Let_def join_snoc)
qed

theorem relative_imports_resolve_witness:
  "resolve_relative_module ''..util'' ''a.b.c'' False = ''a.util'' \<and>
   resolve_relative_module ''....util'' ''a.b'' True = ''util''"
  using relative_imports_resolve [of "[''a'', ''b'', ''c'']" 2 "''util''" False]
    relative_imports_resolve [of "[''a'', ''b'']" 4 "''util''" True]
  by (simp add: plain_path_def eval_nat_numeral)

section \<open>Bindings that differ from the language's\<close>

text \<open>
  An import that renames one of several names misbinds them. The parser keeps one alias for
  the whole statement, and the bindings give it to every name, the first one winning: after
  \<open>from m import a, b as c\<close> the indexer reads \<open>c\<close> as \<open>m.a\<close>, and \<open>a\<close> is not bound at all, so
  calls of \<open>c\<close> are linked to the wrong definition.
\<close>

theorem mixed_alias_misbinds:
  assumes "m \<noteq> []" "\<not> starts_with m ''.''" "c \<noteq> []"
  shows "bindings_from_imports modname is_package
           (collect_imports [ImportFrom (Some m) 0 [(a, None), (b, Some c)] ls] []) =
         [(c, m @ ''.'' @ a)]"
proof -
  obtain x xs where c: "c = x # xs" using assms(3) by (cases c) auto
  have "resolve_relative_module m modname is_package = m"
    using assms(1,2) by (cases m) (auto simp: resolve_relative_module_def leading_dots_def)
  with assms(1,2) show ?thesis
    by (simp add: bindings_from_imports_def bind_import_def from_module_def kept_alias_def
        bound_name_def under_def setdefault_def List.map_filter_def c)
qed

theorem mixed_alias_misbinds_witness:
  "bindings_from_imports ''p.app'' False
     (collect_imports [ImportFrom (Some ''os'') 0 [(''path'', None), (''sep'', Some ''s'')] (1, None)] [])
   = [(''s'', ''os.path'')]"
  using mixed_alias_misbinds [of "''os''" "''s''" "''p.app''" False "''path''" "''sep''" "(1, None)"]
  by simp

text \<open>
  \<open>import a.b as c\<close> binds the name \<open>a\<close> as well, which the language does not; and an import of a
  name from a module of the same name, \<open>from a import a\<close>, is read as the import of the module.
\<close>

theorem aliased_import_binds_head:
  "bindings_from_imports ''p'' False (collect_imports [Import [(''a.b'', Some ''c'')] ls] []) =
     [(''c'', ''a.b''), (''a'', ''a'')]"
  by code_simp

theorem same_named_import_misbinds:
  "bindings_from_imports ''p'' False
     (collect_imports [ImportFrom (Some ''a'') 0 [(''a'', None)] ls] []) = [(''a'', ''a'')]"
  by code_simp

end
