(* ===== verification/GraphStore.thy ===== *)
theory GraphStore
  imports Parser
begin

text \<open>
  The knowledge graph as the write statements of \<open>core/graph/upserts.py\<close> see it. A node is named
  by what its statement merges on, and holds its properties; an edge is named by its ends and its
  type. A row of a statement (\<open>UNWIND $rows\<close>) is one value of \<open>row\<close>, and \<open>apply_row\<close> is what the
  statement does for it: \<open>MATCH\<close> finds the ends or the row does nothing, \<open>MERGE\<close> creates what is
  missing, \<open>SET\<close> writes properties, \<open>DETACH DELETE\<close> removes nodes with their edges.
\<close>

named_theorems graph \<open>what the rows do to nodes and edges\<close>

section \<open>Nodes and edges\<close>

datatype code_label = Module_Label | Class_Label | Function_Label | Method_Label

datatype node_id =
    File_Node string
  | Code_Node code_label string
  | Parameter_Node string nat
  | Decorator_Node string
  | Import_Node string nat
  | Docstring_Node string
  | Meta_Node string

datatype rel_type =
    CONTAINS | IMPORTS | INHERITS_FROM | CALLS | DECORATED_BY | HAS_PARAMETER | DOCUMENTED_BY
  | DEPENDS_ON

type_synonym edge = "node_id \<times> rel_type \<times> node_id"

record graph =
  g_nodes :: "(node_id \<times> pydict) list"
  g_edges :: "edge list"

definition empty_graph :: graph where
  "empty_graph = \<lparr>g_nodes = [], g_edges = []\<rparr>"

definition node_at :: "graph \<Rightarrow> node_id \<Rightarrow> pydict option" where
  "node_at g i = map_of (g_nodes g) i"

definition has_node :: "graph \<Rightarrow> node_id \<Rightarrow> bool" where
  "has_node g i = (node_at g i \<noteq> None)"

text \<open>\<open>MERGE (n ...) SET n.k = v, ...\<close>; the key properties are part of \<open>kvs\<close>.\<close>

definition merge_node :: "node_id \<Rightarrow> pydict \<Rightarrow> graph \<Rightarrow> graph" where
  "merge_node i kvs g =
     g\<lparr>g_nodes := AList.update i (fold (\<lambda>(k, v). dset k v) kvs
                                  (case node_at g i of None \<Rightarrow> [] | Some p \<Rightarrow> p)) (g_nodes g)\<rparr>"

text \<open>\<open>MATCH\<close> of both ends, then \<open>MERGE (a)-[:r]->(b)\<close>.\<close>

definition merge_edge :: "node_id \<Rightarrow> rel_type \<Rightarrow> node_id \<Rightarrow> graph \<Rightarrow> graph" where
  "merge_edge a r b g =
     (if has_node g a \<and> has_node g b then g\<lparr>g_edges := add_new (a, r, b) (g_edges g)\<rparr> else g)"

definition merge_edges :: "node_id list \<Rightarrow> rel_type \<Rightarrow> node_id \<Rightarrow> graph \<Rightarrow> graph" where
  "merge_edges as r b g = fold (\<lambda>a. merge_edge a r b) as g"

text \<open>The node belongs to the file: its \<open>file_path\<close>, or its \<open>path\<close> if it is the file itself.\<close>

definition owned_by :: "string \<Rightarrow> node_id \<times> pydict \<Rightarrow> bool" where
  "owned_by path n =
     (case n of
        (Decorator_Node d, p) \<Rightarrow> False
      | (File_Node f, p) \<Rightarrow> dget p ''file_path'' = PyStr path \<or> dget p ''path'' = PyStr path
      | (i, p) \<Rightarrow> dget p ''file_path'' = PyStr path)"

definition detach_delete :: "string \<Rightarrow> graph \<Rightarrow> graph" where
  "detach_delete path g =
     (let gone = map fst (filter (owned_by path) (g_nodes g))
      in g\<lparr>g_nodes := filter (\<lambda>n. \<not> owned_by path n) (g_nodes g),
           g_edges := filter (\<lambda>(a, r, b). a \<notin> set gone \<and> b \<notin> set gone) (g_edges g)\<rparr>)"

section \<open>Rows\<close>

datatype row =
    File_Row string string
  | Code_Row code_label string string string int int "string list"
  | Contains_File_Row string string
  | Contains_Row code_label code_label string string
  | Parameter_Row string parsed_parameter string
  | Decorator_Row string string
  | Docstring_Row string parsed_docstring string
  | Import_Row string string nat parsed_import
  | Inherits_Row string string
  | Import_Depends_Row string nat string
  | Depends_Row string string
  | Calls_Row string string
  | Embedding_Row string "string list" string
  | Meta_Row string string string
  | Delete_Row string

definition opt_val :: "string option \<Rightarrow> pyval" where
  "opt_val s = (case s of None \<Rightarrow> PyNone | Some t \<Rightarrow> PyStr t)"

definition callable_nodes :: "string \<Rightarrow> node_id list" where
  "callable_nodes q = [Code_Node Function_Label q, Code_Node Method_Label q]"

definition entity_nodes :: "string \<Rightarrow> node_id list" where
  "entity_nodes q =
     [Code_Node Module_Label q, Code_Node Class_Label q, Code_Node Function_Label q,
      Code_Node Method_Label q]"

text \<open>The owner of an embedding, decorator or parameter: the labels its \<open>MATCH\<close> allows.\<close>

definition matched :: "graph \<Rightarrow> node_id list \<Rightarrow> node_id list" where
  "matched g ids = filter (has_node g) ids"

text \<open>
  The parents of a contained entity (\<open>_contains_cypher\<close>): the direct one if it exists, else every
  code node of that name.
\<close>

definition container :: "graph \<Rightarrow> code_label \<Rightarrow> string \<Rightarrow> node_id list" where
  "container g l q =
     (if has_node g (Code_Node l q) then [Code_Node l q] else matched g (entity_nodes q))"

text \<open>One definition per statement: what it does for one row.\<close>

definition upsert_files ::
    "string \<Rightarrow> string \<Rightarrow> graph \<Rightarrow> graph" where
  "upsert_files path h g =
     merge_node (File_Node path) [(''path'', PyStr path), (''content_hash'', PyStr h)] g"

definition upsert_code_nodes ::
    "code_label \<Rightarrow> string \<Rightarrow> string \<Rightarrow> string \<Rightarrow> int \<Rightarrow> int \<Rightarrow> string list \<Rightarrow> graph \<Rightarrow> graph" where
  "upsert_code_nodes l q name file start stop bases g =
     merge_node (Code_Node l q)
       ([(''qualified_name'', PyStr q), (''name'', PyStr name), (''file_path'', PyStr file),
         (''line_start'', PyInt start), (''line_end'', PyInt stop)]
        @ (if l = Class_Label then [(''bases'', PyList (map PyStr bases))] else [])) g"

definition upsert_contains ::
    "string \<Rightarrow> string \<Rightarrow> graph \<Rightarrow> graph" where
  "upsert_contains path q g =
     merge_edge (File_Node path) CONTAINS (Code_Node Module_Label q) g"

definition contains_cypher ::
    "code_label \<Rightarrow> code_label \<Rightarrow> string \<Rightarrow> string \<Rightarrow> graph \<Rightarrow> graph" where
  "contains_cypher parent child p c g =
     merge_edges (filter (\<lambda>i. i \<noteq> Code_Node child c) (container g parent p)) CONTAINS
       (Code_Node child c) g"

definition upsert_parameters ::
    "string \<Rightarrow> parsed_parameter \<Rightarrow> string \<Rightarrow> graph \<Rightarrow> graph" where
  "upsert_parameters owner p file g =
     (case matched g (callable_nodes owner) of
        [] \<Rightarrow> g
      | owners \<Rightarrow>
          merge_edges owners HAS_PARAMETER (Parameter_Node owner (pp_position p))
            (merge_node (Parameter_Node owner (pp_position p))
               [(''owner_qualified_name'', PyStr owner), (''position'', PyInt (int (pp_position p))),
                (''name'', PyStr (pp_name p)), (''annotation'', opt_val (pp_annotation p)),
                (''default'', opt_val (pp_default p)), (''file_path'', PyStr file)] g))"

definition upsert_decorators ::
    "string \<Rightarrow> string \<Rightarrow> graph \<Rightarrow> graph" where
  "upsert_decorators owner name g =
     (case matched g (callable_nodes owner @ [Code_Node Class_Label owner]) of
        [] \<Rightarrow> g
      | owners \<Rightarrow> merge_edges owners DECORATED_BY (Decorator_Node name)
                    (merge_node (Decorator_Node name) [(''name'', PyStr name)] g))"

definition upsert_docstrings ::
    "string \<Rightarrow> parsed_docstring \<Rightarrow> string \<Rightarrow> graph \<Rightarrow> graph" where
  "upsert_docstrings owner d file g =
     (case matched g (entity_nodes owner) of
        [] \<Rightarrow> g
      | owners \<Rightarrow>
          merge_edges owners DOCUMENTED_BY (Docstring_Node owner)
            (merge_node (Docstring_Node owner)
               [(''owner_qualified_name'', PyStr owner), (''text'', PyStr (pd_text d)),
                (''summary'', PyStr (pd_summary d)), (''file_path'', PyStr file)] g))"

definition upsert_imports ::
    "string \<Rightarrow> string \<Rightarrow> nat \<Rightarrow> parsed_import \<Rightarrow> graph \<Rightarrow> graph" where
  "upsert_imports owner file position i g =
     (if \<not> has_node g (Code_Node Module_Label owner) then g
      else merge_edge (Code_Node Module_Label owner) IMPORTS (Import_Node file position)
             (merge_node (Import_Node file position)
                [(''file_path'', PyStr file), (''position'', PyInt (int position)),
                 (''module'', PyStr (case pi_module i of None \<Rightarrow> '''' | Some m \<Rightarrow> m)),
                 (''names'', PyList (map PyStr (pi_names i))), (''alias'', opt_val (pi_alias i))] g))"

definition upsert_inherits ::
    "string \<Rightarrow> string \<Rightarrow> graph \<Rightarrow> graph" where
  "upsert_inherits child parent g =
     merge_edge (Code_Node Class_Label child) INHERITS_FROM (Code_Node Class_Label parent) g"

definition upsert_import_depends_on ::
    "string \<Rightarrow> nat \<Rightarrow> string \<Rightarrow> graph \<Rightarrow> graph" where
  "upsert_import_depends_on file position m g =
     merge_edge (Import_Node file position) DEPENDS_ON (Code_Node Module_Label m) g"

definition upsert_depends_on ::
    "string \<Rightarrow> string \<Rightarrow> graph \<Rightarrow> graph" where
  "upsert_depends_on a b g =
     merge_edge (Code_Node Module_Label a) DEPENDS_ON (Code_Node Module_Label b) g"

definition upsert_calls ::
    "string \<Rightarrow> string \<Rightarrow> graph \<Rightarrow> graph" where
  "upsert_calls caller callee g =
     fold (\<lambda>b. merge_edges (matched g (callable_nodes caller)) CALLS b)
       (matched g (callable_nodes callee)) g"

definition upsert_embeddings ::
    "string \<Rightarrow> string list \<Rightarrow> string \<Rightarrow> graph \<Rightarrow> graph" where
  "upsert_embeddings q vector text g =
     fold (\<lambda>i. merge_node i [(''embedding'', PyList (map PyFloat vector)),
                             (''embedding_text'', PyStr text)])
       (matched g (Code_Node Class_Label q # callable_nodes q)) g"

definition upsert_meta ::
    "string \<Rightarrow> string \<Rightarrow> string \<Rightarrow> graph \<Rightarrow> graph" where
  "upsert_meta key value updated g =
     merge_node (Meta_Node key) [(''key'', PyStr key), (''value'', PyStr value),
                                 (''updated_at'', PyStr updated)] g"

fun apply_row :: "row \<Rightarrow> graph \<Rightarrow> graph" where
  "apply_row (File_Row path h) g = upsert_files path h g"
| "apply_row (Code_Row l q name file start stop bases) g = upsert_code_nodes l q name file start stop bases g"
| "apply_row (Contains_File_Row path q) g = upsert_contains path q g"
| "apply_row (Contains_Row parent child p c) g = contains_cypher parent child p c g"
| "apply_row (Parameter_Row owner p file) g = upsert_parameters owner p file g"
| "apply_row (Decorator_Row owner name) g = upsert_decorators owner name g"
| "apply_row (Docstring_Row owner d file) g = upsert_docstrings owner d file g"
| "apply_row (Import_Row owner file position i) g = upsert_imports owner file position i g"
| "apply_row (Inherits_Row child parent) g = upsert_inherits child parent g"
| "apply_row (Import_Depends_Row file position m) g = upsert_import_depends_on file position m g"
| "apply_row (Depends_Row a b) g = upsert_depends_on a b g"
| "apply_row (Calls_Row caller callee) g = upsert_calls caller callee g"
| "apply_row (Embedding_Row q vector text) g = upsert_embeddings q vector text g"
| "apply_row (Meta_Row key value updated) g = upsert_meta key value updated g"
| "apply_row (Delete_Row path) g = detach_delete path g"

lemmas statement_defs [simp] =
  upsert_files_def upsert_code_nodes_def upsert_contains_def contains_cypher_def
  upsert_parameters_def upsert_decorators_def upsert_docstrings_def upsert_imports_def
  upsert_inherits_def upsert_import_depends_on_def upsert_depends_on_def upsert_calls_def
  upsert_embeddings_def upsert_meta_def

section \<open>Batches\<close>

definition write_batch_size :: nat where
  "write_batch_size = 500"

definition run_write_batch :: "row list \<Rightarrow> graph \<Rightarrow> graph" where
  "run_write_batch rows g = fold apply_row rows g"

text \<open>The transactions of a statement, and what is left when the run dies after \<open>k\<close> of them.\<close>

function transactions :: "row list \<Rightarrow> row list list" where
  "transactions rows =
     (if rows = [] then []
      else take write_batch_size rows # transactions (drop write_batch_size rows))"
  by pat_completeness auto
termination
  by (relation "measure length") (auto simp: write_batch_size_def)

declare transactions.simps [simp del]

definition run_interrupted :: "nat \<Rightarrow> row list list \<Rightarrow> graph \<Rightarrow> graph" where
  "run_interrupted k statements g =
     fold run_write_batch (take k (concat (map transactions statements))) g"

section \<open>Reads\<close>

definition file_hashes :: "graph \<Rightarrow> (string \<times> string) list" where
  "file_hashes g =
     fold (\<lambda>n hashes.
             case n of
               (File_Node f, p) \<Rightarrow>
                 (case (dget p ''path'', dget p ''content_hash'') of
                    (PyStr path, PyStr h) \<Rightarrow> dset path h hashes | _ \<Rightarrow> hashes)
             | _ \<Rightarrow> hashes) (g_nodes g) []"

definition code_names :: "code_label list \<Rightarrow> graph \<Rightarrow> (string \<times> string) list" where
  "code_names ls g =
     List.map_filter
       (\<lambda>n. case n of
              (Code_Node l q, p) \<Rightarrow>
                if l \<in> set ls
                then (case (dget p ''qualified_name'', dget p ''name'') of
                        (PyStr qn, PyStr name) \<Rightarrow> Some (qn, name) | _ \<Rightarrow> None)
                else None
            | _ \<Rightarrow> None) (g_nodes g)"


section \<open>Well-formed graphs\<close>

text \<open>
  Node keys are distinct, edges join existing nodes, and an edge's type fits the labels of its
  ends as the schema of \<open>core/graph/schema.py\<close> lists them.
\<close>

definition code_with :: "code_label list \<Rightarrow> node_id \<Rightarrow> bool" where
  "code_with ls i = (case i of Code_Node l q \<Rightarrow> l \<in> set ls | _ \<Rightarrow> False)"

definition rel_fits :: "edge \<Rightarrow> bool" where
  "rel_fits e =
     (case e of
        (a, r, b) \<Rightarrow>
          (case r of
             CONTAINS \<Rightarrow>
               (case a of
                  File_Node f \<Rightarrow> code_with [Module_Label] b
                | Code_Node l q \<Rightarrow> code_with [Class_Label, Function_Label, Method_Label] b
                | _ \<Rightarrow> False)
           | IMPORTS \<Rightarrow> code_with [Module_Label] a \<and> (case b of Import_Node f i \<Rightarrow> True | _ \<Rightarrow> False)
           | INHERITS_FROM \<Rightarrow> code_with [Class_Label] a \<and> code_with [Class_Label] b
           | CALLS \<Rightarrow> code_with [Function_Label, Method_Label] a \<and>
                      code_with [Function_Label, Method_Label] b
           | DECORATED_BY \<Rightarrow> code_with [Class_Label, Function_Label, Method_Label] a \<and>
                             (case b of Decorator_Node d \<Rightarrow> True | _ \<Rightarrow> False)
           | HAS_PARAMETER \<Rightarrow> code_with [Function_Label, Method_Label] a \<and>
                              (case b of Parameter_Node f i \<Rightarrow> True | _ \<Rightarrow> False)
           | DOCUMENTED_BY \<Rightarrow> (case a of Code_Node l q \<Rightarrow> True | _ \<Rightarrow> False) \<and>
                              (case b of Docstring_Node d \<Rightarrow> True | _ \<Rightarrow> False)
           | DEPENDS_ON \<Rightarrow> code_with [Module_Label] b \<and>
               (case a of Import_Node f i \<Rightarrow> True | Code_Node l q \<Rightarrow> l = Module_Label | _ \<Rightarrow> False)))"

lemma rel_fits_simps [simp]:
  "rel_fits (File_Node f, CONTAINS, Code_Node l q) \<longleftrightarrow> l = Module_Label"
  "rel_fits (Code_Node k p, CONTAINS, Code_Node l q) \<longleftrightarrow> l \<noteq> Module_Label"
  "rel_fits (Code_Node k p, IMPORTS, Import_Node f i) \<longleftrightarrow> k = Module_Label"
  "rel_fits (Code_Node k p, INHERITS_FROM, Code_Node l q) \<longleftrightarrow> k = Class_Label \<and> l = Class_Label"
  "rel_fits (Code_Node k p, CALLS, Code_Node l q) \<longleftrightarrow>
     k \<in> {Function_Label, Method_Label} \<and> l \<in> {Function_Label, Method_Label}"
  "rel_fits (Code_Node k p, DECORATED_BY, Decorator_Node d) \<longleftrightarrow> k \<noteq> Module_Label"
  "rel_fits (Code_Node k p, HAS_PARAMETER, Parameter_Node f i) \<longleftrightarrow>
     k \<in> {Function_Label, Method_Label}"
  "rel_fits (Code_Node k p, DOCUMENTED_BY, Docstring_Node d)"
  "rel_fits (Import_Node f i, DEPENDS_ON, Code_Node l q) \<longleftrightarrow> l = Module_Label"
  "rel_fits (Code_Node k p, DEPENDS_ON, Code_Node l q) \<longleftrightarrow> k = Module_Label \<and> l = Module_Label"
  by (cases l; cases k; simp add: rel_fits_def code_with_def)+

definition graph_wf :: "graph \<Rightarrow> bool" where
  "graph_wf g \<longleftrightarrow>
     distinct (map fst (g_nodes g)) \<and> distinct (g_edges g) \<and>
     (\<forall>(a, r, b) \<in> set (g_edges g). has_node g a \<and> has_node g b \<and> rel_fits (a, r, b))"

lemma node_at_merge_node [graph]:
  "node_at (merge_node i kvs g) j =
     (if j = i then Some (fold (\<lambda>(k, v). dset k v) kvs (case node_at g i of None \<Rightarrow> [] | Some p \<Rightarrow> p))
      else node_at g j)"
  by (simp add: merge_node_def node_at_def update_conv')

lemma edges_merge_node [graph]: "g_edges (merge_node i kvs g) = g_edges g"
  by (simp add: merge_node_def)

lemma has_node_merge_node [graph]: "has_node (merge_node i kvs g) j \<longleftrightarrow> j = i \<or> has_node g j"
  by (simp add: has_node_def node_at_merge_node)

lemma nodes_merge_edge [graph]: "g_nodes (merge_edge a r b g) = g_nodes g"
  by (simp add: merge_edge_def)

lemma has_node_merge_edge [graph]: "has_node (merge_edge a r b g) j \<longleftrightarrow> has_node g j"
  by (simp add: has_node_def node_at_def nodes_merge_edge)

lemma edges_merge_edge [graph]:
  "set (g_edges (merge_edge a r b g)) =
     (if has_node g a \<and> has_node g b then {(a, r, b)} else {}) \<union> set (g_edges g)"
  by (simp add: merge_edge_def)

lemma nodes_merge_edges [graph]: "g_nodes (merge_edges as r b g) = g_nodes g"
  by (induction as arbitrary: g) (simp_all add: merge_edges_def nodes_merge_edge)

lemma has_node_merge_edges [graph]: "has_node (merge_edges as r b g) j \<longleftrightarrow> has_node g j"
  by (simp add: has_node_def node_at_def nodes_merge_edges)

lemma edges_merge_edges [graph]:
  "set (g_edges (merge_edges as r b g)) =
     (if has_node g b then (\<lambda>a. (a, r, b)) ` set (matched g as) else {}) \<union> set (g_edges g)"
proof (induction as arbitrary: g)
  case Nil
  show ?case by (simp add: merge_edges_def matched_def)
next
  case (Cons a as)
  have "merge_edges (a # as) r b g = merge_edges as r b (merge_edge a r b g)"
    by (simp add: merge_edges_def)
  with Cons show ?case by (auto simp: graph matched_def)
qed

lemma distinct_keys_merge_node:
  "distinct (map fst (g_nodes g)) \<Longrightarrow> distinct (map fst (g_nodes (merge_node i kvs g)))"
  by (simp add: merge_node_def distinct_update)

lemma graph_wf_merge_node: "graph_wf g \<Longrightarrow> graph_wf (merge_node i kvs g)"
  by (fastforce simp: graph_wf_def edges_merge_node has_node_merge_node distinct_keys_merge_node)

lemma graph_wf_merge_edge: "graph_wf g \<Longrightarrow> rel_fits (a, r, b) \<Longrightarrow> graph_wf (merge_edge a r b g)"
  by (auto simp: graph_wf_def merge_edge_def has_node_def node_at_def)

lemma graph_wf_merge_edges:
  "graph_wf g \<Longrightarrow> \<forall>a \<in> set as. rel_fits (a, r, b) \<Longrightarrow> graph_wf (merge_edges as r b g)"
  by (induction as arbitrary: g) (simp_all add: merge_edges_def graph_wf_merge_edge)

lemma has_node_detach [graph]:
  "distinct (map fst (g_nodes g)) \<Longrightarrow> has_node (detach_delete path g) i \<longleftrightarrow>
     has_node g i \<and> i \<notin> set (map fst (filter (owned_by path) (g_nodes g)))"
  by (force simp: has_node_def node_at_def detach_delete_def Let_def map_of_eq_None_iff
      dest: eq_key_imp_eq_value)

lemma graph_wf_detach: "graph_wf g \<Longrightarrow> graph_wf (detach_delete path g)"
proof -
  assume g: "graph_wf g"
  then have "distinct (map fst (g_nodes g))" by (simp add: graph_wf_def)
  note has = has_node_detach [OF this, of path]
  from g show ?thesis
    unfolding graph_wf_def has
    by (auto simp: detach_delete_def Let_def distinct_map_filter)
qed

lemma graph_wf_fold:
  "graph_wf g \<Longrightarrow> (\<And>x g. x \<in> set xs \<Longrightarrow> graph_wf g \<Longrightarrow> graph_wf (f x g)) \<Longrightarrow> graph_wf (fold f xs g)"
  by (induction xs arbitrary: g) simp_all

lemma set_matched: "set (matched g ids) = {i \<in> set ids. has_node g i}"
  by (auto simp: matched_def)

lemma set_container: "set (container g l q) \<subseteq> insert (Code_Node l q) (set (entity_nodes q))"
  by (auto simp: container_def matched_def)

lemma graph_wf_apply_row:
  assumes "graph_wf g" "\<And>k l p c. r = Contains_Row k l p c \<Longrightarrow> l \<noteq> Module_Label"
  shows "graph_wf (apply_row r g)"
proof (cases r)
  case (Contains_Row k l p c)
  with assms set_container [of g k p] show ?thesis
    by (auto intro!: graph_wf_merge_edges simp: entity_nodes_def split: if_splits)
next
  case (Calls_Row a b)
  then show ?thesis using assms(1)
    by (auto intro!: graph_wf_fold graph_wf_merge_edges simp: set_matched callable_nodes_def)
next
  case (Embedding_Row q v t)
  then show ?thesis using assms(1) by (auto intro!: graph_wf_fold graph_wf_merge_node)
qed (use assms in \<open>auto intro!: graph_wf_merge_node graph_wf_merge_edge graph_wf_merge_edges
      graph_wf_detach simp: matched_def callable_nodes_def entity_nodes_def split: list.splits if_splits\<close>)


text \<open>A contained entity is a class or a callable, as in every row the indexer builds.\<close>

definition row_ok :: "row \<Rightarrow> bool" where
  "row_ok r = (case r of Contains_Row k l p c \<Rightarrow> l \<noteq> Module_Label | _ \<Rightarrow> True)"

lemma run_write_batch_Nil [simp]: "run_write_batch [] g = g"
  by (simp add: run_write_batch_def)

lemma run_write_batch_append: "run_write_batch (xs @ ys) g = run_write_batch ys (run_write_batch xs g)"
  by (simp add: run_write_batch_def)

lemma concat_transactions [simp]: "concat (transactions rows) = rows"
  by (induction rows rule: transactions.induct) (subst transactions.simps, simp)

lemma fold_run_write_batch: "fold run_write_batch bs g = run_write_batch (concat bs) g"
  by (induction bs arbitrary: g) (simp_all add: run_write_batch_append)

text \<open>
  C6: Every statement the indexer runs keeps the graph well formed, also when a run dies after any
  number of its transactions: keys stay unique, no edge dangles, and every edge joins node kinds
  its type is meant for.
\<close>

theorem graph_stays_well_formed:
  assumes "graph_wf g" "list_all row_ok (concat statements)"
  shows "graph_wf (run_interrupted k statements g)"
proof -
  let ?rows = "concat (take k (concat (map transactions statements)))"
  have "set ?rows \<subseteq> set (concat (concat (map transactions statements)))"
    using set_take_subset by fastforce
  also have "concat (concat (map transactions statements)) = concat statements"
    by (induction statements) simp_all
  finally have ok: "\<forall>r \<in> set ?rows. row_ok r" using assms(2) by (auto simp: list_all_iff)
  have "graph_wf (fold apply_row ?rows g)"
  proof (rule graph_wf_fold [OF assms(1)])
    fix r g assume "r \<in> set ?rows" "graph_wf g"
    with ok have "row_ok r" by blast
    with \<open>graph_wf g\<close> show "graph_wf (apply_row r g)"
      by (intro graph_wf_apply_row) (simp_all add: row_ok_def)
  qed
  then show ?thesis by (simp add: run_interrupted_def fold_run_write_batch run_write_batch_def)
qed

definition sample_rows :: "row list list" where
  "sample_rows =
     [[File_Row ''a.py'' ''h1''], [Code_Row Module_Label ''a'' ''a'' ''a.py'' 1 1 []],
      [Code_Row Function_Label ''a.f'' ''f'' ''a.py'' 2 3 []],
      [Contains_File_Row ''a.py'' ''a''], [Contains_Row Module_Label Function_Label ''a'' ''a.f'']]"

theorem graph_stays_well_formed_witness:
  "graph_wf (run_interrupted 4 sample_rows empty_graph) \<and>
   map fst (g_nodes (run_interrupted 2 sample_rows empty_graph)) =
     [File_Node ''a.py'', Code_Node Module_Label ''a'']"
proof
  have "graph_wf empty_graph" by (simp add: graph_wf_def empty_graph_def)
  moreover have "list_all row_ok (concat sample_rows)" by (simp add: sample_rows_def row_ok_def)
  ultimately show "graph_wf (run_interrupted 4 sample_rows empty_graph)"
    by (rule graph_stays_well_formed)
  show "map fst (g_nodes (run_interrupted 2 sample_rows empty_graph)) =
     [File_Node ''a.py'', Code_Node Module_Label ''a'']"
    by code_simp
qed

section \<open>Deletion\<close>

lemma map_of_filter_owned:
  "distinct (map fst ns) \<Longrightarrow> map_of (filter (\<lambda>n. \<not> owned_by path n) ns) i =
     (case map_of ns i of Some p \<Rightarrow> if owned_by path (i, p) then None else Some p | None \<Rightarrow> None)"
  by (induction ns) (auto simp: map_of_eq_None_iff split: option.splits)

lemma node_at_detach [graph]:
  "distinct (map fst (g_nodes g)) \<Longrightarrow> node_at (detach_delete path g) i =
     (case node_at g i of Some p \<Rightarrow> if owned_by path (i, p) then None else Some p | None \<Rightarrow> None)"
  by (simp add: node_at_def detach_delete_def Let_def map_of_filter_owned)

text \<open>
  Purging a file removes exactly what it owns: no node with its path is left and no edge
  touches a removed node, every other node keeps its properties, and every edge between two nodes
  that are left is kept.
\<close>

theorem purge_removes_exactly_the_file:
  assumes "graph_wf g"
  shows "list_all (\<lambda>n. \<not> owned_by path n) (g_nodes (apply_row (Delete_Row path) g)) \<and>
    node_at (apply_row (Delete_Row path) g) i =
      (case node_at g i of Some p \<Rightarrow> if owned_by path (i, p) then None else Some p | None \<Rightarrow> None) \<and>
    set (g_edges (apply_row (Delete_Row path) g)) =
      {(a, r, b). (a, r, b) \<in> set (g_edges g) \<and> has_node (apply_row (Delete_Row path) g) a \<and>
                  has_node (apply_row (Delete_Row path) g) b}"
proof -
  have d: "distinct (map fst (g_nodes g))" using assms by (simp add: graph_wf_def)
  note node_at_detach [OF d, of path i]
  moreover have "set (g_edges (detach_delete path g)) =
      {(a, r, b). (a, r, b) \<in> set (g_edges g) \<and> has_node (detach_delete path g) a \<and>
                  has_node (detach_delete path g) b}"
    using assms unfolding has_node_detach [OF d] graph_wf_def
    by (auto simp: detach_delete_def Let_def)
  ultimately show ?thesis by (simp add: list_all_iff) (simp add: detach_delete_def Let_def)
qed

definition sample_graph :: graph where
  "sample_graph = fold run_write_batch sample_rows empty_graph"

theorem purge_removes_exactly_the_file_witness:
  "g_edges (apply_row (Delete_Row ''a.py'') sample_graph) = [] \<and>
   node_at (apply_row (Delete_Row ''a.py'') sample_graph) (File_Node ''a.py'') = None"
proof -
  have "sample_graph = run_interrupted 5 sample_rows empty_graph" by code_simp
  then have wf: "graph_wf sample_graph"
    using graph_stays_well_formed [of empty_graph sample_rows 5]
    by (simp add: graph_wf_def empty_graph_def sample_rows_def row_ok_def)
  have "node_at sample_graph (File_Node ''a.py'') =
      Some [(''path'', PyStr ''a.py''), (''content_hash'', PyStr ''h1'')]"
    "owned_by ''a.py'' (File_Node ''a.py'', [(''path'', PyStr ''a.py''), (''content_hash'', PyStr ''h1'')])"
    "g_edges (apply_row (Delete_Row ''a.py'') sample_graph) = []"
    by code_simp+
  with purge_removes_exactly_the_file [OF wf, of "''a.py''" "File_Node ''a.py''"] show ?thesis
    by simp
qed

section \<open>Idempotence\<close>

lemma fold_dset_dget: "distinct (map fst kvs) \<Longrightarrow>
    map_of (fold (\<lambda>(k, v). dset k v) kvs p) = map_of p ++ map_of kvs"
  by (induction kvs arbitrary: p)
    (auto simp: update_conv' map_add_def fun_eq_iff map_of_eq_None_iff [symmetric]
      split: option.splits)

lemma update_same: "map_of m k = Some v \<Longrightarrow> AList.update k v m = m"
  by (induction m) auto

lemma fold_dset_idem:
  "\<forall>(k, v) \<in> set kvs. map_of p k = Some v \<Longrightarrow> fold (\<lambda>(k, v). dset k v) kvs p = p"
  by (induction kvs) (auto simp: update_same)

lemma merge_node_idem:
  assumes "distinct (map fst kvs)"
  shows "merge_node i kvs (merge_node i kvs g) = merge_node i kvs g"
proof -
  let ?p = "case node_at g i of None \<Rightarrow> [] | Some p \<Rightarrow> p"
  let ?q = "fold (\<lambda>(k, v). dset k v) kvs ?p"
  have "fold (\<lambda>(k, v). dset k v) kvs ?q = ?q"
    using assms by (intro fold_dset_idem) (auto simp: fold_dset_dget map_add_def)
  then show ?thesis
    by (simp add: merge_node_def node_at_def update_conv' update_same)
qed

lemma merge_edges_same:
  "set (g_edges (merge_edges as r b g)) \<subseteq> set (g_edges g) \<Longrightarrow> merge_edges as r b g = g"
proof (induction as arbitrary: g)
  case Nil
  show ?case by (simp add: merge_edges_def)
next
  case (Cons a as)
  have step: "merge_edges (a # as) r b g = merge_edges as r b (merge_edge a r b g)"
    by (simp add: merge_edges_def)
  have "set (g_edges (merge_edge a r b g)) \<subseteq> set (g_edges g)"
    using Cons.prems unfolding step edges_merge_edges by blast
  then have "merge_edge a r b g = g" by (auto simp: merge_edge_def add_new_def split: if_splits)
  with Cons step show ?case by simp
qed

end
