(* ===== verification/IndexPass.thy ===== *)
theory IndexPass
  imports NameResolution GraphStore "HOL-Library.List_Lexorder" "HOL-Library.Char_ord"
begin

text \<open>
  One pass of the indexer (\<open>core/indexing/indexer.py\<close>): which files are new, changed, unchanged
  or gone, the rows that store the parsed ones, the links between them, the embeddings and the
  index version. The files on disk, with what the parser makes of them, the embedding backend, the
  digest and the clock are arguments. Times and logging are left out of the report.
\<close>

section \<open>Rows of the structure\<close>

definition last_part :: "string \<Rightarrow> string" where
  "last_part q = rev (fst (partition_at CHR ''.'' (rev q)))"

definition module_short_name :: "parsed_file \<Rightarrow> string" where
  "module_short_name f = (if fl_module f \<noteq> [] then last_part (fl_module f) else fl_path f)"

definition or_else :: "string \<Rightarrow> string \<Rightarrow> string" where
  "or_else s d = (if s \<noteq> [] then s else d)"

text \<open>\<open>q.rsplit(".", 1)[0]\<close>\<close>

definition before_last_dot :: "string \<Rightarrow> string" where
  "before_last_dot q = (if CHR ''.'' \<in> set q then rpartition_head CHR ''.'' q else q)"

definition docstring_rows :: "string \<Rightarrow> parsed_docstring option \<Rightarrow> string \<Rightarrow> row list" where
  "docstring_rows owner d file = (case d of None \<Rightarrow> [] | Some x \<Rightarrow> [Docstring_Row owner x file])"

definition file_docstrings :: "parsed_file \<Rightarrow> row list" where
  "file_docstrings f =
     docstring_rows (fl_module f) (fl_docstring f) (fl_path f)
     @ concat (map (\<lambda>c. docstring_rows (pc_qualified_name c) (pc_docstring c) (fl_path f)) (fl_classes f))
     @ concat (map (\<lambda>c. docstring_rows (pf_qualified_name c) (pf_docstring c) (fl_path f))
                 (fl_functions f @ fl_methods f))"

definition file_decorators :: "parsed_file \<Rightarrow> row list" where
  "file_decorators f =
     concat (map (\<lambda>c. map (Decorator_Row (pc_qualified_name c)) (pc_decorators c)) (fl_classes f))
     @ concat (map (\<lambda>c. map (Decorator_Row (pf_qualified_name c)) (pf_decorators c))
                 (fl_functions f @ fl_methods f))"

definition callable_row :: "code_label \<Rightarrow> string \<Rightarrow> parsed_callable \<Rightarrow> row" where
  "callable_row l file c =
     Code_Row l (pf_qualified_name c) (pf_name c) file (pf_line_start c) (pf_line_end c) []"

definition class_row :: "string \<Rightarrow> parsed_class \<Rightarrow> row" where
  "class_row file c =
     Code_Row Class_Label (pc_qualified_name c) (pc_name c) file (pc_line_start c) (pc_line_end c)
       (pc_bases c)"

definition module_row :: "parsed_file \<Rightarrow> row" where
  "module_row f =
     Code_Row Module_Label (fl_module f) (module_short_name f) (fl_path f) (fl_line_start f)
       (fl_line_end f) []"

definition import_rows :: "parsed_file \<Rightarrow> row list" where
  "import_rows f =
     map (\<lambda>(i, imp). Import_Row (fl_module f) (fl_path f) i
            (imp\<lparr>pi_module := Some (case pi_module imp of None \<Rightarrow> '''' | Some m \<Rightarrow> m)\<rparr>))
       (List.enumerate 0 (fl_imports f))"

text \<open>The node statements, then the statements whose rows are counted as relationships.\<close>

definition node_statements :: "parsed_file list \<Rightarrow> row list list" where
  "node_statements fs =
     [map (\<lambda>f. File_Row (fl_path f) (fl_hash f)) fs,
      map module_row fs,
      concat (map (\<lambda>f. map (class_row (fl_path f)) (fl_classes f)) fs),
      concat (map (\<lambda>f. map (callable_row Function_Label (fl_path f)) (fl_functions f)) fs),
      concat (map (\<lambda>f. map (callable_row Method_Label (fl_path f)) (fl_methods f)) fs)]"

definition structure_statements :: "parsed_file list \<Rightarrow> row list list" where
  "structure_statements fs =
     [map (\<lambda>f. Contains_File_Row (fl_path f) (fl_module f)) fs,
      concat (map (\<lambda>f. map (\<lambda>c. Contains_Row Module_Label Class_Label
                                  (or_else (pc_parent c) (fl_module f)) (pc_qualified_name c))
                           (fl_classes f)) fs),
      concat (map (\<lambda>f. map (\<lambda>c. Contains_Row Module_Label Function_Label
                                  (or_else (pf_parent c) (fl_module f)) (pf_qualified_name c))
                           (fl_functions f)) fs),
      concat (map (\<lambda>f. map (\<lambda>c. Contains_Row Class_Label Method_Label
                                  (or_else (pf_parent c) (before_last_dot (pf_qualified_name c)))
                                  (pf_qualified_name c))
                           (fl_methods f)) fs),
      concat (map (\<lambda>f. concat (map (\<lambda>c. map (\<lambda>p. Parameter_Row (pf_qualified_name c) p (fl_path f))
                                          (pf_parameters c)) (fl_functions f @ fl_methods f))) fs),
      concat (map file_decorators fs),
      concat (map file_docstrings fs),
      concat (map import_rows fs)]"

section \<open>Tables\<close>

definition add_names :: "(string \<times> string) list \<Rightarrow> name_tables \<Rightarrow> name_tables" where
  "add_names ps t = fold (\<lambda>(q, n). add_name q n) ps t"

definition callable_names :: "parsed_file list \<Rightarrow> (string \<times> string) list" where
  "callable_names fs =
     concat (map (\<lambda>f. map (\<lambda>c. (pf_qualified_name c, pf_name c)) (fl_functions f @ fl_methods f)) fs)"

definition class_names :: "parsed_file list \<Rightarrow> (string \<times> string) list" where
  "class_names fs =
     concat (map (\<lambda>f. map (\<lambda>c. (pc_qualified_name c, pc_name c)) (fl_classes f)) fs)"

definition module_names :: "parsed_file list \<Rightarrow> (string \<times> string) list" where
  "module_names fs = map (\<lambda>f. (fl_module f, module_short_name f)) fs"

definition callable_table :: "parsed_file list \<Rightarrow> graph \<Rightarrow> name_tables" where
  "callable_table fs g =
     add_names (code_names [Function_Label, Method_Label] g) (add_names (callable_names fs) empty_tables)"

definition class_table :: "parsed_file list \<Rightarrow> graph \<Rightarrow> name_tables" where
  "class_table fs g =
     add_names (code_names [Class_Label] g) (add_names (class_names fs) empty_tables)"

definition module_table :: "parsed_file list \<Rightarrow> graph \<Rightarrow> name_tables" where
  "module_table fs g =
     add_names (code_names [Module_Label] g) (add_names (module_names fs) empty_tables)"

text \<open>\<open>load_module_bindings\<close>: the import nodes of every module, in the order of their positions.\<close>

definition as_opt_str :: "pyval \<Rightarrow> string option" where
  "as_opt_str v =
     (case v of PyNone \<Rightarrow> None | _ \<Rightarrow> (let t = py_str v in if t = [] then None else Some t))"

definition stored_import :: "pydict \<Rightarrow> parsed_import" where
  "stored_import p =
     \<lparr>pi_module = as_opt_str (dget p ''module''),
      pi_names = (case dget p ''names'' of PyList vs \<Rightarrow> map py_str vs | _ \<Rightarrow> []),
      pi_alias = as_opt_str (dget p ''alias'')\<rparr>"

definition module_imports :: "graph \<Rightarrow> string \<Rightarrow> parsed_import list" where
  "module_imports g m =
     map (\<lambda>(i, p). stored_import p)
       (sort_key fst
         (List.map_filter
            (\<lambda>(a, r, b). case b of
               Import_Node f i \<Rightarrow>
                 if a = Code_Node Module_Label m \<and> r = IMPORTS
                 then map_option (\<lambda>p. (i, p)) (node_at g b) else None
             | _ \<Rightarrow> None) (g_edges g)))"

definition importing_modules :: "graph \<Rightarrow> (string \<times> bool) list" where
  "importing_modules g =
     List.map_filter
       (\<lambda>n. case n of
              (Code_Node l q, p) \<Rightarrow>
                if l = Module_Label \<and> q \<noteq> [] \<and> module_imports g q \<noteq> []
                then Some (q, case dget p ''file_path'' of
                                PyStr f \<Rightarrow> ends_with f ''__init__.py'' | _ \<Rightarrow> False)
                else None
            | _ \<Rightarrow> None) (g_nodes g)"

definition load_module_bindings :: "graph \<Rightarrow> reexports" where
  "load_module_bindings g =
     map (\<lambda>(m, pkg). (m, bindings_from_imports m pkg (module_imports g m))) (importing_modules g)"

section \<open>Links\<close>

definition is_package_file :: "parsed_file \<Rightarrow> bool" where
  "is_package_file f = ends_with (fl_path f) ''__init__.py''"

definition file_bindings :: "parsed_file \<Rightarrow> (string \<times> string) list" where
  "file_bindings f = bindings_from_imports (fl_module f) (is_package_file f) (fl_imports f)"

definition all_bindings :: "parsed_file list \<Rightarrow> graph \<Rightarrow> reexports" where
  "all_bindings fs g =
     fold (\<lambda>f m. if fl_module f \<noteq> [] then dset (fl_module f) (file_bindings f) m else m) fs
       (load_module_bindings g)"

text \<open>The imports of a file that name an indexed module, with their positions.\<close>

definition resolved_imports :: "string list \<Rightarrow> parsed_file \<Rightarrow> (nat \<times> string) list" where
  "resolved_imports mods f =
     List.map_filter
       (\<lambda>(i, imp). case pi_module imp of
           Some (c # cs) \<Rightarrow>
             (let target = resolve_relative_module (c # cs) (fl_module f) (is_package_file f)
              in if target \<noteq> [] \<and> target \<in> set mods then Some (i, target) else None)
         | _ \<Rightarrow> None)
       (List.enumerate 0 (fl_imports f))"

definition visible_modules :: "string list \<Rightarrow> parsed_file \<Rightarrow> string list" where
  "visible_modules mods f =
     add_all_new (if fl_module f \<noteq> [] then [fl_module f] else []) (map snd (resolved_imports mods f))"

definition other_imports :: "string list \<Rightarrow> parsed_file \<Rightarrow> (nat \<times> string) list" where
  "other_imports mods f = filter (\<lambda>x. snd x \<noteq> fl_module f) (resolved_imports mods f)"

definition reference_in ::
    "string list \<Rightarrow> string list \<Rightarrow> reexports \<Rightarrow> parsed_file \<Rightarrow> string \<Rightarrow> reference" where
  "reference_in mods classes reex f caller =
     \<lparr>rf_module = fl_module f, rf_caller = caller, rf_bindings = Some (file_bindings f),
      rf_visible = Some (visible_modules mods f), rf_modules = Some mods,
      rf_classes = Some classes, rf_reexports = Some reex\<rparr>"

definition inherits_rows :: "string list \<Rightarrow> name_tables \<Rightarrow> reexports \<Rightarrow> parsed_file \<Rightarrow> row list" where
  "inherits_rows mods ct reex f =
     concat (map (\<lambda>c.
       List.map_filter (\<lambda>base.
         case resolve_name (reference_in mods (indexed ct) reex f (pc_qualified_name c)) ct base of
           Some (p # ps) \<Rightarrow>
             if p # ps \<noteq> pc_qualified_name c then Some (Inherits_Row (pc_qualified_name c) (p # ps))
             else None
         | _ \<Rightarrow> None) (pc_bases c)) (fl_classes f))"

definition resolved_call ::
    "string list \<Rightarrow> string list \<Rightarrow> name_tables \<Rightarrow> reexports \<Rightarrow> parsed_file \<Rightarrow> parsed_call
      \<Rightarrow> string option" where
  "resolved_call mods classes t reex f call =
     resolve_name (reference_in mods classes reex f (fst call)) t (snd call)"

definition call_rows ::
    "string list \<Rightarrow> string list \<Rightarrow> name_tables \<Rightarrow> reexports \<Rightarrow> parsed_file \<Rightarrow> row list" where
  "call_rows mods classes t reex f =
     List.map_filter
       (\<lambda>call. map_option (Calls_Row (fst call)) (resolved_call mods classes t reex f call))
       (fl_calls f)"

definition unresolved_in ::
    "string list \<Rightarrow> string list \<Rightarrow> name_tables \<Rightarrow> reexports \<Rightarrow> parsed_file \<Rightarrow> nat" where
  "unresolved_in mods classes t reex f =
     length (filter (\<lambda>call. resolved_call mods classes t reex f call = None) (fl_calls f))"

definition link_statements :: "parsed_file list \<Rightarrow> graph \<Rightarrow> row list list" where
  "link_statements fs g =
     (let mods = indexed (module_table fs g); ct = class_table fs g; reex = all_bindings fs g
      in [concat (map (inherits_rows mods ct reex) fs),
          concat (map (\<lambda>f. map (\<lambda>(i, m). Import_Depends_Row (fl_path f) i m) (other_imports mods f)) fs),
          concat (map (\<lambda>f. map (\<lambda>(i, m). Depends_Row (fl_module f) m) (other_imports mods f)) fs),
          concat (map (call_rows mods (indexed ct) (callable_table fs g) reex) fs)])"

definition unresolved_calls :: "parsed_file list \<Rightarrow> graph \<Rightarrow> nat" where
  "unresolved_calls fs g =
     sum_list (map (unresolved_in (indexed (module_table fs g)) (indexed (class_table fs g))
                      (callable_table fs g) (all_bindings fs g)) fs)"


section \<open>Embeddings\<close>

text \<open>
  The backend: the vectors of a list of texts, a number being carried by its \<open>repr\<close>, or an error;
  and the name of its vector space, if it declares one.
\<close>

record embedding_backend =
  embed :: "string list \<Rightarrow> string list list result"
  fingerprint :: "string option"

definition build_embedding_text ::
    "string \<Rightarrow> string \<Rightarrow> string \<Rightarrow> string \<Rightarrow> string list \<Rightarrow> string" where
  "build_embedding_text qualified name docstring summary params =
     (let ps = filter (\<lambda>p. p \<noteq> []) params; entity = or_else qualified name;
          sig = (if ps \<noteq> [] then entity @ ''('' @ join '', '' ps @ '')'' else entity)
      in strip (join newline
           (filter (\<lambda>p. p \<noteq> []) [sig, name, strip docstring, strip summary])))"

definition doc_text :: "parsed_docstring option \<Rightarrow> string" where
  "doc_text d = (case d of None \<Rightarrow> '''' | Some x \<Rightarrow> pd_text x)"

definition class_embedding_text :: "parsed_class \<Rightarrow> string" where
  "class_embedding_text c =
     build_embedding_text (pc_qualified_name c) (pc_name c) (doc_text (pc_docstring c))
       (pc_source_summary c) []"

definition callable_embedding_text :: "parsed_callable \<Rightarrow> string" where
  "callable_embedding_text c =
     build_embedding_text (pf_qualified_name c) (pf_name c) (doc_text (pf_docstring c))
       (pf_source_summary c) (map pp_name (pf_parameters c))"

definition embedding_documents :: "parsed_file list \<Rightarrow> (string \<times> string) list" where
  "embedding_documents fs =
     concat (map (\<lambda>f.
       map (\<lambda>c. (pc_qualified_name c, class_embedding_text c)) (fl_classes f)
       @ map (\<lambda>c. (pf_qualified_name c, callable_embedding_text c)) (fl_functions f @ fl_methods f)) fs)"

text \<open>The rows of a chunk; none when the backend returns another number of vectors.\<close>

definition embedding_records ::
    "embedding_backend \<Rightarrow> (string \<times> string) list \<Rightarrow> row list result" where
  "embedding_records be docs =
     (case embed be (map snd docs) of
        Inl e \<Rightarrow> Inl e
      | Inr vectors \<Rightarrow>
          if length vectors \<noteq> length docs then Inr []
          else Inr (map (\<lambda>((q, text), v). Embedding_Row q v (take 4000 text)) (zip docs vectors)))"

definition embedding_chunk_size :: nat where
  "embedding_chunk_size = 500"

function write_chunks ::
    "embedding_backend \<Rightarrow> (string \<times> string) list \<Rightarrow> nat \<Rightarrow> graph \<Rightarrow> nat \<times> graph" where
  "write_chunks be docs written g =
     (if docs = [] then (written, g)
      else (case embedding_records be (take embedding_chunk_size docs) of
              Inl e \<Rightarrow> (written, g)
            | Inr rows \<Rightarrow>
                write_chunks be (drop embedding_chunk_size docs) (written + length rows)
                  (run_write_batch rows g)))"
  by pat_completeness auto
termination
  by (relation "measure (\<lambda>(be, docs, written, g). length docs)") (auto simp: embedding_chunk_size_def)

declare write_chunks.simps [simp del]

definition write_embeddings ::
    "embedding_backend \<Rightarrow> string \<Rightarrow> parsed_file list \<Rightarrow> graph \<Rightarrow> graph" where
  "write_embeddings be now fs g =
     (case write_chunks be (embedding_documents fs) 0 g of
        (written, g') \<Rightarrow>
          (case fingerprint be of
             Some (c # cs) \<Rightarrow>
               if 0 < written
               then run_write_batch [Meta_Row ''embedding_fingerprint'' (c # cs) now] g' else g'
           | _ \<Rightarrow> g'))"

section \<open>The pass\<close>

definition statements_rows :: "row list list \<Rightarrow> nat" where
  "statements_rows ss = sum_list (map length ss)"

definition upsert_parsed_files ::
    "embedding_backend \<Rightarrow> string \<Rightarrow> parsed_file list \<Rightarrow> graph \<Rightarrow> (nat \<times> nat \<times> nat) \<times> graph" where
  "upsert_parsed_files be now fs g =
     (let nodes = node_statements fs; structure = structure_statements fs;
          g1 = fold run_write_batch (nodes @ structure) g;
          links = link_statements fs g1;
          g2 = fold run_write_batch links g1;
          written = length (concat nodes)
            + length (structure ! 4)
            + length (remdups (List.map_filter (\<lambda>r. case r of Decorator_Row q n \<Rightarrow> Some n | _ \<Rightarrow> None)
                                 (structure ! 5)))
            + length (structure ! 7) + length (structure ! 6)
      in ((written, statements_rows (structure @ links), unresolved_calls fs g1),
          write_embeddings be now fs g2))"

datatype index_mode_name = Full_Pass | Incremental_Pass

text \<open>A file on disk: its path below the root, the hash of its bytes, and what parsing it gives.\<close>

type_synonym disk_file = "string \<times> string \<times> parsed_file"

record pass_plan =
  pn_upsert :: "parsed_file list"
  pn_changed :: "string list"
  pn_errors :: "(string \<times> string) list"
  pn_skipped :: nat

definition empty_plan :: pass_plan where
  "empty_plan = \<lparr>pn_upsert = [], pn_changed = [], pn_errors = [], pn_skipped = 0\<rparr>"

definition plan_file ::
    "index_mode_name \<Rightarrow> (string \<times> string) list \<Rightarrow> disk_file \<Rightarrow> pass_plan \<Rightarrow> pass_plan" where
  "plan_file mode existing d n =
     (case d of
        (rel, h, parsed) \<Rightarrow>
          if mode \<noteq> Full_Pass \<and> map_of existing rel = Some h
          then n\<lparr>pn_skipped := pn_skipped n + 1\<rparr>
          else (case fl_error parsed of
                  Some (c # cs) \<Rightarrow> n\<lparr>pn_errors := pn_errors n @ [(rel, c # cs)]\<rparr>
                | _ \<Rightarrow>
                    (let n = (if map_of existing rel \<noteq> None
                              then n\<lparr>pn_changed := pn_changed n @ [rel]\<rparr> else n)
                     in n\<lparr>pn_upsert := pn_upsert n @ [parsed]\<rparr>)))"

definition plan_pass ::
    "index_mode_name \<Rightarrow> (string \<times> string) list \<Rightarrow> disk_file list \<Rightarrow> pass_plan" where
  "plan_pass mode existing disk = fold (plan_file mode existing) disk empty_plan"

definition stale_paths :: "(string \<times> string) list \<Rightarrow> disk_file list \<Rightarrow> string list" where
  "stale_paths existing disk = filter (\<lambda>p. p \<notin> set (map fst disk)) (map fst existing)"

definition index_version_text :: "(string \<times> string) list \<Rightarrow> string" where
  "index_version_text hashes =
     concat (map (\<lambda>(path, h). path @ [CHR 0x00] @ h @ newline) (sort_key fst hashes))"

definition update_index_version :: "(string \<Rightarrow> string) \<Rightarrow> string \<Rightarrow> graph \<Rightarrow> graph" where
  "update_index_version digest now g =
     run_write_batch [Meta_Row ''index_version'' (digest (index_version_text (file_hashes g))) now] g"

record index_report =
  ir_seen :: nat
  ir_indexed :: nat
  ir_skipped :: nat
  ir_purged :: nat
  ir_nodes :: nat
  ir_rels :: nat
  ir_errors :: "(string \<times> string) list"
  ir_unresolved :: nat

record index_env =
  ie_backend :: embedding_backend
  ie_digest :: "string \<Rightarrow> string"
  ie_now :: string

definition delete_files :: "string list \<Rightarrow> graph \<Rightarrow> graph" where
  "delete_files paths g = run_write_batch (map Delete_Row paths) g"

definition index_repository ::
    "index_env \<Rightarrow> index_mode_name \<Rightarrow> disk_file list \<Rightarrow> graph \<Rightarrow> index_report \<times> graph" where
  "index_repository env mode disk g =
     (let existing = file_hashes g;
          n = plan_pass mode existing disk;
          stale = stale_paths existing disk;
          g1 = delete_files stale g;
          r = (if pn_upsert n = [] then ((0, 0, 0), g1)
               else upsert_parsed_files (ie_backend env) (ie_now env) (pn_upsert n)
                      (delete_files (pn_changed n) g1))
      in case r of
           ((nodes, rels, unresolved), g2) \<Rightarrow>
             (\<lparr>ir_seen = length disk, ir_indexed = length (pn_upsert n), ir_skipped = pn_skipped n,
               ir_purged = length stale, ir_nodes = nodes, ir_rels = rels, ir_errors = pn_errors n,
               ir_unresolved = unresolved\<rparr>,
              update_index_version (ie_digest env) (ie_now env) g2))"

text \<open>\<open>index_file\<close>: \<open>None\<close> on disk is a missing file.\<close>

definition index_file ::
    "index_env \<Rightarrow> disk_file option \<Rightarrow> graph \<Rightarrow> index_report option \<times> graph" where
  "index_file env d g =
     (let zero = \<lparr>ir_seen = 1, ir_indexed = 0, ir_skipped = 0, ir_purged = 0, ir_nodes = 0,
                  ir_rels = 0, ir_errors = [], ir_unresolved = 0\<rparr>
      in case d of
           None \<Rightarrow> (None, g)
         | Some (rel, h, parsed) \<Rightarrow>
             (let previous = map_of (file_hashes g) rel
              in if previous = Some h then (Some (zero\<lparr>ir_skipped := 1\<rparr>), g)
                 else (case fl_error parsed of
                          Some (c # cs) \<Rightarrow> (Some (zero\<lparr>ir_errors := [(rel, c # cs)]\<rparr>), g)
                        | _ \<Rightarrow>
                            (case upsert_parsed_files (ie_backend env) (ie_now env) [parsed]
                                    (if previous \<noteq> None then delete_files [rel] g else g) of
                               ((nodes, rels, unresolved), g') \<Rightarrow>
                                 (Some (zero\<lparr>ir_indexed := 1, ir_nodes := nodes, ir_rels := rels,
                                             ir_unresolved := unresolved\<rparr>),
                                  update_index_version (ie_digest env) (ie_now env) g')))))"


section \<open>What a statement does to the files\<close>

definition file_hash :: "graph \<Rightarrow> string \<Rightarrow> string option" where
  "file_hash g path =
     (case node_at g (File_Node path) of
        None \<Rightarrow> None
      | Some p \<Rightarrow> (case dget p ''content_hash'' of PyStr h \<Rightarrow> Some h | _ \<Rightarrow> None))"

text \<open>A graph the indexer has written: well formed, and its file nodes are what the statements make.\<close>

definition file_props_ok :: "string \<Rightarrow> pydict \<Rightarrow> bool" where
  "file_props_ok path p \<longleftrightarrow>
     dget p ''path'' = PyStr path \<and> (\<exists>h. dget p ''content_hash'' = PyStr h) \<and>
     dget p ''file_path'' = PyNone"

definition pass_ready :: "graph \<Rightarrow> bool" where
  "pass_ready g \<longleftrightarrow>
     graph_wf g \<and> (\<forall>path p. node_at g (File_Node path) = Some p \<longrightarrow> file_props_ok path p)"

lemma file_hashes_fold:
  "distinct (map fst ns) \<Longrightarrow> \<forall>path p. (File_Node path, p) \<in> set ns \<longrightarrow> file_props_ok path p \<Longrightarrow>
     map_of (fold (\<lambda>n hashes.
             case n of
               (File_Node f, p) \<Rightarrow>
                 (case (dget p ''path'', dget p ''content_hash'') of
                    (PyStr path, PyStr h) \<Rightarrow> dset path h hashes | _ \<Rightarrow> hashes)
             | _ \<Rightarrow> hashes) ns hs) q =
     (case map_of ns (File_Node q) of
        None \<Rightarrow> map_of hs q
      | Some p \<Rightarrow> (case dget p ''content_hash'' of PyStr h \<Rightarrow> Some h | _ \<Rightarrow> None))"
proof (induction ns arbitrary: hs)
  case Nil
  show ?case by simp
next
  case (Cons n ns)
  obtain i p where n: "n = (i, p)" by (cases n)
  show ?case
  proof (cases "\<exists>f. i = File_Node f")
    case True
    then obtain f where f: "i = File_Node f" by blast
    have "file_props_ok f p" using Cons.prems(2) by (simp add: n f)
    then obtain h where "dget p ''path'' = PyStr f" "dget p ''content_hash'' = PyStr h"
      by (auto simp: file_props_ok_def)
    with Cons n f show ?thesis
      by (auto simp: update_conv' map_of_eq_None_iff split: option.splits) force+
  next
    case False
    with Cons n show ?thesis by (cases i) auto
  qed
qed

lemma file_hashes_eq: "pass_ready g \<Longrightarrow> map_of (file_hashes g) path = file_hash g path"
  unfolding file_hashes_def file_hash_def node_at_def
  by (subst file_hashes_fold) (auto simp: pass_ready_def graph_wf_def node_at_def split: option.splits)

lemma file_hashes_keys: "pass_ready g \<Longrightarrow> path \<in> fst ` set (file_hashes g) \<longleftrightarrow> file_hash g path \<noteq> None"
  using file_hashes_eq [of g path] by (metis map_of_eq_None_iff)

definition not_file_row :: "row \<Rightarrow> bool" where
  "not_file_row r = (case r of File_Row path h \<Rightarrow> False | Delete_Row path \<Rightarrow> False | _ \<Rightarrow> True)"

lemma node_at_merge_edge [graph]: "node_at (merge_edge a r b g) i = node_at g i"
  by (simp add: node_at_def nodes_merge_edge)

lemma node_at_merge_edges [graph]: "node_at (merge_edges as r b g) i = node_at g i"
  by (simp add: node_at_def nodes_merge_edges)

lemma fold_invisible:
  "(\<And>x g. x \<in> set xs \<Longrightarrow> F (f x g) = F g) \<Longrightarrow> F (fold f xs g) = F g"
  by (induction xs arbitrary: g) simp_all

lemma other_row_keeps_files:
  assumes "not_file_row r"
  shows "node_at (apply_row r g) (File_Node path) = node_at g (File_Node path)"
proof (cases r)
  case (Calls_Row a b)
  then show ?thesis by (simp add: fold_invisible [of _ "\<lambda>g. node_at g (File_Node path)"] graph)
next
  case (Embedding_Row q v t)
  show ?thesis unfolding Embedding_Row apply_row.simps statement_defs
    by (rule fold_invisible [of _ "\<lambda>g. node_at g (File_Node path)"])
      (auto simp: graph set_matched callable_nodes_def)
qed (use assms in \<open>simp_all add: graph not_file_row_def split: list.splits\<close>)

lemma other_rows_keep_files:
  "list_all not_file_row rows \<Longrightarrow>
     node_at (run_write_batch rows g) (File_Node path) = node_at g (File_Node path)"
  by (induction rows arbitrary: g) (simp_all add: run_write_batch_def other_row_keeps_files)


lemma row_ok_delete [simp]: "row_ok (Delete_Row path)" "row_ok (File_Row path h)"
  by (simp_all add: row_ok_def)

lemma graph_wf_batch: "graph_wf g \<Longrightarrow> list_all row_ok rows \<Longrightarrow> graph_wf (run_write_batch rows g)"
  unfolding run_write_batch_def
  by (rule graph_wf_fold) (auto intro!: graph_wf_apply_row simp: row_ok_def list_all_iff)

lemma pass_ready_other_rows:
  "pass_ready g \<Longrightarrow> list_all not_file_row rows \<Longrightarrow> list_all row_ok rows \<Longrightarrow>
     pass_ready (run_write_batch rows g) \<and>
     file_hash (run_write_batch rows g) path = file_hash g path"
  by (simp add: pass_ready_def graph_wf_batch other_rows_keep_files file_hash_def)

lemma file_row_ready:
  assumes "pass_ready g"
  shows "pass_ready (apply_row (File_Row q h) g) \<and>
    file_hash (apply_row (File_Row q h) g) path = (if path = q then Some h else file_hash g path)"
proof -
  have "dget (case node_at g (File_Node q) of None \<Rightarrow> [] | Some p \<Rightarrow> p) ''file_path'' = PyNone"
    using assms by (auto simp: pass_ready_def file_props_ok_def split: option.splits)
  with assms show ?thesis
    by (auto simp: pass_ready_def file_props_ok_def file_hash_def graph graph_wf_merge_node)
qed

lemma delete_row_ready:
  assumes "pass_ready g"
  shows "pass_ready (apply_row (Delete_Row q) g) \<and>
    file_hash (apply_row (Delete_Row q) g) path = (if path = q then None else file_hash g path)"
proof -
  have wf: "graph_wf g" and d: "distinct (map fst (g_nodes g))"
    and ok: "\<And>path p. node_at g (File_Node path) = Some p \<Longrightarrow> file_props_ok path p"
    using assms by (auto simp: pass_ready_def graph_wf_def)
  have "owned_by q (File_Node path, p) \<longleftrightarrow> path = q" if "file_props_ok path p" for path p
    using that by (auto simp: owned_by_def file_props_ok_def)
  with ok have "node_at (detach_delete q g) (File_Node path) =
      (if path = q then None else node_at g (File_Node path))" for path
    unfolding node_at_detach [OF d] by (auto split: option.splits)
  with ok show ?thesis
    by (auto simp: pass_ready_def file_hash_def graph_wf_detach [OF wf])
qed

lemma delete_files_ready:
  "pass_ready g \<Longrightarrow> pass_ready (delete_files ps g) \<and>
     file_hash (delete_files ps g) path = (if path \<in> set ps then None else file_hash g path)"
proof (induction ps arbitrary: g)
  case Nil
  then show ?case by (simp add: delete_files_def)
next
  case (Cons p ps)
  have "delete_files (p # ps) g = delete_files ps (apply_row (Delete_Row p) g)"
    by (simp add: delete_files_def run_write_batch_def)
  with Cons.IH [of "apply_row (Delete_Row p) g"] delete_row_ready [OF Cons.prems] show ?case
    by (simp del: apply_row.simps)
qed

lemma file_rows_ready:
  "pass_ready g \<Longrightarrow> distinct (map fl_path fs) \<Longrightarrow>
     pass_ready (run_write_batch (map (\<lambda>f. File_Row (fl_path f) (fl_hash f)) fs) g) \<and>
     file_hash (run_write_batch (map (\<lambda>f. File_Row (fl_path f) (fl_hash f)) fs) g) path =
       (case map_of (map (\<lambda>f. (fl_path f, fl_hash f)) fs) path of
          Some h \<Rightarrow> Some h | None \<Rightarrow> file_hash g path)"
proof (induction fs arbitrary: g)
  case Nil
  then show ?case by simp
next
  case (Cons f fs)
  let ?g = "apply_row (File_Row (fl_path f) (fl_hash f)) g"
  have step: "run_write_batch (map (\<lambda>f. File_Row (fl_path f) (fl_hash f)) (f # fs)) g =
      run_write_batch (map (\<lambda>f. File_Row (fl_path f) (fl_hash f)) fs) ?g"
    by (simp add: run_write_batch_def)
  have fresh: "map_of (map (\<lambda>f. (fl_path f, fl_hash f)) fs) (fl_path f) = None"
    using Cons.prems(2) by (auto simp: map_of_eq_None_iff)
  from Cons.IH [of ?g] file_row_ready [OF Cons.prems(1), of "fl_path f" "fl_hash f" path] Cons.prems
  show ?case unfolding step using fresh
    by (auto simp: file_row_ready simp del: apply_row.simps split: option.splits)
qed

section \<open>The statements of a pass\<close>

lemma node_rows_ok:
  "list_all not_file_row (concat (tl (node_statements fs)))"
  "list_all row_ok (concat (node_statements fs))"
  by (auto simp: node_statements_def list_all_iff not_file_row_def row_ok_def module_row_def
      class_row_def callable_row_def)

lemma structure_rows_ok:
  "list_all not_file_row (concat (structure_statements fs))"
  "list_all row_ok (concat (structure_statements fs))"
  by (auto simp: structure_statements_def list_all_iff not_file_row_def row_ok_def
      file_decorators_def file_docstrings_def docstring_rows_def import_rows_def
      split: option.splits)

lemma link_rows_ok:
  "list_all not_file_row (concat (link_statements fs g))"
  "list_all row_ok (concat (link_statements fs g))"
  by (auto simp: link_statements_def list_all_iff not_file_row_def row_ok_def Let_def
      inherits_rows_def call_rows_def List.map_filter_def split: option.splits list.splits if_splits)


lemma embedding_rows_ok:
  "embedding_records be docs = Inr rows \<Longrightarrow> list_all not_file_row rows \<and> list_all row_ok rows"
  by (auto simp: embedding_records_def list_all_iff not_file_row_def row_ok_def
      split: sum.splits if_splits)

lemma meta_rows_ok: "not_file_row (Meta_Row k v t)" "row_ok (Meta_Row k v t)"
  by (simp_all add: not_file_row_def row_ok_def)

lemma write_chunks_ready:
  "pass_ready g \<Longrightarrow> pass_ready (snd (write_chunks be docs written g)) \<and>
     file_hash (snd (write_chunks be docs written g)) path = file_hash g path"
proof (induction be docs written g rule: write_chunks.induct)
  case (1 be docs written g)
  show ?case
  proof (cases "docs = []")
    case True
    with 1(2) show ?thesis by (subst (1 2) write_chunks.simps) simp
  next
    case False
    show ?thesis
    proof (cases "embedding_records be (take embedding_chunk_size docs)")
      case (Inl e)
      with False 1(2) show ?thesis by (subst (1 2) write_chunks.simps) simp
    next
      case (Inr rows)
      note ok = embedding_rows_ok [OF Inr]
      have ready: "pass_ready (run_write_batch rows g)"
          "file_hash (run_write_batch rows g) path = file_hash g path"
        using pass_ready_other_rows [OF 1(2), of rows path] ok by blast+
      show ?thesis
        using 1(1) [OF False Inr ready(1)] ready(2) False Inr
        by (subst (1 2) write_chunks.simps) simp
    qed
  qed
qed

lemma write_embeddings_ready:
  "pass_ready g \<Longrightarrow> pass_ready (write_embeddings be now fs g) \<and>
     file_hash (write_embeddings be now fs g) path = file_hash g path"
  using write_chunks_ready [of g be "embedding_documents fs" 0 path]
    pass_ready_other_rows [of "snd (write_chunks be (embedding_documents fs) 0 g)"
      "[Meta_Row ''embedding_fingerprint'' k now]" path for k]
  by (auto simp: write_embeddings_def meta_rows_ok split: prod.splits option.splits list.splits)

lemma update_version_ready:
  "pass_ready g \<Longrightarrow> pass_ready (update_index_version digest now g) \<and>
     file_hash (update_index_version digest now g) path = file_hash g path"
  unfolding update_index_version_def by (rule pass_ready_other_rows) (simp_all add: meta_rows_ok)

lemma upsert_ready:
  assumes "pass_ready g" "distinct (map fl_path fs)"
  shows "pass_ready (snd (upsert_parsed_files be now fs g)) \<and>
    file_hash (snd (upsert_parsed_files be now fs g)) path =
      (case map_of (map (\<lambda>f. (fl_path f, fl_hash f)) fs) path of
         Some h \<Rightarrow> Some h | None \<Rightarrow> file_hash g path)"
proof -
  let ?files = "map (\<lambda>f. File_Row (fl_path f) (fl_hash f)) fs"
  let ?rest = "concat (tl (node_statements fs)) @ concat (structure_statements fs)"
  let ?g0 = "run_write_batch ?files g"
  let ?g1 = "run_write_batch ?rest ?g0"
  let ?g2 = "run_write_batch (concat (link_statements fs ?g1)) ?g1"
  have g1: "fold run_write_batch (node_statements fs @ structure_statements fs) g = ?g1"
    unfolding fold_run_write_batch
    by (simp add: node_statements_def run_write_batch_append [symmetric] run_write_batch_def)
  have rest_ok: "list_all not_file_row ?rest" "list_all row_ok ?rest"
    using node_rows_ok [of fs] structure_rows_ok [of fs]
    by (simp_all add: node_statements_def)
  note r0 = file_rows_ready [OF assms, of path]
  note r1 = pass_ready_other_rows [OF conjunct1 [OF r0] rest_ok, of path]
  note r2 = pass_ready_other_rows [OF conjunct1 [OF r1] link_rows_ok [of fs ?g1], of path]
  note r3 = write_embeddings_ready [OF conjunct1 [OF r2], of be now fs path]
  have "snd (upsert_parsed_files be now fs g) = write_embeddings be now fs ?g2"
    unfolding upsert_parsed_files_def Let_def g1 fold_run_write_batch [of "link_statements fs ?g1"]
    by simp
  with r0 r1 r2 r3 show ?thesis by simp
qed

section \<open>The plan of a pass\<close>

definition unchanged :: "index_mode_name \<Rightarrow> (string \<times> string) list \<Rightarrow> disk_file \<Rightarrow> bool" where
  "unchanged mode existing d \<longleftrightarrow> mode \<noteq> Full_Pass \<and> map_of existing (fst d) = Some (fst (snd d))"

definition parsed_ok :: "parsed_file \<Rightarrow> bool" where
  "parsed_ok f \<longleftrightarrow> (case fl_error f of Some (c # cs) \<Rightarrow> False | _ \<Rightarrow> True)"

definition wanted :: "index_mode_name \<Rightarrow> (string \<times> string) list \<Rightarrow> disk_file \<Rightarrow> bool" where
  "wanted mode existing d \<longleftrightarrow> \<not> unchanged mode existing d \<and> parsed_ok (snd (snd d))"

lemma plan_file_eq:
  "plan_file mode existing d n =
     n\<lparr>pn_skipped := pn_skipped n + (if unchanged mode existing d then 1 else 0),
       pn_upsert := pn_upsert n @ (if wanted mode existing d then [snd (snd d)] else []),
       pn_changed := pn_changed n @ (if wanted mode existing d \<and> map_of existing (fst d) \<noteq> None
                                     then [fst d] else []),
       pn_errors := pn_errors n @ (if \<not> unchanged mode existing d \<and> \<not> parsed_ok (snd (snd d))
                                   then [(fst d, the (fl_error (snd (snd d))))] else [])\<rparr>"
  by (cases d)
    (auto simp: plan_file_def unchanged_def wanted_def parsed_ok_def Let_def
      split: option.splits list.splits if_splits)

lemma plan_fold:
  "fold (plan_file mode existing) disk n =
     n\<lparr>pn_skipped := pn_skipped n + length (filter (unchanged mode existing) disk),
       pn_upsert := pn_upsert n @ map (\<lambda>d. snd (snd d)) (filter (wanted mode existing) disk),
       pn_changed := pn_changed n @ map fst (filter (\<lambda>d. wanted mode existing d \<and>
                                                   map_of existing (fst d) \<noteq> None) disk),
       pn_errors := pn_errors n @ map (\<lambda>d. (fst d, the (fl_error (snd (snd d)))))
                      (filter (\<lambda>d. \<not> unchanged mode existing d \<and> \<not> parsed_ok (snd (snd d))) disk)\<rparr>"
  by (induction disk arbitrary: n) (auto simp: plan_file_eq)

lemma plan_pass_eq:
  "pn_upsert (plan_pass mode existing disk) = map (\<lambda>d. snd (snd d)) (filter (wanted mode existing) disk)"
  "pn_changed (plan_pass mode existing disk) =
     map fst (filter (\<lambda>d. wanted mode existing d \<and> map_of existing (fst d) \<noteq> None) disk)"
  "pn_skipped (plan_pass mode existing disk) = length (filter (unchanged mode existing) disk)"
  "pn_errors (plan_pass mode existing disk) = map (\<lambda>d. (fst d, the (fl_error (snd (snd d)))))
     (filter (\<lambda>d. \<not> unchanged mode existing d \<and> \<not> parsed_ok (snd (snd d))) disk)"
  by (simp_all add: plan_pass_def plan_fold empty_plan_def)

text \<open>A listing of the disk: each path once, and the parser was given the file of that path.\<close>

definition disk_ok :: "disk_file list \<Rightarrow> bool" where
  "disk_ok disk \<longleftrightarrow>
     distinct (map fst disk) \<and> list_all (\<lambda>(rel, h, f). fl_path f = rel \<and> fl_hash f = h) disk"

lemma disk_paths:
  "disk_ok disk \<Longrightarrow> map fl_path (map (\<lambda>d. snd (snd d)) (filter P disk)) = map fst (filter P disk)"
  by (auto simp: disk_ok_def list_all_iff)

lemma disk_upsert_hash:
  "disk_ok disk \<Longrightarrow>
     map_of (map (\<lambda>f. (fl_path f, fl_hash f)) (map (\<lambda>d. snd (snd d)) (filter P disk))) path =
     (case map_of disk path of Some (h, f) \<Rightarrow> if P (path, h, f) then Some h else None | None \<Rightarrow> None)"
proof (induction disk)
  case Nil
  then show ?case by simp
next
  case (Cons d disk)
  obtain rel h f where d: "d = (rel, h, f)" by (cases d)
  have "map_of disk rel = None" "disk_ok disk" "fl_path f = rel" "fl_hash f = h"
    using Cons.prems by (auto simp: disk_ok_def d map_of_eq_None_iff)
  with Cons.IH show ?case by (auto simp: d)
qed

end
