(* ===== verification/IndexResults.thy ===== *)
theory IndexResults
  imports IndexPass
begin

text \<open>
  What one pass of the indexer leaves in the graph: the files of the graph are those of the disk,
  a second pass has nothing to do, and two cases in which the graph a pass leaves is not the one a
  full pass would have written.
\<close>

section \<open>The graph mirrors the disk\<close>

definition pass_graph ::
    "index_env \<Rightarrow> index_mode_name \<Rightarrow> disk_file list \<Rightarrow> graph \<Rightarrow> graph" where
  "pass_graph env mode disk g =
     (let n = plan_pass mode (file_hashes g) disk;
          g1 = delete_files (stale_paths (file_hashes g) disk) g
      in if pn_upsert n = [] then g1
         else snd (upsert_parsed_files (ie_backend env) (ie_now env) (pn_upsert n)
                     (delete_files (pn_changed n) g1)))"

lemma index_repository_graph:
  "snd (index_repository env mode disk g) =
     update_index_version (ie_digest env) (ie_now env) (pass_graph env mode disk g)"
  by (simp add: index_repository_def pass_graph_def Let_def split: prod.splits)

lemma stale_paths_eq:
  "path \<in> set (stale_paths existing disk) \<longleftrightarrow> map_of existing path \<noteq> None \<and> map_of disk path = None"
  by (auto simp: stale_paths_def map_of_eq_None_iff)

lemma disk_filter_paths:
  assumes "disk_ok disk"
  shows "path \<in> fst ` set (filter P disk) \<longleftrightarrow>
    (\<exists>h f. map_of disk path = Some (h, f) \<and> P (path, h, f))"
proof -
  have d: "distinct (map fst disk)" using assms by (simp add: disk_ok_def)
  show ?thesis by (auto simp: map_of_eq_Some_iff [OF d] image_iff)
qed

text \<open>What the graph knows of a path after the pass.\<close>

definition hash_after :: "disk_file list \<Rightarrow> graph \<Rightarrow> string \<Rightarrow> string option" where
  "hash_after disk g path =
     (case map_of disk path of
        None \<Rightarrow> None
      | Some (h, f) \<Rightarrow> if parsed_ok f then Some h else file_hash g path)"

lemma planned_hashes:
  fixes mode
  assumes ready: "pass_ready g" and disk: "disk_ok disk"
  defines "n \<equiv> plan_pass mode (file_hashes g) disk"
  defines "g2 \<equiv> delete_files (pn_changed n) (delete_files (stale_paths (file_hashes g) disk) g)"
  shows "pass_ready g2" "distinct (map fl_path (pn_upsert n))"
    "(case map_of (map (\<lambda>f. (fl_path f, fl_hash f)) (pn_upsert n)) path of
        Some h \<Rightarrow> Some h | None \<Rightarrow> file_hash g2 path) = hash_after disk g path"
proof -
  let ?E = "file_hashes g"
  let ?g1 = "delete_files (stale_paths ?E disk) g"
  have E: "\<And>p. map_of ?E p = file_hash g p" by (rule file_hashes_eq [OF ready])
  note r1 = delete_files_ready [OF ready, of "stale_paths ?E disk" path, unfolded stale_paths_eq E]
  have r2: "pass_ready g2" "file_hash g2 path =
      (if path \<in> set (pn_changed n) then None else file_hash ?g1 path)"
    using delete_files_ready [OF conjunct1 [OF r1], of "pn_changed n" path]
    unfolding g2_def by blast+
  have changed: "path \<in> set (pn_changed n) \<longleftrightarrow> (\<exists>h f. map_of disk path = Some (h, f) \<and>
      wanted mode ?E (path, h, f) \<and> file_hash g path \<noteq> None)"
    unfolding n_def plan_pass_eq set_map disk_filter_paths [OF disk] by (auto simp: E)
  have up: "map_of (map (\<lambda>f. (fl_path f, fl_hash f)) (pn_upsert n)) path =
      (case map_of disk path of
         Some (h, f) \<Rightarrow> if wanted mode ?E (path, h, f) then Some h else None | None \<Rightarrow> None)"
    unfolding n_def plan_pass_eq by (rule disk_upsert_hash [OF disk])
  show "pass_ready g2" by (rule r2(1))
  show "distinct (map fl_path (pn_upsert n))"
    unfolding n_def plan_pass_eq disk_paths [OF disk]
    using disk by (auto simp: disk_ok_def distinct_map_filter)
  show "(case map_of (map (\<lambda>f. (fl_path f, fl_hash f)) (pn_upsert n)) path of
      Some h \<Rightarrow> Some h | None \<Rightarrow> file_hash g2 path) = hash_after disk g path"
    using r1 r2 changed up
    by (auto simp: hash_after_def wanted_def unchanged_def E split: option.splits if_splits)
qed

lemma pass_graph_ready:
  assumes "pass_ready g" "disk_ok disk"
  shows "pass_ready (pass_graph env mode disk g) \<and>
    file_hash (pass_graph env mode disk g) path = hash_after disk g path"
proof (cases "pn_upsert (plan_pass mode (file_hashes g) disk) = []")
  case True
  then have "pn_changed (plan_pass mode (file_hashes g) disk) = []"
    by (auto simp: plan_pass_eq filter_empty_conv)
  with True planned_hashes(1) [OF assms, of mode] planned_hashes(3) [OF assms, of mode path] show ?thesis
    by (simp add: pass_graph_def Let_def delete_files_def)
next
  case False
  with upsert_ready [OF planned_hashes(1,2) [OF assms, of mode], of "ie_backend env" "ie_now env" path]
    planned_hashes(3) [OF assms, of mode path]
  show ?thesis by (simp add: pass_graph_def Let_def)
qed



section \<open>Sample files\<close>

definition offline_backend :: embedding_backend where
  "offline_backend = \<lparr>embed = (\<lambda>texts. Inr (map (\<lambda>t. []) texts)), fingerprint = None\<rparr>"

definition sample_env :: index_env where
  "sample_env = \<lparr>ie_backend = offline_backend, ie_digest = (\<lambda>s. s), ie_now = ''t''\<rparr>"

text \<open>A file \<open>stem.py\<close> with one function, which makes the given calls.\<close>

definition sample_file :: "string \<Rightarrow> string \<Rightarrow> string \<Rightarrow> parsed_import list \<Rightarrow> string list \<Rightarrow> parsed_file" where
  "sample_file stem h fn imports calls =
     \<lparr>fl_path = stem @ ''.py'', fl_module = stem, fl_hash = h, fl_line_start = 1, fl_line_end = 9,
      fl_docstring = None, fl_classes = [],
      fl_functions = [\<lparr>pf_name = fn, pf_qualified_name = stem @ ''.'' @ fn, pf_parent = stem,
                      pf_parameters = [], pf_decorators = [], pf_line_start = 2, pf_line_end = 3,
                      pf_is_async = False, pf_calls = calls, pf_docstring = None,
                      pf_source_summary = ''''\<rparr>],
      fl_methods = [], fl_imports = imports,
      fl_calls = map (\<lambda>c. (stem @ ''.'' @ fn, c)) calls, fl_error = None\<rparr>"

definition on_disk :: "parsed_file \<Rightarrow> disk_file" where
  "on_disk f = (fl_path f, fl_hash f, f)"

definition unparsable_file :: parsed_file where
  "unparsable_file = (sample_file ''bad'' ''h9'' ''f'' [] [])\<lparr>fl_error := Some ''SyntaxError''\<rparr>"

definition sample_disk :: "disk_file list" where
  "sample_disk =
     [on_disk (sample_file ''a'' ''h1'' ''f'' [\<lparr>pi_module = Some ''b'', pi_names = [''g''], pi_alias = None\<rparr>] [''g'']),
      on_disk (sample_file ''b'' ''h2'' ''g'' [] [])]"

lemma pass_ready_empty: "pass_ready empty_graph"
  by (simp add: pass_ready_def graph_wf_def empty_graph_def node_at_def)


section \<open>A pass over a known repository\<close>

definition idle_report :: "disk_file list \<Rightarrow> index_report" where
  "idle_report disk =
     \<lparr>ir_seen = length disk, ir_indexed = 0, ir_skipped = length disk, ir_purged = 0, ir_nodes = 0,
      ir_rels = 0, ir_errors = [], ir_unresolved = 0\<rparr>"

lemma known_files_are_skipped:
  assumes "distinct (map fst disk)"
    "\<And>path. map_of (file_hashes g) path = map_option fst (map_of disk path)"
  shows "index_repository env Incremental_Pass disk g =
    (idle_report disk, update_index_version (ie_digest env) (ie_now env) g)"
proof -
  have same: "unchanged Incremental_Pass (file_hashes g) d" if "d \<in> set disk" for d
    using assms(2) [of "fst d"] map_of_is_SomeI [OF assms(1), of "fst d" "snd d"] that
    by (simp add: unchanged_def)
  have "stale_paths (file_hashes g) disk = []"
    using stale_paths_eq [of _ "file_hashes g" disk] assms(2)
    by (metis list.set_intros(1) neq_Nil_conv option.map_disc_iff)
  with same show ?thesis
    by (simp add: index_repository_def Let_def plan_pass_eq wanted_def delete_files_def
        idle_report_def filter_id_conv cong: filter_cong)
qed




section \<open>A pass that died\<close>

text \<open>
  The graph left by a pass that dies after \<open>k\<close> of the transactions of its node and structure
  statements; the deletions come first.
\<close>

definition died_after ::
    "nat \<Rightarrow> index_mode_name \<Rightarrow> disk_file list \<Rightarrow> graph \<Rightarrow> graph" where
  "died_after k mode disk g =
     (let n = plan_pass mode (file_hashes g) disk
      in run_interrupted k (node_statements (pn_upsert n) @ structure_statements (pn_upsert n))
           (delete_files (pn_changed n) (delete_files (stale_paths (file_hashes g) disk) g)))"

text \<open>The transactions that write the file nodes.\<close>

definition file_transactions :: "index_mode_name \<Rightarrow> disk_file list \<Rightarrow> graph \<Rightarrow> nat" where
  "file_transactions mode disk g =
     length (transactions (map (\<lambda>f. File_Row (fl_path f) (fl_hash f))
               (pn_upsert (plan_pass mode (file_hashes g) disk))))"

lemma concat_map_transactions: "concat (concat (map transactions ss)) = concat ss"
  by (induction ss) simp_all

lemma run_interrupted_after:
  assumes "length (transactions rows) \<le> k"
  shows "\<exists>rest. run_interrupted k (rows # ss) g = run_write_batch rest (run_write_batch rows g) \<and>
    set rest \<subseteq> set (concat ss)"
proof -
  let ?rest = "concat (take (k - length (transactions rows)) (concat (map transactions ss)))"
  have "run_interrupted k (rows # ss) g = run_write_batch ?rest (run_write_batch rows g)"
    using assms by (simp add: run_interrupted_def fold_run_write_batch)
  moreover have "set ?rest \<subseteq> set (concat (concat (map transactions ss)))"
    using set_take_subset by fastforce
  ultimately show ?thesis unfolding concat_map_transactions by blast
qed

lemma died_after_hashes:
  assumes ready: "pass_ready g" and disk: "disk_ok disk"
    and k: "file_transactions mode disk g \<le> k"
  shows "pass_ready (died_after k mode disk g) \<and>
    file_hash (died_after k mode disk g) path = hash_after disk g path"
proof -
  let ?E = "file_hashes g"
  let ?n = "plan_pass mode ?E disk"
  let ?fs = "pn_upsert ?n"
  let ?g2 = "delete_files (pn_changed ?n) (delete_files (stale_paths ?E disk) g)"
  let ?files = "map (\<lambda>f. File_Row (fl_path f) (fl_hash f)) ?fs"
  let ?ss = "tl (node_statements ?fs) @ structure_statements ?fs"
  have split: "node_statements ?fs @ structure_statements ?fs = ?files # ?ss"
    by (simp add: node_statements_def)
  obtain rest where rest: "run_interrupted k (?files # ?ss) ?g2 =
      run_write_batch rest (run_write_batch ?files ?g2)" "set rest \<subseteq> set (concat ?ss)"
    using run_interrupted_after k unfolding file_transactions_def by blast
  have ok: "list_all not_file_row rest" "list_all row_ok rest"
    using rest(2) node_rows_ok [of ?fs] structure_rows_ok [of ?fs]
    by (fastforce simp: list_all_iff node_statements_def)+
  note p = planned_hashes(1,2) [OF ready disk, of mode] planned_hashes(3) [OF ready disk, of mode path]
  note r0 = file_rows_ready [OF p(1,2), of path]
  from pass_ready_other_rows [OF conjunct1 [OF r0] ok, of path] r0 p(3) show ?thesis
    by (simp add: died_after_def Let_def split rest(1))
qed


text \<open>
  The file nodes, with their content hashes, are the first a pass writes. A pass that dies after
  them, before it has written the classes, functions, links or embeddings, is never repaired by an
  incremental pass: every file is taken for unchanged.
\<close>

theorem interrupted_pass_is_skipped:
  assumes "pass_ready g" "disk_ok disk" "list_all (\<lambda>(rel, h, f). parsed_ok f) disk"
    "file_transactions mode disk g \<le> k"
  shows "index_repository env Incremental_Pass disk (died_after k mode disk g) =
    (idle_report disk,
     update_index_version (ie_digest env) (ie_now env) (died_after k mode disk g))"
proof (rule known_files_are_skipped)
  show "distinct (map fst disk)" using assms(2) by (simp add: disk_ok_def)
  fix path
  have "parsed_ok f" if "map_of disk path = Some (h, f)" for h f
    using assms(3) map_of_SomeD [OF that] by (auto simp: list_all_iff)
  with died_after_hashes [OF assms(1,2,4), of path]
  show "map_of (file_hashes (died_after k mode disk g)) path = map_option fst (map_of disk path)"
    by (auto simp: file_hashes_eq hash_after_def split: option.splits)
qed

theorem interrupted_pass_is_skipped_witness:
  "fst (index_repository sample_env Incremental_Pass sample_disk
          (died_after 1 Full_Pass sample_disk empty_graph)) = idle_report sample_disk \<and>
   g_edges (died_after 1 Full_Pass sample_disk empty_graph) = [] \<and>
   map fst (g_nodes (died_after 1 Full_Pass sample_disk empty_graph)) =
     [File_Node ''a.py'', File_Node ''b.py'']"
proof -
  have ok: "disk_ok sample_disk" "list_all (\<lambda>(rel, h, f). parsed_ok f) sample_disk"
    "file_transactions Full_Pass sample_disk empty_graph \<le> 1"
    by code_simp+
  have "g_edges (died_after 1 Full_Pass sample_disk empty_graph) = []"
    "map fst (g_nodes (died_after 1 Full_Pass sample_disk empty_graph)) =
     [File_Node ''a.py'', File_Node ''b.py'']"
    by code_simp+
  with interrupted_pass_is_skipped [OF pass_ready_empty ok, of sample_env] show ?thesis by simp
qed

section \<open>Calls into a changed file\<close>

text \<open>The calls out of a function that a statement may add are those of its own row.\<close>

definition calls_out :: "string \<Rightarrow> row \<Rightarrow> bool" where
  "calls_out q r = (case r of Calls_Row a b \<Rightarrow> a = q | _ \<Rightarrow> False)"

lemma set_callable_nodes: "i \<in> set (callable_nodes q) \<longleftrightarrow>
    i = Code_Node Function_Label q \<or> i = Code_Node Method_Label q"
  by (auto simp: callable_nodes_def)

lemma edges_fold_merge_node: "g_edges (fold (\<lambda>i. merge_node i kvs) is g) = g_edges g"
  by (induction "is" arbitrary: g) (simp_all add: edges_merge_node)

lemma edges_fold_merge_edges:
  "set (g_edges (fold (\<lambda>b. merge_edges as r b) bs g)) \<subseteq>
     set (g_edges g) \<union> {(a, r, b) |a b. a \<in> set as}"
proof (induction bs arbitrary: g)
  case Nil
  then show ?case by simp
next
  case (Cons b bs)
  from Cons.IH [of "merge_edges as r b g"] show ?case
    by (auto simp: edges_merge_edges set_matched split: if_splits)
qed

lemma calls_of_row:
  assumes "(Code_Node l q, CALLS, b) \<in> set (g_edges (apply_row r g))" "\<not> calls_out q r"
  shows "(Code_Node l q, CALLS, b) \<in> set (g_edges g)"
proof (cases r)
  case (Calls_Row a c)
  with assms edges_fold_merge_edges [of "matched g (callable_nodes a)" CALLS "matched g (callable_nodes c)" g]
  show ?thesis by (auto simp: calls_out_def set_matched set_callable_nodes)
next
  case (Embedding_Row q v t)
  with assms show ?thesis by (simp add: edges_fold_merge_node)
qed (use assms in \<open>auto simp: graph detach_delete_def Let_def set_matched split: list.splits if_splits\<close>)

lemma calls_of_batch:
  assumes "(Code_Node l q, CALLS, b) \<in> set (g_edges (run_write_batch rows g))"
    "list_all (\<lambda>r. \<not> calls_out q r) rows"
  shows "(Code_Node l q, CALLS, b) \<in> set (g_edges g)"
  using assms
  by (induction rows arbitrary: g) (auto simp: run_write_batch_def dest: calls_of_row)

lemma edges_embeddings:
  "list_all (\<lambda>r. case r of Embedding_Row q v t \<Rightarrow> True | Meta_Row k v t \<Rightarrow> True | _ \<Rightarrow> False) rows \<Longrightarrow>
     g_edges (run_write_batch rows g) = g_edges g"
  by (induction rows arbitrary: g)
    (auto simp: run_write_batch_def edges_fold_merge_node edges_merge_node split: row.splits)

lemma edges_write_chunks: "g_edges (snd (write_chunks be docs n g)) = g_edges g"
proof (induction be docs n g rule: write_chunks.induct)
  case (1 be docs n g)
  show ?case
  proof (cases "docs = [] \<or> (\<exists>e. embedding_records be (take embedding_chunk_size docs) = Inl e)")
    case True
    then show ?thesis by (subst write_chunks.simps) (auto split: sum.splits)
  next
    case False
    then obtain rows where rows: "docs \<noteq> []"
        "embedding_records be (take embedding_chunk_size docs) = Inr rows"
      by (cases "embedding_records be (take embedding_chunk_size docs)") auto
    have "g_edges (run_write_batch rows g) = g_edges g"
      using rows(2) by (intro edges_embeddings)
        (auto simp: embedding_records_def list_all_iff split: sum.splits if_splits)
    with 1 rows show ?thesis by (subst write_chunks.simps) simp
  qed
qed

lemma edges_write_embeddings: "g_edges (write_embeddings be now fs g) = g_edges g"
  using edges_write_chunks [of be "embedding_documents fs" 0 g]
  by (auto simp: write_embeddings_def edges_embeddings split: prod.splits option.splits list.splits)

lemma edges_update_version: "g_edges (update_index_version digest now g) = g_edges g"
  by (simp add: update_index_version_def edges_embeddings)

lemma no_calls_in_structure:
  "list_all (\<lambda>r. \<not> calls_out q r) (concat (node_statements fs))"
  "list_all (\<lambda>r. \<not> calls_out q r) (concat (structure_statements fs))"
  by (auto simp: node_statements_def structure_statements_def list_all_iff calls_out_def
      module_row_def class_row_def callable_row_def file_decorators_def file_docstrings_def
      docstring_rows_def import_rows_def split: option.splits)

lemma no_calls_in_inherits: "r \<in> set (inherits_rows mods ct reex f) \<Longrightarrow> \<not> calls_out q r"
  by (auto simp: inherits_rows_def calls_out_def List.map_filter_def
      split: option.splits list.splits if_splits)

lemma callers_of_call_rows:
  "r \<in> set (call_rows mods classes t reex f) \<Longrightarrow> calls_out q r \<Longrightarrow> q \<in> fst ` set (fl_calls f)"
  by (force simp: call_rows_def calls_out_def List.map_filter_def)

lemma no_calls_in_links:
  assumes "list_all (\<lambda>f. q \<notin> fst ` set (fl_calls f)) fs"
  shows "list_all (\<lambda>r. \<not> calls_out q r) (concat (link_statements fs g))"
  unfolding list_all_iff
proof
  fix r
  assume "r \<in> set (concat (link_statements fs g))"
  then have "(\<exists>f \<in> set fs. r \<in> set (inherits_rows (indexed (module_table fs g))
        (class_table fs g) (all_bindings fs g) f)) \<or>
      (\<exists>f i m. r = Import_Depends_Row f i m) \<or> (\<exists>a b. r = Depends_Row a b) \<or>
      (\<exists>f \<in> set fs. r \<in> set (call_rows (indexed (module_table fs g)) (indexed (class_table fs g))
        (callable_table fs g) (all_bindings fs g) f))"
    unfolding link_statements_def Let_def by auto
  then show "\<not> calls_out q r"
    using assms no_calls_in_inherits callers_of_call_rows
    by (elim disjE exE bexE) (auto simp: list_all_iff calls_out_def)
qed

lemma calls_of_upsert:
  assumes "(Code_Node l q, CALLS, b) \<in> set (g_edges (snd (upsert_parsed_files be now fs g)))"
    "list_all (\<lambda>f. q \<notin> fst ` set (fl_calls f)) fs"
  shows "(Code_Node l q, CALLS, b) \<in> set (g_edges g)"
proof -
  let ?rows = "concat (node_statements fs) @ concat (structure_statements fs)"
  let ?g1 = "run_write_batch ?rows g"
  have "(Code_Node l q, CALLS, b) \<in>
      set (g_edges (run_write_batch (concat (link_statements fs ?g1)) ?g1))"
    using assms(1)
    by (simp add: upsert_parsed_files_def Let_def edges_write_embeddings fold_run_write_batch run_write_batch_append)
  from calls_of_batch [OF this no_calls_in_links [OF assms(2)]]
  show ?thesis by (rule calls_of_batch) (simp add: no_calls_in_structure)
qed

lemma delete_files_gone:
  "pass_ready g \<Longrightarrow>
     (\<forall>p. node_at g i = Some p \<longrightarrow> (\<exists>path \<in> set ps. owned_by path (i, p))) \<Longrightarrow>
     node_at (delete_files ps g) i = None"
proof (induction ps arbitrary: g)
  case Nil
  then show ?case by (cases "node_at g i") (simp_all add: delete_files_def)
next
  case (Cons p ps)
  have d: "distinct (map fst (g_nodes g))" using Cons.prems(1) by (simp add: pass_ready_def graph_wf_def)
  have "delete_files (p # ps) g = delete_files ps (apply_row (Delete_Row p) g)"
    by (simp add: delete_files_def run_write_batch_def)
  with Cons.IH [of "apply_row (Delete_Row p) g"] delete_row_ready [OF Cons.prems(1)] Cons.prems(2)
  show ?case 
    by (cases "node_at g i"; cases "owned_by p (i, the (node_at g i))")
      (auto simp: node_at_detach [OF d] split: option.splits if_splits)
qed

lemma delete_files_node:
  "pass_ready g \<Longrightarrow> node_at (delete_files ps g) i = None \<or> node_at (delete_files ps g) i = node_at g i"
proof (induction ps arbitrary: g)
  case Nil
  then show ?case by (simp add: delete_files_def)
next
  case (Cons p ps)
  have d: "distinct (map fst (g_nodes g))" using Cons.prems(1) by (simp add: pass_ready_def graph_wf_def)
  have "delete_files (p # ps) g = delete_files ps (apply_row (Delete_Row p) g)"
    by (simp add: delete_files_def run_write_batch_def)
  with Cons.IH [of "apply_row (Delete_Row p) g"] delete_row_ready [OF Cons.prems(1)]
  show ?case by (auto simp: node_at_detach [OF d] split: option.splits if_splits)
qed

text \<open>
  C29: A pass forgets the calls into a file it re-indexes: the nodes of a changed file are deleted with
  all their edges, and only the calls of the files of this pass are written again. So a call from an
  unchanged file into a changed one is gone, although both functions are still there and the call
  is still in the source; a full pass would have it.
\<close>

theorem incremental_pass_drops_inbound_calls:
  assumes ready: "pass_ready g" and disk: "disk_ok disk"
    and on: "(rel, h, f) \<in> set disk" "wanted mode (file_hashes g) (rel, h, f)"
      "map_of (file_hashes g) rel \<noteq> None"
    and callee: "node_at g b = Some p" "owned_by rel (b, p)"
    and caller: "list_all (\<lambda>f. q \<notin> fst ` set (fl_calls f))
                   (pn_upsert (plan_pass mode (file_hashes g) disk))"
  shows "(Code_Node l q, CALLS, b) \<notin> set (g_edges (snd (index_repository env mode disk g)))"
proof
  let ?n = "plan_pass mode (file_hashes g) disk"
  let ?g1 = "delete_files (stale_paths (file_hashes g) disk) g"
  let ?g2 = "delete_files (pn_changed ?n) ?g1"
  assume "(Code_Node l q, CALLS, b) \<in> set (g_edges (snd (index_repository env mode disk g)))"
  then have "(Code_Node l q, CALLS, b) \<in> set (g_edges (pass_graph env mode disk g))"
    by (simp add: index_repository_graph edges_update_version)
  moreover have upsert: "pn_upsert ?n \<noteq> []" and changed: "rel \<in> set (pn_changed ?n)"
    using on by (force simp: plan_pass_eq filter_empty_conv)+
  ultimately have "(Code_Node l q, CALLS, b) \<in> set (g_edges ?g2)"
    using calls_of_upsert [OF _ caller] by (simp add: pass_graph_def Let_def)
  moreover have "node_at ?g2 b = None"
    using delete_files_ready [OF ready, of "stale_paths (file_hashes g) disk"]
      delete_files_node [OF ready, of "stale_paths (file_hashes g) disk" b] callee changed
    by (intro delete_files_gone) auto
  moreover have "graph_wf ?g2"
    using planned_hashes(1) [OF ready disk, of mode] by (simp add: pass_ready_def)
  ultimately show False by (auto simp: graph_wf_def has_node_def)
qed

definition changed_disk :: "disk_file list" where
  "changed_disk = [hd sample_disk, on_disk (sample_file ''b'' ''h3'' ''g'' [] [])]"

definition sample_indexed :: graph where
  "sample_indexed = snd (index_repository sample_env Full_Pass sample_disk empty_graph)"

theorem incremental_pass_drops_inbound_calls_witness:
  "(Code_Node Function_Label ''a.f'', CALLS, Code_Node Function_Label ''b.g'')
      \<notin> set (g_edges (snd (index_repository sample_env Incremental_Pass changed_disk sample_indexed))) \<and>
   (Code_Node Function_Label ''a.f'', CALLS, Code_Node Function_Label ''b.g'')
      \<in> set (g_edges (snd (index_repository sample_env Full_Pass changed_disk sample_indexed)))"
proof
  have ready: "pass_ready sample_indexed"
    using pass_graph_ready [OF pass_ready_empty, of sample_disk sample_env Full_Pass]
      update_version_ready
    by (simp add: sample_indexed_def index_repository_graph disk_ok_def sample_disk_def on_disk_def
        sample_file_def)
  have indexed: "file_hashes sample_indexed = [(''a.py'', ''h1''), (''b.py'', ''h2'')]" by code_simp
  have facts: "disk_ok changed_disk"
    "(''b.py'', ''h3'', sample_file ''b'' ''h3'' ''g'' [] []) \<in> set changed_disk"
    "wanted Incremental_Pass (file_hashes sample_indexed)
       (''b.py'', ''h3'', sample_file ''b'' ''h3'' ''g'' [] [])"
    "map_of (file_hashes sample_indexed) ''b.py'' \<noteq> None"
    "list_all (\<lambda>f. ''a.f'' \<notin> fst ` set (fl_calls f))
       (pn_upsert (plan_pass Incremental_Pass (file_hashes sample_indexed) changed_disk))"
    unfolding indexed
    by (simp_all add: plan_pass_eq disk_ok_def changed_disk_def sample_disk_def on_disk_def
        sample_file_def wanted_def unchanged_def parsed_ok_def)
  have "owned_by ''b.py'' (Code_Node Function_Label ''b.g'',
      the (node_at sample_indexed (Code_Node Function_Label ''b.g''))) \<and>
    has_node sample_indexed (Code_Node Function_Label ''b.g'')" by code_simp
  then obtain p where node: "node_at sample_indexed (Code_Node Function_Label ''b.g'') = Some p"
    and own: "owned_by ''b.py'' (Code_Node Function_Label ''b.g'', p)"
    by (auto simp: has_node_def)
  show "(Code_Node Function_Label ''a.f'', CALLS, Code_Node Function_Label ''b.g'')
      \<notin> set (g_edges (snd (index_repository sample_env Incremental_Pass changed_disk sample_indexed)))"
    by (rule incremental_pass_drops_inbound_calls [OF ready facts(1-4) node own facts(5)])
  show "(Code_Node Function_Label ''a.f'', CALLS, Code_Node Function_Label ''b.g'')
      \<in> set (g_edges (snd (index_repository sample_env Full_Pass changed_disk sample_indexed)))"
    by code_simp
qed

end
