(* ===== verification/Ranking.thy ===== *)
theory Ranking
  imports PyRegex "HOL-Library.Product_Lexorder"
begin

text \<open>
  How retrieval ranks and words its lookups (\<open>core/querying/service.py\<close>): the sort key of a hit,
  the graph names behind a conceptual question, and the full-text query. Scores are reals, paths
  and names ASCII text.
\<close>

section \<open>The sort key\<close>

definition normalized_path :: "string \<Rightarrow> string" where
  "normalized_path path =
     dropWhile (\<lambda>c. c = CHR ''.'' \<or> c = CHR ''/'') (replace_char CHR 0x5C CHR ''/'' path)"

definition source_priority :: "string \<Rightarrow> nat" where
  "source_priority path =
     (let p = normalized_path path
      in if starts_with p ''tests/'' \<or> contains ''/tests/'' p then 2
         else if starts_with p ''docs_src/'' \<or> contains ''/docs_src/'' p then 1
         else 0)"

definition package_local_priority :: "string \<Rightarrow> string \<Rightarrow> nat" where
  "package_local_priority qualified path =
     (if starts_with (py_lower (normalized_path path)) ''fastapi/''
         \<or> starts_with (py_lower qualified) ''fastapi.'' then 0 else 1)"

text \<open>\<open>re.sub(r"[^a-z0-9]", "", s.lower())\<close> and \<open>s.rstrip("s")\<close>\<close>

definition compact :: "string \<Rightarrow> string" where
  "compact s = filter (\<lambda>c. is_lower c \<or> is_digit c) (py_lower s)"

definition drop_plural :: "string \<Rightarrow> string" where
  "drop_plural s = rev (dropWhile (\<lambda>c. c = CHR ''s'') (rev s))"

definition file_stem :: "string \<Rightarrow> string" where
  "file_stem path =
     (let stem = rev (fst (partition_at CHR ''/'' (rev (replace_char CHR 0x5C CHR ''/'' path))))
      in if CHR ''.'' \<in> set stem then rpartition_head CHR ''.'' stem else stem)"

definition path_name_affinity :: "string \<Rightarrow> string \<Rightarrow> nat" where
  "path_name_affinity name path =
     (if name = [] \<or> path = [] then 2
      else
        (let stem = compact (file_stem path); needle = compact name;
             stem_root = drop_plural stem; name_root = drop_plural needle
         in if stem = [] \<or> stem = ''init'' \<or> needle = [] then 2
            else if stem_root = name_root \<or> stem = needle then 0
            else if stem_root \<noteq> [] \<and> contains stem_root needle then 0
            else if name_root \<noteq> [] \<and> contains name_root stem then 0
            else 1))"

definition tier_rank :: "string \<Rightarrow> nat" where
  "tier_rank t =
     (if t = ''exact'' then 0 else if t = ''fulltext'' then 1 else if t = ''lexical'' then 2 else 9)"

definition retrieval_sort_key ::
    "string \<Rightarrow> string \<Rightarrow> real \<Rightarrow> string \<Rightarrow> string \<Rightarrow> nat \<times> nat \<times> nat \<times> nat \<times> real" where
  "retrieval_sort_key tier path score name qualified =
     (tier_rank tier, source_priority path, package_local_priority qualified path,
      path_name_affinity name path, - score)"

section \<open>Conceptual questions\<close>

record concept =
  all_of :: "string list"
  any_of :: "string list"
  concept_names :: "string list"

definition concepts :: "concept list" where
  "concepts =
     [\<lparr>all_of = [''dependenc''],
       any_of = [''injection'', ''resolution'', ''inject'', ''injecting'', ''resolving''],
       concept_names = [''Depends'', ''get_dependant'', ''solve_dependencies'']\<rparr>,
      \<lparr>all_of = [''request'', ''lifecycle''], any_of = [],
       concept_names = [''APIRoute.get_request_handler'', ''run_endpoint_function'',
                        ''serialize_response'']\<rparr>,
      \<lparr>all_of = [''request'', ''validation''], any_of = [],
       concept_names = [''request_params_to_args'', ''request_body_to_args'',
                        ''RequestValidationError'']\<rparr>]"

definition concept_applies :: "string \<Rightarrow> concept \<Rightarrow> bool" where
  "concept_applies lowered c \<longleftrightarrow>
     list_all (\<lambda>t. contains t lowered) (all_of c) \<and>
     (any_of c = [] \<or> list_ex (\<lambda>t. contains t lowered) (any_of c))"

text \<open>\<open>seen\<close> holds lower-case names, \<open>extra\<close> the names as written.\<close>

fun add_unseen :: "string list \<Rightarrow> string list \<Rightarrow> string list \<Rightarrow> string list" where
  "add_unseen seen extra [] = extra"
| "add_unseen seen extra (n # ns) =
     (if py_lower n \<in> set seen then add_unseen seen extra ns
      else add_unseen (py_lower n # seen) (extra @ [n]) ns)"

definition conceptual_entity_names :: "string \<Rightarrow> string list" where
  "conceptual_entity_names query =
     add_unseen [py_lower (strip query)] []
       (concat (map concept_names (filter (concept_applies (py_lower query)) concepts)))"

section \<open>Full-text queries\<close>

definition fullmatch :: "rx \<Rightarrow> string \<Rightarrow> bool" where
  "fullmatch r s \<longleftrightarrow> length s \<in> set (ends r s 0)"

definition letter :: "char \<Rightarrow> bool" where
  "letter c \<longleftrightarrow> is_upper c \<or> is_lower c"

definition name_start :: "char \<Rightarrow> bool" where
  "name_start c \<longleftrightarrow> letter c \<or> c = CHR ''_''"

definition dotted_char :: "char \<Rightarrow> bool" where
  "dotted_char c \<longleftrightarrow> is_word c \<or> c = CHR ''.''"

definition identifier_text_rx :: rx where
  "identifier_text_rx = Seq (Chr name_start) (Star (Chr dotted_char))"

definition lucene_token_rx :: rx where
  "lucene_token_rx = Seq (Chr name_start) (Star (Chr is_word))"

definition proper_token_rx :: rx where
  "proper_token_rx =
     alts [Seq (Chr is_upper) (Plus (Chr is_word)),
           seqs [Plus (Chr is_lower), Chr is_upper, Star (Chr (\<lambda>c. letter c \<or> is_digit c))],
           seqs [Chr name_start, Star (Chr is_word), Lit ''.'', Plus (Chr dotted_char)]]"

definition lucene_stopwords :: "string list" where
  "lucene_stopwords =
     [''a'', ''an'', ''and'', ''are'', ''as'', ''at'', ''be'', ''by'', ''can'', ''codebase'', ''does'',
      ''example'', ''examples'', ''for'', ''from'', ''how'', ''i'', ''in'', ''implementation'',
      ''implemented'', ''is'', ''it'', ''me'', ''my'', ''of'', ''on'', ''or'', ''please'',
      ''repository'', ''show'', ''snippet'', ''snippets'', ''source'', ''the'', ''this'', ''to'',
      ''we'', ''what'', ''where'', ''who'', ''why'', ''with'', ''work'', ''works'', ''you'']"

definition sentence_starters :: "string list" where
  "sentence_starters = [''compare'', ''describe'', ''explain'', ''find'', ''list'', ''reindex'', ''show'']"

definition proper_token :: "string \<Rightarrow> bool" where
  "proper_token t \<longleftrightarrow> fullmatch proper_token_rx t"

definition proper_noun_tokens :: "string \<Rightarrow> string list" where
  "proper_noun_tokens s =
     add_unseen [] []
       (filter (\<lambda>t. 1 < length t \<and> py_lower t \<notin> set lucene_stopwords
                   \<and> py_lower t \<notin> set sentence_starters \<and> proper_token t)
          (find_all lucene_token_rx s))"

definition lucene_special :: "char \<Rightarrow> bool" where
  "lucene_special c \<longleftrightarrow> c \<in> set ''+-!(){}[]^~*?:/'' \<or> c = CHR 0x22 \<or> c = CHR 0x5C"

fun escape_lucene :: "string \<Rightarrow> string" where
  "escape_lucene (c # d # s) =
     (if lucene_special c then CHR 0x5C # c # escape_lucene (d # s)
      else if (c = CHR ''&'' \<or> c = CHR ''|'') \<and> d = c then CHR 0x5C # c # d # escape_lucene s
      else c # escape_lucene (d # s))"
| "escape_lucene [c] = (if lucene_special c then [CHR 0x5C, c] else [c])"
| "escape_lucene [] = []"

definition quoted_text :: "string \<Rightarrow> string" where
  "quoted_text s = [CHR 0x22] @ s @ [CHR 0x22]"

definition proper_noun_clause :: "string \<Rightarrow> string" where
  "proper_noun_clause t =
     ''(name:'' @ quoted_text t @ '' OR qualified_name:'' @ quoted_text t @ '' OR '' @ t @ '')''"

definition joined_clause :: "string \<Rightarrow> string list \<Rightarrow> string" where
  "joined_clause sep cs = (if 1 < length cs then ''('' @ join sep cs @ '')'' else join sep cs)"

definition lucene_content :: "string \<Rightarrow> string list" where
  "lucene_content stripped =
     filter (\<lambda>t. py_lower t \<notin> set lucene_stopwords)
       (add_unseen [] [] (map escape_lucene (filter (\<lambda>t. 1 < length t) (find_all lucene_token_rx stripped))))"

definition lucene_query :: "string \<Rightarrow> string" where
  "lucene_query s =
     (let stripped = strip s in
      if stripped = [] then ''''
      else if fullmatch identifier_text_rx stripped
      then (let q = quoted_text (escape_lucene stripped)
            in ''name:'' @ q @ '' OR qualified_name:'' @ q)
      else
        (let content = lucene_content stripped;
             required = filter (\<lambda>t. proper_token t \<and> py_lower t \<notin> set sentence_starters) content;
             optional = filter (\<lambda>t. t \<notin> set required) content
         in join '' AND ''
              ((if required \<noteq> [] then [joined_clause '' AND '' (map proper_noun_clause required)] else [])
               @ (if optional \<noteq> [] then [joined_clause '' OR '' optional] else []))))"

end
