(* ===== verification/Templates.thy ===== *)
theory Templates
  imports CypherGuard
begin

text \<open>
  The Cypher templates of \<open>core/querying/templates.py\<close> and the structural patterns of
  \<open>core/querying/patterns.py\<close>, as text, one line per list element.
\<close>

section \<open>Texts\<close>

definition lines_text :: "string list \<Rightarrow> string" where
  "lines_text ls = join newline ls"

definition find_entity :: string where
  "find_entity = lines_text
     [''MATCH (n)'',
      ''WHERE ('',
      ''        (n:Module OR n:Class OR n:Function OR n:Method)'',
      ''        AND (n.name = $name OR n.qualified_name = $name)'',
      ''      )'',
      ''   OR (n:File AND n.path = $name)'',
      ''WITH n, labels(n) AS labels'',
      ''WHERE $entity_type IS NULL OR $entity_type IN labels'',
      ''OPTIONAL MATCH (n)-[:DOCUMENTED_BY]->(d:Docstring)'',
      ''RETURN labels AS labels,'',
      ''       n.name AS name,'',
      ''       n.qualified_name AS qualified_name,'',
      ''       n.file_path AS file_path,'',
      ''       n.path AS path,'',
      ''       n.line_start AS line_start,'',
      ''       n.line_end AS line_end,'',
      ''       d.text AS docstring_text,'',
      ''       d.summary AS docstring_summary'']"

definition get_docstring :: string where
  "get_docstring = lines_text
     [''MATCH (n)'',
      ''WHERE (n:Module OR n:Class OR n:Function OR n:Method)'',
      ''  AND (n.qualified_name = $qualified_name OR n.name = $qualified_name)'',
      ''OPTIONAL MATCH (n)-[:DOCUMENTED_BY]->(d:Docstring)'',
      ''RETURN labels(n) AS labels,'',
      ''       n.name AS name,'',
      ''       n.qualified_name AS qualified_name,'',
      ''       n.file_path AS file_path,'',
      ''       n.line_start AS line_start,'',
      ''       n.line_end AS line_end,'',
      ''       d.text AS text,'',
      ''       d.summary AS summary'']"

definition find_imported_name :: string where
  "find_imported_name = lines_text
     [''MATCH (m:Module)-[:IMPORTS]->(i:Import)'',
      ''WHERE $name IN i.names OR i.alias = $name'',
      ''OPTIONAL MATCH (target)'',
      ''WHERE (target:Module OR target:Class OR target:Function OR target:Method)'',
      ''  AND target.name = $name'',
      ''  AND ('',
      ''        target.qualified_name = i.module + '.' + $name'',
      ''        OR ('',
      ''            i.module STARTS WITH '.'' @ [CHR 0x27],
      ''            AND size(i.module) > 1'',
      ''            AND target.qualified_name ENDS WITH ltrim(i.module, '.') + '.' + $name'',
      ''        )'',
      ''      )'',
      ''WITH collect(DISTINCT target) AS resolved, collect(DISTINCT m) AS importers'',
      ''WITH resolved,'',
      ''     importers,'',
      ''     [mod IN importers WHERE mod.file_path STARTS WITH 'fastapi/'] AS local_importers'',
      ''WITH size(resolved) > 0 AS exact,'',
      ''     CASE'',
      ''       WHEN size(resolved) > 0 THEN resolved'',
      ''       WHEN size(local_importers) > 0 THEN local_importers'',
      ''       ELSE importers'',
      ''     END AS hits'',
      ''UNWIND hits AS hit'',
      ''WITH DISTINCT hit, exact'',
      ''WHERE $entity_type IS NULL OR $entity_type IN labels(hit)'',
      ''RETURN labels(hit) AS labels,'',
      ''       hit.name AS name,'',
      ''       hit.qualified_name AS qualified_name,'',
      ''       hit.file_path AS file_path,'',
      ''       null AS path,'',
      ''       hit.line_start AS line_start,'',
      ''       hit.line_end AS line_end,'',
      ''       CASE WHEN exact THEN 1.0 ELSE 0.6 END AS score'',
      ''ORDER BY score DESC, size(coalesce(hit.file_path, '' @ [CHR 0x27, CHR 0x27] @ ''))'']"

definition get_dependencies_count :: string where
  "get_dependencies_count = lines_text
     [''CALL {'',
      ''    MATCH (n)'',
      ''    WHERE n.name = $name'',
      ''       OR n.qualified_name = $name'',
      ''       OR (n:File AND n.path = $name)'',
      ''    MATCH (n)-[r:IMPORTS|DEPENDS_ON|CALLS]->(m)'',
      ''    RETURN count(*) AS c'',
      ''    UNION ALL'',
      ''    MATCH (n:Class)'',
      ''    WHERE n.name = $name OR n.qualified_name = $name'',
      ''    MATCH (mod:Module)-[:CONTAINS]->(n)'',
      ''    MATCH (mod)-[r:IMPORTS|DEPENDS_ON]->(m)'',
      ''    RETURN count(*) AS c'',
      ''    UNION ALL'',
      ''    MATCH (n:Class)'',
      ''    WHERE n.name = $name OR n.qualified_name = $name'',
      ''    MATCH (n)-[:CONTAINS]->(meth:Method)'',
      ''    MATCH (meth)-[r:CALLS]->(m)'',
      ''    RETURN count(*) AS c'',
      ''}'',
      ''RETURN sum(c) AS total'']"

definition get_dependencies :: string where
  "get_dependencies = lines_text
     [''CALL {'',
      ''    MATCH (n)'',
      ''    WHERE n.name = $name'',
      ''       OR n.qualified_name = $name'',
      ''       OR (n:File AND n.path = $name)'',
      ''    MATCH (n)-[r:IMPORTS|DEPENDS_ON|CALLS]->(m)'',
      ''    WITH type(r) AS relationship_type,'',
      ''         'outgoing' AS direction,'',
      ''         labels(m) AS labels,'',
      ''         m.name AS name,'',
      ''         m.qualified_name AS qualified_name,'',
      ''         m.module AS module,'',
      ''         m.path AS path,'',
      ''         m.file_path AS file_path,'',
      ''         null AS hop,'',
      ''         COUNT { (m)<-[:IMPORTS|DEPENDS_ON|CALLS]-() } AS in_degree'',
      ''    ORDER BY in_degree DESC, coalesce(qualified_name, name)'',
      ''    RETURN relationship_type, direction, labels, name, qualified_name,'',
      ''           module, path, file_path, hop'',
      ''    LIMIT $branch_limit'',
      ''    UNION'',
      ''    MATCH (n:Class)'',
      ''    WHERE n.name = $name OR n.qualified_name = $name'',
      ''    MATCH (mod:Module)-[:CONTAINS]->(n)'',
      ''    MATCH (mod)-[r:IMPORTS|DEPENDS_ON]->(m)'',
      ''    WITH type(r) AS relationship_type,'',
      ''         'outgoing' AS direction,'',
      ''         labels(m) AS labels,'',
      ''         m.name AS name,'',
      ''         m.qualified_name AS qualified_name,'',
      ''         m.module AS module,'',
      ''         m.path AS path,'',
      ''         m.file_path AS file_path,'',
      ''         'Class->Module' AS hop,'',
      ''         COUNT { (m)<-[:IMPORTS|DEPENDS_ON|CALLS]-() } AS in_degree'',
      ''    ORDER BY in_degree DESC, coalesce(qualified_name, name)'',
      ''    RETURN relationship_type, direction, labels, name, qualified_name,'',
      ''           module, path, file_path, hop'',
      ''    LIMIT $branch_limit'',
      ''    UNION'',
      ''    MATCH (n:Class)'',
      ''    WHERE n.name = $name OR n.qualified_name = $name'',
      ''    MATCH (n)-[:CONTAINS]->(meth:Method)'',
      ''    MATCH (meth)-[r:CALLS]->(m)'',
      ''    WITH type(r) AS relationship_type,'',
      ''         'outgoing' AS direction,'',
      ''         labels(m) AS labels,'',
      ''         m.name AS name,'',
      ''         m.qualified_name AS qualified_name,'',
      ''         m.module AS module,'',
      ''         m.path AS path,'',
      ''         m.file_path AS file_path,'',
      ''         'Class->Method' AS hop,'',
      ''         COUNT { (m)<-[:IMPORTS|DEPENDS_ON|CALLS]-() } AS in_degree'',
      ''    ORDER BY in_degree DESC, coalesce(qualified_name, name)'',
      ''    RETURN relationship_type, direction, labels, name, qualified_name,'',
      ''           module, path, file_path, hop'',
      ''    LIMIT $branch_limit'',
      ''}'',
      ''RETURN relationship_type, direction, labels, name, qualified_name, module, path, file_path, hop'',
      ''ORDER BY CASE'',
      ''           WHEN hop IS NULL THEN 0'',
      ''           WHEN hop = 'Class->Module' THEN 1'',
      ''           ELSE 2'',
      ''         END,'',
      ''         name'']"

definition get_dependents_count :: string where
  "get_dependents_count = lines_text
     [''CALL {'',
      ''    MATCH (n)'',
      ''    WHERE n.name = $name'',
      ''       OR n.qualified_name = $name'',
      ''       OR (n:File AND n.path = $name)'',
      ''    MATCH (m)-[r:IMPORTS|DEPENDS_ON|CALLS]->(n)'',
      ''    RETURN count(*) AS c'',
      ''    UNION ALL'',
      ''    MATCH (n:Class)'',
      ''    WHERE n.name = $name OR n.qualified_name = $name'',
      ''    MATCH (mod:Module)-[:CONTAINS]->(n)'',
      ''    MATCH (m)-[r:IMPORTS|DEPENDS_ON]->(mod)'',
      ''    RETURN count(*) AS c'',
      ''    UNION ALL'',
      ''    MATCH (n:Class)'',
      ''    WHERE n.name = $name OR n.qualified_name = $name'',
      ''    MATCH (n)-[:CONTAINS]->(meth:Method)'',
      ''    MATCH (m)-[r:CALLS]->(meth)'',
      ''    RETURN count(*) AS c'',
      ''}'',
      ''RETURN sum(c) AS total'']"

definition get_dependents :: string where
  "get_dependents = lines_text
     [''CALL {'',
      ''    MATCH (n)'',
      ''    WHERE n.name = $name'',
      ''       OR n.qualified_name = $name'',
      ''       OR (n:File AND n.path = $name)'',
      ''    MATCH (m)-[r:IMPORTS|DEPENDS_ON|CALLS]->(n)'',
      ''    WITH type(r) AS relationship_type,'',
      ''         'incoming' AS direction,'',
      ''         labels(m) AS labels,'',
      ''         m.name AS name,'',
      ''         m.qualified_name AS qualified_name,'',
      ''         m.module AS module,'',
      ''         m.path AS path,'',
      ''         m.file_path AS file_path,'',
      ''         null AS hop,'',
      ''         COUNT { (m)<-[:IMPORTS|DEPENDS_ON|CALLS]-() } AS in_degree'',
      ''    ORDER BY in_degree DESC, coalesce(qualified_name, name)'',
      ''    RETURN relationship_type, direction, labels, name, qualified_name,'',
      ''           module, path, file_path, hop'',
      ''    LIMIT $branch_limit'',
      ''    UNION'',
      ''    MATCH (n:Class)'',
      ''    WHERE n.name = $name OR n.qualified_name = $name'',
      ''    MATCH (mod:Module)-[:CONTAINS]->(n)'',
      ''    MATCH (m)-[r:IMPORTS|DEPENDS_ON]->(mod)'',
      ''    WITH type(r) AS relationship_type,'',
      ''         'incoming' AS direction,'',
      ''         labels(m) AS labels,'',
      ''         m.name AS name,'',
      ''         m.qualified_name AS qualified_name,'',
      ''         m.module AS module,'',
      ''         m.path AS path,'',
      ''         m.file_path AS file_path,'',
      ''         'Class->Module' AS hop,'',
      ''         COUNT { (m)<-[:IMPORTS|DEPENDS_ON|CALLS]-() } AS in_degree'',
      ''    ORDER BY in_degree DESC, coalesce(qualified_name, name)'',
      ''    RETURN relationship_type, direction, labels, name, qualified_name,'',
      ''           module, path, file_path, hop'',
      ''    LIMIT $branch_limit'',
      ''    UNION'',
      ''    MATCH (n:Class)'',
      ''    WHERE n.name = $name OR n.qualified_name = $name'',
      ''    MATCH (n)-[:CONTAINS]->(meth:Method)'',
      ''    MATCH (m)-[r:CALLS]->(meth)'',
      ''    WITH type(r) AS relationship_type,'',
      ''         'incoming' AS direction,'',
      ''         labels(m) AS labels,'',
      ''         m.name AS name,'',
      ''         m.qualified_name AS qualified_name,'',
      ''         m.module AS module,'',
      ''         m.path AS path,'',
      ''         m.file_path AS file_path,'',
      ''         'Class->Method' AS hop,'',
      ''         COUNT { (m)<-[:IMPORTS|DEPENDS_ON|CALLS]-() } AS in_degree'',
      ''    ORDER BY in_degree DESC, coalesce(qualified_name, name)'',
      ''    RETURN relationship_type, direction, labels, name, qualified_name,'',
      ''           module, path, file_path, hop'',
      ''    LIMIT $branch_limit'',
      ''}'',
      ''RETURN relationship_type, direction, labels, name, qualified_name, module, path, file_path, hop'',
      ''ORDER BY CASE'',
      ''           WHEN hop IS NULL THEN 0'',
      ''           WHEN hop = 'Class->Module' THEN 1'',
      ''           ELSE 2'',
      ''         END,'',
      ''         name'']"

definition trace_imports :: string where
  "trace_imports = lines_text
     [''MATCH (n)'',
      ''WHERE n.name = $module OR n.qualified_name = $module'',
      ''OPTIONAL MATCH (owner:Module)-[:CONTAINS]->(n)'',
      ''WHERE n:Class'',
      ''WITH CASE'',
      ''       WHEN n:Module THEN n'',
      ''       ELSE owner'',
      ''     END AS src,'',
      ''     CASE'',
      ''       WHEN n:Class AND owner IS NOT NULL THEN 'Class->Module'' @ [CHR 0x27],
      ''       ELSE null'',
      ''     END AS hop'',
      ''WHERE src IS NOT NULL'',
      ''MATCH path = (src)-[:IMPORTS|DEPENDS_ON*1..5]->(dst)'',
      ''WHERE length(path) <= $depth'',
      ''RETURN [node IN nodes(path) | coalesce('',
      ''         node.qualified_name, node.module, node.name, node.path'',
      ''       )] AS nodes,'',
      ''       hop AS hop'']"

definition find_fulltext :: string where
  "find_fulltext = lines_text
     [''CALL db.index.fulltext.queryNodes($index_name, $lucene_query)'',
      ''YIELD node, score'',
      ''WITH node, score,'',
      ''     CASE WHEN node:Docstring THEN NULL ELSE node END AS direct'',
      ''OPTIONAL MATCH (owner)-[:DOCUMENTED_BY]->(node)'',
      ''WHERE node:Docstring'',
      ''WITH coalesce(direct, owner) AS n, score'',
      ''WHERE n IS NOT NULL'',
      ''  AND (n:Module OR n:Class OR n:Function OR n:Method)'',
      ''  AND ($entity_type IS NULL OR $entity_type IN labels(n))'',
      ''WITH n, max(score) AS score'',
      ''OPTIONAL MATCH (n)-[:DOCUMENTED_BY]->(d:Docstring)'',
      ''WITH n, score, d,'',
      ''     CASE'',
      ''       WHEN n.file_path STARTS WITH 'tests/' OR n.file_path CONTAINS '/tests/' THEN 2'',
      ''       WHEN n.file_path STARTS WITH 'docs_src/' OR n.file_path CONTAINS '/docs_src/' THEN 1'',
      ''       ELSE 0'',
      ''     END AS source_rank'',
      ''RETURN labels(n) AS labels,'',
      ''       n.name AS name,'',
      ''       n.qualified_name AS qualified_name,'',
      ''       n.file_path AS file_path,'',
      ''       n.path AS path,'',
      ''       n.line_start AS line_start,'',
      ''       n.line_end AS line_end,'',
      ''       score AS score,'',
      ''       d.text AS docstring_text,'',
      ''       d.summary AS docstring_summary'',
      ''ORDER BY source_rank, score DESC'',
      ''LIMIT $top_k'']"

definition vector_search :: string where
  "vector_search = lines_text
     [''CALL db.index.vector.queryNodes($index_name, $top_k, $query_vector)'',
      ''YIELD node, score'',
      ''WITH node, score'',
      ''WHERE ($entity_type IS NULL OR $entity_type IN labels(node))'',
      ''  AND (node:Class OR node:Function OR node:Method)'',
      ''  AND score >= $min_score'',
      ''OPTIONAL MATCH (node)-[:DOCUMENTED_BY]->(d:Docstring)'',
      ''RETURN labels(node) AS labels,'',
      ''       node.name AS name,'',
      ''       node.qualified_name AS qualified_name,'',
      ''       node.file_path AS file_path,'',
      ''       node.path AS path,'',
      ''       node.line_start AS line_start,'',
      ''       node.line_end AS line_end,'',
      ''       score AS score,'',
      ''       d.text AS docstring_text,'',
      ''       d.summary AS docstring_summary'',
      ''ORDER BY score DESC'',
      ''LIMIT $top_k'']"

definition find_related :: string where
  "find_related = lines_text
     [''MATCH (n)'',
      ''WHERE n.name = $name'',
      ''   OR n.qualified_name = $name'',
      ''   OR (n:File AND n.path = $name)'',
      ''MATCH (n)-[out]->(dst)'',
      ''WHERE type(out) = $relationship_type'',
      ''RETURN 'outgoing' AS direction,'',
      ''       type(out) AS relationship_type,'',
      ''       labels(dst) AS labels,'',
      ''       dst.name AS name,'',
      ''       dst.qualified_name AS qualified_name,'',
      ''       dst.module AS module,'',
      ''       dst.path AS path,'',
      ''       dst.file_path AS file_path'',
      ''UNION'',
      ''MATCH (n)'',
      ''WHERE n.name = $name'',
      ''   OR n.qualified_name = $name'',
      ''   OR (n:File AND n.path = $name)'',
      ''MATCH (src)-[inc]->(n)'',
      ''WHERE type(inc) = $relationship_type'',
      ''RETURN 'incoming' AS direction,'',
      ''       type(inc) AS relationship_type,'',
      ''       labels(src) AS labels,'',
      ''       src.name AS name,'',
      ''       src.qualified_name AS qualified_name,'',
      ''       src.module AS module,'',
      ''       src.path AS path,'',
      ''       src.file_path AS file_path'']"

definition pattern_decorator :: string where
  "pattern_decorator = lines_text
     [''MATCH (n)-[:DECORATED_BY]->(d:Decorator)'',
      ''WHERE (n:Function OR n:Method OR n:Class)'',
      ''  AND ('',
      ''    $path_prefix IS NULL'',
      ''    OR n.file_path STARTS WITH $path_prefix'',
      ''    OR n.file_path ENDS WITH '/' + $path_prefix'',
      ''    OR n.file_path = $path_prefix'',
      ''  )'',
      ''RETURN DISTINCT n.qualified_name AS qualified_name,'',
      ''       n.file_path AS file_path,'',
      ''       n.line_start AS line_start,'',
      ''       n.line_end AS line_end,'',
      ''       d.name AS subject'',
      ''ORDER BY subject, qualified_name'']"

definition pattern_dependency_injection :: string where
  "pattern_dependency_injection = lines_text
     [''MATCH (n)-[:HAS_PARAMETER]->(p:Parameter)'',
      ''WHERE (n:Function OR n:Method)'',
      ''  AND ('',
      ''    p.name CONTAINS 'Depends'' @ [CHR 0x27],
      ''    OR coalesce(p.annotation, '' @ [CHR 0x27, CHR 0x27] @ '') CONTAINS 'Depends'' @ [CHR 0x27],
      ''    OR coalesce(p.default, '' @ [CHR 0x27, CHR 0x27] @ '') CONTAINS 'Depends'' @ [CHR 0x27],
      ''  )'',
      ''RETURN DISTINCT n.qualified_name AS qualified_name,'',
      ''       n.file_path AS file_path,'',
      ''       n.line_start AS line_start,'',
      ''       n.line_end AS line_end'']"

definition pattern_factory :: string where
  "pattern_factory = lines_text
     [''MATCH (n)'',
      ''WHERE (n:Function OR n:Method)'',
      ''  AND ('',
      ''    toLower(n.name) CONTAINS 'factory'' @ [CHR 0x27],
      ''    OR toLower(n.name) STARTS WITH 'create_'' @ [CHR 0x27],
      ''    OR toLower(n.name) ENDS WITH '_factory'' @ [CHR 0x27],
      ''  )'',
      ''RETURN n.qualified_name AS qualified_name,'',
      ''       n.file_path AS file_path,'',
      ''       n.line_start AS line_start,'',
      ''       n.line_end AS line_end'']"

section \<open>Templates and the guard\<close>

text \<open>A search for several words that looks at a position only if its character starts one.\<close>

fun some_word :: "string list \<Rightarrow> string \<Rightarrow> bool" where
  "some_word ws [] = False"
| "some_word ws (c # s) =
     (if list_ex (\<lambda>w. w \<noteq> [] \<and> hd w = c) ws
      then (if list_ex (starts_with (c # s)) ws then True else some_word ws s)
      else some_word ws s)"

lemma some_word_iff: "[] \<notin> set ws \<Longrightarrow> some_word ws s \<longleftrightarrow> (\<exists>w \<in> set ws. contains w s)"
proof (induction ws s rule: some_word.induct)
  case (1 ws)
  then show ?case by auto
next
  case (2 ws c s)
  have start: "hd w = c" if "starts_with (c # s) w" "w \<noteq> []" for w using that by (cases w) auto
  show ?case
  proof (cases "list_ex (\<lambda>w. w \<noteq> [] \<and> hd w = c) ws")
    case True
    with 2 show ?thesis by (auto simp: list_ex_iff)
  next
    case False
    then have "\<not> starts_with (c # s) w" if "w \<in> set ws" for w
      using start [of w] that "2.prems" unfolding list_ex_iff by metis
    with False 2 show ?thesis by auto
  qed
qed

definition guarded_words :: "string list" where
  "guarded_words = ''LOAD'' # ''DB.'' # write_words"

definition quiet_line :: "string \<Rightarrow> bool" where
  "quiet_line l \<longleftrightarrow> \<not> some_word (''//'' # ''/*'' # guarded_words) (py_upper l)"

lemma starts_newline:
  "w \<noteq> [] \<Longrightarrow> n \<notin> set w \<Longrightarrow> starts_with (s @ n # t) w \<longleftrightarrow> starts_with s w"
proof (induction s w rule: starts_with.induct)
  case (3 c s p ps)
  then show ?case by (cases "ps = []") auto
qed auto

lemma contains_newline:
  "w \<noteq> [] \<Longrightarrow> n \<notin> set w \<Longrightarrow> contains w (s @ n # t) \<longleftrightarrow> contains w s \<or> contains w t"
proof (induction s)
  case Nil
  then show ?case by (cases w) auto
next
  case (Cons c s)
  then show ?case using starts_newline [of w n "c # s" t] by auto
qed

lemma contains_lines:
  "w \<noteq> [] \<Longrightarrow> CHR 0x0A \<notin> set w \<Longrightarrow>
     contains w (py_upper (lines_text ls)) \<longleftrightarrow> (\<exists>l \<in> set ls. contains w (py_upper l))"
proof (induction ls rule: induct_list012)
  case (3 l l' ls)
  have nl: "py_upper newline = newline" by code_simp
  from 3 nl show ?case by (simp add: lines_text_def py_upper_def newline_def contains_newline)
qed (auto simp: lines_text_def py_upper_def)

lemma contains_suffix: "contains w t \<Longrightarrow> contains w (u @ t)"
  by (induction u) auto

lemma skip_quoted_suffix: "\<exists>u. s = u @ skip_quoted q s"
proof (induction q s rule: skip_quoted.induct)
  case (3 q c d s)
  then show ?case by (auto simp: Cons_eq_append_conv)
qed auto

text \<open>Without comments, masking only blanks out text, so it creates no word.\<close>

definition uncommented :: "string \<Rightarrow> bool" where
  "uncommented s \<longleftrightarrow> \<not> contains ''//'' s \<and> \<not> contains ''/*'' s"

lemma uncommented_suffix: "uncommented (u @ t) \<Longrightarrow> uncommented t"
  using contains_suffix by (auto simp: uncommented_def)

lemma uncommented_Cons:
  "uncommented (c # s) \<Longrightarrow>
     uncommented s \<and> \<not> (c = CHR ''/'' \<and> starts_with s ''/'') \<and> \<not> (c = CHR ''/'' \<and> starts_with s ''*'')"
  by (auto simp: uncommented_def)

lemma masked_starts:
  "uncommented s \<Longrightarrow> CHR '' '' \<notin> set w \<Longrightarrow> starts_with (py_upper (strip_comments_and_strings s)) w \<Longrightarrow>
     starts_with (py_upper s) w"
proof (induction s arbitrary: w)
  case Nil
  then show ?case by simp
next
  case (Cons c s)
  note u = uncommented_Cons [OF Cons.prems(1)]
  show ?case
  proof (cases "is_quote c")
    case True
    have "upper_char CHR '' '' = CHR '' ''" by code_simp
    with True u Cons.prems show ?thesis by (cases w) (auto simp: py_upper_def)
  next
    case False
    with u Cons show ?thesis by (cases w) (auto simp: py_upper_def)
  qed
qed

lemma masked_contains:
  "uncommented s \<Longrightarrow> CHR '' '' \<notin> set w \<Longrightarrow> contains w (py_upper (strip_comments_and_strings s)) \<Longrightarrow>
     contains w (py_upper s)"
proof (induction s rule: strip_comments_and_strings.induct)
  case 1
  then show ?case by simp
next
  case (2 c s)
  note u = uncommented_Cons [OF "2.prems"(1)]
  obtain v where v: "s = v @ skip_quoted c s" using skip_quoted_suffix by blast
  have cont: "contains w (py_upper s) \<Longrightarrow> contains w (py_upper (c # s))" by (simp add: py_upper_def)
  show ?case
  proof (cases "starts_with (py_upper (strip_comments_and_strings (c # s))) w")
    case True
    from masked_starts [OF "2.prems"(1,2) this] show ?thesis by (auto simp: py_upper_def)
  next
    case False
    show ?thesis
    proof (cases "is_quote c")
      case True
      have "uncommented (skip_quoted c s)" using u v uncommented_suffix by metis
      moreover have "contains w (py_upper (strip_comments_and_strings (skip_quoted c s)))"
        using False True u "2.prems"(3) by (auto simp: py_upper_def)
      ultimately have "contains w (py_upper (skip_quoted c s))"
        using "2.IH" True u "2.prems"(2) by auto
      then have "contains w (py_upper s)"
        using contains_suffix v unfolding py_upper_def by (metis map_append)
      then show ?thesis by (rule cont)
    next
      case no_quote: False
      have "contains w (py_upper (strip_comments_and_strings s))"
        using False no_quote u "2.prems"(3) by (auto simp: py_upper_def)
      then have "contains w (py_upper s)" using "2.IH" no_quote u "2.prems"(2) by auto
      then show ?thesis by (rule cont)
    qed
  qed
qed


lemma lit_contained: "matches (Lit w) s i j \<Longrightarrow> i \<le> length s \<Longrightarrow> contains w s"
  by (auto elim!: matches_LitE simp: slice_def contains_iff) (metis append_take_drop_id)

lemma no_guarded_word:
  assumes "\<And>w. w \<in> set guarded_words \<Longrightarrow> \<not> contains w n"
  shows "\<not> offends n c k"
proof
  assume "offends n c k"
  then obtain r j where k: "k \<le> length n" and cl: "(c, r) \<in> set write_clauses"
    and m: "matches r n k j"
    by (auto simp: offends_def)
  from cl consider w where "w \<in> set write_words" "r = word_rx w" | "r = call_db_rx" | "r = load_csv_rx"
    by (auto simp: write_clauses_def)
  then show False
  proof cases
    case (1 w)
    with m have "found (word_rx w) n" using found_iff k by blast
    then have "contains w n" unfolding found_word_rx by (auto simp: contains_iff)
    with 1 assms [of w] show False by (simp add: guarded_words_def)
  next
    case 2
    with m obtain a b d where l: "matches (Lit ''CALL'') n k a" "matches (Chr is_space) n a b"
      "matches (Star (Chr is_space)) n b d" "matches (Lit ''DB.'') n d j"
      unfolding call_db_rx_def by (auto elim!: matches_SeqE matches_WordBE)
    have "d \<le> length n" using matches_range [OF l(1)] matches_range [OF l(2)] matches_range [OF l(3)] k
      by auto
    from lit_contained [OF l(4) this] assms [of "''DB.''"] show False by (simp add: guarded_words_def)
  next
    case 3
    with m obtain j' where "matches (Lit ''LOAD'') n k j'"
      unfolding load_csv_rx_def by (auto elim!: matches_SeqE matches_WordBE)
    from lit_contained [OF this k] assms [of "''LOAD''"] show False by (simp add: guarded_words_def)
  qed
qed

text \<open>A text whose lines are quiet passes the guard.\<close>

lemma quiet_words:
  assumes "list_all quiet_line ls" "w \<in> set (''//'' # ''/*'' # guarded_words)"
  shows "\<not> contains w (py_upper (lines_text ls))"
proof -
  let ?ws = "''//'' # ''/*'' # guarded_words"
  have "list_all (\<lambda>w. w \<noteq> [] \<and> CHR 0x0A \<notin> set w) ?ws" by code_simp
  then have "w \<noteq> []" "CHR 0x0A \<notin> set w" "[] \<notin> set ?ws" using assms(2) by (auto simp: list_all_iff)
  then show ?thesis
    using assms some_word_iff [of ?ws] contains_lines [of w ls]
    by (auto simp: quiet_line_def list_all_iff)
qed

lemma quiet_uncommented:
  assumes "list_all quiet_line ls"
  shows "uncommented (lines_text ls)"
proof -
  have "py_upper ''//'' = ''//''" "py_upper ''/*'' = ''/*''" by code_simp+
  moreover have "contains (py_upper w) (py_upper s)" if "contains w s" for w s
    using that unfolding contains_iff py_upper_def by (metis map_append)
  ultimately show ?thesis
    using quiet_words [OF assms, of "''//''"] quiet_words [OF assms, of "''/*''"]
    unfolding uncommented_def by (metis list.set_intros)
qed

lemma quiet_lines:
  assumes "list_all quiet_line ls"
  shows "guard_readonly (lines_text ls) = Inr (lines_text ls)"
proof -
  have blank: "list_all (\<lambda>w. CHR '' '' \<notin> set w) guarded_words" by code_simp
  have "\<not> contains w (normalize_cypher (lines_text ls))" if "w \<in> set guarded_words" for w
    using masked_contains [OF quiet_uncommented [OF assms], of w] quiet_words [OF assms, of w] that
      blank
    by (auto simp: normalize_cypher_def list_all_iff)
  then have "\<not> offends (normalize_cypher (lines_text ls)) c k" for c k
    by (intro no_guarded_word) simp
  then show ?thesis
    using guard_cases [of "lines_text ls"] by (auto split: sum.splits query_rejected.splits)
qed

lemma unlimited_lines:
  assumes "list_all quiet_line ls" "list_all (\<lambda>l. \<not> some_word [''LIMIT''] (py_upper l)) ls"
  shows "\<not> has_limit (lines_text ls)"
proof -
  have "CHR '' '' \<notin> set ''LIMIT''" "CHR 0x0A \<notin> set ''LIMIT''" by code_simp+
  moreover from this have "\<not> contains ''LIMIT'' (py_upper (lines_text ls))"
    using assms(2) some_word_iff [of "[''LIMIT'']"] contains_lines [of "''LIMIT''" ls]
    by (auto simp: list_all_iff)
  ultimately have "\<not> contains ''LIMIT'' (normalize_cypher (lines_text ls))"
    using masked_contains [OF quiet_uncommented [OF assms(1)]] by (auto simp: normalize_cypher_def)
  then show ?thesis unfolding has_limit_def found_word_rx by (auto simp: contains_iff)
qed

section \<open>Which templates are quiet\<close>

lemma find_entity_guarded: "guard_readonly find_entity = Inr find_entity"
  unfolding find_entity_def by (rule quiet_lines) code_simp

lemma find_imported_name_guarded: "guard_readonly find_imported_name = Inr find_imported_name"
  unfolding find_imported_name_def by (rule quiet_lines) code_simp

lemma get_docstring_guarded: "guard_readonly get_docstring = Inr get_docstring"
  unfolding get_docstring_def by (rule quiet_lines) code_simp

lemma get_dependencies_guarded: "guard_readonly get_dependencies = Inr get_dependencies"
  unfolding get_dependencies_def by (rule quiet_lines) code_simp

lemma get_dependencies_count_guarded: "guard_readonly get_dependencies_count = Inr get_dependencies_count"
  unfolding get_dependencies_count_def by (rule quiet_lines) code_simp

lemma get_dependents_guarded: "guard_readonly get_dependents = Inr get_dependents"
  unfolding get_dependents_def by (rule quiet_lines) code_simp

lemma get_dependents_count_guarded: "guard_readonly get_dependents_count = Inr get_dependents_count"
  unfolding get_dependents_count_def by (rule quiet_lines) code_simp

lemma trace_imports_guarded: "guard_readonly trace_imports = Inr trace_imports"
  unfolding trace_imports_def by (rule quiet_lines) code_simp

lemma find_related_guarded: "guard_readonly find_related = Inr find_related"
  unfolding find_related_def by (rule quiet_lines) code_simp

lemma pattern_decorator_guarded: "guard_readonly pattern_decorator = Inr pattern_decorator"
  unfolding pattern_decorator_def by (rule quiet_lines) code_simp

lemma pattern_dependency_injection_guarded: "guard_readonly pattern_dependency_injection = Inr pattern_dependency_injection"
  unfolding pattern_dependency_injection_def by (rule quiet_lines) code_simp

lemma find_entity_unlimited: "\<not> has_limit find_entity"
  unfolding find_entity_def by (rule unlimited_lines) code_simp+

lemmas guarded_templates =
  find_entity_guarded
  find_imported_name_guarded
  get_docstring_guarded
  get_dependencies_guarded
  get_dependencies_count_guarded
  get_dependents_guarded
  get_dependents_count_guarded
  trace_imports_guarded
  find_related_guarded
  pattern_decorator_guarded
  pattern_dependency_injection_guarded

text \<open>
  The lookups of the service pass its own read-only guard unchanged: no keyword, literal or subquery
  of a template is mistaken for a write.
\<close>

theorem templates_pass_guard:
  "list_all (\<lambda>t. guard_readonly t = Inr t)
     [find_entity, find_imported_name, get_docstring, get_dependencies, get_dependencies_count,
      get_dependents, get_dependents_count, trace_imports, find_related, pattern_decorator,
      pattern_dependency_injection]"
  by (simp add: guarded_templates)

end
