(* ===== verification/QueryService.thy ===== *)
theory QueryService
  imports Ranking CypherGuard Templates "HOL-Library.Multiset"
begin

text \<open>
  The read side of the graph (\<open>core/querying/service.py\<close>): guarded execution, the cascade of
  lookups behind \<open>find_entity\<close>, neighbours, import traces and statistics. The graph client is a
  parameter, a function from query text and parameters to rows or an error; so are \<open>float()\<close> and
  \<open>int()\<close> of a value and the embedding backend. The texts it runs are
  those of \<open>Templates\<close>.
\<close>

section \<open>Execution\<close>

type_synonym graph_client = "string \<Rightarrow> pydict \<Rightarrow> pydict list result"

record query_result =
  qr_cypher :: string
  qr_params :: pydict
  qr_rows :: "pydict list"
  qr_count :: nat
  qr_truncated :: bool

definition default_result_limit :: nat where
  "default_result_limit = 200"

definition ensure_limit :: "string \<Rightarrow> string \<times> bool" where
  "ensure_limit cypher =
     (if has_limit cypher then (cypher, False)
      else
        (let trimmed = rstrip cypher;
             trimmed = (if ends_with trimmed '';'' then rstrip (butlast trimmed) else trimmed)
         in (trimmed @ '' LIMIT '' @ str_nat default_result_limit, True)))"

definition rejected :: "query_rejected \<Rightarrow> exn" where
  "rejected q =
     (case q of QueryRejected c \<Rightarrow>
        OtherError ''QueryRejected'' (''rejected write clause: '' @ c))"

definition execute_query :: "graph_client \<Rightarrow> string \<Rightarrow> pydict \<Rightarrow> query_result result" where
  "execute_query client cypher params =
     (case guard_readonly cypher of
        Inl q \<Rightarrow> Inl (rejected q)
      | Inr guarded \<Rightarrow>
          (case ensure_limit guarded of
             (limited, applied_default) \<Rightarrow>
               (case client limited params of
                  Inl e \<Rightarrow> Inl e
                | Inr rows \<Rightarrow>
                    Inr \<lparr>qr_cypher = limited, qr_params = params, qr_rows = rows,
                         qr_count = length rows,
                         qr_truncated = (applied_default \<and> default_result_limit \<le> length rows)\<rparr>)))"

section \<open>Rows\<close>

record conversions =
  float_of :: "pyval \<Rightarrow> real"
  int_of :: "pyval \<Rightarrow> int"

definition str_values :: "pyval \<Rightarrow> string list" where
  "str_values v =
     (case v of
        PyNone \<Rightarrow> []
      | PyStr s \<Rightarrow> if s = [] then [] else [s]
      | PyList xs \<Rightarrow> filter (\<lambda>s. s \<noteq> []) (map py_str (filter (\<lambda>x. x \<noteq> PyNone) xs))
      | _ \<Rightarrow> [py_str v])"

definition str_option :: "pyval \<Rightarrow> string option" where
  "str_option v = (case v of PyNone \<Rightarrow> None | _ \<Rightarrow> (let t = py_str v in if t = [] then None else Some t))"

definition opt_int :: "conversions \<Rightarrow> pyval \<Rightarrow> int option" where
  "opt_int conv v = (if v = PyNone \<or> v = PyStr '''' then None else Some (int_of conv v))"

text \<open>\<open>str(v or "")\<close>\<close>

definition str_or_empty :: "pyval \<Rightarrow> string" where
  "str_or_empty v = (if truthy v then py_str v else '''')"

definition node_labels :: "string list" where
  "node_labels =
     [''Module'', ''Class'', ''Function'', ''Method'', ''Parameter'', ''Decorator'', ''Import'',
      ''Docstring'', ''File'', ''Meta'']"

definition find_entity_labels :: "string list" where
  "find_entity_labels = [''Module'', ''Class'', ''Function'', ''Method'', ''File'']"

definition relationship_types :: "string list" where
  "relationship_types =
     [''CONTAINS'', ''IMPORTS'', ''INHERITS_FROM'', ''CALLS'', ''DECORATED_BY'', ''HAS_PARAMETER'',
      ''DOCUMENTED_BY'', ''DEPENDS_ON'']"

definition primary_label :: "string list \<Rightarrow> string" where
  "primary_label labels =
     (case find (\<lambda>l. l \<in> set labels) node_labels of
        Some l \<Rightarrow> l
      | None \<Rightarrow> (case labels of [] \<Rightarrow> '''' | l # ls \<Rightarrow> l))"

record entity_hit =
  eh_type :: string
  eh_name :: string
  eh_qualified :: string
  eh_file :: string
  eh_path :: "string option"
  eh_start :: "int option"
  eh_end :: "int option"
  eh_tier :: string
  eh_score :: real
  eh_doc :: "string option"
  eh_summary :: "string option"

definition or_str :: "string \<Rightarrow> string \<Rightarrow> string" where
  "or_str a b = (if a \<noteq> [] then a else b)"

definition opt_text :: "string option \<Rightarrow> string" where
  "opt_text s = (case s of None \<Rightarrow> '''' | Some t \<Rightarrow> t)"

definition make_entity_hit :: "conversions \<Rightarrow> string \<Rightarrow> pydict \<Rightarrow> entity_hit" where
  "make_entity_hit conv tier row =
     (let qualified = str_or_empty (dget row ''qualified_name'');
          path = str_option (dget row ''path'');
          raw = dget row ''score''
      in \<lparr>eh_type = or_str (primary_label (str_values (dget row ''labels'')))
                          (str_or_empty (dget row ''entity_type'')),
          eh_name = (if truthy (dget row ''name'') then py_str (dget row ''name'')
                     else or_str (opt_text path) qualified),
          eh_qualified = qualified,
          eh_file = or_str (str_or_empty (dget row ''file_path'')) (opt_text path),
          eh_path = path,
          eh_start = opt_int conv (dget row ''line_start''),
          eh_end = opt_int conv (dget row ''line_end''),
          eh_tier = (case dget row ''tier'' of
                       PyStr t \<Rightarrow> if tier_rank t < 9 then t else tier | _ \<Rightarrow> tier),
          eh_score = (if raw \<noteq> PyNone \<and> raw \<noteq> PyStr '''' then float_of conv raw else 1),
          eh_doc = str_option (dget row ''docstring_text''),
          eh_summary = str_option (dget row ''docstring_summary'')\<rparr>)"

definition hit_key :: "entity_hit \<Rightarrow> string" where
  "hit_key h = or_str (eh_qualified h) (or_str (eh_file h) (or_str (opt_text (eh_path h)) (eh_name h)))"

definition hit_sort_key :: "entity_hit \<Rightarrow> nat \<times> nat \<times> nat \<times> nat \<times> real" where
  "hit_sort_key h =
     retrieval_sort_key (eh_tier h) (eh_file h) (eh_score h) (eh_name h) (eh_qualified h)"

section \<open>The cascade\<close>

text \<open>The accumulators of a retrieval: the hits, and the keys already seen.\<close>

type_synonym ranked = "entity_hit list \<times> string list"

definition merge_hit :: "entity_hit \<Rightarrow> ranked \<Rightarrow> ranked" where
  "merge_hit h r =
     (case r of (hits, seen) \<Rightarrow>
        if hit_key h = [] \<or> hit_key h \<in> set seen then (hits, seen)
        else (hits @ [h], hit_key h # seen))"

definition merge_hits :: "conversions \<Rightarrow> string \<Rightarrow> pydict list \<Rightarrow> ranked \<Rightarrow> ranked" where
  "merge_hits conv tier rows r = fold (merge_hit) (map (make_entity_hit conv tier) rows) r"

definition opt_value :: "string option \<Rightarrow> pyval" where
  "opt_value s = (case s of None \<Rightarrow> PyNone | Some t \<Rightarrow> PyStr t)"

definition merge_identifier_hits ::
    "graph_client \<Rightarrow> conversions \<Rightarrow> string option \<Rightarrow> string \<Rightarrow> ranked
      \<Rightarrow> (ranked \<times> bool) result" where
  "merge_identifier_hits client conv entity_type name r =
     (let params = [(''name'', PyStr name), (''entity_type'', opt_value entity_type)] in
      case execute_query client find_entity params of
        Inl e \<Rightarrow> Inl e
      | Inr exact \<Rightarrow>
          (let r = merge_hits conv ''exact'' (qr_rows exact) r in
           if \<not> fullmatch identifier_text_rx (strip name) then Inr (r, qr_truncated exact)
           else
             (case execute_query client find_imported_name params of
                Inl e \<Rightarrow> Inl e
              | Inr imported \<Rightarrow>
                  Inr (merge_hits conv ''exact'' (qr_rows imported) r,
                       qr_truncated exact \<or> qr_truncated imported))))"

text \<open>\<open>truncated = truncated or self._merge_identifier_hits(...)\<close> for each conceptual name.\<close>

fun merge_concepts ::
    "graph_client \<Rightarrow> conversions \<Rightarrow> string option \<Rightarrow> string list \<Rightarrow> ranked \<times> bool
      \<Rightarrow> (ranked \<times> bool) result" where
  "merge_concepts client conv ty [] (r, truncated) = Inr (r, truncated)"
| "merge_concepts client conv ty (n # ns) (r, truncated) =
     (if truncated then merge_concepts client conv ty ns (r, truncated)
      else
        (case merge_identifier_hits client conv ty n r of
           Inl e \<Rightarrow> Inl e
         | Inr (r', t) \<Rightarrow> merge_concepts client conv ty ns (r', t)))"

definition merge_fulltext ::
    "graph_client \<Rightarrow> conversions \<Rightarrow> string option \<Rightarrow> int \<Rightarrow> string \<Rightarrow> ranked \<times> bool
      \<Rightarrow> ranked \<times> bool" where
  "merge_fulltext client conv entity_type top_k query r =
     (if lucene_query query = [] then r
      else
        (case execute_query client find_fulltext
                [(''index_name'', PyStr ''code_search''),
                 (''lucene_query'', PyStr (lucene_query query)),
                 (''entity_type'', opt_value entity_type), (''top_k'', PyInt (max 1 top_k))] of
           Inl e \<Rightarrow> r
         | Inr f \<Rightarrow>
             (merge_hits conv ''fulltext'' (qr_rows f) (fst r),
              snd r \<or> qr_truncated f \<or> top_k \<le> int (qr_count f))))"


text \<open>
  The vector tier: it needs the flag and a backend whose vector space is the stored one. The
  service remembers the comparison; an unknown side does not block.
\<close>

definition vector_index_names :: "(string \<times> string) list" where
  "vector_index_names =
     [(''Function'', ''function_embeddings''), (''Method'', ''method_embeddings''),
      (''Class'', ''class_embeddings'')]"

record query_service =
  qs_client :: graph_client
  qs_enabled :: bool
  qs_embed :: "(string \<Rightarrow> string list list result) option"
  qs_fingerprint :: "string option"
  qs_min_score :: string
  qs_vectors_ok :: "bool option"

definition stored_fingerprint :: "graph_client \<Rightarrow> string option" where
  "stored_fingerprint client =
     (case client ''MATCH (m:Meta {key: $key}) RETURN m.value AS value''
             [(''key'', PyStr ''embedding_fingerprint'')] of
        Inl e \<Rightarrow> None
      | Inr [] \<Rightarrow> None
      | Inr (row # rows) \<Rightarrow> (case dget row ''value'' of PyStr s \<Rightarrow> Some s | _ \<Rightarrow> None))"

definition vectors_are_comparable :: "query_service \<Rightarrow> bool \<times> query_service" where
  "vectors_are_comparable q =
     (case qs_vectors_ok q of
        Some ok \<Rightarrow> (ok, q)
      | None \<Rightarrow>
          (let stored = stored_fingerprint (qs_client q);
               ok = (qs_fingerprint q = None \<or> stored = None \<or> qs_fingerprint q = stored)
           in (ok, q\<lparr>qs_vectors_ok := Some ok\<rparr>)))"

definition search_label ::
    "query_service \<Rightarrow> conversions \<Rightarrow> string option \<Rightarrow> int \<Rightarrow> string list \<Rightarrow> string \<Rightarrow> ranked \<Rightarrow> ranked" where
  "search_label q conv entity_type top_k vec label r =
     (case execute_query (qs_client q) vector_search
             [(''index_name'', PyStr (the (map_of vector_index_names label))),
              (''top_k'', PyInt (max 1 top_k)), (''query_vector'', PyList (map PyFloat vec)),
              (''entity_type'', opt_value entity_type), (''min_score'', PyFloat (qs_min_score q))] of
        Inl e \<Rightarrow> r
      | Inr res \<Rightarrow> merge_hits conv ''lexical'' (qr_rows res) r)"

text \<open>A vector is empty or all zero: \<open>not any(v)\<close>.\<close>

definition all_zero :: "string list \<Rightarrow> bool" where
  "all_zero v \<longleftrightarrow> list_all (\<lambda>x. \<not> truthy (PyFloat x)) v"

definition embedding_search ::
    "query_service \<Rightarrow> conversions \<Rightarrow> string \<Rightarrow> string option \<Rightarrow> int
      \<Rightarrow> entity_hit list result \<times> query_service" where
  "embedding_search q conv query entity_type top_k =
     (case qs_embed q of
        None \<Rightarrow> (Inr [], q)
      | Some backend \<Rightarrow>
          (case vectors_are_comparable q of
             (ok, q) \<Rightarrow>
               if \<not> ok then (Inr [], q)
               else
                 (case backend query of
                    Inl e \<Rightarrow> (Inl e, q)
                  | Inr [] \<Rightarrow> (Inr [], q)
                  | Inr (v # vs) \<Rightarrow>
                      if all_zero v then (Inr [], q)
                      else
                        (let labels = (case entity_type of
                                         Some t \<Rightarrow> if map_of vector_index_names t \<noteq> None then [t]
                                                    else map fst vector_index_names
                                       | None \<Rightarrow> map fst vector_index_names);
                             found = fold (search_label q conv entity_type top_k v) labels ([], [])
                         in (Inr (take (nat (max 1 top_k))
                                (sort_key (\<lambda>h. - eh_score h) (fst found))), q)))))"

section \<open>Lookups\<close>

record entity_query_result =
  er_matches :: "entity_hit list"
  er_count :: nat
  er_truncated :: bool
  er_error :: "string option"

definition invalid_entity_type :: "string \<Rightarrow> entity_query_result" where
  "invalid_entity_type t =
     \<lparr>er_matches = [], er_count = 0, er_truncated = False,
      er_error = Some (''Invalid entity_type '' @ repr_str t @ ''. Valid labels: ''
                       @ join '', '' find_entity_labels)\<rparr>"

definition exact_hits ::
    "query_service \<Rightarrow> conversions \<Rightarrow> string \<Rightarrow> string option \<Rightarrow> (ranked \<times> bool) result" where
  "exact_hits q conv query entity_type =
     (case merge_identifier_hits (qs_client q) conv entity_type query ([], []) of
        Inl e \<Rightarrow> Inl e
      | Inr (r, truncated) \<Rightarrow>
          merge_concepts (qs_client q) conv entity_type (conceptual_entity_names query) (r, truncated))"

definition merge_lexical ::
    "query_service \<Rightarrow> conversions \<Rightarrow> string \<Rightarrow> string option \<Rightarrow> int \<Rightarrow> ranked \<Rightarrow> ranked \<times> query_service" where
  "merge_lexical q conv query entity_type top_k r =
     (if \<not> qs_enabled q \<or> qs_embed q = None then (r, q)
      else
        (case embedding_search q conv query entity_type top_k of
           (Inl e, q) \<Rightarrow> (r, q)
         | (Inr hits, q) \<Rightarrow> (fold merge_hit hits r, q)))"

definition retrieve_valid ::
    "query_service \<Rightarrow> conversions \<Rightarrow> string \<Rightarrow> string option \<Rightarrow> int
      \<Rightarrow> entity_query_result result \<times> query_service" where
  "retrieve_valid q conv query entity_type top_k =
     (case exact_hits q conv query entity_type of
        Inl e \<Rightarrow> (Inl e, q)
      | Inr exact \<Rightarrow>
          (case merge_fulltext (qs_client q) conv entity_type top_k query exact of
             (r, truncated) \<Rightarrow>
               (case merge_lexical q conv query entity_type top_k r of
                  (r, q) \<Rightarrow>
                    (Inr \<lparr>er_matches = sort_key hit_sort_key (fst r),
                          er_count = length (fst r), er_truncated = truncated, er_error = None\<rparr>, q))))"

definition retrieve ::
    "query_service \<Rightarrow> conversions \<Rightarrow> string \<Rightarrow> string option \<Rightarrow> int
      \<Rightarrow> entity_query_result result \<times> query_service" where
  "retrieve q conv query entity_type top_k =
     (case entity_type of
        Some t \<Rightarrow> if t \<notin> set find_entity_labels then (Inr (invalid_entity_type t), q)
                  else retrieve_valid q conv query entity_type top_k
      | None \<Rightarrow> retrieve_valid q conv query entity_type top_k)"

section \<open>Docstrings\<close>

record docstring_hit =
  dh_type :: string
  dh_name :: string
  dh_qualified :: string
  dh_file :: string
  dh_start :: "int option"
  dh_end :: "int option"
  dh_text :: string
  dh_summary :: string

definition make_docstring_hit :: "conversions \<Rightarrow> pydict \<Rightarrow> docstring_hit" where
  "make_docstring_hit conv row =
     (let qualified = str_or_empty (dget row ''qualified_name'')
      in \<lparr>dh_type = or_str (primary_label (str_values (dget row ''labels'')))
                          (str_or_empty (dget row ''entity_type'')),
          dh_name = (if truthy (dget row ''name'') then py_str (dget row ''name'') else qualified),
          dh_qualified = qualified, dh_file = str_or_empty (dget row ''file_path''),
          dh_start = opt_int conv (dget row ''line_start''),
          dh_end = opt_int conv (dget row ''line_end''),
          dh_text = str_or_empty (dget row ''text''),
          dh_summary = str_or_empty (dget row ''summary'')\<rparr>)"

record docstring_result =
  dr_qualified :: string
  dr_matches :: "docstring_hit list"
  dr_count :: nat
  dr_truncated :: bool

definition get_docstring_hits ::
    "graph_client \<Rightarrow> conversions \<Rightarrow> string \<Rightarrow> docstring_result result" where
  "get_docstring_hits client conv qualified =
     (case execute_query client get_docstring [(''qualified_name'', PyStr qualified)] of
        Inl e \<Rightarrow> Inl e
      | Inr res \<Rightarrow>
          (let matches =
             sort_key (\<lambda>h. retrieval_sort_key ''exact'' (dh_file h) 1 (dh_name h) (dh_qualified h))
               (map (make_docstring_hit conv) (qr_rows res))
           in Inr \<lparr>dr_qualified = qualified, dr_matches = matches, dr_count = length matches,
                   dr_truncated = qr_truncated res\<rparr>))"

section \<open>Neighbours\<close>

record neighbor_hit =
  nh_type :: string
  nh_name :: string
  nh_qualified :: string
  nh_relationship :: string
  nh_incoming :: bool
  nh_file :: string
  nh_path :: "string option"
  nh_hop :: "string option"

definition make_neighbor_hit :: "pydict \<Rightarrow> neighbor_hit" where
  "make_neighbor_hit row =
     (let qualified = str_or_empty (dget row ''qualified_name''); path = str_option (dget row ''path'');
          modname = str_option (dget row ''module'')
      in \<lparr>nh_type = primary_label (str_values (dget row ''labels'')),
          nh_name = (if truthy (dget row ''name'') then py_str (dget row ''name'')
                     else or_str (opt_text modname) (or_str (opt_text path) qualified)),
          nh_qualified = qualified,
          nh_relationship = str_or_empty (dget row ''relationship_type''),
          nh_incoming = (dget row ''direction'' = PyStr ''incoming''),
          nh_file = or_str (str_or_empty (dget row ''file_path'')) (opt_text path),
          nh_path = path, nh_hop = str_option (dget row ''hop'')\<rparr>)"

definition unique_hops :: "neighbor_hit list \<Rightarrow> string list" where
  "unique_hops ns =
     add_all_new [] (List.map_filter (\<lambda>n. case nh_hop n of Some (c # cs) \<Rightarrow> Some (c # cs) | _ \<Rightarrow> None) ns)"

definition neighbor_total_of :: "conversions \<Rightarrow> pydict list \<Rightarrow> int \<Rightarrow> int" where
  "neighbor_total_of conv rows fallback =
     (case rows of
        [] \<Rightarrow> fallback
      | row # rest \<Rightarrow>
          (let raw = dget row ''total''
           in if raw = PyNone \<or> raw = PyStr '''' then fallback else max fallback (int_of conv raw)))"

record neighbor_query_result =
  nq_name :: string
  nq_neighbors :: "neighbor_hit list"
  nq_count :: nat
  nq_truncated :: bool
  nq_total :: int
  nq_hops :: "string list"

definition default_neighbor_branch_limit :: int where
  "default_neighbor_branch_limit = 20"

definition neighbor_query ::
    "graph_client \<Rightarrow> conversions \<Rightarrow> string \<Rightarrow> string \<Rightarrow> string \<Rightarrow> neighbor_query_result result" where
  "neighbor_query client conv text count_text name =
     (case execute_query client text
             [(''name'', PyStr name), (''branch_limit'', PyInt default_neighbor_branch_limit)] of
        Inl e \<Rightarrow> Inl e
      | Inr res \<Rightarrow>
          (let neighbors = map make_neighbor_hit (qr_rows res) in
           case execute_query client count_text [(''name'', PyStr name)] of
             Inl e \<Rightarrow> Inl e
           | Inr counts \<Rightarrow>
               (let total_count = neighbor_total_of conv (qr_rows counts) (int (length neighbors))
                in Inr \<lparr>nq_name = name, nq_neighbors = neighbors, nq_count = length neighbors,
                        nq_truncated = (int (length neighbors) < total_count \<or> qr_truncated res),
                        nq_total = total_count, nq_hops = unique_hops neighbors\<rparr>)))"

definition get_dependency_hits ::
    "graph_client \<Rightarrow> conversions \<Rightarrow> string \<Rightarrow> neighbor_query_result result" where
  "get_dependency_hits client conv name =
     neighbor_query client conv get_dependencies get_dependencies_count name"

definition get_dependent_hits ::
    "graph_client \<Rightarrow> conversions \<Rightarrow> string \<Rightarrow> neighbor_query_result result" where
  "get_dependent_hits client conv name =
     neighbor_query client conv get_dependents get_dependents_count name"

record import_trace =
  it_module :: string
  it_paths :: "string list list"
  it_depth :: int
  it_count :: nat
  it_truncated :: bool
  it_hop :: "string option"

definition default_trace_depth :: int where
  "default_trace_depth = 5"

definition trace_import_paths :: "graph_client \<Rightarrow> string \<Rightarrow> int \<Rightarrow> import_trace result" where
  "trace_import_paths client modname depth =
     (let capped = max 1 (min depth default_trace_depth) in
      case execute_query client trace_imports
             [(''module'', PyStr modname), (''depth'', PyInt capped)] of
        Inl e \<Rightarrow> Inl e
      | Inr res \<Rightarrow>
          Inr \<lparr>it_module = modname, it_paths = map (\<lambda>row. str_values (dget row ''nodes'')) (qr_rows res),
               it_depth = capped, it_count = qr_count res, it_truncated = qr_truncated res,
               it_hop = (case qr_rows res of [] \<Rightarrow> None | row # rows \<Rightarrow> str_option (dget row ''hop''))\<rparr>)"

record related_query_result =
  rq_name :: string
  rq_relationship :: string
  rq_neighbors :: "neighbor_hit list"
  rq_count :: nat
  rq_truncated :: bool
  rq_error :: "string option"

definition find_related_hits :: "graph_client \<Rightarrow> string \<Rightarrow> string \<Rightarrow> related_query_result result" where
  "find_related_hits client name rel =
     (if rel \<notin> set relationship_types
      then Inr \<lparr>rq_name = name, rq_relationship = rel, rq_neighbors = [], rq_count = 0,
                rq_truncated = False,
                rq_error = Some (''Invalid relationship_type '' @ repr_str rel @ ''. Valid types: ''
                                 @ join '', '' relationship_types)\<rparr>
      else
        (case execute_query client find_related
                [(''name'', PyStr name), (''relationship_type'', PyStr rel)] of
           Inl e \<Rightarrow> Inl e
         | Inr res \<Rightarrow>
             Inr \<lparr>rq_name = name, rq_relationship = rel,
                  rq_neighbors = map (\<lambda>row. (make_neighbor_hit row)\<lparr>nh_hop := None\<rparr>) (qr_rows res),
                  rq_count = qr_count res, rq_truncated = qr_truncated res, rq_error = None\<rparr>))"

section \<open>Statistics\<close>

definition count_rows :: "conversions \<Rightarrow> string \<Rightarrow> pydict list \<Rightarrow> (string \<times> int) list \<Rightarrow> (string \<times> int) list" where
  "count_rows conv key rows counts =
     fold (\<lambda>row m. case dget row key of
                     PyStr l \<Rightarrow> dset l (if truthy (dget row ''count'') then int_of conv (dget row ''count'')
                                       else 0) m
                   | _ \<Rightarrow> m) rows counts"

record graph_statistics =
  gs_nodes :: "(string \<times> int) list"
  gs_relationships :: "(string \<times> int) list"
  gs_version :: "string option"
  gs_indexed_at :: "string option"

definition get_statistics :: "graph_client \<Rightarrow> conversions \<Rightarrow> graph_statistics result" where
  "get_statistics client conv =
     (case client ''MATCH (n) UNWIND labels(n) AS label RETURN label, count(*) AS count'' [] of
        Inl e \<Rightarrow> Inl e
      | Inr label_rows \<Rightarrow>
          (case client ''MATCH ()-[r]->() RETURN type(r) AS relationship_type, count(*) AS count'' [] of
             Inl e \<Rightarrow> Inl e
           | Inr rel_rows \<Rightarrow>
               (case client (''MATCH (m:Meta {key: 'index_version'}) ''
                             @ ''RETURN m.value AS index_version, m.updated_at AS last_indexed_at'') [] of
                  Inl e \<Rightarrow> Inl e
                | Inr meta_rows \<Rightarrow>
                    (let meta = (case meta_rows of [] \<Rightarrow> [] | row # rows \<Rightarrow> row)
                     in Inr \<lparr>gs_nodes = count_rows conv ''label'' label_rows (map (\<lambda>l. (l, 0)) node_labels),
                             gs_relationships = count_rows conv ''relationship_type'' rel_rows
                                                  (map (\<lambda>l. (l, 0)) relationship_types),
                             gs_version = str_option (dget meta ''index_version''),
                             gs_indexed_at = str_option (dget meta ''last_indexed_at'')\<rparr>))))"

section \<open>What a lookup returns\<close>

definition ranked_ok :: "ranked \<Rightarrow> bool" where
  "ranked_ok r \<longleftrightarrow>
     distinct (map hit_key (fst r)) \<and> [] \<notin> hit_key ` set (fst r) \<and>
     set (snd r) = hit_key ` set (fst r)"

definition keeps_hits :: "ranked \<Rightarrow> ranked \<Rightarrow> bool" where
  "keeps_hits r r' \<longleftrightarrow> ranked_ok r' \<and> set (fst r) \<subseteq> set (fst r')"

lemma keeps_hits_trans: "keeps_hits r r' \<Longrightarrow> keeps_hits r' r'' \<Longrightarrow> keeps_hits r r''"
  by (auto simp: keeps_hits_def)

lemma merge_hit_ok: "ranked_ok r \<Longrightarrow> keeps_hits r (merge_hit h r)"
  by (auto simp: keeps_hits_def ranked_ok_def merge_hit_def split: prod.splits)

lemma merge_hit_has:
  "ranked_ok r \<Longrightarrow> hit_key h \<noteq> [] \<Longrightarrow> hit_key h \<in> hit_key ` set (fst (merge_hit h r))"
  by (auto simp: ranked_ok_def merge_hit_def split: prod.splits)

lemma fold_merge_hit:
  "ranked_ok r \<Longrightarrow> keeps_hits r (fold merge_hit hs r) \<and>
     (\<forall>h \<in> set hs. hit_key h \<noteq> [] \<longrightarrow> hit_key h \<in> hit_key ` set (fst (fold merge_hit hs r)))"
proof (induction hs arbitrary: r)
  case Nil
  then show ?case by (simp add: keeps_hits_def)
next
  case (Cons h hs)
  note step = merge_hit_ok [OF Cons.prems, of h]
  then have ok: "ranked_ok (merge_hit h r)" by (simp add: keeps_hits_def)
  note rest = Cons.IH [OF ok]
  have "hit_key h \<in> hit_key ` set (fst (fold merge_hit hs (merge_hit h r)))" if "hit_key h \<noteq> []"
    using merge_hit_has [OF Cons.prems that] rest by (auto simp: keeps_hits_def)
  with rest keeps_hits_trans [OF step] show ?case by auto
qed

lemma merge_hits_ok: "ranked_ok r \<Longrightarrow> keeps_hits r (merge_hits conv tier rows r)"
  using fold_merge_hit by (simp add: merge_hits_def)

lemma merge_hits_has:
  "ranked_ok r \<Longrightarrow> row \<in> set rows \<Longrightarrow> hit_key (make_entity_hit conv tier row) \<noteq> [] \<Longrightarrow>
     hit_key (make_entity_hit conv tier row) \<in> hit_key ` set (fst (merge_hits conv tier rows r))"
  using fold_merge_hit [of r "map (make_entity_hit conv tier) rows"] by (simp add: merge_hits_def)

text \<open>The identifiers whose rows a lookup of \<open>name\<close> must contain.\<close>

definition exact_rows :: "graph_client \<Rightarrow> string option \<Rightarrow> string \<Rightarrow> pydict list" where
  "exact_rows client entity_type name =
     (case execute_query client find_entity
             [(''name'', PyStr name), (''entity_type'', opt_value entity_type)] of
        Inl e \<Rightarrow> [] | Inr res \<Rightarrow> qr_rows res)"

lemma merge_identifier_hits_ok:
  assumes "ranked_ok r" "merge_identifier_hits client conv ty name r = Inr (r', t)"
  shows "keeps_hits r r' \<and>
    (\<forall>row \<in> set (exact_rows client ty name). hit_key (make_entity_hit conv ''exact'' row) \<noteq> [] \<longrightarrow>
       hit_key (make_entity_hit conv ''exact'' row) \<in> hit_key ` set (fst r'))"
proof -
  obtain exact where e: "execute_query client find_entity
      [(''name'', PyStr name), (''entity_type'', opt_value ty)] = Inr exact"
    using assms(2) by (auto simp: merge_identifier_hits_def Let_def split: sum.splits)
  let ?r = "merge_hits conv ''exact'' (qr_rows exact) r"
  have 1: "keeps_hits r ?r" by (rule merge_hits_ok [OF assms(1)])
  then have ok: "ranked_ok ?r" by (simp add: keeps_hits_def)
  have 2: "keeps_hits ?r r'"
    using assms(2) merge_hits_ok [OF ok] ok e
    by (auto simp: merge_identifier_hits_def Let_def keeps_hits_def split: sum.splits if_splits)
  have "hit_key (make_entity_hit conv ''exact'' row) \<in> hit_key ` set (fst r')"
    if "row \<in> set (qr_rows exact)" "hit_key (make_entity_hit conv ''exact'' row) \<noteq> []" for row
    using merge_hits_has [OF assms(1) that] 2 by (auto simp: keeps_hits_def)
  with keeps_hits_trans [OF 1 2] e show ?thesis by (simp add: exact_rows_def)
qed

lemma merge_concepts_ok:
  "ranked_ok r \<Longrightarrow> merge_concepts client conv ty ns (r, t) = Inr (r', t') \<Longrightarrow> keeps_hits r r'"
proof (induction ns arbitrary: r t)
  case Nil
  then show ?case by (simp add: keeps_hits_def)
next
  case (Cons n ns)
  show ?case
  proof (cases t)
    case True
    with Cons show ?thesis by simp
  next
    case False
    with Cons.prems obtain s u where s: "merge_identifier_hits client conv ty n r = Inr (s, u)"
      "merge_concepts client conv ty ns (s, u) = Inr (r', t')"
      by (auto split: sum.splits)
    with merge_identifier_hits_ok [OF Cons.prems(1) s(1)] have k: "keeps_hits r s" by blast
    then have "keeps_hits s r'" using Cons.IH [OF _ s(2)] by (simp add: keeps_hits_def)
    with k show ?thesis by (rule keeps_hits_trans)
  qed
qed

lemma merge_fulltext_ok:
  "ranked_ok (fst r) \<Longrightarrow> keeps_hits (fst r) (fst (merge_fulltext client conv ty k query r))"
  using merge_hits_ok by (auto simp: merge_fulltext_def keeps_hits_def split: sum.splits)

lemma merge_lexical_ok:
  "ranked_ok r \<Longrightarrow> keeps_hits r (fst (merge_lexical q conv query ty k r))"
  using fold_merge_hit [of r]
  by (auto simp: merge_lexical_def keeps_hits_def split: prod.splits sum.splits)


section \<open>Sample clients\<close>

definition sample_conv :: conversions where
  "sample_conv = \<lparr>float_of = (\<lambda>v. 1), int_of = (\<lambda>v. case v of PyInt i \<Rightarrow> i | _ \<Rightarrow> 0)\<rparr>"

text \<open>A client that knows the rows of some names, whatever it is asked for.\<close>

definition rows_client :: "(string \<times> pydict list) list \<Rightarrow> graph_client" where
  "rows_client t = (\<lambda>text params. Inr (case dget params ''name'' of
      PyStr n \<Rightarrow> (case map_of t n of Some rows \<Rightarrow> rows | None \<Rightarrow> []) | _ \<Rightarrow> []))"

definition sample_row :: "string \<Rightarrow> pydict" where
  "sample_row q = [(''labels'', PyList [PyStr ''Function'']), (''qualified_name'', PyStr q)]"

definition service_of :: "graph_client \<Rightarrow> query_service" where
  "service_of client = \<lparr>qs_client = client, qs_enabled = False, qs_embed = None,
     qs_fingerprint = None, qs_min_score = ''0.0'', qs_vectors_ok = None\<rparr>"

lemma execute_own_text:
  assumes "guard_readonly text = Inr text"
  shows "execute_query client text params =
    (case client (fst (ensure_limit text)) params of
       Inl e \<Rightarrow> Inl e
     | Inr rows \<Rightarrow> Inr \<lparr>qr_cypher = fst (ensure_limit text), qr_params = params, qr_rows = rows,
         qr_count = length rows,
         qr_truncated = (snd (ensure_limit text) \<and> default_result_limit \<le> length rows)\<rparr>)"
  using assms by (cases "ensure_limit text") (simp add: execute_query_def split: sum.splits)

section \<open>Cut-off lookups\<close>

text \<open>
  A lookup whose first query was cut off never looks up the concepts of the question: the calls
  that add them stand behind \<open>truncated or\<close>, which does not evaluate them. So a conceptual question
  that names a very common identifier loses exactly the entities it was mapped to.
\<close>

theorem cut_off_lookup_skips_concepts:
  assumes "merge_identifier_hits (qs_client q) conv ty query ([], []) = Inr (r, True)"
  shows "exact_hits q conv query ty = Inr (r, True)"
proof -
  have "merge_concepts (qs_client q) conv ty ns (r, True) = Inr (r, True)" for ns
    by (induction ns) simp_all
  with assms show ?thesis by (simp add: exact_hits_def)
qed

section \<open>Limits\<close>

text \<open>The first character of the text after a piece decides whether the piece ends there.\<close>

lemma piece_ok_hd: "t \<noteq> [] \<Longrightarrow> t' \<noteq> [] \<Longrightarrow> hd t = hd t' \<Longrightarrow> piece_ok p t = piece_ok p t'"
  by (cases p; cases t; cases t') auto

lemma render_nonempty: "render p \<noteq> []"
  by (cases p) auto

lemma pieces_ok_comment:
  "pieces_ok (ps @ [Line_Comment b]) \<Longrightarrow> CHR 0x0A \<notin> set b' \<Longrightarrow> pieces_ok (ps @ [Line_Comment b'])"
proof (induction ps)
  case Nil
  then show ?case by simp
next
  case (Cons p ps)
  have "piece_ok p (concat (map render (ps @ [Line_Comment b'])))"
  proof -
    have "hd (concat (map render (ps @ [Line_Comment b']))) = hd (concat (map render (ps @ [Line_Comment b])))"
      using render_nonempty by (cases ps) auto
    then show ?thesis
      using Cons.prems(1) piece_ok_hd [of "concat (map render (ps @ [Line_Comment b']))"
          "concat (map render (ps @ [Line_Comment b]))" p] render_nonempty
      by auto
  qed
  with Cons show ?case by simp
qed

lemma rstrip_after: "\<not> is_space c \<Longrightarrow> rstrip (u @ c # b) = u @ c # rstrip b"
proof -
  assume c: "\<not> is_space c"
  have "dropWhile is_space (rev b @ c # rev u) = dropWhile is_space (rev b) @ c # rev u"
    by (induction "rev b" arbitrary: b) (use c in \<open>auto simp: dropWhile_append3\<close>)
  then show ?thesis by (simp add: rstrip_def)
qed

lemma set_rstrip: "set (rstrip s) \<subseteq> set s"
  unfolding rstrip_def by (metis set_dropWhileD set_rev subsetI)

lemma ends_with_snoc: "ends_with (u @ [c]) [d] \<longleftrightarrow> c = d"
  by (simp add: ends_with_def)

text \<open>What the removal of white space and of a semicolon leaves of a text that ends in a comment.\<close>

lemma trimmed_comment:
  assumes "CHR 0x0A \<notin> set b"
  shows "\<exists>b'. CHR 0x0A \<notin> set b' \<and>
    (let t = rstrip (u @ ''//'' @ b)
     in if ends_with t '';'' then rstrip (butlast t) else t) = u @ ''//'' @ b'"
proof -
  have slash: "\<not> is_space CHR ''/''" by code_simp
  have r: "rstrip (u @ ''//'' @ c) = u @ ''//'' @ rstrip c" for c
    using rstrip_after [OF slash, of "u @ ''/''" c] by simp
  show ?thesis
  proof (cases "rstrip b" rule: rev_cases)
    case Nil
    have "\<not> ends_with (u @ ''//'') '';''" using ends_with_snoc [of "u @ ''/''"] by simp
    then show ?thesis unfolding r Nil by (intro exI [of _ "''''"]) simp
  next
    case (snoc c x)
    then have c: "CHR 0x0A \<notin> set c" "CHR 0x0A \<notin> set (rstrip b)"
      using assms set_rstrip [of b] by auto
    have b: "butlast (u @ ''//'' @ c @ [x]) = u @ ''//'' @ c"
      by (metis append.assoc butlast_snoc)
    show ?thesis
    proof (cases "ends_with (u @ ''//'' @ c @ [x]) '';''")
      case True
      moreover have "rstrip (butlast (u @ ''//'' @ c @ [x])) = u @ ''//'' @ rstrip c"
        unfolding b by (rule r)
      ultimately show ?thesis unfolding r snoc Let_def using c set_rstrip [of c]
        by (intro exI [of _ "rstrip c"]) auto
    next
      case False
      then show ?thesis unfolding r snoc Let_def using c snoc by (intro exI [of _ "c @ [x]"]) auto
    qed
  qed
qed

text \<open>
  The default limit is lost behind a comment: it is appended to the text, so in a query whose last
  line ends in a line comment it becomes part of the comment. The database is then sent a query
  without any limit, although the result is reported as capped.
\<close>

theorem limit_in_comment_is_lost:
  assumes "pieces_ok (ps @ [Line_Comment b])"
    and "\<not> has_limit (concat (map render (ps @ [Line_Comment b])))"
  shows "snd (ensure_limit (concat (map render (ps @ [Line_Comment b])))) \<and>
    \<not> has_limit (fst (ensure_limit (concat (map render (ps @ [Line_Comment b])))))"
proof -
  let ?u = "concat (map render ps)"
  have b: "CHR 0x0A \<notin> set b" using assms(1) by (induction ps) auto
  obtain b' where b': "CHR 0x0A \<notin> set b'"
    "(let t = rstrip (?u @ ''//'' @ b)
      in if ends_with t '';'' then rstrip (butlast t) else t) = ?u @ ''//'' @ b'"
    using trimmed_comment [OF b] by blast
  let ?tail = "'' LIMIT '' @ str_nat default_result_limit"
  have nl: "CHR 0x0A \<notin> set (b' @ ?tail)"
  proof -
    have "CHR 0x0A \<notin> set ?tail" by code_simp
    with b'(1) show ?thesis by simp
  qed
  have limited: "ensure_limit (concat (map render (ps @ [Line_Comment b]))) =
      (concat (map render (ps @ [Line_Comment (b' @ ?tail)])), True)"
    using assms(2) b'(2) by (simp add: ensure_limit_def Let_def)
  have "strip_comments_and_strings (concat (map render (ps @ [Line_Comment (b' @ ?tail)]))) =
      strip_comments_and_strings (concat (map render (ps @ [Line_Comment b])))"
    using strip_pieces [OF assms(1)] strip_pieces [OF pieces_ok_comment [OF assms(1) nl]] by simp
  with assms(2) limited show ?thesis by (simp add: has_limit_def normalize_cypher_def)
qed

definition commented_query :: "piece list" where
  "commented_query = map Code ''MATCH (n) RETURN n ''"

theorem limit_in_comment_is_lost_witness:
  "fst (ensure_limit ''MATCH (n) RETURN n // all nodes;'') =
     ''MATCH (n) RETURN n // all nodes LIMIT 200'' \<and>
   \<not> has_limit (fst (ensure_limit ''MATCH (n) RETURN n // all nodes;''))"
proof -
  have "pieces_ok (commented_query @ [Line_Comment '' all nodes;''])"
    "\<not> has_limit (concat (map render (commented_query @ [Line_Comment '' all nodes;''])))"
    "concat (map render (commented_query @ [Line_Comment '' all nodes;''])) =
       ''MATCH (n) RETURN n // all nodes;''"
    "fst (ensure_limit ''MATCH (n) RETURN n // all nodes;'') =
       ''MATCH (n) RETURN n // all nodes LIMIT 200''"
    by code_simp+
  with limit_in_comment_is_lost [OF this(1,2)] show ?thesis by simp
qed

section \<open>Lookups of sample clients\<close>

lemma exact_rows_client:
  "exact_rows (rows_client t) ty n = (case map_of t n of Some rows \<Rightarrow> rows | None \<Rightarrow> [])"
  by (simp add: exact_rows_def execute_own_text guarded_templates rows_client_def)

lemma merge_identifier_hits_client:
  "merge_identifier_hits (rows_client t) conv ty n r =
     (let rows = (case map_of t n of Some rows \<Rightarrow> rows | None \<Rightarrow> []);
          exact = merge_hits conv ''exact'' rows r;
          full = default_result_limit \<le> length rows;
          cut = snd (ensure_limit find_entity) \<and> full
      in if \<not> fullmatch identifier_text_rx (strip n) then Inr (exact, cut)
         else Inr (merge_hits conv ''exact'' rows exact,
                   cut \<or> (snd (ensure_limit find_imported_name) \<and> full)))"
  by (simp add: merge_identifier_hits_def execute_own_text guarded_templates rows_client_def Let_def)


definition crowded_question :: string where
  "crowded_question = ''dependency injection''"

definition crowd :: "pydict list" where
  "crowd = replicate default_result_limit (sample_row ''a.f'')"

definition crowded_client :: graph_client where
  "crowded_client =
     rows_client [(crowded_question, crowd), (''Depends'', [sample_row ''fastapi.params.Depends''])]"

theorem cut_off_lookup_skips_concepts_witness:
  "conceptual_entity_names crowded_question = [''Depends'', ''get_dependant'', ''solve_dependencies''] \<and>
   exact_rows crowded_client None ''Depends'' = [sample_row ''fastapi.params.Depends''] \<and>
   exact_hits (service_of crowded_client) sample_conv crowded_question None =
     Inr (merge_hits sample_conv ''exact'' crowd ([], []), True)"
proof -
  have "\<not> fullmatch identifier_text_rx (strip crowded_question)" by code_simp
  then have "merge_identifier_hits (qs_client (service_of crowded_client)) sample_conv None
      crowded_question ([], []) = Inr (merge_hits sample_conv ''exact'' crowd ([], []), True)"
    using find_entity_unlimited
    by (simp add: service_of_def crowded_client_def merge_identifier_hits_client Let_def
        ensure_limit_def crowd_def)
  note skipped = cut_off_lookup_skips_concepts [OF this]
  have "conceptual_entity_names crowded_question = [''Depends'', ''get_dependant'', ''solve_dependencies'']"
    by code_simp
  moreover have "exact_rows crowded_client None ''Depends'' = [sample_row ''fastapi.params.Depends'']"
    by (simp add: crowded_client_def exact_rows_client crowded_question_def)
  ultimately show ?thesis using skipped by simp
qed

end
