(* ===== verification/GraphReads.thy ===== *)
theory GraphReads
  imports QueryService GraphStore "HOL-Library.List_Lexorder" "HOL-Library.Char_ord"
begin

text \<open>
  What the neighbour templates (\<open>GET_DEPENDENCIES\<close>, \<open>GET_DEPENDENTS\<close> and their counts) return on a
  graph: three branches, each ordered and cut to the branch limit, united without duplicates, while
  the count adds up the matches of the branches as they are. \<open>graph_reader\<close> is the client that
  answers the service from a graph.
\<close>

section \<open>Neighbours of a name\<close>

fun labels_of :: "node_id \<Rightarrow> string list" where
  "labels_of (File_Node p) = [''File'']"
| "labels_of (Code_Node Module_Label q) = [''Module'']"
| "labels_of (Code_Node Class_Label q) = [''Class'']"
| "labels_of (Code_Node Function_Label q) = [''Function'']"
| "labels_of (Code_Node Method_Label q) = [''Method'']"
| "labels_of (Parameter_Node f i) = [''Parameter'']"
| "labels_of (Decorator_Node d) = [''Decorator'']"
| "labels_of (Import_Node f i) = [''Import'']"
| "labels_of (Docstring_Node d) = [''Docstring'']"
| "labels_of (Meta_Node k) = [''Meta'']"

fun rel_name :: "rel_type \<Rightarrow> string" where
  "rel_name CONTAINS = ''CONTAINS''"
| "rel_name IMPORTS = ''IMPORTS''"
| "rel_name INHERITS_FROM = ''INHERITS_FROM''"
| "rel_name CALLS = ''CALLS''"
| "rel_name DECORATED_BY = ''DECORATED_BY''"
| "rel_name HAS_PARAMETER = ''HAS_PARAMETER''"
| "rel_name DOCUMENTED_BY = ''DOCUMENTED_BY''"
| "rel_name DEPENDS_ON = ''DEPENDS_ON''"

definition props_of :: "graph \<Rightarrow> node_id \<Rightarrow> pydict" where
  "props_of g i = (case node_at g i of None \<Rightarrow> [] | Some p \<Rightarrow> p)"

definition has_name :: "string \<Rightarrow> node_id \<times> pydict \<Rightarrow> bool" where
  "has_name name n \<longleftrightarrow>
     dget (snd n) ''name'' = PyStr name \<or> dget (snd n) ''qualified_name'' = PyStr name"

definition start_nodes :: "graph \<Rightarrow> string \<Rightarrow> node_id list" where
  "start_nodes g name =
     map fst (filter (\<lambda>n. has_name name n \<or>
                        labels_of (fst n) = [''File''] \<and> dget (snd n) ''path'' = PyStr name) (g_nodes g))"

definition class_nodes :: "graph \<Rightarrow> string \<Rightarrow> node_id list" where
  "class_nodes g name =
     map fst (filter (\<lambda>n. labels_of (fst n) = [''Class''] \<and> has_name name n) (g_nodes g))"

datatype direction = Outgoing | Incoming

text \<open>The far ends of the edges of the given types at a node, in the direction that is asked for.\<close>

definition far_ends :: "graph \<Rightarrow> direction \<Rightarrow> rel_type list \<Rightarrow> node_id \<Rightarrow> (rel_type \<times> node_id) list" where
  "far_ends g dir rels i =
     List.map_filter
       (\<lambda>(a, r, b). if r \<in> set rels
                    then (case dir of
                            Outgoing \<Rightarrow> if a = i then Some (r, b) else None
                          | Incoming \<Rightarrow> if b = i then Some (r, a) else None)
                    else None) (g_edges g)"

definition owners :: "graph \<Rightarrow> node_id \<Rightarrow> node_id list" where
  "owners g i = filter (\<lambda>m. labels_of m = [''Module'']) (map snd (far_ends g Incoming [CONTAINS] i))"

definition methods_in :: "graph \<Rightarrow> node_id \<Rightarrow> node_id list" where
  "methods_in g i = filter (\<lambda>m. labels_of m = [''Method'']) (map snd (far_ends g Outgoing [CONTAINS] i))"

type_synonym neighbour = "(rel_type \<times> node_id) \<times> string option"

definition direct_branch :: "graph \<Rightarrow> direction \<Rightarrow> string \<Rightarrow> neighbour list" where
  "direct_branch g dir name =
     map (\<lambda>x. (x, None))
       (concat (map (far_ends g dir [IMPORTS, DEPENDS_ON, CALLS]) (start_nodes g name)))"

definition module_branch :: "graph \<Rightarrow> direction \<Rightarrow> string \<Rightarrow> neighbour list" where
  "module_branch g dir name =
     map (\<lambda>x. (x, Some ''Class->Module''))
       (concat (map (far_ends g dir [IMPORTS, DEPENDS_ON])
                  (concat (map (owners g) (class_nodes g name)))))"

definition method_branch :: "graph \<Rightarrow> direction \<Rightarrow> string \<Rightarrow> neighbour list" where
  "method_branch g dir name =
     map (\<lambda>x. (x, Some ''Class->Method''))
       (concat (map (far_ends g dir [CALLS]) (concat (map (methods_in g) (class_nodes g name)))))"

definition branches :: "graph \<Rightarrow> direction \<Rightarrow> string \<Rightarrow> neighbour list list" where
  "branches g dir name = [direct_branch g dir name, module_branch g dir name, method_branch g dir name]"

text \<open>The count template: \<open>UNION ALL\<close> of the branches.\<close>

definition neighbour_count :: "graph \<Rightarrow> direction \<Rightarrow> string \<Rightarrow> nat" where
  "neighbour_count g dir name = sum_list (map length (branches g dir name))"

section \<open>Rows\<close>

definition neighbour_row :: "graph \<Rightarrow> direction \<Rightarrow> neighbour \<Rightarrow> pydict" where
  "neighbour_row g dir n =
     (case n of
        ((r, m), hop) \<Rightarrow>
          (let p = props_of g m
           in [(''relationship_type'', PyStr (rel_name r)),
               (''direction'', PyStr (case dir of Outgoing \<Rightarrow> ''outgoing'' | Incoming \<Rightarrow> ''incoming'')),
               (''labels'', PyList (map PyStr (labels_of m))), (''name'', dget p ''name''),
               (''qualified_name'', dget p ''qualified_name''), (''module'', dget p ''module''),
               (''path'', dget p ''path''), (''file_path'', dget p ''file_path''),
               (''hop'', opt_value hop)]))"

text \<open>Ascending order of text with nulls last.\<close>

definition text_key :: "pyval \<Rightarrow> nat \<times> string" where
  "text_key v = (case v of PyStr s \<Rightarrow> (0, s) | _ \<Rightarrow> (1, ''''))"

definition in_degree :: "graph \<Rightarrow> node_id \<Rightarrow> nat" where
  "in_degree g m = length (far_ends g Incoming [IMPORTS, DEPENDS_ON, CALLS] m)"

definition branch_key :: "graph \<Rightarrow> neighbour \<Rightarrow> int \<times> nat \<times> string" where
  "branch_key g n =
     (let p = props_of g (snd (fst n));
          q = dget p ''qualified_name''
      in (- int (in_degree g (snd (fst n))), text_key (if q = PyNone then dget p ''name'' else q)))"

definition branch_rows :: "graph \<Rightarrow> direction \<Rightarrow> nat \<Rightarrow> neighbour list \<Rightarrow> pydict list" where
  "branch_rows g dir branch_limit ns =
     map (neighbour_row g dir) (take branch_limit (sort_key (branch_key g) ns))"

definition hop_rank :: "pyval \<Rightarrow> nat" where
  "hop_rank v = (if v = PyNone then 0 else if v = PyStr ''Class->Module'' then 1 else 2)"

definition neighbour_rows :: "graph \<Rightarrow> direction \<Rightarrow> nat \<Rightarrow> string \<Rightarrow> pydict list" where
  "neighbour_rows g dir branch_limit name =
     sort_key (\<lambda>row. (hop_rank (dget row ''hop''), text_key (dget row ''name'')))
       (remdups (concat (map (branch_rows g dir branch_limit) (branches g dir name))))"

text \<open>
  The client that answers the neighbour lookups of one direction from the graph: the query with a
  branch limit, and the count without one.
\<close>

definition graph_reader :: "graph \<Rightarrow> direction \<Rightarrow> graph_client" where
  "graph_reader g dir text params =
     Inr (case dget params ''branch_limit'' of
            PyInt branch_limit \<Rightarrow> neighbour_rows g dir (nat branch_limit) (py_str (dget params ''name''))
          | _ \<Rightarrow> [[(''total'', PyInt (int (neighbour_count g dir (py_str (dget params ''name'')))))]])"

section \<open>Neighbours by the edges of the graph\<close>

definition edge_from :: "graph \<Rightarrow> direction \<Rightarrow> node_id \<Rightarrow> rel_type \<Rightarrow> node_id \<Rightarrow> bool" where
  "edge_from g dir i r m \<longleftrightarrow> (if dir = Outgoing then (i, r, m) else (m, r, i)) \<in> set (g_edges g)"

text \<open>What the templates are written to find, in terms of edges alone.\<close>

definition reaches :: "graph \<Rightarrow> direction \<Rightarrow> string \<Rightarrow> neighbour \<Rightarrow> bool" where
  "reaches g dir name n \<longleftrightarrow>
     (case n of
        ((r, m), hop) \<Rightarrow>
          (hop = None \<and> r \<in> {IMPORTS, DEPENDS_ON, CALLS} \<and>
             (\<exists>i \<in> set (start_nodes g name). edge_from g dir i r m)) \<or>
          (hop = Some ''Class->Module'' \<and> r \<in> {IMPORTS, DEPENDS_ON} \<and>
             (\<exists>c \<in> set (class_nodes g name). \<exists>i. labels_of i = [''Module''] \<and>
                edge_from g Outgoing i CONTAINS c \<and> edge_from g dir i r m)) \<or>
          (hop = Some ''Class->Method'' \<and> r = CALLS \<and>
             (\<exists>c \<in> set (class_nodes g name). \<exists>i. labels_of i = [''Method''] \<and>
                edge_from g Outgoing c CONTAINS i \<and> edge_from g dir i r m)))"

lemma far_ends_edges: "(r, m) \<in> set (far_ends g dir rels i) \<longleftrightarrow> r \<in> set rels \<and> edge_from g dir i r m"
  by (cases dir)
    (force simp: far_ends_def edge_from_def List.map_filter_def split: if_splits)+

lemma edge_from_Incoming: "edge_from g Incoming i r m \<longleftrightarrow> edge_from g Outgoing m r i"
  by (simp add: edge_from_def)

lemma ends_edges: "m \<in> snd ` set (far_ends g dir [r] i) \<longleftrightarrow> edge_from g dir i r m"
proof -
  have "m \<in> snd ` set (far_ends g dir [r] i) \<longleftrightarrow> (\<exists>r'. (r', m) \<in> set (far_ends g dir [r] i))"
    by force
  then show ?thesis by (simp add: far_ends_edges)
qed

lemma owners_edges: "m \<in> set (owners g i) \<longleftrightarrow> labels_of m = [''Module''] \<and> edge_from g Outgoing m CONTAINS i"
  by (auto simp: owners_def ends_edges edge_from_Incoming)

lemma methods_edges: "m \<in> set (methods_in g i) \<longleftrightarrow> labels_of m = [''Method''] \<and> edge_from g Outgoing i CONTAINS m"
  by (auto simp: methods_in_def ends_edges)

lemma in_branches:
  "((r, m), hop) \<in> set (direct_branch g dir name) \<longleftrightarrow> hop = None \<and> r \<in> {IMPORTS, DEPENDS_ON, CALLS} \<and>
     (\<exists>i \<in> set (start_nodes g name). edge_from g dir i r m)"
  "((r, m), hop) \<in> set (module_branch g dir name) \<longleftrightarrow> hop = Some ''Class->Module'' \<and> r \<in> {IMPORTS, DEPENDS_ON} \<and>
     (\<exists>c \<in> set (class_nodes g name). \<exists>i \<in> set (owners g c). edge_from g dir i r m)"
  "((r, m), hop) \<in> set (method_branch g dir name) \<longleftrightarrow> hop = Some ''Class->Method'' \<and> r = CALLS \<and>
     (\<exists>c \<in> set (class_nodes g name). \<exists>i \<in> set (methods_in g c). edge_from g dir i r m)"
proof -
  have map_iff: "((r, m), hop) \<in> set (map (\<lambda>x. (x, h)) xs) \<longleftrightarrow> hop = h \<and> (r, m) \<in> set xs" for h xs
    by auto
  show "((r, m), hop) \<in> set (direct_branch g dir name) \<longleftrightarrow> hop = None \<and> r \<in> {IMPORTS, DEPENDS_ON, CALLS} \<and>
     (\<exists>i \<in> set (start_nodes g name). edge_from g dir i r m)"
    unfolding direct_branch_def map_iff by (auto simp: far_ends_edges)
  show "((r, m), hop) \<in> set (module_branch g dir name) \<longleftrightarrow> hop = Some ''Class->Module'' \<and> r \<in> {IMPORTS, DEPENDS_ON} \<and>
     (\<exists>c \<in> set (class_nodes g name). \<exists>i \<in> set (owners g c). edge_from g dir i r m)"
    unfolding module_branch_def map_iff by (auto simp: far_ends_edges)
  show "((r, m), hop) \<in> set (method_branch g dir name) \<longleftrightarrow> hop = Some ''Class->Method'' \<and> r = CALLS \<and>
     (\<exists>c \<in> set (class_nodes g name). \<exists>i \<in> set (methods_in g c). edge_from g dir i r m)"
    unfolding method_branch_def map_iff by (auto simp: far_ends_edges)
qed

lemma branches_reach: "set (concat (branches g dir name)) = {n. reaches g dir name n}"
proof -
  have "((r, m), hop) \<in> set (concat (branches g dir name)) \<longleftrightarrow> reaches g dir name ((r, m), hop)" for r m hop
    by (simp add: branches_def reaches_def in_branches Bex_def owners_edges methods_edges conj_ac)
  then show ?thesis by (auto simp del: set_concat)
qed

section \<open>Completeness\<close>

lemma branch_rows_all:
  "length ns \<le> branch_limit \<Longrightarrow> set (branch_rows g dir branch_limit ns) = neighbour_row g dir ` set ns"
  by (simp add: branch_rows_def)

lemma length_branch_rows: "length (branch_rows g dir branch_limit ns) \<le> length ns"
  by (simp add: branch_rows_def)

lemma neighbour_rows_all:
  assumes "list_all (\<lambda>ns. length ns \<le> branch_limit) (branches g dir name)"
  shows "set (neighbour_rows g dir branch_limit name) =
    neighbour_row g dir ` set (concat (branches g dir name))"
  using assms by (auto simp: neighbour_rows_def list_all_iff branch_rows_all)

lemma length_neighbour_rows:
  "length (neighbour_rows g dir branch_limit name) \<le> neighbour_count g dir name"
proof -
  have "length (neighbour_rows g dir branch_limit name) \<le>
      length (concat (map (branch_rows g dir branch_limit) (branches g dir name)))"
    by (simp add: neighbour_rows_def length_remdups_leq)
  also have "\<dots> \<le> neighbour_count g dir name"
    using length_branch_rows by (simp add: neighbour_count_def branches_def add_mono)
  finally show ?thesis .
qed

lemma merged_rows_shorter:
  assumes "\<not> distinct (map (neighbour_row g dir) (concat (branches g dir name)))"
    "list_all (\<lambda>ns. length ns \<le> branch_limit) (branches g dir name)"
  shows "length (neighbour_rows g dir branch_limit name) < neighbour_count g dir name"
proof -
  let ?all = "concat (map (branch_rows g dir branch_limit) (branches g dir name))"
  let ?ns = "concat (branches g dir name)"
  have "length (remdups ?all) = card (set ?all)" by (simp add: length_remdups_card_conv)
  also have "set ?all = set (map (neighbour_row g dir) ?ns)"
    using neighbour_rows_all [OF assms(2)] by (simp add: neighbour_rows_def)
  also have "card (set (map (neighbour_row g dir) ?ns)) < length (map (neighbour_row g dir) ?ns)"
    using assms(1) card_distinct card_length le_neq_implies_less by metis
  also have "length (map (neighbour_row g dir) ?ns) = neighbour_count g dir name"
    by (simp add: neighbour_count_def branches_def)
  finally show ?thesis by (simp add: neighbour_rows_def)
qed


lemma length_neighbour_rows_limit: "length (neighbour_rows g dir branch_limit name) \<le> 3 * branch_limit"
proof -
  have "length (neighbour_rows g dir branch_limit name) \<le>
      length (concat (map (branch_rows g dir branch_limit) (branches g dir name)))"
    by (simp add: neighbour_rows_def length_remdups_leq)
  also have "\<dots> \<le> 3 * branch_limit" by (simp add: branches_def branch_rows_def)
  finally show ?thesis .
qed

lemma neighbor_query_on_graph:
  assumes guarded: "guard_readonly src = Inr src" "guard_readonly count_src = Inr count_src"
    and int: "\<And>i. int_of conv (PyInt i) = i"
  shows "\<exists>res. neighbor_query (graph_reader g dir) conv src count_src name = Inr res \<and>
    nq_neighbors res = map make_neighbor_hit (neighbour_rows g dir 20 name) \<and>
    nq_total res = int (neighbour_count g dir name) \<and>
    (nq_truncated res \<longleftrightarrow> length (neighbour_rows g dir 20 name) < neighbour_count g dir name)"
proof -
  have "length (neighbour_rows g dir 20 name) < default_result_limit"
    using length_neighbour_rows_limit [of g dir 20 name] by (simp add: default_result_limit_def)
  moreover have "py_str (PyStr name) = name" by (simp add: py_str_def)
  moreover note length_neighbour_rows [of g dir 20 name]
  ultimately show ?thesis
    using assms
    by (simp add: neighbor_query_def execute_own_text graph_reader_def neighbor_total_of_def Let_def
        default_neighbor_branch_limit_def)
qed


text \<open>
  A complete list is reported as truncated: the rows are united without duplicates, the total counts
  them with. As soon as a neighbour is reached twice, for instance by two methods of a class that
  call the same function, the total exceeds the list and the result says that neighbours are missing.
\<close>

theorem complete_neighbours_reported_truncated:
  assumes "list_all (\<lambda>ns. length ns \<le> 20) (branches g Outgoing name)"
    "\<And>i. int_of conv (PyInt i) = i"
    "\<not> distinct (map (neighbour_row g Outgoing) (concat (branches g Outgoing name)))"
  shows "\<exists>res. get_dependency_hits (graph_reader g Outgoing) conv name = Inr res \<and>
    nq_truncated res \<and> int (length (nq_neighbors res)) < nq_total res \<and>
    set (nq_neighbors res) =
      (\<lambda>n. make_neighbor_hit (neighbour_row g Outgoing n)) ` set (concat (branches g Outgoing name))"
proof -
  note short = merged_rows_shorter [OF assms(3,1)]
  obtain res where "get_dependency_hits (graph_reader g Outgoing) conv name = Inr res"
    "nq_neighbors res = map make_neighbor_hit (neighbour_rows g Outgoing 20 name)"
    "nq_total res = int (neighbour_count g Outgoing name)"
    "nq_truncated res \<longleftrightarrow>
       length (neighbour_rows g Outgoing 20 name) < neighbour_count g Outgoing name"
    using neighbor_query_on_graph [of get_dependencies get_dependencies_count conv g Outgoing name]
      guarded_templates assms(2)
    unfolding get_dependency_hits_def by blast
  with short neighbour_rows_all [OF assms(1)] show ?thesis by (auto simp: image_image)
qed

section \<open>A class whose methods share a callee\<close>

definition shared_callee :: graph where
  "shared_callee =
     run_write_batch
       [Code_Row Class_Label ''m.C'' ''C'' ''m.py'' 1 9 [],
        Code_Row Method_Label ''m.C.a'' ''a'' ''m.py'' 2 3 [],
        Code_Row Method_Label ''m.C.b'' ''b'' ''m.py'' 4 5 [],
        Code_Row Function_Label ''m.f'' ''f'' ''m.py'' 11 12 [],
        Contains_Row Class_Label Method_Label ''m.C'' ''m.C.a'',
        Contains_Row Class_Label Method_Label ''m.C'' ''m.C.b'',
        Calls_Row ''m.C.a'' ''m.f'', Calls_Row ''m.C.b'' ''m.f''] empty_graph"

lemma shared_branches:
  "branches shared_callee Outgoing ''C'' =
     [[], [], replicate 2 ((CALLS, Code_Node Function_Label ''m.f''), Some ''Class->Method'')]"
  by code_simp


theorem complete_neighbours_reported_truncated_witness:
  "\<exists>res. get_dependency_hits (graph_reader shared_callee Outgoing) sample_conv ''C'' = Inr res \<and>
     nq_truncated res \<and>
     set (nq_neighbors res) =
       {make_neighbor_hit (neighbour_row shared_callee Outgoing
          ((CALLS, Code_Node Function_Label ''m.f''), Some ''Class->Method''))}"
proof -
  have "list_all (\<lambda>ns. length ns \<le> 20) (branches shared_callee Outgoing ''C'')"
    "\<not> distinct (map (neighbour_row shared_callee Outgoing)
                    (concat (branches shared_callee Outgoing ''C'')))"
    "\<And>i. int_of sample_conv (PyInt i) = i"
    by (simp_all add: shared_branches sample_conv_def numeral_2_eq_2)
  from complete_neighbours_reported_truncated [OF this(1,3,2)] show ?thesis
    by (auto simp: shared_branches)
qed

end
