(* ===== verification/Executor.thy ===== *)
theory Executor
  imports Evidence QueryService Retry
begin

text \<open>
  The plan executor (\<open>run_plan\<close> in \<open>core/orchestration/executor.py\<close>): one round of specialist calls.
  What the outside does to a call is a \<open>call_slot\<close> that the environment gives for the position of
  the call among those of its agent and for the call itself: whether the budget allows it, what time
  the budget leaves, how the attempt ends and when. As every call has its own slot, the environment
  covers all interleavings of the agents: the analyst starts from what the graph agent found by the
  time it signals its coordinates, which does not change afterwards. A plan names an agent once.
\<close>

section \<open>Calls\<close>

record tool_call =
  tc_agent :: agent_name
  tc_tool :: string
  tc_args :: "pyval list"

record call_slot =
  cs_allowed :: bool
  cs_remaining :: real
  cs_attempt :: "pyval attempt"
  cs_done :: nat

record exec_env =
  xe_slot :: "nat \<Rightarrow> tool_call \<Rightarrow> call_slot"
  xe_budgeted :: bool
  xe_graph_timeout :: real
  xe_analyst_timeout :: real
  xe_indexer_timeout :: real
  xe_seconds :: "real \<Rightarrow> string"
  xe_conv :: conversions

text \<open>How a call ends: not made for lack of budget, with an exception, or with a result.\<close>

datatype outcome = Skipped | Failed exn | Returned pyval

record issued =
  is_tool :: string
  is_recorded :: bool
  is_outcome :: outcome
  is_done :: nat

definition issue :: "exec_env \<Rightarrow> real \<Rightarrow> nat \<Rightarrow> tool_call \<Rightarrow> issued" where
  "issue env timeout_s i c =
     (let s = xe_slot env i c;
          ended = (\<lambda>recorded out t. \<lparr>is_tool = agent_str (tc_agent c) @ ''.'' @ tc_tool c,
                              is_recorded = recorded, is_outcome = out, is_done = t\<rparr>)
      in if xe_budgeted env \<and> \<not> cs_allowed s then ended False Skipped 0
         else
           (let timeout = (if xe_budgeted env then min timeout_s (cs_remaining s) else timeout_s)
            in if timeout \<le> 0 then ended True Skipped 0
               else
                 (case snd (await_with_timeout_retry (xe_seconds env timeout) 0
                              (\<lambda>w. (w, cs_attempt s)) ()) of
                    Inl e \<Rightarrow> ended True (Failed e) (Suc (cs_done s))
                  | Inr v \<Rightarrow> ended True (Returned v) (Suc (cs_done s)))))"

definition issue_all :: "exec_env \<Rightarrow> real \<Rightarrow> nat \<Rightarrow> tool_call list \<Rightarrow> issued list" where
  "issue_all env timeout_s start cs = map (\<lambda>(i, c). issue env timeout_s i c) (List.enumerate start cs)"

text \<open>The tools of the calls that were recorded, in the order the calls were made.\<close>

definition recorded_tools :: "issued list \<Rightarrow> string list" where
  "recorded_tools xs = map is_tool (filter is_recorded xs)"

definition failed_outcome :: "outcome \<Rightarrow> bool" where
  "failed_outcome o' = (case o' of Returned v \<Rightarrow> False | _ \<Rightarrow> True)"

text \<open>\<open>gather\<close> raises the failure that comes first in time.\<close>

definition first_failure :: "issued list \<Rightarrow> outcome option" where
  "first_failure xs = map_option is_outcome (find (\<lambda>x. failed_outcome (is_outcome x)) (sort_key is_done xs))"

definition returned :: "issued list \<Rightarrow> pyval list" where
  "returned xs = List.map_filter (\<lambda>x. case is_outcome x of Returned v \<Rightarrow> Some v | _ \<Rightarrow> None) xs"

definition cancelled_in :: "issued list \<Rightarrow> bool" where
  "cancelled_in xs = list_ex (\<lambda>x. is_outcome x = Failed Cancelled) xs"

section \<open>Hits\<close>

definition jsonish :: "pyval \<Rightarrow> pyval" where
  "jsonish v = (case v of PyDict m \<Rightarrow> PyDict (AList.delete ''usage'' m) | _ \<Rightarrow> v)"

definition entity_hits :: "pyval \<Rightarrow> pydict list" where
  "entity_hits result =
     (case jsonish result of
        PyDict payload \<Rightarrow>
          (case dget payload ''matches'' of
             PyList (m # ms) \<Rightarrow> List.map_filter (\<lambda>x. as_dict (jsonish x)) (m # ms)
           | _ \<Rightarrow> if list_ex (\<lambda>k. truthy (dget payload k))
                        [''file_path'', ''filePath'', ''qualified_name'', ''name'']
                 then [payload] else [])
      | _ \<Rightarrow> [])"

definition primary_hit :: "pyval \<Rightarrow> pydict" where
  "primary_hit result = (case entity_hits result of [] \<Rightarrow> [] | h # hs \<Rightarrow> h)"

definition hit_identity :: "pydict \<Rightarrow> string" where
  "hit_identity hit =
     str_or_empty (get_or hit [''qualified_name'', ''file_path'', ''filePath'', ''name'', ''path''])"

definition default_analysis_candidates :: nat where
  "default_analysis_candidates = 3"

definition refinement_candidate_cap :: nat where
  "refinement_candidate_cap = 2"

definition candidate_limit :: "int \<Rightarrow> nat" where
  "candidate_limit iteration =
     (if iteration > 1 then min refinement_candidate_cap default_analysis_candidates
      else default_analysis_candidates)"

definition candidate_key :: "conversions \<Rightarrow> pydict \<Rightarrow> nat \<times> nat \<times> nat \<times> nat \<times> real" where
  "candidate_key conv hit =
     retrieval_sort_key (str_or_empty (dget hit ''tier''))
       (str_or_empty (get_or hit [''file_path'', ''filePath'']))
       (if truthy (dget hit ''score'') then float_of conv (dget hit ''score'') else 0)
       (str_or_empty (dget hit ''name'')) (str_or_empty (dget hit ''qualified_name''))"

text \<open>The loop over the sorted pool: unseen identities up to the limit, which is tested after adding.\<close>

fun take_unseen :: "nat \<Rightarrow> string list \<Rightarrow> pydict list \<Rightarrow> pydict list" where
  "take_unseen limit seen [] = []"
| "take_unseen limit seen (h # hs) =
     (let key = hit_identity h in
      if key = [] \<or> key \<in> set seen then take_unseen limit seen hs
      else h # (if limit \<le> length (key # seen) then [] else take_unseen limit (key # seen) hs))"

definition exact_tier :: "pydict \<Rightarrow> bool" where
  "exact_tier hit \<longleftrightarrow> str_or_empty (dget hit ''tier'') = ''exact''"

definition select_analysis_candidates ::
    "conversions \<Rightarrow> pydict list \<Rightarrow> nat \<Rightarrow> bool \<Rightarrow> pydict list" where
  "select_analysis_candidates conv hits limit prefer_exact =
     (let exact = filter exact_tier hits;
          pool = (if prefer_exact \<and> exact \<noteq> [] then exact else hits)
      in take_unseen limit [] (sort_key (candidate_key conv) pool))"

definition resolved_name :: "string \<Rightarrow> pydict \<Rightarrow> string" where
  "resolved_name entity hit =
     (let v = get_or hit [''qualified_name'', ''name''] in if truthy v then py_str v else entity)"

definition hit_is_class :: "pydict \<Rightarrow> bool" where
  "hit_is_class hit \<longleftrightarrow>
     str_or_empty (get_or hit [''entity_type'', ''type'']) = ''Class'' \<or>
     (case dget hit ''labels'' of PyList ls \<Rightarrow> list_ex (\<lambda>l. py_str l = ''Class'') ls | _ \<Rightarrow> False)"

text \<open>\<open>graph_hits[i] if i < len(graph_hits) else {}\<close>\<close>

definition hit_at :: "pydict list \<Rightarrow> nat \<Rightarrow> pydict" where
  "hit_at hits i = (if i < length hits then hits ! i else [])"

section \<open>The graph agent\<close>

definition agent_ok :: "agent_name \<Rightarrow> pyval \<Rightarrow> agent_output" where
  "agent_ok a output =
     \<lparr>ao_agent = a, ao_ok = True, ao_output = output, ao_error = None, ao_note = None, ao_tools = []\<rparr>"

definition agent_down :: "agent_name \<Rightarrow> string \<Rightarrow> string \<Rightarrow> agent_output" where
  "agent_down a note error =
     \<lparr>ao_agent = a, ao_ok = False, ao_output = PyNone, ao_error = Some error, ao_note = Some note,
      ao_tools = []\<rparr>"

definition empty_tool_plan :: "agent_name \<Rightarrow> agent_output" where
  "empty_tool_plan a =
     agent_down a ''no tool plan for intent; specialist was not invoked'' ''empty_tool_plan''"

definition budget_skip :: "agent_name \<Rightarrow> agent_output" where
  "budget_skip a = agent_down a ''budget reserved remaining time for synthesis'' ''budget_skip''"

text \<open>\<open>except (TimeoutError, AgentUnavailableError)\<close>\<close>

fun unavailable :: "exn \<Rightarrow> bool" where
  "unavailable (TimeoutError m) = True"
| "unavailable (AgentUnavailable a m) = True"
| "unavailable (BreakerOpen a m) = True"
| "unavailable e = False"

record graph_state =
  gr_entities :: "pyval list"
  gr_hits :: "pydict list"
  gr_candidates :: "pydict list"
  gr_extra :: pydict
  gr_available :: bool
  gr_status :: agent_output
  gr_tools :: "string list"

definition no_graph :: graph_state where
  "no_graph =
     \<lparr>gr_entities = [], gr_hits = [], gr_candidates = [], gr_extra = [], gr_available = True,
      gr_status = agent_ok GraphQuery PyNone, gr_tools = []\<rparr>"

definition search_terms_of :: "execution_plan \<Rightarrow> string \<Rightarrow> string list" where
  "search_terms_of plan query =
     (case pl_terms plan of
        Some (t # ts) \<Rightarrow> t # ts
      | _ \<Rightarrow> retrieval_search_terms query (Some (qi_entities (pl_intent plan))))"

definition find_calls :: "string list \<Rightarrow> tool_call list" where
  "find_calls terms =
     map (\<lambda>t. \<lparr>tc_agent = GraphQuery, tc_tool = ''find_entity'', tc_args = [PyStr t]\<rparr>) terms"

text \<open>The handlers of \<open>_run_graph\<close>, for a failure of the lookups.\<close>

definition graph_failed :: "outcome \<Rightarrow> graph_state \<Rightarrow> graph_state" where
  "graph_failed f st =
     (case f of
        Skipped \<Rightarrow> st\<lparr>gr_status := budget_skip GraphQuery\<rparr>
      | Failed e \<Rightarrow>
          st\<lparr>gr_available := False,
             gr_status :=
               (if unavailable e
                then agent_down GraphQuery ''graph_query unavailable/timeout; using raw-file fallback''
                       ''graph_query timeout''
                else agent_down GraphQuery ''graph_query unavailable; using raw-file fallback''
                       (exn_str e))\<rparr>
      | Returned v \<Rightarrow> st)"

definition relation_names :: "string list \<Rightarrow> pydict list \<Rightarrow> pydict list \<Rightarrow> string list" where
  "relation_names terms hits candidates =
     add_all_new [] (filter (\<lambda>n. n \<noteq> [])
       (if candidates \<noteq> [] then map (resolved_name '''') candidates
        else List.map_filter
               (\<lambda>(i, t). if hit_identity (hit_at hits i) = [] then None
                         else Some (resolved_name t (hit_at hits i)))
               (List.enumerate 0 terms)))"

definition relation_calls_of :: "string \<Rightarrow> string list \<Rightarrow> string \<Rightarrow> (string \<times> tool_call) list" where
  "relation_calls_of query tools name =
     (let c = (\<lambda>tool args. \<lparr>tc_agent = GraphQuery, tc_tool = tool, tc_args = map PyStr args\<rparr>)
      in (if ''get_dependencies'' \<in> set tools
          then [(''dependencies'', c ''get_dependencies'' [name])] else [])
         @ (if ''get_dependents'' \<in> set tools
            then [(''dependents'', c ''get_dependents'' [name])] else [])
         @ (if ''trace_imports'' \<in> set tools
            then [(''import_traces'', c ''trace_imports'' [name])] else [])
         @ (if ''find_related'' \<in> set tools
            then (case related_relationship_type query of
                    Some rel \<Rightarrow> [(''related'', c ''find_related'' [name, rel])]
                  | None \<Rightarrow> [])
            else []))"

text \<open>The results by bucket, in the order of the calls; failed calls are left out.\<close>

definition relation_bucket :: "string \<Rightarrow> string list \<Rightarrow> issued list \<Rightarrow> pyval list" where
  "relation_bucket key keys xs =
     map jsonish (returned (map snd (filter (\<lambda>(k, x). k = key) (zip keys xs))))"

definition grouped_relations :: "string list \<Rightarrow> issued list \<Rightarrow> pydict" where
  "grouped_relations keys xs =
     map (\<lambda>k. (k, PyList (relation_bucket k keys xs)))
       [''dependencies'', ''dependents'', ''import_traces'', ''related'']"

definition found_output :: "graph_state \<Rightarrow> string list \<Rightarrow> pydict list \<Rightarrow> pyval" where
  "found_output st terms candidates =
     PyDict (fold (\<lambda>(k, v). dset k v) (gr_extra st)
       [(''entities'', PyList (gr_entities st)), (''queried_entities'', PyList (map PyStr terms)),
        (''candidates'', PyList (map PyDict candidates)),
        (''analysis_candidates'', PyList (map PyDict (gr_candidates st)))])"

text \<open>What \<open>_run_graph\<close> keeps of the lookups' results, for the analyst and for its own output.\<close>

definition coordinates ::
    "conversions \<Rightarrow> execution_plan \<Rightarrow> string \<Rightarrow> pyval list \<Rightarrow> graph_state" where
  "coordinates conv plan query results =
     (let limit = candidate_limit (pl_iteration plan);
          per_term = concat (map (\<lambda>r. select_analysis_candidates conv (entity_hits r) limit True) results);
          hits = map primary_hit results
      in no_graph\<lparr>gr_entities := map jsonish (filter (\<lambda>r. r \<noteq> PyNone) results),
                  gr_hits := (if is_out_of_scope query then map (\<lambda>_. []) hits else hits),
                  gr_candidates :=
                    (if is_out_of_scope query then []
                     else select_analysis_candidates conv per_term limit False)\<rparr>)"

definition keyed_relations ::
    "string \<Rightarrow> string list \<Rightarrow> string list \<Rightarrow> graph_state \<Rightarrow> (string \<times> tool_call) list" where
  "keyed_relations query tools terms st =
     (if tools \<noteq> [] \<and> terms \<noteq> [] \<and> \<not> is_out_of_scope query
      then concat (map (relation_calls_of query tools)
                     (relation_names terms (gr_hits st) (gr_candidates st)))
      else [])"

definition expand_relations ::
    "exec_env \<Rightarrow> string \<Rightarrow> string list \<Rightarrow> string list \<Rightarrow> issued list \<Rightarrow> graph_state \<Rightarrow> graph_state result" where
  "expand_relations env query tools terms finds st =
     (let keyed = keyed_relations query tools terms st;
          rels = issue_all env (xe_graph_timeout env) (length finds) (map snd keyed);
          st' = st\<lparr>gr_extra := (if keyed = [] then [] else grouped_relations (map fst keyed) rels),
                   gr_tools := recorded_tools (finds @ rels)\<rparr>
      in if cancelled_in rels then Inl Cancelled
         else Inr (st'\<lparr>gr_status := agent_ok GraphQuery
                        (found_output st' terms (concat (map entity_hits (returned finds))))\<rparr>))"

definition nothing_to_find :: pyval where
  "nothing_to_find =
     PyDict [(''entities'', PyList []), (''queried_entities'', PyList []), (''candidates'', PyList []),
             (''tools_invoked'', PyList [])]"

definition run_graph :: "exec_env \<Rightarrow> execution_plan \<Rightarrow> string \<Rightarrow> graph_state result" where
  "run_graph env plan query =
     (let tools = plan_tools (qi_intent (pl_intent plan)) GraphQuery query;
          terms = search_terms_of plan query;
          finding = ''find_entity'' \<in> set (tp_first tools)
      in if tp_first tools = [] \<and> tp_parallel tools = []
         then Inr (no_graph\<lparr>gr_status := empty_tool_plan GraphQuery\<rparr>)
         else if finding \<and> terms = []
         then Inr (no_graph\<lparr>gr_status := agent_ok GraphQuery nothing_to_find\<rparr>)
         else
           (let finds = issue_all env (xe_graph_timeout env) 0 (if finding then find_calls terms else [])
            in case first_failure finds of
                 Some f \<Rightarrow>
                   if f = Failed Cancelled then Inl Cancelled
                   else Inr (graph_failed f (no_graph\<lparr>gr_tools := recorded_tools finds\<rparr>))
               | None \<Rightarrow>
                   expand_relations env query (tp_parallel tools) terms finds
                     (coordinates (xe_conv env) plan query (returned finds))))"

section \<open>Structural patterns\<close>

text \<open>
  \<open>pattern_path_prefix\<close>: the two alternatives of \<open>_MODULE_SCOPE_RE\<close>, each split into the part
  before the named group, the group and the part after it, so that \<open>captured\<close> finds the group of
  the first match that the engine reaches by backtracking.
\<close>

definition word_chr :: rx where
  "word_chr = Chr is_word"

definition spaces_rx :: rx where
  "spaces_rx = Plus (Chr is_space)"

definition module_before :: rx where
  "module_before =
     seqs [WordB, alts [Lit ''in'', Lit ''from'', Lit ''of''], spaces_rx,
           Opt (Seq (Lit ''the'') spaces_rx)]"

definition module_group :: rx where
  "module_group =
     Seq (Chr (\<lambda>c. is_lower c \<or> is_upper c)) (Star (Chr (\<lambda>c. is_word c \<or> c = CHR ''.'' \<or> c = CHR ''/'')))"

definition module_after :: rx where
  "module_after = seqs [spaces_rx, Lit ''module'', WordB]"

definition path_before :: rx where
  "path_before = seqs [WordB, alts [Lit ''in'', Lit ''from''], spaces_rx]"

definition path_group :: rx where
  "path_group = seqs [Star (Seq (Plus word_chr) (Lit ''/'')), Plus word_chr, Lit ''.py'']"

definition captured :: "rx \<Rightarrow> rx \<Rightarrow> rx \<Rightarrow> string \<Rightarrow> nat \<Rightarrow> (nat \<times> nat) option" where
  "captured before grp after s i =
     find (\<lambda>(p, q). ends after s q \<noteq> [])
       (concat (map (\<lambda>p. map (\<lambda>q. (p, q)) (ends grp s p)) (ends before s i)))"

definition pattern_path_prefix :: "string \<Rightarrow> string option" where
  "pattern_path_prefix query =
     (let lowered = py_lower query in
      case search (Alt (seqs [module_before, module_group, module_after])
                       (seqs [path_before, path_group, WordB])) lowered of
        None \<Rightarrow> None
      | Some (i, j) \<Rightarrow>
          (let span = (case captured module_before module_group module_after lowered i of
                         Some pq \<Rightarrow> Some pq
                       | None \<Rightarrow> captured path_before path_group WordB lowered i);
               token = (case span of None \<Rightarrow> '''' | Some (p, q) \<Rightarrow> strip (slice query p q))
           in if token = [] then None
              else if contains ''/'' token \<or> ends_with token ''.py'' then Some token
              else Some (token @ ''.py'')))"

section \<open>The code analyst\<close>

definition default_snippet_range :: "int \<times> int" where
  "default_snippet_range = (1, 120)"

text \<open>The hits that the analyst starts from: those the graph agent selected, else its primary hits.\<close>

definition analyst_hits :: "string \<Rightarrow> graph_state \<Rightarrow> pydict list" where
  "analyst_hits query gr =
     (if is_out_of_scope query then []
      else if gr_candidates gr \<noteq> [] then gr_candidates gr
      else filter (\<lambda>h. h \<noteq> [] \<and> hit_identity h \<noteq> []) (gr_hits gr))"

definition analyst_entities :: "execution_plan \<Rightarrow> string \<Rightarrow> graph_state \<Rightarrow> string list" where
  "analyst_entities plan query gr =
     (if qi_entities (pl_intent plan) \<noteq> [] then qi_entities (pl_intent plan)
      else map (resolved_name '''') (analyst_hits query gr))"

definition analyst_tools :: "execution_plan \<Rightarrow> string \<Rightarrow> string list" where
  "analyst_tools plan query =
     (let tools = tp_parallel (plan_tools (qi_intent (pl_intent plan)) CodeAnalyst query) in
      case pl_retry_tools plan of
        Some retry \<Rightarrow> if pl_iteration plan > 1 then filter (\<lambda>t. t \<in> set retry) tools else tools
      | None \<Rightarrow> tools)"

definition capped_hits :: "execution_plan \<Rightarrow> pydict list \<Rightarrow> pydict list" where
  "capped_hits plan hits =
     (if pl_iteration plan > 1 then take (candidate_limit (pl_iteration plan)) hits else hits)"

definition analyst_call :: "string \<Rightarrow> pyval list \<Rightarrow> tool_call" where
  "analyst_call tool args = \<lparr>tc_agent = CodeAnalyst, tc_tool = tool, tc_args = args\<rparr>"

definition named_hits :: "string list \<Rightarrow> pydict list \<Rightarrow> pydict list \<Rightarrow> (string \<times> pydict) list" where
  "named_hits entities hits graph_hits =
     (if hits \<noteq> [] then map (\<lambda>h. (resolved_name '''' h, h)) hits
      else map (\<lambda>(i, e). (resolved_name e (hit_at graph_hits i), hit_at graph_hits i))
             (List.enumerate 0 entities))"

text \<open>\<open>a or b\<close> on values, for one key or its camel-case form.\<close>

definition line_or :: "pydict \<Rightarrow> string \<Rightarrow> string \<Rightarrow> int \<Rightarrow> pyval" where
  "line_or hit k k' d = py_or [dget hit k, dget hit k', PyInt d]"

definition snippet_hits ::
    "string list \<Rightarrow> pydict list \<Rightarrow> graph_state \<Rightarrow> string list \<Rightarrow> pydict list" where
  "snippet_hits entities hits gr names =
     (let (lo, hi) = default_snippet_range;
          wanted = (if entities \<noteq> [] then entities else names)
      in if hits \<noteq> [] then hits
         else if gr_available gr \<and> gr_hits gr \<noteq> [] then
           map (\<lambda>(i, e). let h = hit_at (gr_hits gr) i in
                  [(''file_path'', get_or h [''file_path'', ''filePath'']),
                   (''line_start'', line_or h ''line_start'' ''lineStart'' lo),
                   (''line_end'', line_or h ''line_end'' ''lineEnd'' hi),
                   (''qualified_name'', py_or [dget h ''qualified_name'', PyStr e])])
             (List.enumerate 0 wanted)
         else map (\<lambda>e. [(''qualified_name'', PyStr e), (''line_start'', PyInt lo),
                        (''line_end'', PyInt hi)]) wanted)"

definition snippet_call :: "conversions \<Rightarrow> pydict \<Rightarrow> tool_call option" where
  "snippet_call conv hit =
     (let (lo, hi) = default_snippet_range;
          path = get_or hit [''file_path'', ''filePath''];
          name = get_or hit [''qualified_name'', ''name''];
          text = (\<lambda>v. if truthy v then PyStr (py_str v) else PyNone)
      in if \<not> truthy path \<and> \<not> truthy name then None
         else Some (analyst_call ''get_code_snippet''
                [text name, text path, PyInt (int_of conv (line_or hit ''line_start'' ''lineStart'' lo)),
                 PyInt (int_of conv (line_or hit ''line_end'' ''lineEnd'' hi))]))"

text \<open>The analysis tasks with their buckets, in the order in which they are created.\<close>

definition analysis_calls ::
    "conversions \<Rightarrow> string list \<Rightarrow> (string \<times> pydict) list \<Rightarrow> pydict list \<Rightarrow> (string \<times> tool_call) list" where
  "analysis_calls conv tools named snippets =
     (let calls = (\<lambda>tool bucket p.
            if tool \<in> set tools
            then map (\<lambda>(n, h). (bucket, analyst_call tool [PyStr n]))
                   (filter (\<lambda>(n, h). n \<noteq> [] \<and> p h) named)
            else [])
      in calls ''explain_implementation'' ''explanations'' (\<lambda>_. True)
         @ calls ''analyze_class'' ''class_analyses'' hit_is_class
         @ calls ''analyze_function'' ''function_analyses'' (\<lambda>h. \<not> hit_is_class h)
         @ (if ''get_code_snippet'' \<in> set tools
            then map (Pair ''snippets'') (List.map_filter (snippet_call conv) snippets) else []))"

text \<open>\<open>grouped.setdefault(key, []).append(...)\<close> over the results that are no exceptions.\<close>

definition group_result :: "string \<times> issued \<Rightarrow> pydict \<Rightarrow> pydict" where
  "group_result kx grouped =
     (case is_outcome (snd kx) of
        Returned v \<Rightarrow>
          dset (fst kx)
            (PyList ((case dget grouped (fst kx) of PyList vs \<Rightarrow> vs | _ \<Rightarrow> []) @ [jsonish v])) grouped
      | _ \<Rightarrow> grouped)"

definition group_results :: "string list \<Rightarrow> issued list \<Rightarrow> pydict" where
  "group_results keys xs = fold group_result (zip keys xs) []"

definition analyst_failed :: "exn \<Rightarrow> agent_output" where
  "analyst_failed e =
     (if unavailable e
      then agent_down CodeAnalyst ''code_analyst unavailable/timeout; returning graph facts only''
             ''code_analyst timeout''
      else agent_down CodeAnalyst ''code_analyst unavailable; returning graph facts only'' (exn_str e))"

text \<open>
  What the single calls of the analyst (pattern search, comparison) leave: the rest of the run, or
  the output of the handler that their failure reaches. At that point no output has been set.
\<close>

definition after_single ::
    "issued \<Rightarrow> (pyval \<Rightarrow> (agent_output \<times> string list) result) \<Rightarrow> (agent_output \<times> string list) result" where
  "after_single x rest =
     (case is_outcome x of
        Skipped \<Rightarrow> Inr (budget_skip CodeAnalyst, recorded_tools [x])
      | Failed e \<Rightarrow>
          if e = Cancelled then Inl Cancelled else Inr (analyst_failed e, recorded_tools [x])
      | Returned v \<Rightarrow> rest v)"

definition run_analyses ::
    "exec_env \<Rightarrow> issued list \<Rightarrow> pydict \<Rightarrow> (string \<times> tool_call) list \<Rightarrow> (agent_output \<times> string list) result" where
  "run_analyses env made output keyed =
     (let xs = issue_all env (xe_analyst_timeout env) (length made) (map snd keyed);
          grouped = group_results (map fst keyed) xs;
          merged = fold (\<lambda>(k, v). dset k v) grouped output;
          tools = recorded_tools (made @ xs)
      in if cancelled_in xs then Inl Cancelled
         else if keyed \<noteq> [] \<and> grouped = [] \<and> merged = []
         then Inr (analyst_failed (TimeoutError ''code_analyst timeout''), tools)
         else Inr (agent_ok CodeAnalyst (if merged = [] then PyNone else PyDict merged), tools))"

definition compare_note :: pyval where
  "compare_note =
     PyDict [(''comparison'', PyNone), (''note'', PyStr ''need two entities to compare'')]"

definition run_code ::
    "exec_env \<Rightarrow> execution_plan \<Rightarrow> string \<Rightarrow> graph_state \<Rightarrow> (agent_output \<times> string list) result" where
  "run_code env plan query gr =
     (let entities = analyst_entities plan query gr;
          hits = capped_hits plan (analyst_hits query gr);
          tools = analyst_tools plan query;
          single = (\<lambda>tool args. issue env (xe_analyst_timeout env) 0 (analyst_call tool args));
          named = named_hits entities hits (gr_hits gr);
          names = filter (\<lambda>n. n \<noteq> []) (map fst named);
          keyed = analysis_calls (xe_conv env) tools named (snippet_hits entities hits gr names)
      in if tools = [] then
           Inr (if pl_iteration plan > 1 then agent_ok CodeAnalyst (PyDict [])
                else empty_tool_plan CodeAnalyst, [])
         else if ''find_patterns'' \<in> set tools then
           (let x = single ''find_patterns''
                      [PyStr (pattern_name query entities), opt_value (pattern_path_prefix query)]
            in after_single x (\<lambda>v. Inr (agent_ok CodeAnalyst (PyDict [(''patterns'', jsonish v)]),
                                        recorded_tools [x])))
         else if ''compare_implementations'' \<in> set tools then
           (case entities of
              a # b # rest \<Rightarrow>
                (let x = single ''compare_implementations''
                           [PyStr (resolved_name a (hit_at (gr_hits gr) 0)),
                            PyStr (resolved_name b (hit_at (gr_hits gr) 1))]
                 in after_single x (\<lambda>v. run_analyses env [x] [(''comparison'', jsonish v)] keyed))
            | _ \<Rightarrow> Inr (agent_ok CodeAnalyst compare_note, []))
         else run_analyses env [] [] keyed)"

section \<open>The indexer\<close>

definition run_index :: "exec_env \<Rightarrow> (agent_output \<times> string list) result" where
  "run_index env =
     (let x = issue env (xe_indexer_timeout env) 0
                \<lparr>tc_agent = Indexer, tc_tool = ''index_repository'', tc_args = [PyNone]\<rparr>
      in case is_outcome x of
           Skipped \<Rightarrow> Inr (budget_skip Indexer, recorded_tools [x])
         | Failed e \<Rightarrow>
             if e = Cancelled then Inl Cancelled
             else Inr (if unavailable e
                       then agent_down Indexer ''indexer unavailable/timeout'' ''indexer timeout''
                       else agent_down Indexer ''indexer unavailable'' (exn_str e), recorded_tools [x])
         | Returned v \<Rightarrow> Inr (agent_ok Indexer v, recorded_tools [x]))"

section \<open>One round\<close>

text \<open>The output of the graph agent is assembled again from its state, unless it was unavailable.\<close>

definition graph_report :: "execution_plan \<Rightarrow> graph_state \<Rightarrow> agent_output" where
  "graph_report plan gr =
     (let out = (case as_dict (ao_output (gr_status gr)) of Some m \<Rightarrow> m | None \<Rightarrow> []);
          queried = (case map_of out ''queried_entities'' of
                       Some v \<Rightarrow> v | None \<Rightarrow> PyList (map PyStr (qi_entities (pl_intent plan))));
          rest = filter (\<lambda>(k, v). k \<noteq> ''entities'' \<and> k \<noteq> ''queried_entities'') out
      in if gr_available gr
         then (gr_status gr)\<lparr>ao_output :=
                PyDict (fold (\<lambda>(k, v). dset k v) (rest @ gr_extra gr)
                  [(''entities'', PyList (gr_entities gr)), (''queried_entities'', queried)])\<rparr>
         else gr_status gr)"

definition planned_graph :: "exec_env \<Rightarrow> execution_plan \<Rightarrow> string \<Rightarrow> graph_state result" where
  "planned_graph env plan query =
     (if GraphQuery \<in> set (pl_agents plan) then run_graph env plan query else Inr no_graph)"

definition run_agent ::
    "exec_env \<Rightarrow> execution_plan \<Rightarrow> string \<Rightarrow> graph_state \<Rightarrow> agent_name \<Rightarrow> (agent_output \<times> string list) result" where
  "run_agent env plan query gr a =
     (case a of
        GraphQuery \<Rightarrow> Inr (graph_report plan gr, gr_tools gr)
      | CodeAnalyst \<Rightarrow> run_code env plan query gr
      | Indexer \<Rightarrow> run_index env
      | MemoryAgent \<Rightarrow> Inr (agent_ok MemoryAgent PyNone, []))"

fun run_agents ::
    "exec_env \<Rightarrow> execution_plan \<Rightarrow> string \<Rightarrow> graph_state \<Rightarrow> agent_name list \<Rightarrow> outputs result" where
  "run_agents env plan query gr [] = Inr []"
| "run_agents env plan query gr (a # as) =
     (case run_agent env plan query gr a of
        Inl e \<Rightarrow> Inl e
      | Inr (out, tools) \<Rightarrow>
          (case run_agents env plan query gr as of
             Inl e \<Rightarrow> Inl e
           | Inr outs \<Rightarrow> Inr ((a, out\<lparr>ao_tools := tools\<rparr>) # outs)))"

definition run_plan :: "exec_env \<Rightarrow> execution_plan \<Rightarrow> string \<Rightarrow> outputs result" where
  "run_plan env plan query =
     (case planned_graph env plan query of
        Inl e \<Rightarrow> Inl e
      | Inr gr \<Rightarrow> run_agents env plan query gr (pl_agents plan))"

section \<open>Single calls\<close>

definition cancelling :: "pyval attempt \<Rightarrow> bool" where
  "cancelling a \<longleftrightarrow> a = CallerCancelled \<or> a = Finished (Inl Cancelled)"

lemma is_tool_issue [simp]: "is_tool (issue env t i c) = agent_str (tc_agent c) @ ''.'' @ tc_tool c"
  by (simp add: issue_def Let_def split: sum.splits)

lemma await_once:
  "snd (await_with_timeout_retry t 0 call ()) = attempt_result t (snd (call ()))"
  by (simp add: await_with_timeout_retry_def retry_loop_Suc split: prod.split)

lemma issue_not_cancelled:
  "\<not> cancelling (cs_attempt (xe_slot env i c)) \<Longrightarrow> is_outcome (issue env t i c) \<noteq> Failed Cancelled"
  by (cases "cs_attempt (xe_slot env i c)")
     (auto simp: issue_def Let_def await_once cancelling_def split: sum.splits)

lemma issue_refused:
  "xe_budgeted env \<Longrightarrow> \<not> cs_allowed (xe_slot env i c) \<Longrightarrow>
     is_outcome (issue env t i c) = Skipped \<and> \<not> is_recorded (issue env t i c)"
  by (simp add: issue_def Let_def)

lemma set_issue_all:
  "x \<in> set (issue_all env t n cs) \<Longrightarrow> \<exists>i. \<exists>c\<in>set cs. x = issue env t i c"
  by (auto simp: issue_all_def dest!: in_set_enumerate_eq [THEN iffD1])
     (metis nth_mem less_diff_conv2 fst_conv snd_conv in_set_conv_nth)

lemma issue_all_Nil [simp]: "issue_all env t n [] = []"
  by (simp add: issue_all_def)

lemma issue_all_Cons [simp]:
  "issue_all env t n (c # cs) = issue env t n c # issue_all env t (Suc n) cs"
  by (simp add: issue_all_def)

lemma recorded_append [simp]: "recorded_tools (xs @ ys) = recorded_tools xs @ recorded_tools ys"
  by (simp add: recorded_tools_def)

lemma recorded_Nil [simp]: "recorded_tools [] = []"
  by (simp add: recorded_tools_def)

lemma recorded_Cons: "recorded_tools (x # xs) = (if is_recorded x then [is_tool x] else []) @ recorded_tools xs"
  by (simp add: recorded_tools_def)

lemma recorded_subset: "set (recorded_tools xs) \<subseteq> is_tool ` set xs"
  by (auto simp: recorded_tools_def)

lemma set_recorded_issue_all:
  "t \<in> set (recorded_tools (issue_all env T n cs)) \<Longrightarrow>
     \<exists>c\<in>set cs. t = agent_str (tc_agent c) @ ''.'' @ tc_tool c"
  by (drule set_mp [OF recorded_subset]) (auto dest!: set_issue_all)

lemma first_failure_in:
  "first_failure xs = Some f \<Longrightarrow> \<exists>x\<in>set xs. is_outcome x = f \<and> failed_outcome f"
  by (auto simp: first_failure_def find_Some_iff) (metis nth_mem set_sort length_sort)

lemma first_failure_None: "first_failure xs = None \<longleftrightarrow> (\<forall>x\<in>set xs. \<not> failed_outcome (is_outcome x))"
  by (simp add: first_failure_def find_None_iff Ball_def)

lemma first_failure_Nil [simp]: "first_failure [] = None"
  by (simp add: first_failure_None)

section \<open>The round never raises\<close>

text \<open>No call of the round is cancelled.\<close>

definition undisturbed :: "exec_env \<Rightarrow> bool" where
  "undisturbed env \<longleftrightarrow> (\<forall>i c. \<not> cancelling (cs_attempt (xe_slot env i c)))"

lemma undisturbed_issue: "undisturbed env \<Longrightarrow> is_outcome (issue env t i c) \<noteq> Failed Cancelled"
  by (rule issue_not_cancelled) (simp add: undisturbed_def)

lemma undisturbed_all: "undisturbed env \<Longrightarrow> \<not> cancelled_in (issue_all env t n cs)"
  by (induction cs arbitrary: n) (auto simp: cancelled_in_def dest: undisturbed_issue)

lemma agent_of_helpers [simp]:
  "ao_agent (agent_ok a v) = a" "ao_agent (agent_down a n e) = a" "ao_agent (budget_skip a) = a"
  "ao_agent (empty_tool_plan a) = a" "ao_agent (analyst_failed x) = CodeAnalyst"
  by (simp_all add: agent_ok_def agent_down_def budget_skip_def empty_tool_plan_def analyst_failed_def)

lemma undisturbed_first_failure:
  "undisturbed env \<Longrightarrow> first_failure (issue_all env t n cs) \<noteq> Some (Failed Cancelled)"
  using undisturbed_all [of env t n cs]
  by (auto dest!: first_failure_in simp: cancelled_in_def list_ex_iff)

lemma expand_returns:
  "undisturbed env \<Longrightarrow> \<exists>gr. expand_relations env query tools terms finds st = Inr gr
                             \<and> ao_agent (gr_status gr) = GraphQuery"
  by (simp add: expand_relations_def Let_def undisturbed_all)

lemma graph_failed_agent [simp]:
  "ao_agent (gr_status (graph_failed f (no_graph\<lparr>gr_tools := ts\<rparr>))) = GraphQuery"
  by (simp add: graph_failed_def no_graph_def split: outcome.split)

lemma run_graph_returns:
  assumes "undisturbed env"
  shows "\<exists>gr. run_graph env plan query = Inr gr \<and> ao_agent (gr_status gr) = GraphQuery"
  using assms
  by (simp add: run_graph_def Let_def expand_returns undisturbed_first_failure split: option.split)

definition reports :: "agent_name \<Rightarrow> (agent_output \<times> string list) result \<Rightarrow> bool" where
  "reports a r \<longleftrightarrow> (case r of Inl e \<Rightarrow> False | Inr (out, tools) \<Rightarrow> ao_agent out = a)"

lemma reports_Inr [simp]: "reports a (Inr (out, tools)) \<longleftrightarrow> ao_agent out = a"
  by (simp add: reports_def)

lemma reports_after_single:
  "is_outcome x \<noteq> Failed Cancelled \<Longrightarrow> (\<And>v. reports CodeAnalyst (rest v)) \<Longrightarrow>
     reports CodeAnalyst (after_single x rest)"
  by (cases "is_outcome x") (auto simp: after_single_def)

lemma reports_analyses:
  "undisturbed env \<Longrightarrow> reports CodeAnalyst (run_analyses env made output keyed)"
  by (simp add: run_analyses_def Let_def undisturbed_all)

lemma reports_code:
  "undisturbed env \<Longrightarrow> reports CodeAnalyst (run_code env plan query gr)"
  by (simp add: run_code_def Let_def reports_after_single undisturbed_issue reports_analyses
      split: list.split)

lemma reports_index: "undisturbed env \<Longrightarrow> reports Indexer (run_index env)"
  by (cases "is_outcome (issue env (xe_indexer_timeout env) 0
        \<lparr>tc_agent = Indexer, tc_tool = ''index_repository'', tc_args = [PyNone]\<rparr>)")
     (auto simp: run_index_def Let_def dest: undisturbed_issue)

lemma reports_agent:
  "undisturbed env \<Longrightarrow> ao_agent (gr_status gr) = GraphQuery \<Longrightarrow>
     reports a (run_agent env plan query gr a)"
  by (cases a) (simp_all add: run_agent_def reports_code reports_index graph_report_def Let_def)

lemma run_agents_returns:
  assumes "undisturbed env" "ao_agent (gr_status gr) = GraphQuery"
  shows "\<exists>outs. run_agents env plan query gr as = Inr outs \<and> map fst outs = as
                \<and> list_all (\<lambda>(a, out). ao_agent out = a) outs"
proof (induction as)
  case (Cons a as)
  from reports_agent [OF assms, of a plan query] Cons show ?case
    by (auto simp: reports_def split: sum.splits prod.splits)
qed simp

text \<open>
  C18: Whatever the agents do short of the request being cancelled (time out, fail, run out of budget,
  return any payload), a round returns and has one output for each planned agent, in the order of
  the plan.
\<close>

theorem round_reports_every_agent:
  assumes "undisturbed env"
  shows "\<exists>outs. run_plan env plan query = Inr outs \<and> map fst outs = pl_agents plan
                \<and> list_all (\<lambda>(a, out). ao_agent out = a) outs"
proof -
  from run_graph_returns [OF assms] obtain gr
    where "planned_graph env plan query = Inr gr" "ao_agent (gr_status gr) = GraphQuery"
    by (cases "GraphQuery \<in> set (pl_agents plan)") (auto simp: planned_graph_def no_graph_def)
  with run_agents_returns [OF assms, of gr plan query "pl_agents plan"] show ?thesis
    by (simp add: run_plan_def)
qed

definition idle_slot :: call_slot where
  "idle_slot = \<lparr>cs_allowed = False, cs_remaining = 0, cs_attempt = TimedOut, cs_done = 0\<rparr>"

definition plain_env :: "bool \<Rightarrow> call_slot \<Rightarrow> exec_env" where
  "plain_env budgeted s =
     \<lparr>xe_slot = \<lambda>i c. s, xe_budgeted = budgeted, xe_graph_timeout = 5, xe_analyst_timeout = 10,
      xe_indexer_timeout = 10, xe_seconds = \<lambda>r. ''10'',
      xe_conv = \<lparr>float_of = \<lambda>v. 0, int_of = \<lambda>v. case v of PyInt i \<Rightarrow> i | _ \<Rightarrow> 0\<rparr>\<rparr>"

definition analyst_plan :: execution_plan where
  "analyst_plan =
     \<lparr>pl_mode = By_Rules,
      pl_intent = \<lparr>qi_mode = By_Rules, qi_intent = Lookup, qi_entities = [''f''],
                   qi_targets = [CodeAnalyst], qi_reasoning = ''''\<rparr>,
      pl_agents = [CodeAnalyst], pl_terms = None, pl_iteration = 1, pl_refinement = '''',
      pl_retry_tools = None\<rparr>"

theorem round_reports_every_agent_witness:
  "\<exists>outs. run_plan (plain_env True idle_slot) analyst_plan ''f'' = Inr outs
          \<and> map fst outs = pl_agents analyst_plan \<and> list_all (\<lambda>(a, out). ao_agent out = a) outs"
  by (rule round_reports_every_agent) (simp add: undisturbed_def plain_env_def idle_slot_def cancelling_def)

section \<open>An exhausted budget\<close>

definition exhausted :: "exec_env \<Rightarrow> bool" where
  "exhausted env \<longleftrightarrow> xe_budgeted env \<and> (\<forall>i c. \<not> cs_allowed (xe_slot env i c))"

lemma exhausted_issue:
  "exhausted env \<Longrightarrow> is_outcome (issue env t i c) = Skipped \<and> \<not> is_recorded (issue env t i c)"
  by (simp add: exhausted_def issue_refused)

lemma exhausted_all:
  "exhausted env \<Longrightarrow> x \<in> set (issue_all env t n cs) \<Longrightarrow> is_outcome x = Skipped \<and> \<not> is_recorded x"
  by (auto dest!: set_issue_all dest: exhausted_issue)

lemma exhausted_recorded [simp]: "exhausted env \<Longrightarrow> recorded_tools (issue_all env t n cs) = []"
  by (auto simp: recorded_tools_def filter_empty_conv dest: exhausted_all)

lemma group_skipped:
  "(\<And>x. x \<in> set xs \<Longrightarrow> is_outcome x = Skipped) \<Longrightarrow> group_results ks xs = []"
  unfolding group_results_def
  by (rule fold_invariant [where P = "\<lambda>g. g = []" and Q = "\<lambda>kx. is_outcome (snd kx) = Skipped"])
     (auto simp: group_result_def dest: set_zip_rightD)

lemma exhausted_groups: "exhausted env \<Longrightarrow> group_results ks (issue_all env t n cs) = []"
  by (rule group_skipped) (simp add: exhausted_all)

lemma exhausted_not_cancelled [simp]: "exhausted env \<Longrightarrow> \<not> cancelled_in (issue_all env t n cs)"
  by (auto simp: cancelled_in_def list_ex_iff dest: exhausted_all)

lemma exhausted_analyses:
  "exhausted env \<Longrightarrow> keyed \<noteq> [] \<Longrightarrow>
     run_analyses env [] [] keyed = Inr (analyst_failed (TimeoutError ''code_analyst timeout''), [])"
  by (simp add: run_analyses_def Let_def exhausted_groups)

text \<open>
  When the budget refuses every call, a lookup that only the analyst serves makes no call, and is
  reported as a timeout of the analyst: the handler for a spent budget is not reached, because the
  refusals are collected with the results of the tasks.
\<close>

theorem spent_budget_reported_as_timeout:
  assumes "exhausted env" "qi_intent (pl_intent plan) = Lookup" "qi_entities (pl_intent plan) = e # es"
    and "e \<noteq> []" "pl_agents plan = [CodeAnalyst]" "pl_iteration plan = 1" "\<not> wants_comparison query"
  shows "run_plan env plan query =
           Inr [(CodeAnalyst,
             agent_down CodeAnalyst ''code_analyst unavailable/timeout; returning graph facts only''
               ''code_analyst timeout'')]"
proof -
  have tools: "analyst_tools plan query = [''get_code_snippet'', ''analyze_class'']"
    using assms by (simp add: analyst_tools_def plan_tools_def Let_def split: option.split)
  have hits: "analyst_hits query no_graph = []" and ents: "analyst_entities plan query no_graph = e # es"
    using assms by (simp_all add: analyst_hits_def analyst_entities_def no_graph_def)
  let ?named = "named_hits (e # es) [] (gr_hits no_graph)"
  let ?snips = "snippet_hits (e # es) [] no_graph (filter (\<lambda>n. n \<noteq> []) (map fst ?named))"
  obtain c where "snippet_call (xe_conv env) (hd ?snips) = Some c" "?snips \<noteq> []"
    using assms(4)
    by (auto simp: snippet_hits_def default_snippet_range_def no_graph_def snippet_call_def get_or_def
        dget_def Let_def)
  then have "List.map_filter (snippet_call (xe_conv env)) ?snips \<noteq> []"
    by (cases ?snips) (auto simp: map_filter_simps)
  then have keyed: "analysis_calls (xe_conv env) (analyst_tools plan query) ?named ?snips \<noteq> []"
    by (simp add: analysis_calls_def tools)
  have "run_code env plan query no_graph =
          Inr (analyst_failed (TimeoutError ''code_analyst timeout''), [])"
    using exhausted_analyses [OF assms(1) keyed] assms(6)
    by (simp add: run_code_def Let_def hits ents capped_hits_def tools)
  then show ?thesis
    using assms(5)
    by (simp add: run_plan_def planned_graph_def run_agent_def analyst_failed_def agent_down_def)
qed

theorem spent_budget_reported_as_timeout_witness:
  "run_plan (plain_env True idle_slot) analyst_plan ''f'' =
     Inr [(CodeAnalyst,
       agent_down CodeAnalyst ''code_analyst unavailable/timeout; returning graph facts only''
         ''code_analyst timeout'')]"
  by (rule spent_budget_reported_as_timeout [where e = "''f''" and es = "[]"])
     (simp_all add: exhausted_def plain_env_def idle_slot_def analyst_plan_def, code_simp)

section \<open>Tools of a round\<close>

definition tool_names :: "agent_name \<Rightarrow> string list \<Rightarrow> string set" where
  "tool_names a tools = (\<lambda>tool. agent_str a @ ''.'' @ tool) ` set tools"

definition calls_within :: "agent_name \<Rightarrow> string list \<Rightarrow> tool_call list \<Rightarrow> bool" where
  "calls_within a tools cs \<longleftrightarrow> (\<forall>c\<in>set cs. tc_agent c = a \<and> tc_tool c \<in> set tools)"

lemma calls_within_simps [simp]:
  "calls_within a tools []"
  "calls_within a tools (cs @ cs') \<longleftrightarrow> calls_within a tools cs \<and> calls_within a tools cs'"
  "calls_within a tools (c # cs) \<longleftrightarrow> tc_agent c = a \<and> tc_tool c \<in> set tools \<and> calls_within a tools cs"
  by (auto simp: calls_within_def)

lemma calls_within_concat:
  "(\<And>x. x \<in> set xs \<Longrightarrow> calls_within a tools (map snd (f x))) \<Longrightarrow>
     calls_within a tools (map snd (concat (map f xs)))"
  by (induction xs) auto

lemma recorded_within:
  "calls_within a tools cs \<Longrightarrow> set (recorded_tools (issue_all env T n cs)) \<subseteq> tool_names a tools"
  by (auto simp: calls_within_def tool_names_def dest!: set_recorded_issue_all)

lemma recorded_issue_within:
  "tc_agent c = a \<Longrightarrow> tc_tool c \<in> set tools \<Longrightarrow>
     set (recorded_tools [issue env T n c]) \<subseteq> tool_names a tools"
  by (auto simp: recorded_Cons tool_names_def)

definition uses_only :: "agent_name \<Rightarrow> string list \<Rightarrow> (agent_output \<times> string list) result \<Rightarrow> bool" where
  "uses_only a tools r \<longleftrightarrow>
     (case r of Inl e \<Rightarrow> True | Inr (out, ts) \<Rightarrow> set ts \<subseteq> tool_names a tools)"

lemma uses_only_Inr [simp]: "uses_only a tools (Inr (out, ts)) \<longleftrightarrow> set ts \<subseteq> tool_names a tools"
  by (simp add: uses_only_def)

lemma uses_only_Inl [simp]: "uses_only a tools (Inl e)"
  by (simp add: uses_only_def)

lemma uses_only_after_single:
  "set (recorded_tools [x]) \<subseteq> tool_names a tools \<Longrightarrow> (\<And>v. uses_only a tools (rest v)) \<Longrightarrow>
     uses_only a tools (after_single x rest)"
  by (cases "is_outcome x") (auto simp: after_single_def)

lemma uses_only_analyses:
  "set (recorded_tools made) \<subseteq> tool_names a tools \<Longrightarrow> calls_within a tools (map snd keyed) \<Longrightarrow>
     uses_only a tools (run_analyses env made output keyed)"
  by (simp add: run_analyses_def Let_def recorded_within)

lemma snippet_call_within:
  "''get_code_snippet'' \<in> set tools \<Longrightarrow>
     calls_within CodeAnalyst tools (List.map_filter (snippet_call conv) hits)"
  by (induction hits)
     (auto simp: map_filter_simps snippet_call_def analyst_call_def Let_def default_snippet_range_def
        split: option.split)

lemma analysis_calls_within:
  "calls_within CodeAnalyst tools (map snd (analysis_calls conv tools named snippets))"
  using snippet_call_within [of tools conv snippets]
  by (auto simp: analysis_calls_def Let_def analyst_call_def calls_within_def)

lemma uses_only_code:
  "uses_only CodeAnalyst (analyst_tools plan query) (run_code env plan query gr)"
  by (auto simp: run_code_def Let_def analysis_calls_within analyst_call_def tool_names_def recorded_Cons
      intro!: uses_only_after_single uses_only_analyses split: list.split)

lemma relation_calls_within:
  "calls_within GraphQuery tools (map snd (relation_calls_of query tools name))"
  by (auto simp: relation_calls_of_def Let_def split: option.splits)

lemma keyed_relations_within:
  "calls_within GraphQuery tools (map snd (keyed_relations query tools terms st))"
  by (simp add: keyed_relations_def calls_within_concat relation_calls_within)

lemma find_calls_within:
  "''find_entity'' \<in> set tools \<Longrightarrow> calls_within GraphQuery tools (find_calls terms)"
  by (simp add: find_calls_def calls_within_def)

definition graph_plan_tools :: "execution_plan \<Rightarrow> string \<Rightarrow> string list" where
  "graph_plan_tools plan query =
     (let tools = plan_tools (qi_intent (pl_intent plan)) GraphQuery query in tp_first tools @ tp_parallel tools)"

lemma tool_names_append: "tool_names a (xs @ ys) = tool_names a xs \<union> tool_names a ys"
  by (auto simp: tool_names_def)

lemma expand_tools:
  "expand_relations env query tools terms finds st = Inr gr \<Longrightarrow>
     set (gr_tools gr) \<subseteq> set (recorded_tools finds) \<union> tool_names GraphQuery tools"
  using recorded_within [OF keyed_relations_within, of env "xe_graph_timeout env" "length finds" query tools terms st]
  by (auto simp: expand_relations_def Let_def split: if_splits)

lemma tools_graph:
  assumes "run_graph env plan query = Inr gr"
  shows "set (gr_tools gr) \<subseteq> tool_names GraphQuery (graph_plan_tools plan query)"
proof -
  let ?tp = "plan_tools (qi_intent (pl_intent plan)) GraphQuery query"
  have finds: "set (recorded_tools (issue_all env T 0 (if ''find_entity'' \<in> set (tp_first ?tp)
                 then find_calls terms else []))) \<subseteq> tool_names GraphQuery (tp_first ?tp)" for T terms
    by (simp add: recorded_within find_calls_within)
  have failed: "gr_tools (graph_failed f (no_graph\<lparr>gr_tools := ts\<rparr>)) = ts" for f ts
    by (simp add: graph_failed_def split: outcome.split)
  have none: "gr_tools (no_graph\<lparr>gr_status := s\<rparr>) = []" for s
    by (simp add: no_graph_def)
  from assms have "set (gr_tools gr) \<subseteq> tool_names GraphQuery (tp_first ?tp) \<union> tool_names GraphQuery (tp_parallel ?tp)"
    unfolding run_graph_def Let_def
    using finds [of "xe_graph_timeout env" "search_terms_of plan query"]
    by (simp split: if_split_asm option.split_asm)
       (force simp: none failed dest!: expand_tools)+
  then show ?thesis by (simp add: graph_plan_tools_def Let_def tool_names_append)
qed

definition agent_tools :: "execution_plan \<Rightarrow> string \<Rightarrow> agent_name \<Rightarrow> string list" where
  "agent_tools plan query a =
     (case a of
        GraphQuery \<Rightarrow> graph_plan_tools plan query
      | CodeAnalyst \<Rightarrow> analyst_tools plan query
      | Indexer \<Rightarrow> [''index_repository'']
      | MemoryAgent \<Rightarrow> [])"

lemma uses_only_index: "uses_only Indexer [''index_repository''] (run_index env)"
  by (auto simp: run_index_def Let_def recorded_Cons tool_names_def split: outcome.split)

lemma uses_only_agent:
  assumes "planned_graph env plan query = Inr gr" "a \<in> set (pl_agents plan)"
  shows "uses_only a (agent_tools plan query a) (run_agent env plan query gr a)"
  using assms tools_graph [of env plan query gr]
  by (cases a)
     (simp_all add: run_agent_def agent_tools_def uses_only_code uses_only_index planned_graph_def)

definition within_plan :: "execution_plan \<Rightarrow> string \<Rightarrow> agent_name \<times> agent_output \<Rightarrow> bool" where
  "within_plan plan query x \<longleftrightarrow>
     set (ao_tools (snd x)) \<subseteq> tool_names (fst x) (agent_tools plan query (fst x))"

text \<open>
  C19: Every tool that a round reports as invoked belongs to its agent and to the tool plan of the
  intent: the analyst uses only the tools that the refinement asks to retry, and the indexer only
  its one tool.
\<close>

theorem invoked_tools_are_planned:
  assumes "run_plan env plan query = Inr outs"
  shows "list_all (within_plan plan query) outs"
proof -
  from assms obtain gr where gr: "planned_graph env plan query = Inr gr"
    and outs: "run_agents env plan query gr (pl_agents plan) = Inr outs"
    by (auto simp: run_plan_def split: sum.splits)
  have "run_agents env plan query gr as = Inr outs' \<Longrightarrow> set as \<subseteq> set (pl_agents plan) \<Longrightarrow>
      list_all (within_plan plan query) outs'" for as outs'
  proof (induction as arbitrary: outs')
    case (Cons a as)
    with uses_only_agent [OF gr, of a] show ?case by (auto simp: within_plan_def split: sum.splits prod.splits)
  qed simp
  from this [OF outs] show ?thesis by simp
qed

definition retry_plan :: execution_plan where
  "retry_plan = analyst_plan\<lparr>pl_iteration := 2, pl_retry_tools := Some [''get_code_snippet'']\<rparr>"

definition open_slot :: call_slot where
  "open_slot = \<lparr>cs_allowed = True, cs_remaining = 9, cs_attempt = Finished (Inr (PyStr ''text'')), cs_done = 0\<rparr>"

definition retry_output :: outputs where
  "retry_output =
     [(CodeAnalyst, (agent_ok CodeAnalyst (PyDict [(''snippets'', PyList [PyStr ''text''])]))
        \<lparr>ao_tools := [''code_analyst.get_code_snippet'']\<rparr>)]"

lemma retry_round: "run_plan (plain_env False open_slot) retry_plan ''f'' = Inr retry_output"
  by code_simp

theorem invoked_tools_are_planned_witness:
  "list_all (within_plan retry_plan ''f'') retry_output"
  by (rule invoked_tools_are_planned [OF retry_round])

section \<open>Selection of candidates\<close>

lemma take_unseen_subset: "set (take_unseen limit seen hs) \<subseteq> set hs"
  by (induction limit seen hs rule: take_unseen.induct) (auto simp: Let_def)

lemma take_unseen_fresh:
  "distinct (map hit_identity (take_unseen limit seen hs)) \<and>
   set (map hit_identity (take_unseen limit seen hs)) \<inter> (insert [] (set seen)) = {}"
  by (induction limit seen hs rule: take_unseen.induct) (auto simp: Let_def)

lemma take_unseen_length:
  "length seen < limit \<Longrightarrow> length seen + length (take_unseen limit seen hs) \<le> limit"
  by (induction limit seen hs rule: take_unseen.induct) (auto simp: Let_def not_le)

lemma take_unseen_complete:
  "length seen < limit \<Longrightarrow> length seen + length (take_unseen limit seen hs) < limit \<Longrightarrow>
     hit_identity ` set hs \<subseteq> insert [] (set seen \<union> hit_identity ` set (take_unseen limit seen hs))"
  by (induction limit seen hs rule: take_unseen.induct) (auto simp: Let_def not_le split: if_splits)

lemma take_unseen_sorted:
  "sorted (map f hs) \<Longrightarrow> sorted (map f (take_unseen limit seen hs))"
  using take_unseen_subset
  by (induction limit seen hs rule: take_unseen.induct) (auto simp: Let_def dest!: set_mp)

text \<open>
  The hits chosen for analysis are at most \<open>limit\<close>, name different entities, come in the order of
  the ranking, are all exact matches when there is one, and leave no entity of the pool out unless
  the limit is reached.
\<close>

theorem selection_is_bounded_and_exact_first:
  assumes "0 < limit"
  shows "let chosen = select_analysis_candidates conv hits limit True in
         length chosen \<le> limit \<and> distinct (map hit_identity chosen)
         \<and> set chosen \<subseteq> set hits \<and> sorted (map (candidate_key conv) chosen)
         \<and> (list_ex exact_tier hits \<longrightarrow> list_all exact_tier chosen)
         \<and> (length chosen < limit \<longrightarrow>
              hit_identity ` {h \<in> set hits. exact_tier h \<or> \<not> list_ex exact_tier hits}
                \<subseteq> insert [] (hit_identity ` set chosen))"
proof -
  let ?pool = "if filter exact_tier hits \<noteq> [] then filter exact_tier hits else hits"
  let ?s = "sort_key (candidate_key conv) ?pool"
  let ?c = "select_analysis_candidates conv hits limit True"
  have chosen: "?c = take_unseen limit [] ?s"
    by (simp add: select_analysis_candidates_def Let_def)
  have ex: "filter exact_tier hits \<noteq> [] \<longleftrightarrow> list_ex exact_tier hits"
    by (auto simp: filter_empty_conv list_ex_iff)
  have sub: "set ?c \<subseteq> set ?pool"
    using take_unseen_subset [of limit "[]" ?s] by (simp add: chosen)
  have pool: "set ?pool = {h \<in> set hits. exact_tier h \<or> \<not> list_ex exact_tier hits}"
    using ex by auto
  have "length ?c < limit \<longrightarrow>
      hit_identity ` set ?pool \<subseteq> insert [] (hit_identity ` set ?c)"
    using take_unseen_complete [of "[]" limit ?s] assms(1) by (simp add: chosen)
  moreover have "length ?c \<le> limit"
    using take_unseen_length [of "[]" limit ?s] assms(1) by (simp add: chosen)
  moreover have "distinct (map hit_identity ?c)"
    using take_unseen_fresh [of limit "[]" ?s] by (simp add: chosen)
  moreover have "sorted (map (candidate_key conv) ?c)"
    unfolding chosen by (intro take_unseen_sorted sorted_sort_key)
  moreover have "set ?c \<subseteq> set hits"
    and "list_ex exact_tier hits \<longrightarrow> list_all exact_tier ?c"
    using sub unfolding pool by (auto simp: list_all_iff)
  ultimately show ?thesis unfolding pool Let_def by blast
qed

definition hit_named :: "string \<Rightarrow> string \<Rightarrow> pydict" where
  "hit_named tier name =
     [(''qualified_name'', PyStr name), (''file_path'', PyStr ''a.py''), (''tier'', PyStr tier)]"

theorem selection_is_bounded_and_exact_first_witness:
  "length (select_analysis_candidates (xe_conv (plain_env False open_slot))
      [hit_named ''lexical'' ''f'', hit_named ''exact'' ''g'', hit_named ''exact'' ''g''] 2 True) \<le> 2"
  using selection_is_bounded_and_exact_first [of 2 "xe_conv (plain_env False open_slot)"
      "[hit_named ''lexical'' ''f'', hit_named ''exact'' ''g'', hit_named ''exact'' ''g'']"]
  by (simp add: Let_def)

section \<open>Comparisons\<close>

text \<open>
  The analyst compares what the first two lookups found, whatever the entities of the plan are. In
  a refined round the lookups are those of the new search terms, while the entities still begin
  with the two that the user asked to compare.
\<close>

theorem comparison_follows_search_terms:
  assumes "qi_intent (pl_intent plan) = Comparison" "qi_entities (pl_intent plan) = a # b # rest"
    and "''compare_implementations'' \<in> set (analyst_tools plan query)" "\<not> is_out_of_scope query"
    and "gr = coordinates conv plan query (r0 # r1 # rs)"
    and "dget (primary_hit r0) ''qualified_name'' = PyStr q0" "q0 \<noteq> []"
    and "dget (primary_hit r1) ''qualified_name'' = PyStr q1" "q1 \<noteq> []"
  shows "run_code env plan query gr =
    (let x = issue env (xe_analyst_timeout env) 0
               (analyst_call ''compare_implementations'' [PyStr q0, PyStr q1])
     in after_single x (\<lambda>v. run_analyses env [x] [(''comparison'', jsonish v)] []))"
proof -
  have tools: "analyst_tools plan query = [''compare_implementations'']"
    using assms(1,3)
    by (auto simp: analyst_tools_def plan_tools_def Let_def split: option.splits if_splits)
  have names: "resolved_name a (hit_at (gr_hits gr) 0) = q0" "resolved_name b (hit_at (gr_hits gr) 1) = q1"
    using assms(4-9) by (simp_all add: coordinates_def Let_def hit_at_def resolved_name_def get_or_def py_str_def)
  have "analyst_entities plan query gr = a # b # rest"
    using assms(2) by (simp add: analyst_entities_def)
  then show ?thesis
    by (simp add: run_code_def Let_def tools names names(2) [unfolded One_nat_def] analysis_calls_def)
qed

definition found_entity :: "string \<Rightarrow> pyval" where
  "found_entity name = PyDict [(''qualified_name'', PyStr name)]"

definition refined_comparison :: execution_plan where
  "refined_comparison =
     analyst_plan\<lparr>pl_intent := (pl_intent analyst_plan)\<lparr>qi_intent := Comparison,
         qi_entities := [''alpha'', ''beta'', ''gamma'', ''delta'']\<rparr>,
       pl_terms := Some [''gamma'', ''delta''], pl_iteration := 2,
       pl_retry_tools := Some [''compare_implementations'']\<rparr>"

theorem comparison_follows_search_terms_witness:
  "run_code (plain_env False open_slot) refined_comparison ''compare alpha and beta''
      (coordinates (xe_conv (plain_env False open_slot)) refined_comparison ''compare alpha and beta''
         [found_entity ''gamma'', found_entity ''delta'']) =
    (let x = issue (plain_env False open_slot) (xe_analyst_timeout (plain_env False open_slot)) 0
               (analyst_call ''compare_implementations'' [PyStr ''gamma'', PyStr ''delta''])
     in after_single x (\<lambda>v. run_analyses (plain_env False open_slot) [x] [(''comparison'', jsonish v)] []))"
proof -
  have "\<not> is_out_of_scope ''compare alpha and beta''" by code_simp
  moreover have "dget (primary_hit (found_entity ''gamma'')) ''qualified_name'' = PyStr ''gamma''"
    and "dget (primary_hit (found_entity ''delta'')) ''qualified_name'' = PyStr ''delta''" by code_simp+
  ultimately show ?thesis
    by (intro comparison_follows_search_terms [where a = "''alpha''" and b = "''beta''"
          and rest = "[''gamma'', ''delta'']"])
       (simp_all add: refined_comparison_def analyst_plan_def analyst_tools_def plan_tools_def Let_def)
qed

end
