(* ===== verification/Grounding.thy ===== *)
theory Grounding
  imports PromptBudget QueryService
begin

text \<open>
  What the synthesis makes of the collected outputs apart from the model
  (\<open>core/orchestration/synthesis.py\<close>): the refusals that need no model, the citations of the
  evidence, and the repair and completion of the sources in an answer. An output is plain data, so
  the rows that \<open>_entity_hits_from_graph_output\<close> tells apart by identity are distinct objects.
\<close>

section \<open>Reading the outputs\<close>

definition analyst_items :: "outputs \<Rightarrow> string \<Rightarrow> pyval list" where
  "analyst_items outs key =
     (case inner_of outs CodeAnalyst of
        None \<Rightarrow> []
      | Some inner \<Rightarrow>
          (case dget inner key of PyList vs \<Rightarrow> vs | PyDict m \<Rightarrow> [PyDict m] | _ \<Rightarrow> []))"

text \<open>\<open>_usable_analysis\<close> of this module: it looks at fewer fields than that of the evidence check.\<close>

definition usable_report :: "pyval \<Rightarrow> bool" where
  "usable_report v =
     (case v of
        PyDict m \<Rightarrow>
          \<not> truthy (dget m ''error'') \<and>
          truthy (get_or m [''explanation'', ''analysis'', ''summary'', ''text'', ''comparison''])
      | _ \<Rightarrow> False)"

definition snippet_evidence :: "outputs \<Rightarrow> bool" where
  "snippet_evidence outs = list_ex usable_snippet (analyst_items outs ''snippets'')"

definition report_keys :: "string list" where
  "report_keys = [''explanations'', ''function_analyses'', ''comparison'']"

definition explanation_evidence :: "outputs \<Rightarrow> bool" where
  "explanation_evidence outs = list_ex (\<lambda>key. list_ex usable_report (analyst_items outs key)) report_keys"

definition analyst_evidence :: "outputs \<Rightarrow> bool" where
  "analyst_evidence outs \<longleftrightarrow> snippet_evidence outs \<or> explanation_evidence outs"

definition retrieval_incomplete :: "outputs \<Rightarrow> bool" where
  "retrieval_incomplete outs \<longleftrightarrow>
     agent_failed (map_of outs GraphQuery) \<or> agent_failed (map_of outs CodeAnalyst)"

text \<open>
  The mappings among the candidates, then among the found entities or their matches: the rows that
  the hits, the citations and the entity section go through.
\<close>

definition dicts :: "pyval list \<Rightarrow> pydict list" where
  "dicts vs = List.map_filter as_dict vs"

definition listed_rows :: "pydict \<Rightarrow> string \<Rightarrow> pydict list" where
  "listed_rows m key = (case dget m key of PyList vs \<Rightarrow> dicts vs | _ \<Rightarrow> [])"

definition match_rows :: "pydict \<Rightarrow> pydict list" where
  "match_rows item = (case dget item ''matches'' of PyList ms \<Rightarrow> dicts ms | _ \<Rightarrow> [item])"

definition graph_rows :: "pydict \<Rightarrow> pydict list" where
  "graph_rows graph =
     listed_rows graph ''analysis_candidates'' @ listed_rows graph ''candidates''
     @ concat (map match_rows (listed_rows graph ''entities''))"

definition hit_payloads :: "outputs \<Rightarrow> pydict list" where
  "hit_payloads outs =
     (case inner_of outs GraphQuery of
        None \<Rightarrow> []
      | Some graph \<Rightarrow> filter (\<lambda>m. is_entity_hit (PyDict m)) (graph_rows graph))"

section \<open>Refusals\<close>

definition retrieved_entity_names :: "pydict list \<Rightarrow> string list" where
  "retrieved_entity_names hits =
     concat (map (\<lambda>t. py_lower t # (if CHR ''.'' \<in> set t
                                    then [py_lower (rev (fst (partition_at CHR ''.'' (rev t))))] else []))
       (filter (\<lambda>t. t \<noteq> [])
          (concat (map (\<lambda>h. map (\<lambda>k. strip (str_or_empty (dget h k))) [''name'', ''qualified_name'']) hits))))"

definition hit_tier :: "pydict \<Rightarrow> string" where
  "hit_tier h = (if truthy (dget h ''tier'') then py_str (dget h ''tier'') else ''exact'')"

definition incidental_fulltext_only :: "string \<Rightarrow> pydict list \<Rightarrow> bool" where
  "incidental_fulltext_only query hits \<longleftrightarrow>
     (let tiers = map hit_tier hits;
          proper = map py_lower (proper_noun_tokens query)
      in hits \<noteq> [] \<and> ''exact'' \<notin> set tiers
         \<and> (''fulltext'' \<in> set tiers \<or> ''lexical'' \<in> set tiers) \<and> proper \<noteq> []
         \<and> \<not> list_ex (\<lambda>t. t \<in> set (retrieved_entity_names hits)) proper)"

definition incomplete_prefix :: string where
  "incomplete_prefix =
     ''Retrieval was incomplete because an agent errored, timed out, or was degraded. ''
     @ ''The answer below uses only the partial evidence that was retrieved.''"

definition incomplete_no_evidence :: string where
  "incomplete_no_evidence =
     ''Retrieval was incomplete because an agent errored, timed out, or was degraded. ''
     @ ''I don't have enough indexed FastAPI evidence to answer confidently.''"

definition outside_answer :: "string \<Rightarrow> string" where
  "outside_answer missing =
     ''This topic is not in the indexed FastAPI codebase. ''
     @ ''The query appears to refer to entities outside this repository ('' @ missing @ ''), ''
     @ ''so I can't explain it from indexed FastAPI sources.''"

definition no_source_answer :: string where
  "no_source_answer =
     ''I could not find indexed FastAPI source for this request. ''
     @ ''I won't invent tutorial examples or paths that were not retrieved.''"

definition missing_names :: "string \<Rightarrow> string" where
  "missing_names query =
     (let proper = proper_noun_tokens query
      in if proper \<noteq> [] then join '', '' (take 3 proper) else ''the query'')"

definition queried_entities :: "outputs \<Rightarrow> pyval list" where
  "queried_entities outs =
     (case inner_of outs GraphQuery of
        None \<Rightarrow> []
      | Some graph \<Rightarrow> (case dget graph ''queried_entities'' of PyList vs \<Rightarrow> vs | _ \<Rightarrow> []))"

definition missing_entity_answer :: "string \<Rightarrow> outputs \<Rightarrow> string option" where
  "missing_entity_answer query outs =
     (let hits = hit_payloads outs; queried = queried_entities outs
      in if is_out_of_scope query then Some (outside_answer (missing_names query))
         else if hits \<noteq> [] then
           (if incidental_fulltext_only query hits then Some (outside_answer (missing_names query))
            else None)
         else if analyst_evidence outs then None
         else if retrieval_incomplete outs then Some incomplete_no_evidence
         else if queried \<noteq> [] then Some (outside_answer (join '', '' (map py_str (take 3 queried))))
         else if wants_codebase_grounding query then Some no_source_answer
         else None)"

section \<open>Citations\<close>

definition is_module_hit :: "pydict \<Rightarrow> bool" where
  "is_module_hit item \<longleftrightarrow>
     str_or_empty (get_or item [''entity_type'', ''type'']) = ''Module'' \<or>
     (case dget item ''labels'' of PyList ls \<Rightarrow> list_ex (\<lambda>l. py_str l = ''Module'') ls | _ \<Rightarrow> False)"

definition citation_line :: "pydict \<Rightarrow> string option" where
  "citation_line item =
     (let path = strip (str_or_empty (get_or item [''file_path'', ''filePath'', ''path'']));
          qualified = strip (str_or_empty (get_or item [''qualified_name'', ''name'']));
          line_start = get_or item [''line_start'', ''lineStart''];
          line_end = get_or item [''line_end'', ''lineEnd''];
          location =
            (if path \<noteq> [] \<and> truthy line_start \<and> truthy line_end \<and> \<not> is_module_hit item
             then path @ '':'' @ py_str line_start @ ''-'' @ py_str line_end
             else if path \<noteq> [] then path else qualified)
      in if path = [] \<and> qualified = [] then None
         else if path \<noteq> [] \<and> qualified \<noteq> [] \<and> \<not> contains qualified path
         then Some (location @ '' ('' @ qualified @ '')'')
         else Some location)"

text \<open>The analyst's rows that are cited: usable snippets, explanations and function analyses.\<close>

definition cited_reports :: "pydict \<Rightarrow> pydict list" where
  "cited_reports inner =
     filter (\<lambda>m. usable_snippet (PyDict m)) (listed_rows inner ''snippets'')
     @ concat (map (\<lambda>key. filter (\<lambda>m. usable_report (PyDict m)) (listed_rows inner key))
          [''explanations'', ''function_analyses''])"

definition cited_rows :: "outputs \<Rightarrow> pydict list" where
  "cited_rows outs =
     (case inner_of outs GraphQuery of None \<Rightarrow> [] | Some graph \<Rightarrow> graph_rows graph)
     @ (case inner_of outs CodeAnalyst of None \<Rightarrow> [] | Some inner \<Rightarrow> cited_reports inner)"

definition evidence_citations :: "outputs \<Rightarrow> string list" where
  "evidence_citations outs =
     add_all_new [] (filter (\<lambda>l. l \<noteq> []) (List.map_filter citation_line (cited_rows outs)))"

section \<open>Sources of an answer\<close>

definition file_line_cite_rx :: rx where
  "file_line_cite_rx =
     seqs [WordB, Plus (Chr (\<lambda>c. is_word c \<or> c \<in> set ''./-'')), Lit ''.py:'', Plus (Chr is_digit)]"

definition name_part_rx :: rx where
  "name_part_rx = Seq (Chr name_start) (Star (Chr is_word))"

definition dotted_py_path_rx :: rx where
  "dotted_py_path_rx =
     seqs [WordB, name_part_rx, Plus (Seq (Lit ''.'') name_part_rx), Lit ''.py'', WordB]"

definition path_keys :: "string list" where
  "path_keys = [''file_path'', ''filePath'', ''path'']"

definition own_path :: "string \<Rightarrow> string list" where
  "own_path s =
     (let t = replace_char CHR 0x5C CHR ''/'' (strip s) in if ends_with t ''.py'' then [t] else [])"

definition evidence_path_max_depth :: nat where
  "evidence_path_max_depth = 8"

text \<open>The first argument is the number of levels that may still be entered, the top one included.\<close>

fun paths_within :: "nat \<Rightarrow> pyval \<Rightarrow> string list" where
  "paths_within 0 v = []"
| "paths_within (Suc n) (PyDict m) =
     concat (map (\<lambda>(k, item). case item of
                      PyStr s \<Rightarrow> if k \<in> set path_keys then own_path s else paths_within n item
                    | _ \<Rightarrow> paths_within n item) m)"
| "paths_within (Suc n) (PyList vs) = concat (map (paths_within n) vs)"
| "paths_within (Suc n) v = []"

definition evidence_paths :: "outputs \<Rightarrow> string list" where
  "evidence_paths outs = paths_within (Suc evidence_path_max_depth) (PyDict (agent_payload_dict outs))"

text \<open>\<open>pattern.sub(f, s)\<close>, from position \<open>i\<close> on, over the spans that \<open>finditer\<close> visits.\<close>

fun sub_spans :: "(string \<Rightarrow> string) \<Rightarrow> string \<Rightarrow> nat \<Rightarrow> (nat \<times> nat) list \<Rightarrow> string" where
  "sub_spans f s i [] = drop i s"
| "sub_spans f s i ((j, k) # spans) = slice s i j @ f (slice s j k) @ sub_spans f s k spans"

definition slashed :: "string \<Rightarrow> string" where
  "slashed cite = replace_char CHR ''.'' CHR ''/'' (take (length cite - 3) cite) @ ''.py''"

definition swap_path :: "string list \<Rightarrow> string \<Rightarrow> string" where
  "swap_path known cite = (if slashed cite \<in> set known then slashed cite else cite)"

definition normalize_dotted_paths :: "string \<Rightarrow> string list \<Rightarrow> string" where
  "normalize_dotted_paths answer known =
     (if known = [] then answer
      else sub_spans (swap_path known) answer 0 (find_all_from dotted_py_path_rx answer 0))"

definition with_grounded_sources :: "string \<Rightarrow> string \<Rightarrow> outputs \<Rightarrow> string" where
  "with_grounded_sources query answer outs =
     (let answer = normalize_dotted_paths answer (evidence_paths outs);
          citations = evidence_citations outs
      in if \<not> wants_codebase_grounding query \<or> citations = [] \<or> found file_line_cite_rx answer
         then answer
         else rstrip answer @ newline @ newline @ ''Sources:'' @ newline
              @ join newline (map (\<lambda>c. ''- '' @ c) citations))"

section \<open>Refusals and evidence\<close>

text \<open>A hit that answers the question is never refused.\<close>

lemma hits_are_answered:
  "hit_payloads outs \<noteq> [] \<Longrightarrow> \<not> incidental_fulltext_only query (hit_payloads outs) \<Longrightarrow>
     \<not> is_out_of_scope query \<Longrightarrow> missing_entity_answer query outs = None"
  by (simp add: missing_entity_answer_def Let_def)

text \<open>
  A question about the codebase whose evidence can be cited is answered with a source: the answer
  has a coordinate of its own, or it ends with the whole list of citations.
\<close>

theorem grounded_answers_cite:
  assumes "wants_codebase_grounding query" "c \<in> set (evidence_citations outs)"
  shows "found file_line_cite_rx (with_grounded_sources query answer outs)
         \<or> contains (''- '' @ c) (with_grounded_sources query answer outs)"
proof (cases "found file_line_cite_rx (normalize_dotted_paths answer (evidence_paths outs))")
  case True
  then show ?thesis by (simp add: with_grounded_sources_def Let_def)
next
  case False
  let ?list = "join newline (map (\<lambda>c. ''- '' @ c) (evidence_citations outs))"
  have "contains (''- '' @ c) ?list"
    using assms(2) by (intro contains_join) auto
  from assms(2) have "evidence_citations outs \<noteq> []" by auto
  with False assms(1) have "with_grounded_sources query answer outs =
      (rstrip (normalize_dotted_paths answer (evidence_paths outs)) @ newline @ newline @ ''Sources:'' @ newline)
      @ ?list @ []"
    by (simp add: with_grounded_sources_def Let_def cong: map_cong)
  with \<open>contains (''- '' @ c) ?list\<close> contains_middle show ?thesis by metis
qed

section \<open>Rewriting of paths\<close>

text \<open>The text of \<open>sub\<close> as pieces: each is kept or is a match that is replaced.\<close>

lemma sub_spans_pieces:
  "(\<And>j k. (j, k) \<in> set spans \<Longrightarrow> j \<le> k \<and> k \<le> length s) \<Longrightarrow> sorted_wrt (\<lambda>x y. snd x \<le> fst y) spans \<Longrightarrow>
   (\<And>j k. (j, k) \<in> set spans \<Longrightarrow> i \<le> j) \<Longrightarrow> i \<le> length s \<Longrightarrow>
     \<exists>ps. drop i s = concat (map fst ps) \<and> sub_spans f s i spans = concat (map snd ps)
          \<and> (\<forall>(u, v)\<in>set ps. v = u \<or> v = f u \<and> (\<exists>j k. (j, k) \<in> set spans \<and> u = slice s j k))"
proof (induction f s i spans rule: sub_spans.induct)
  case (1 f s i)
  show ?case by (intro exI [of _ "[(drop i s, drop i s)]"]) simp
next
  case (2 f s i j k spans)
  have jk: "i \<le> j" "j \<le> k" "k \<le> length s"
    using "2.prems"(3) [of j k] "2.prems"(1) [of j k] by simp_all
  obtain ps where ps: "drop k s = concat (map fst ps)" "sub_spans f s k spans = concat (map snd ps)"
    "\<forall>(u, v)\<in>set ps. v = u \<or> v = f u \<and> (\<exists>j k. (j, k) \<in> set spans \<and> u = slice s j k)"
    using "2.IH" "2.prems" jk by fastforce
  have "drop i s = slice s i j @ slice s j k @ drop k s"
    using jk by (metis append.assoc append_take_drop_id drop_drop le_add_diff_inverse2 slice_def)
  with ps show ?case
    by (intro exI [of _ "(slice s i j, slice s i j) # (slice s j k, f (slice s j k)) # ps"]) fastforce
qed

lemma find_all_from_disjoint: "sorted_wrt (\<lambda>x y. snd x \<le> fst y) (find_all_from r s i)"
proof (induction r s i rule: find_all_from.induct)
  case (1 r s i)
  show ?case
  proof (cases "search_from r s i")
    case None
    then show ?thesis by (subst find_all_from.simps) simp
  next
    case (Some p)
    obtain k j where p: "p = (k, j)" by (cases p)
    have "j \<le> m" if "(m, n) \<in> set (find_all_from r s (max (Suc k) j))" for m n
      using find_all_from_sound [OF that] by simp
    with 1 [OF Some p [symmetric]] Some p show ?thesis by (subst find_all_from.simps) auto
  qed
qed


section \<open>Refusal of a question word\<close>

definition which_question :: string where
  "which_question = ''Which handlers validate incoming bodies''"

lemma which_proper: "proper_noun_tokens which_question = [''Which'']" "py_lower ''Which'' = ''which''"
  by code_simp+

text \<open>
  The capitalised first word of this question counts as the name of an entity. Whatever the full
  text search found, the question is refused as one about another repository, unless a hit is
  called \<open>which\<close> or matches exactly.
\<close>

theorem question_word_refuses_hits:
  assumes "hit_payloads outs \<noteq> []" "set (map hit_tier (hit_payloads outs)) \<subseteq> {''fulltext'', ''lexical''}"
    and "''which'' \<notin> set (retrieved_entity_names (hit_payloads outs))"
  shows "missing_entity_answer which_question outs = Some (outside_answer ''Which'')"
proof -
  have "\<not> is_out_of_scope which_question" by code_simp
  moreover have "incidental_fulltext_only which_question (hit_payloads outs)"
    using assms by (cases "hit_payloads outs") (auto simp: incidental_fulltext_only_def which_proper)
  ultimately show ?thesis
    using assms(1) by (simp add: missing_entity_answer_def missing_names_def which_proper Let_def)
qed

definition text_hit :: pydict where
  "text_hit = [(''name'', PyStr ''APIRoute''), (''qualified_name'', PyStr ''fastapi.routing.APIRoute''),
     (''tier'', PyStr ''fulltext'')]"

definition text_hits :: outputs where
  "text_hits =
     [(GraphQuery, \<lparr>ao_agent = GraphQuery, ao_ok = True,
        ao_output = PyDict [(''candidates'', PyList [PyDict text_hit])], ao_error = None, ao_note = None,
        ao_tools = []\<rparr>)]"

theorem question_word_refuses_hits_witness:
  "missing_entity_answer which_question text_hits = Some (outside_answer ''Which'')"
proof (rule question_word_refuses_hits)
  have "hit_payloads text_hits = [text_hit]" by code_simp
  moreover have "hit_tier text_hit = ''fulltext''" by code_simp
  moreover have "''which'' \<notin> set (retrieved_entity_names [text_hit])" by code_simp
  ultimately show "hit_payloads text_hits \<noteq> []"
    "set (map hit_tier (hit_payloads text_hits)) \<subseteq> {''fulltext'', ''lexical''}"
    "''which'' \<notin> set (retrieved_entity_names (hit_payloads text_hits))" by simp_all
qed

theorem grounded_answers_cite_witness:
  "found file_line_cite_rx (with_grounded_sources ''show the source'' ''See below.'' text_hits)
   \<or> contains (''- '' @ ''fastapi.routing.APIRoute'') (with_grounded_sources ''show the source'' ''See below.'' text_hits)"
proof (rule grounded_answers_cite)
  show "wants_codebase_grounding ''show the source''" by code_simp
  have "evidence_citations text_hits = [''fastapi.routing.APIRoute'']" by code_simp
  then show "''fastapi.routing.APIRoute'' \<in> set (evidence_citations text_hits)" by simp
qed

end
