(* ===== verification/Synthesis.thy ===== *)
theory Synthesis
  imports Grounding Retry
begin

text \<open>
  The final answer (\<open>synthesize_response\<close> in \<open>core/orchestration/synthesis.py\<close>) and the answer without
  a model (\<open>core/orchestration/fallback.py\<close>). What the model does is a \<open>model_run\<close>: the chunks it
  streamed until the attempt ended, and how it ended. The token callback returns normally; durations
  and metrics are left out.
\<close>

section \<open>The evidence answer\<close>

definition evidence_only_header :: string where
  "evidence_only_header = ''synthesis unavailable, showing retrieved evidence''"

text \<open>Labels in order, without duplicates: \<open>citation or qualified\<close> of each row.\<close>

definition row_name :: "pydict \<Rightarrow> string" where
  "row_name m = strip (str_or_empty (get_or m [''qualified_name'', ''name'']))"

definition row_label :: "pydict \<Rightarrow> string" where
  "row_label m =
     (case citation_line m of Some c \<Rightarrow> if c \<noteq> [] then c else row_name m | None \<Rightarrow> row_name m)"

definition bullets :: "string list \<Rightarrow> string list" where
  "bullets labels = map (\<lambda>l. ''- '' @ l) (add_all_new [] (filter (\<lambda>l. l \<noteq> []) labels))"

definition entity_section :: "outputs \<Rightarrow> string list" where
  "entity_section outs =
     (case inner_of outs GraphQuery of
        None \<Rightarrow> [] | Some graph \<Rightarrow> bullets (map row_label (graph_rows graph)))"

definition neighbor_label :: "pydict \<Rightarrow> string" where
  "neighbor_label m =
     (let label = row_label m; rel = strip (str_or_empty (dget m ''relationship_type''))
      in if label \<noteq> [] \<and> rel \<noteq> [] then label @ '' ('' @ rel @ '')'' else label)"

definition neighbor_rows :: "pydict \<Rightarrow> pydict list" where
  "neighbor_rows m = (case dget m ''neighbors'' of PyList ns \<Rightarrow> dicts ns | _ \<Rightarrow> [m])"

definition neighbor_section :: "outputs \<Rightarrow> string \<Rightarrow> string \<Rightarrow> string list" where
  "neighbor_section outs key title =
     (case inner_of outs GraphQuery of
        None \<Rightarrow> []
      | Some graph \<Rightarrow>
          (let items = bullets (map neighbor_label (concat (map neighbor_rows (listed_rows graph key))))
           in if items = [] then [] else (''### '' @ title) # items))"

definition heading :: "pydict \<Rightarrow> string \<Rightarrow> string" where
  "heading m other =
     (case citation_line m of Some c \<Rightarrow> if c \<noteq> [] then c else other | None \<Rightarrow> other)"

definition str_or :: "pyval \<Rightarrow> string \<Rightarrow> string" where
  "str_or v d = (if truthy v then py_str v else d)"

definition snippet_lines :: "pydict \<Rightarrow> string list" where
  "snippet_lines m =
     [''#### '' @ heading m (str_or (dget m ''qualified_name'') ''snippet''), '''', ''```'',
      rstrip (str_or_empty (dget m ''text'')), ''```'', '''']"

definition snippet_section :: "outputs \<Rightarrow> string list" where
  "snippet_section outs =
     concat (map snippet_lines
       (filter (\<lambda>m. usable_snippet (PyDict m)) (dicts (analyst_items outs ''snippets''))))"

definition report_lines :: "string \<Rightarrow> pydict \<Rightarrow> string list" where
  "report_lines key m =
     [''#### '' @ heading m (str_or (get_or m [''qualified_name'', ''name_a'']) key), '''',
      rstrip (str_or_empty (get_or m [''explanation'', ''analysis'', ''summary'', ''text'', ''comparison''])),
      '''']"

definition analysis_section :: "outputs \<Rightarrow> string list" where
  "analysis_section outs =
     concat (map (\<lambda>key. concat (map (report_lines key)
         (filter (\<lambda>m. usable_report (PyDict m)) (dicts (analyst_items outs key))))) report_keys)"

text \<open>A section with its heading, or nothing when it has no lines.\<close>

definition titled :: "string list \<Rightarrow> string list \<Rightarrow> string list" where
  "titled hd_ls ls = (if ls = [] then [] else '''' # hd_ls @ ls)"

definition reason_line :: "string option \<Rightarrow> string" where
  "reason_line reason =
     (case reason of
        Some (c # r) \<Rightarrow>
          ''The synthesizer failed ('' @ c # r @ ''). '' @ ''Retrieved specialist evidence is shown below.''
      | _ \<Rightarrow> ''Retrieved specialist evidence is shown below.'')"

definition evidence_lines :: "string \<Rightarrow> outputs \<Rightarrow> string option \<Rightarrow> string list" where
  "evidence_lines query outs reason =
     (let entities = entity_section outs;
          dependents = neighbor_section outs ''dependents'' ''Dependents'';
          dependencies = neighbor_section outs ''dependencies'' ''Dependencies'';
          snippets = snippet_section outs;
          analyses = analysis_section outs
      in [evidence_only_header, '''', reason_line reason, '''', ''**Query:** '' @ query]
         @ (if retrieval_incomplete outs
            then ['''', ''Retrieval was incomplete because an agent errored, timed out, or was degraded.'']
            else [])
         @ titled [''### Entities''] entities @ titled [] dependents @ titled [] dependencies
         @ titled [''### Snippets''] snippets @ titled [''### Analysis''] analyses
         @ titled [''### Sources''] (map (\<lambda>c. ''- '' @ c) (evidence_citations outs))
         @ (if entities = [] \<and> dependents = [] \<and> dependencies = [] \<and> snippets = [] \<and> analyses = []
            then ['''', ''No structured evidence was retrieved.''] else []))"

definition render_evidence_answer :: "string \<Rightarrow> outputs \<Rightarrow> string option \<Rightarrow> string" where
  "render_evidence_answer query outs reason =
     rstrip (join newline (evidence_lines query outs reason)) @ newline"

section \<open>The conversation in the prompt\<close>

definition turn_line :: "turn \<Rightarrow> string" where
  "turn_line t = ''- ['' @ turn_role t @ ''] '' @ turn_content t"

definition format_session_context :: "context_window \<Rightarrow> string" where
  "format_session_context ctx =
     (case ctx of
        (summary, recent) \<Rightarrow>
          ''Summary:'' @ newline @ (if summary = [] then ''(none)'' else summary) @ newline @ newline
          @ ''Recent turns:'' @ newline
          @ (if recent = [] then ''- (none)'' else join newline (map turn_line recent)))"

definition session_context_block :: "context_window \<Rightarrow> string" where
  "session_context_block ctx =
     (if fst ctx = [] \<and> snd ctx = [] then ''''
      else newline @ ''Conversation context (summary + recent turns):'' @ newline
           @ format_session_context ctx @ newline)"

section \<open>The model call\<close>

text \<open>
  A provider streams chunks, some with usage, or completes in one piece. The attempt ends as in
  \<open>Retry\<close>; what was streamed until then has already been handed on.
\<close>

datatype model_run =
    Streaming "(string \<times> token_usage option) list" "unit attempt"
  | Completing "(string \<times> token_usage) attempt"

definition estimated_tokens_of :: "nat \<Rightarrow> int" where
  "estimated_tokens_of n = (if n = 0 then 0 else max 1 ((int n + 3) div 4))"

definition estimate_usage :: "string list \<Rightarrow> string \<Rightarrow> token_usage" where
  "estimate_usage messages reply =
     (let p = estimated_tokens_of (sum_list (map length messages));
          c = estimated_tokens_of (length reply)
      in \<lparr>prompt_tokens = p, completion_tokens = c, total_tokens = p + c,
          usage_model = None, cached_prompt_tokens = 0\<rparr>)"

fun streamed :: "model_run \<Rightarrow> string list" where
  "streamed (Streaming items e) = filter (\<lambda>c. c \<noteq> []) (map fst items)"
| "streamed (Completing a) = []"

definition last_usage :: "(string \<times> token_usage option) list \<Rightarrow> token_usage option" where
  "last_usage items = fold (\<lambda>x u. case snd x of None \<Rightarrow> u | Some v \<Rightarrow> Some v) items None"

text \<open>\<open>_complete_synthesis\<close> as an attempt: the text and the usage when the stream ran out.\<close>

fun complete_synthesis :: "string list \<Rightarrow> model_run \<Rightarrow> (string \<times> token_usage) attempt" where
  "complete_synthesis messages (Completing a) = a"
| "complete_synthesis messages (Streaming items e) =
     (case e of
        Finished (Inr u) \<Rightarrow>
          (let reply = concat (map fst items)
           in Finished (Inr (reply, case last_usage items of Some v \<Rightarrow> v
                                    | None \<Rightarrow> estimate_usage messages reply)))
      | Finished (Inl x) \<Rightarrow> Finished (Inl x)
      | TimedOut \<Rightarrow> TimedOut
      | TornDown \<Rightarrow> TornDown
      | CallerCancelled \<Rightarrow> CallerCancelled)"

section \<open>The result\<close>

record synthesis_result =
  sr_answer :: string
  sr_evidence_only :: bool
  sr_partial :: bool
  sr_reason :: "string option"
  sr_truncated :: "truncation option"
  sr_tokens :: int
  sr_chars :: int

definition plain_result :: "string \<Rightarrow> synthesis_result" where
  "plain_result answer =
     \<lparr>sr_answer = answer, sr_evidence_only = False, sr_partial = False, sr_reason = None,
      sr_truncated = None, sr_tokens = 0, sr_chars = 0\<rparr>"

text \<open>\<open>type(exc).__name__\<close>\<close>

fun exn_name :: "exn \<Rightarrow> string" where
  "exn_name (TimeoutError m) = ''TimeoutError''"
| "exn_name (ConnectionError m) = ''ConnectionError''"
| "exn_name (OSError m) = ''OSError''"
| "exn_name (AgentUnavailable a m) = ''AgentUnavailableError''"
| "exn_name (BreakerOpen a m) = ''CircuitBreakerOpenError''"
| "exn_name (RoutingError a m) = ''RoutingError''"
| "exn_name (SynthesisError a m) = ''SynthesisError''"
| "exn_name (SchemaValidationError a m) = ''SchemaValidationError''"
| "exn_name (GraphLookupError a m) = ''GraphLookupError''"
| "exn_name Cancelled = ''CancelledError''"
| "exn_name (OtherError c m) = c"

text \<open>
  The settings and the outside of one synthesis: the clock when the timeout is set, the timeout as
  text in an error, and the model.
\<close>

record synthesis_env =
  se_prompt_budget :: int
  se_order :: truncation_order
  se_now :: real
  se_timeout_s :: "real option"
  se_default_timeout_s :: real
  se_seconds :: "real \<Rightarrow> string"
  se_to_int :: "pyval \<Rightarrow> int"
  se_model :: "string list \<Rightarrow> model_run"
  se_llm :: llm_settings

text \<open>What a synthesis leaves: its result, the budget, the ledger and the tokens handed on.\<close>

record synthesis_end =
  sx_result :: synthesis_result
  sx_budget :: "request_budget option"
  sx_ledger :: ledger
  sx_tokens :: "string list"

definition with_prefix :: "outputs \<Rightarrow> string \<Rightarrow> string" where
  "with_prefix outs answer =
     (if retrieval_incomplete outs then incomplete_prefix @ newline @ newline @ lstrip answer else answer)"

definition evidence_fallback ::
    "string \<Rightarrow> outputs \<Rightarrow> truncation option \<Rightarrow> int \<times> int \<Rightarrow> string \<Rightarrow> synthesis_result" where
  "evidence_fallback query outs trunc msr reason =
     \<lparr>sr_answer = render_evidence_answer query outs (Some reason), sr_evidence_only = True,
      sr_partial = False, sr_reason = Some reason, sr_truncated = trunc, sr_tokens = snd msr,
      sr_chars = fst msr\<rparr>"

definition partial_synthesis_result ::
    "string \<Rightarrow> outputs \<Rightarrow> string \<Rightarrow> truncation option \<Rightarrow> int \<times> int \<Rightarrow> string \<Rightarrow> synthesis_result" where
  "partial_synthesis_result query outs reply trunc msr reason =
     \<lparr>sr_answer = with_grounded_sources query (with_prefix outs reply) outs, sr_evidence_only = False,
      sr_partial = True, sr_reason = Some reason, sr_truncated = trunc, sr_tokens = snd msr,
      sr_chars = fst msr\<rparr>"

definition full_result ::
    "string \<Rightarrow> outputs \<Rightarrow> string \<Rightarrow> truncation option \<Rightarrow> int \<times> int \<Rightarrow> synthesis_result" where
  "full_result query outs reply trunc msr =
     \<lparr>sr_answer = with_grounded_sources query (with_prefix outs reply) outs, sr_evidence_only = False,
      sr_partial = False, sr_reason = None, sr_truncated = trunc, sr_tokens = snd msr,
      sr_chars = fst msr\<rparr>"

section \<open>One synthesis\<close>

definition prepared_prompt ::
    "synthesis_env \<Rightarrow> string \<Rightarrow> outputs \<Rightarrow> context_window \<Rightarrow> pydict \<times> truncation option" where
  "prepared_prompt env query outs ctx =
     apply_prompt_budget query (session_context_block ctx) (se_prompt_budget env) (se_order env)
       (compact_neighbor_payloads (se_to_int env) neighbor_prompt_keep (agent_payload_dict outs))"

text \<open>
  The timeout: from the budget, whose reserve grows with the prompt, else as given, else from the
  settings.
\<close>

definition synthesis_window ::
    "synthesis_env \<Rightarrow> int \<Rightarrow> request_budget option \<Rightarrow> request_budget option \<times> real" where
  "synthesis_window env toks budget =
     (case budget of
        Some b \<Rightarrow>
          (let b' = fst (apply_prompt_reserve toks b)
           in (Some b', synthesis_timeout_s b' (se_now env) (Some toks)))
      | None \<Rightarrow> (None, case se_timeout_s env of Some t \<Rightarrow> t | None \<Rightarrow> se_default_timeout_s env))"

definition synthesis_messages ::
    "synthesis_env \<Rightarrow> string \<Rightarrow> outputs \<Rightarrow> context_window \<Rightarrow> string list" where
  "synthesis_messages env query outs ctx =
     [synthesis_system_prompt,
      render_synthesis_user_prompt query (session_context_block ctx)
        (fst (prepared_prompt env query outs ctx))]"

definition model_answer ::
    "synthesis_env \<Rightarrow> string \<Rightarrow> outputs \<Rightarrow> context_window \<Rightarrow> real \<Rightarrow> (string \<times> token_usage) result" where
  "model_answer env query outs ctx timeout =
     (let messages = synthesis_messages env query outs ctx
      in snd (await_with_timeout_retry (se_seconds env timeout) 0
                (\<lambda>w. (w, complete_synthesis messages (se_model env messages))) ()))"

definition synthesize_response ::
    "synthesis_env \<Rightarrow> string \<Rightarrow> outputs \<Rightarrow> context_window \<Rightarrow> request_budget option \<Rightarrow> ledger \<Rightarrow> string
      \<Rightarrow> synthesis_end result" where
  "synthesize_response env query outs ctx budget ledger cid =
     (case missing_entity_answer query outs of
        Some answer \<Rightarrow>
          Inr \<lparr>sx_result = plain_result answer, sx_budget = budget, sx_ledger = ledger, sx_tokens = []\<rparr>
      | None \<Rightarrow>
          (let (payload, trunc) = prepared_prompt env query outs ctx;
               msr = measure_synthesis_prompt query (session_context_block ctx) payload;
               (budget', timeout) = synthesis_window env (snd msr) budget;
               run = se_model env (synthesis_messages env query outs ctx);
               ended = (\<lambda>r l tokens. Inr \<lparr>sx_result = r, sx_budget = budget', sx_ledger = l, sx_tokens = tokens\<rparr>)
           in if timeout \<le> 0
              then ended (evidence_fallback query outs trunc msr ''TimeoutError'') ledger []
              else
                (case model_answer env query outs ctx timeout of
                   Inl e \<Rightarrow>
                     if e = Cancelled then Inl Cancelled
                     else if strip (concat (streamed run)) \<noteq> []
                     then ended (partial_synthesis_result query outs (concat (streamed run)) trunc msr (exn_name e))
                            ledger (streamed run)
                     else ended (evidence_fallback query outs trunc msr (exn_name e)) ledger (streamed run)
                 | Inr (reply, usage) \<Rightarrow>
                     ended (full_result query outs reply trunc msr)
                       (record_usage (se_llm env) cid Synthesis usage ledger)
                       (if streamed run = [] \<and> reply \<noteq> [] then [reply] else streamed run))))"

section \<open>Failures keep what there is\<close>

lemma rstrip_append: "rstrip b \<noteq> [] \<Longrightarrow> rstrip (a @ b) = a @ rstrip b"
  by (auto simp: rstrip_def dropWhile_append dropWhile_eq_Nil_conv)

lemma rstrip_prefix: "\<exists>t. s = rstrip s @ t"
  unfolding rstrip_def
  by (metis rev_append rev_rev_ident takeWhile_dropWhile_id)

lemma rstrip_rstrip_space: "rstrip b = [] \<Longrightarrow> rstrip (a @ b) = rstrip a"
  by (auto simp: rstrip_def dropWhile_append dropWhile_eq_Nil_conv)

lemma rstrip_keeps: "contains (rstrip l) (rstrip (u @ l @ t))"
proof (cases "rstrip t = []")
  case True
  then have eq: "rstrip (u @ l @ t) = rstrip (u @ l)"
    using rstrip_rstrip_space [of t "u @ l"] by simp
  show ?thesis
  proof (cases "rstrip l = []")
    case True
    then show ?thesis by (simp add: contains_Nil)
  next
    case False
    then have "rstrip (u @ l) = u @ rstrip l @ []" by (simp add: rstrip_append)
    then show ?thesis unfolding eq by (metis contains_middle contains_refl)
  qed
next
  case False
  then have "rstrip (u @ l @ t) = (u @ l) @ rstrip t"
    using rstrip_append [of t "u @ l"] by simp
  moreover obtain r where "l = rstrip l @ r" using rstrip_prefix by blast
  ultimately have "rstrip (u @ l @ t) = u @ rstrip l @ (r @ rstrip t)" by (metis append.assoc)
  then show ?thesis by (metis contains_middle contains_refl)
qed

lemma rendered_lines:
  assumes "l \<in> set (evidence_lines query outs reason)"
  shows "contains (rstrip l) (render_evidence_answer query outs reason)"
proof -
  obtain u t where "join newline (evidence_lines query outs reason) = u @ l @ t"
    using contains_join [OF assms, of newline] by (auto simp: contains_iff)
  then have "contains (rstrip l) (rstrip (join newline (evidence_lines query outs reason)))"
    using rstrip_keeps by metis
  then show ?thesis
    unfolding render_evidence_answer_def using contains_middle [of _ _ "[]"] by (metis append_Nil)
qed

lemma titled_lines: "set ls \<subseteq> set (titled hd_ls ls)"
  by (auto simp: titled_def)

lemma citations_in_lines:
  "c \<in> set (evidence_citations outs) \<Longrightarrow> ''- '' @ c \<in> set (evidence_lines query outs reason)"
  using titled_lines [of "map (\<lambda>c. ''- '' @ c) (evidence_citations outs)" "[''### Sources'']"]
  by (auto simp: evidence_lines_def Let_def)

text \<open>The model call fails, whatever prompt it gets, and the request is not cancelled.\<close>

definition model_fails :: "synthesis_env \<Rightarrow> bool" where
  "model_fails env \<longleftrightarrow>
     (\<forall>m. attempt_value (complete_synthesis m (se_model env m)) = None
          \<and> complete_synthesis m (se_model env m) \<notin> {CallerCancelled, Finished (Inl Cancelled)})"

lemma model_answer_fails:
  assumes "model_fails env"
  shows "\<exists>e. model_answer env query outs ctx t = Inl e \<and> e \<noteq> Cancelled"
proof -
  let ?m = "synthesis_messages env query outs ctx"
  have "model_answer env query outs ctx t =
      attempt_result (se_seconds env t) (complete_synthesis ?m (se_model env ?m))"
    by (simp add: model_answer_def Let_def await_with_timeout_retry_def retry_loop_Suc)
  moreover have "attempt_value (complete_synthesis ?m (se_model env ?m)) = None"
    and "complete_synthesis ?m (se_model env ?m) \<notin> {CallerCancelled, Finished (Inl Cancelled)}"
    using assms unfolding model_fails_def by blast+
  ultimately show ?thesis
    by (cases "complete_synthesis ?m (se_model env ?m)"; cases "model_answer env query outs ctx t") auto
qed


definition sample_llm :: llm_settings where
  "sample_llm = sample_settings"

definition stalled_env :: synthesis_env where
  "stalled_env =
     \<lparr>se_prompt_budget = 0, se_order = Snippets_Then_Lists, se_now = 0, se_timeout_s = Some 5,
      se_default_timeout_s = 20, se_seconds = \<lambda>r. ''5'', se_to_int = \<lambda>v. 0,
      se_model = \<lambda>m. Streaming [(''The router'', None)] TimedOut, se_llm = sample_llm\<rparr>"


end
