(* ===== verification/Orchestrator.thy ===== *)
theory Orchestrator
  imports Synthesis Executor RefineLoop Memory Breaker "HOL-Library.List_Lexorder" "HOL-Library.Char_ord"
begin

text \<open>
  One turn of the orchestrator (\<open>handle_query\<close> in \<open>core/orchestration/service.py\<close>): read memory and
  index version, look in the response cache, route, run the refinement loop, synthesize, remember.
  The clients, the clock and the models act on a world \<open>'w\<close>, of which the token ledger is a part; they
  are the fields of \<open>orch\<close>. Payloads are plain data; \<open>Cancelled\<close> is no \<open>Exception\<close> and ends the turn.
\<close>

section \<open>Cache keys\<close>

text \<open>\<open>re.sub(r"\s+", " ", s)\<close>\<close>

fun collapse_spaces :: "string \<Rightarrow> string" where
  "collapse_spaces [] = []"
| "collapse_spaces [c] = (if is_space c then '' '' else [c])"
| "collapse_spaces (c # d # s) =
     (if is_space c \<and> is_space d then collapse_spaces (d # s)
      else (if is_space c then CHR '' '' else c) # collapse_spaces (d # s))"

definition normalize_query :: "string \<Rightarrow> string" where
  "normalize_query query = py_lower (collapse_spaces (strip query))"

definition entity_fingerprint :: "string list \<Rightarrow> string" where
  "entity_fingerprint entities =
     join '','' (sort (remdups (filter (\<lambda>e. e \<noteq> []) (map strip entities))))"

definition known_version :: "string option \<Rightarrow> string" where
  "known_version version = (case version of Some (c # v) \<Rightarrow> c # v | _ \<Rightarrow> ''unknown'')"

definition cache_key :: "string \<Rightarrow> string \<Rightarrow> string option \<Rightarrow> string list \<Rightarrow> string" where
  "cache_key session normalized version entities =
     ''orchestrator:v1:'' @ known_version version @ '':'' @ session @ '':'' @ normalized
     @ '':'' @ entity_fingerprint entities"

section \<open>Metadata\<close>

definition skipped_agents :: "execution_plan \<Rightarrow> outputs \<Rightarrow> (agent_name \<times> string) list" where
  "skipped_agents plan outs =
     List.map_filter
       (\<lambda>a. case map_of outs a of
              None \<Rightarrow> Some (a, ''not_invoked'')
            | Some ao \<Rightarrow>
                if ao_tools ao \<noteq> [] then None
                else Some (a, if given (ao_error ao) then the (ao_error ao)
                              else if given (ao_note ao) then the (ao_note ao) else ''not_invoked''))
       (pl_agents plan)"

fun mode_str :: "routing_mode \<Rightarrow> string" where
  "mode_str By_LLM = ''llm''"
| "mode_str By_Rules = ''rules''"
| "mode_str By_Fallback = ''rules_fallback''"

definition strs :: "string list \<Rightarrow> pyval" where
  "strs ss = PyList (map PyStr ss)"

definition iteration_value :: "plan_iteration \<Rightarrow> pydict" where
  "iteration_value it =
     [(''iteration'', PyInt (it_number it)), (''routing_mode'', PyStr (mode_str (it_mode it))),
      (''agents'', strs (map agent_str (it_agents it))), (''tools_invoked'', strs (it_tools it)),
      (''search_terms'', strs (it_terms it)), (''sufficient'', PyBool (it_sufficient it)),
      (''reason'', PyStr (it_reason it)), (''refinement'', opt_value (it_refinement it))]"

fun ceiling_str :: "budget_ceiling \<Rightarrow> string" where
  "ceiling_str Deadline = ''deadline''"
| "ceiling_str Tokens = ''tokens''"
| "ceiling_str Cost = ''cost''"


fun purpose_str :: "purpose \<Rightarrow> string" where
  "purpose_str Routing = ''routing''"
| "purpose_str Synthesis = ''synthesis''"
| "purpose_str Analysis = ''analysis''"
| "purpose_str Summarization = ''summarization''"

fun state_str :: "breaker_state \<Rightarrow> string" where
  "state_str Closed = ''closed''"
| "state_str Open = ''open''"
| "state_str HalfOpen = ''half_open''"

text \<open>The dictionaries of \<open>_bucket\<close> and \<open>_entry_totals\<close>; \<open>fl\<close> is the \<open>repr\<close> of a float.\<close>

definition bucket_value :: "(real \<Rightarrow> string) \<Rightarrow> tok_bucket \<Rightarrow> pyval" where
  "bucket_value fl b =
     PyDict [(''prompt'', PyInt (b_prompt b)), (''completion'', PyInt (b_completion b)),
             (''total'', PyInt (b_total b)), (''cached_prompt'', PyInt (b_cached b)),
             (''uncached_prompt'', PyInt (b_uncached b)), (''cost_usd'', PyFloat (fl (b_cost b))),
             (''llm_calls'', PyInt (b_calls b)), (''model'', opt_str (b_model b))]"

definition totals_value :: "(real \<Rightarrow> string) \<Rightarrow> ledger_entry \<Rightarrow> pyval" where
  "totals_value fl e =
     PyDict [(''total'', PyInt (e_total e)), (''prompt'', PyInt (e_prompt e)),
             (''completion'', PyInt (e_completion e)), (''cached_prompt'', PyInt (e_cached e)),
             (''uncached_prompt'', PyInt (e_uncached e)), (''llm_calls'', PyInt (e_calls e)),
             (''cost_usd'', PyFloat (fl (e_cost e))),
             (''by_purpose'', PyDict (map (\<lambda>(p, b). (purpose_str p, bucket_value fl b)) (by_purpose e))),
             (''by_model'', PyDict (map (\<lambda>(m, b). (m, bucket_value fl b)) (by_model e)))]"

text \<open>\<open>model_dump\<close> of a \<open>CircuitBreakerSnapshot\<close> and of a \<open>PromptTruncation\<close>.\<close>

definition snapshot_value :: "(real \<Rightarrow> string) \<Rightarrow> breaker_snapshot \<Rightarrow> pyval" where
  "snapshot_value fl s =
     PyDict [(''state'', PyStr (state_str (snap_state s))),
             (''consecutive_failures'', PyInt (snap_failures s)),
             (''cooldown_remaining_s'',
              case cooldown_remaining_s s of None \<Rightarrow> PyNone | Some r \<Rightarrow> PyFloat (fl r))]"

definition dropped_value :: "dropped \<Rightarrow> pyval" where
  "dropped_value d =
     PyDict (case dr_kind d of
               Snippet \<Rightarrow>
                 [(''path'', PyStr (dr_path d)), (''kind'', PyStr ''snippet''),
                  (''original_chars'', PyInt (int (dr_original d))), (''kept_chars'', PyInt (int (dr_kept d)))]
             | ListItems \<Rightarrow>
                 [(''path'', PyStr (dr_path d)), (''kind'', PyStr ''list''),
                  (''original_len'', PyInt (int (dr_original d))), (''kept_len'', PyInt (int (dr_kept d)))])"

definition truncation_value :: "truncation \<Rightarrow> pyval" where
  "truncation_value t =
     PyDict [(''original_estimated_tokens'', PyInt (original_estimated_tokens t)),
             (''final_estimated_tokens'', PyInt (final_estimated_tokens t)),
             (''budget'', PyInt (token_cap t)), (''dropped'', PyList (map dropped_value (dropped_fields t)))]"

section \<open>What a turn works with\<close>

text \<open>
  The clients of one service: memory, graph statistics, the models, the environment that a plan runs
  in and what the round leaves, and the ledger, the breakers and the clock as parts of the world. What
  the memory client hands back for a cached response is an object with the payload, or plain data.
\<close>

datatype cached = With_Response pyval | Plain pyval

record 'w orch =
  oc_context :: "string \<Rightarrow> 'w \<Rightarrow> 'w \<times> context_window result"
  oc_version :: "'w \<Rightarrow> 'w \<times> string option result"
  oc_cached :: "string \<Rightarrow> 'w \<Rightarrow> 'w \<times> cached option result"
  oc_append :: "string \<Rightarrow> string \<Rightarrow> string \<Rightarrow> 'w \<Rightarrow> 'w \<times> unit result"
  oc_store :: "string \<Rightarrow> pyval \<Rightarrow> 'w \<Rightarrow> 'w \<times> unit result"
  oc_ledger :: "'w \<Rightarrow> ledger"
  oc_set_ledger :: "ledger \<Rightarrow> 'w \<Rightarrow> 'w"
  oc_clock :: "'w \<Rightarrow> nat \<Rightarrow> real"
  oc_router :: "'w \<Rightarrow> router_model"
  oc_exec :: "execution_plan \<Rightarrow> request_budget option \<Rightarrow> 'w \<Rightarrow> exec_env \<times> request_budget option \<times> 'w"
  oc_synthesis :: "'w \<Rightarrow> synthesis_env"
  oc_registry :: "'w \<Rightarrow> breaker_registry option"
  oc_set_registry :: "breaker_registry \<Rightarrow> 'w \<Rightarrow> 'w"
  oc_readings :: "'w \<Rightarrow> (real \<times> real) list"
  oc_float :: "real \<Rightarrow> string"
  oc_to_int :: "pyval \<Rightarrow> int"

record orch_settings =
  os_llm_first :: bool
  os_rules_tokens :: int
  os_llm :: llm_settings
  os_budget :: budget_settings
  os_max_iterations :: int
  os_prompt_budget :: int
  os_order :: truncation_order

record turn_result =
  tr_answer :: string
  tr_metadata :: pydict
  tr_outputs :: pydict
  tr_events :: "(string \<times> pydict) list"
  tr_tokens :: "string list"

text \<open>What is known before the cache is asked.\<close>

record turn_start =
  ts_context :: context_window
  ts_memory :: bool
  ts_version :: "string option"
  ts_statistics :: bool
  ts_key :: string

text \<open>\<open>except Exception\<close>: everything but a cancellation.\<close>

definition attempt_or :: "'a \<Rightarrow> 'w \<times> 'a result \<Rightarrow> ('a \<times> bool) result \<times> 'w" where
  "attempt_or fallback p =
     (case p of
        (w, Inr v) \<Rightarrow> (Inr (v, True), w)
      | (w, Inl e) \<Rightarrow> (if e = Cancelled then Inl Cancelled else Inr (fallback, False), w))"

definition start_turn :: "'w orch \<Rightarrow> string \<Rightarrow> string \<Rightarrow> 'w \<Rightarrow> turn_start result \<times> 'w" where
  "start_turn oc query sid w =
     (case attempt_or ('''', []) (oc_context oc sid w) of
        (Inl e, w1) \<Rightarrow> (Inl e, w1)
      | (Inr (ctx, memory), w1) \<Rightarrow>
          (case attempt_or None (oc_version oc w1) of
             (Inl e, w2) \<Rightarrow> (Inl e, w2)
           | (Inr (version, statistics), w2) \<Rightarrow>
               (Inr \<lparr>ts_context = ctx, ts_memory = memory, ts_version = version,
                     ts_statistics = statistics,
                     ts_key = cache_key sid (normalize_query query) version
                       (resolve_entities query (rule_based_entities query) (Some ctx))\<rparr>, w2)))"

section \<open>A cached turn\<close>

definition cached_payload :: "cached \<Rightarrow> pyval" where
  "cached_payload c =
     (case c of
        With_Response v \<Rightarrow> v
      | Plain (PyDict m) \<Rightarrow> (case map_of m ''response_json'' of Some v \<Rightarrow> v | None \<Rightarrow> PyDict m)
      | Plain v \<Rightarrow> v)"

definition cached_tools :: "pyval \<Rightarrow> string list" where
  "cached_tools payload =
     (case payload of
        PyDict m \<Rightarrow>
          (case dget m ''metadata'' of
             PyDict meta \<Rightarrow> (case dget meta ''tools_invoked'' of PyList ts \<Rightarrow> map py_str ts | _ \<Rightarrow> [])
           | _ \<Rightarrow> [])
      | _ \<Rightarrow> [])"

definition cached_answer :: "pyval \<Rightarrow> string" where
  "cached_answer payload =
     (case payload of
        PyDict m \<Rightarrow> (case map_of m ''answer'' of Some v \<Rightarrow> py_str v | None \<Rightarrow> '''')
      | _ \<Rightarrow> '''')"

definition cached_result :: "(real \<Rightarrow> string) \<Rightarrow> turn_start \<Rightarrow> pyval \<Rightarrow> turn_result" where
  "cached_result fl ts payload =
     \<lparr>tr_answer = cached_answer payload,
      tr_metadata =
        [(''cached'', PyBool True), (''cache_key'', PyStr (ts_key ts)),
         (''index_version'', opt_str (ts_version ts)), (''routing_mode'', PyStr ''cache_hit''),
         (''tools_invoked'', strs (cached_tools payload)),
         (''tokens'', totals_value fl empty_token_totals),
         (''memory_available'', PyBool (ts_memory ts)),
         (''graph_statistics_available'', PyBool (ts_statistics ts))],
      tr_outputs = [], tr_events = [], tr_tokens = []\<rparr>"

text \<open>The lookup, when memory is there: an error counts as a miss.\<close>

definition lookup_cache :: "'w orch \<Rightarrow> turn_start \<Rightarrow> 'w \<Rightarrow> cached option result \<times> 'w" where
  "lookup_cache oc ts w =
     (if \<not> ts_memory ts then (Inr None, w)
      else
        (case attempt_or None (oc_cached oc (ts_key ts) w) of
           (Inl e, w') \<Rightarrow> (Inl e, w')
         | (Inr (v, ok), w') \<Rightarrow> (Inr v, w')))"


section \<open>Routing\<close>

text \<open>A failure to classify is reported as a \<open>RoutingError\<close>, whatever it was.\<close>

fun as_routing_error :: "exn \<Rightarrow> exn" where
  "as_routing_error (RoutingError a m) = RoutingError a m"
| "as_routing_error Cancelled = Cancelled"
| "as_routing_error e = RoutingError ''orchestrator'' (exn_str e)"

definition asks_router :: "orch_settings \<Rightarrow> string \<Rightarrow> bool" where
  "asks_router st query \<longleftrightarrow>
     os_llm_first st \<or> rr_ambiguous (rule_based_route (os_rules_tokens st) query)"

definition route_turn ::
    "'w orch \<Rightarrow> orch_settings \<Rightarrow> string \<Rightarrow> string \<Rightarrow> context_window \<Rightarrow> 'w \<Rightarrow> execution_plan result \<times> 'w" where
  "route_turn oc st query cid ctx w =
     (case (if asks_router st query
            then analyze_query (oc_router oc w) (os_rules_tokens st) (os_llm st) (Some cid) query
                   (Some ctx) (Some (oc_ledger oc w))
            else (None, Inr (intent_from_rule_result query
                               (rule_based_route (os_rules_tokens st) query) By_Rules (Some ctx)))) of
        (l, r) \<Rightarrow>
          (case r of
             Inl e \<Rightarrow> Inl (as_routing_error e)
           | Inr qi \<Rightarrow>
               route_to_agents (normalize_grounded_intent (apply_conversation_entities qi query (Some ctx)) query),
           case l of None \<Rightarrow> w | Some l' \<Rightarrow> oc_set_ledger oc l' w))"

section \<open>Retrieval\<close>

text \<open>
  The refinement loop over the plan executor; its estimate of the prompt leaves the conversation out.
\<close>

definition turn_loop :: "'w orch \<Rightarrow> orch_settings \<Rightarrow> string \<Rightarrow> 'w loop_env" where
  "turn_loop oc st query =
     \<lparr>le_clock = oc_clock oc, le_ledger = (\<lambda>w. Some (oc_ledger oc w)),
      le_run = (\<lambda>plan b w. case oc_exec oc plan b w of (env, b', w') \<Rightarrow> (run_plan env plan query, b', w')),
      le_estimate = (\<lambda>outs. estimated_synthesis_prompt_tokens (oc_to_int oc) query outs
                       '''' (os_prompt_budget st) (os_order st))\<rparr>"

definition turn_tools :: "execution_plan \<Rightarrow> outputs \<Rightarrow> plan_iteration list \<Rightarrow> string list" where
  "turn_tools plan outs its =
     (let tools = add_all_new [] (concat (map it_tools its))
      in if tools = [] then tools_invoked plan outs else tools)"

definition turn_events :: "plan_iteration list \<Rightarrow> (string \<times> pydict) list" where
  "turn_events its =
     map (\<lambda>it. (''routing'', iteration_value it)) its
     @ [(''agent_result'', [(''agent'', PyStr ''orchestrator''), (''ok'', PyBool True), (''degraded'', PyBool False)])]"

definition breaker_snapshots :: "'w orch \<Rightarrow> 'w \<Rightarrow> (string \<times> breaker_snapshot) list \<times> 'w" where
  "breaker_snapshots oc w =
     (case oc_registry oc w of
        None \<Rightarrow> ([], w)
      | Some r \<Rightarrow>
          (case registry_snapshot r (oc_readings oc w) of
             (r', ss) \<Rightarrow> (ss, oc_set_registry oc r' w)))"

section \<open>The metadata of an answer\<close>

definition agent_degraded :: "outputs \<Rightarrow> (string \<times> breaker_snapshot) list \<Rightarrow> bool" where
  "agent_degraded outs snaps \<longleftrightarrow>
     list_ex (\<lambda>(a, ao). given (ao_note ao)) outs \<or> list_ex (\<lambda>(n, s). snap_state s = Open) snaps"

definition when_set :: "bool \<Rightarrow> string \<Rightarrow> pyval \<Rightarrow> pydict \<Rightarrow> pydict" where
  "when_set c k v m = (if c then dset k v m else m)"

definition turn_metadata ::
    "(real \<Rightarrow> string) \<Rightarrow> turn_start \<Rightarrow> execution_plan \<Rightarrow> outputs \<Rightarrow> plan_iteration list \<Rightarrow> synthesis_result
      \<Rightarrow> ledger_entry \<Rightarrow> (string \<times> breaker_snapshot) list \<Rightarrow> budget_ceiling option \<Rightarrow> pydict" where
  "turn_metadata fl ts plan outs its syn totals snaps ceil =
     (let skipped = skipped_agents plan outs;
          m = [(''cached'', PyBool False), (''cache_key'', PyStr (ts_key ts)),
               (''index_version'', opt_str (ts_version ts)),
               (''routing_mode'', PyStr (mode_str (pl_mode plan))),
               (''memory_available'', PyBool (ts_memory ts)),
               (''graph_statistics_available'', PyBool (ts_statistics ts)),
               (''tokens'', totals_value fl totals),
               (''degraded'', PyBool (agent_degraded outs snaps \<or> sr_evidence_only syn)),
               (''tools_invoked'', strs (turn_tools plan outs its)),
               (''plan_iterations'', PyList (map (\<lambda>it. PyDict (iteration_value it)) its)),
               (''plan_iteration_count'', PyInt (int (length its)))];
          m = when_set (skipped \<noteq> []) ''skipped_agents''
                (PyList (map (\<lambda>(a, r). PyDict [(''agent'', PyStr (agent_str a)), (''reason'', PyStr r)]) skipped)) m;
          m = when_set (sr_evidence_only syn) ''evidence_only'' (PyBool True) m;
          m = when_set (sr_evidence_only syn) ''degraded_reason'' (opt_str (sr_reason syn)) m;
          m = when_set (sr_partial syn) ''partial'' (PyBool True) m;
          m = when_set (sr_partial syn \<and> sr_reason syn \<noteq> None) ''degraded_reason'' (opt_str (sr_reason syn)) m;
          m = (case ceil of None \<Rightarrow> m | Some c \<Rightarrow> dset ''budget_exhausted'' (PyStr (ceiling_str c)) m);
          m = (case sr_truncated syn of None \<Rightarrow> m | Some t \<Rightarrow> dset ''prompt_truncated'' (truncation_value t) m);
          m = when_set (snaps \<noteq> []) ''circuit_breakers'' (PyDict (map (\<lambda>(n, s). (n, snapshot_value fl s)) snaps)) m
      in when_set (\<not> ts_memory ts) ''note'' (PyStr ''memory unavailable; proceeding statelessly'') m)"

definition stored_payload :: "turn_result \<Rightarrow> pyval" where
  "stored_payload r = PyDict [(''answer'', PyStr (tr_answer r)), (''metadata'', PyDict (tr_metadata r))]"

section \<open>Remembering\<close>

text \<open>Both turns in one attempt, then the cache; only a cancellation comes through.\<close>

definition remember ::
    "'w orch \<Rightarrow> turn_start \<Rightarrow> string \<Rightarrow> string \<Rightarrow> turn_result \<Rightarrow> 'w \<Rightarrow> turn_result result \<times> 'w" where
  "remember oc ts query sid r w =
     (if \<not> ts_memory ts then (Inr r, w)
      else
        (let appended = (case oc_append oc sid ''user'' query w of
                           (w1, Inl e) \<Rightarrow> (w1, Inl e)
                         | (w1, Inr u) \<Rightarrow> oc_append oc sid ''assistant'' (tr_answer r) w1)
         in case attempt_or () appended of
              (Inl e, w2) \<Rightarrow> (Inl e, w2)
            | (Inr u, w2) \<Rightarrow>
                (case attempt_or () (oc_store oc (ts_key ts) (stored_payload r) w2) of
                   (Inl e, w3) \<Rightarrow> (Inl e, w3)
                 | (Inr u, w3) \<Rightarrow> (Inr r, w3))))"

section \<open>One turn\<close>

text \<open>From the end of the retrieval to the answer.\<close>

definition answer_turn ::
    "'w orch \<Rightarrow> bool \<Rightarrow> string \<Rightarrow> string \<Rightarrow> string \<Rightarrow> turn_start \<Rightarrow> execution_plan \<Rightarrow> outputs
      \<Rightarrow> plan_iteration list \<Rightarrow> request_budget option \<Rightarrow> 'w \<Rightarrow> turn_result result \<times> 'w" where
  "answer_turn oc listening query sid cid ts plan outs its budget w =
     (case synthesize_response (oc_synthesis oc w) query outs (ts_context ts) budget (oc_ledger oc w) cid of
        Inl e \<Rightarrow> (Inl e, w)
      | Inr x \<Rightarrow>
          (let (l, totals) = close_entry cid (sx_ledger x);
               (snaps, w1) = breaker_snapshots oc (oc_set_ledger oc l w);
               r = \<lparr>tr_answer = sr_answer (sx_result x),
                    tr_metadata = turn_metadata (oc_float oc) ts plan outs its (sx_result x) totals snaps
                      (Option.bind (sx_budget x) Budget.exhausted),
                    tr_outputs = agent_payload_dict outs,
                    tr_events = (if listening then turn_events its else []),
                    tr_tokens = sx_tokens x\<rparr>
           in remember oc ts query sid r w1))"

definition fresh_turn ::
    "'w orch \<Rightarrow> orch_settings \<Rightarrow> bool \<Rightarrow> string \<Rightarrow> string \<Rightarrow> string \<Rightarrow> request_budget \<Rightarrow> turn_start \<Rightarrow> 'w
      \<Rightarrow> turn_result result \<times> 'w" where
  "fresh_turn oc st listening query sid cid budget ts w =
     (case route_turn oc st query cid (ts_context ts) w of
        (Inl e, w1) \<Rightarrow> (Inl e, w1)
      | (Inr plan, w1) \<Rightarrow>
          (case run_refinement_loop (turn_loop oc st query) (os_max_iterations st)
                  (plan_deadline_s (os_budget st)) query cid (Some (deadline_monotonic budget)) plan
                  (Some budget) w1 of
             (Inl e, budget', w2) \<Rightarrow> (Inl e, w2)
           | (Inr (outs, its), budget', w2) \<Rightarrow>
               answer_turn oc listening query sid cid ts plan outs its budget' w2))"

definition handle_query ::
    "'w orch \<Rightarrow> orch_settings \<Rightarrow> bool \<Rightarrow> string \<Rightarrow> string \<Rightarrow> string \<Rightarrow> 'w \<Rightarrow> turn_result result \<times> 'w" where
  "handle_query oc st listening query sid cid w0 =
     (let w = oc_set_ledger oc (open_entry cid (oc_ledger oc w0)) w0;
          budget = from_settings (os_budget st) (oc_clock oc w 0)
      in case start_turn oc query sid w of
           (Inl e, w1) \<Rightarrow> (Inl e, w1)
         | (Inr ts, w1) \<Rightarrow>
             (case lookup_cache oc ts w1 of
                (Inl e, w2) \<Rightarrow> (Inl e, w2)
              | (Inr (Some c), w2) \<Rightarrow>
                  (Inr (cached_result (oc_float oc) ts (cached_payload c)),
                   oc_set_ledger oc (fst (close_entry cid (oc_ledger oc w2))) w2)
              | (Inr None, w2) \<Rightarrow> fresh_turn oc st listening query sid cid budget ts w2))"


section \<open>What a turn can raise\<close>

definition only_cancelled :: "'a result \<Rightarrow> bool" where
  "only_cancelled r \<longleftrightarrow> (case r of Inl e \<Rightarrow> e = Cancelled | Inr v \<Rightarrow> True)"

lemma only_cancelled_simps [simp]:
  "only_cancelled (Inl e) \<longleftrightarrow> e = Cancelled" "only_cancelled (Inr v)"
  by (simp_all add: only_cancelled_def)

lemma only_cancelledD: "only_cancelled r \<Longrightarrow> r = Inl e \<Longrightarrow> e = Cancelled"
  by simp

lemma attempt_or_raises [simp]: "only_cancelled (fst (attempt_or f p))"
  by (auto simp: attempt_or_def split: prod.split sum.split)

lemma attempt_or_Inl: "attempt_or f p = (Inl e, w) \<Longrightarrow> e = Cancelled"
  using attempt_or_raises [of f p] by simp

lemma start_turn_raises: "start_turn oc query sid w = (Inl e, w') \<Longrightarrow> e = Cancelled"
  by (auto simp: start_turn_def split: prod.splits sum.splits dest: attempt_or_Inl)

lemma lookup_cache_raises: "lookup_cache oc ts w = (Inl e, w') \<Longrightarrow> e = Cancelled"
  by (auto simp: lookup_cache_def split: prod.splits sum.splits if_splits dest: attempt_or_Inl)

lemma remember_raises: "remember oc ts query sid r w = (Inl e, w') \<Longrightarrow> e = Cancelled"
  by (auto simp: remember_def Let_def split: prod.splits sum.splits if_splits dest: attempt_or_Inl)

lemma synthesis_raises: "synthesize_response env query outs ctx b l cid = Inl e \<Longrightarrow> e = Cancelled"
  by (auto simp: synthesize_response_def Let_def split: option.splits prod.splits sum.splits if_splits)

lemma run_graph_raises: "only_cancelled (run_graph env plan query)"
  by (auto simp: run_graph_def expand_relations_def Let_def only_cancelled_def
      split: sum.splits prod.splits if_splits option.splits outcome.splits)


lemma after_single_raises:
  "(\<And>v. only_cancelled (rest v)) \<Longrightarrow> only_cancelled (after_single x rest)"
  by (simp add: after_single_def split: outcome.split)

lemma run_analyses_raises [simp]: "only_cancelled (run_analyses env made out keyed)"
  by (simp add: run_analyses_def Let_def)

lemma run_code_raises: "only_cancelled (run_code env plan query gr)"
  by (auto simp: run_code_def Let_def intro!: after_single_raises split: list.split)

lemma run_index_raises: "only_cancelled (run_index env)"
  by (simp add: run_index_def Let_def split: outcome.split)

lemma run_agent_raises: "only_cancelled (run_agent env plan query gr a)"
  by (simp add: run_agent_def run_code_raises run_index_raises split: agent_name.split)

lemma run_agents_raises: "only_cancelled (run_agents env plan query gr as)"
proof (induction "as")
  case (Cons a "as")
  with run_agent_raises [of env plan query gr a] show ?case
    by (auto simp: only_cancelled_def split: sum.splits)
qed simp

lemma run_plan_raises: "run_plan env plan query = Inl e \<Longrightarrow> e = Cancelled"
  using run_graph_raises [of env plan query]
  by (auto simp: run_plan_def planned_graph_def split: sum.splits if_splits
      dest!: only_cancelledD [OF run_agents_raises])

text \<open>The errors a turn may end with.\<close>

definition turn_error :: "exn \<Rightarrow> bool" where
  "turn_error e \<longleftrightarrow> (case e of RoutingError a m \<Rightarrow> True | Cancelled \<Rightarrow> True | _ \<Rightarrow> False)"

lemma turn_error_simps [simp]: "turn_error Cancelled" "turn_error (RoutingError a m)"
  by (simp_all add: turn_error_def)

lemma route_raises: "route_to_agents qi = Inl e \<Longrightarrow> turn_error e"
  by (auto simp: route_to_agents_def split: if_splits)

lemma refine_raises: "refine_plan plan a = Inl e \<Longrightarrow> turn_error e"
  by (auto simp: refine_plan_def Let_def split: if_splits sum.splits dest!: route_raises)

lemma as_routing_error_turn [simp]: "turn_error (as_routing_error e)"
  by (cases e) simp_all

lemma route_turn_raises: "route_turn oc st query cid ctx w = (Inl e, w') \<Longrightarrow> turn_error e"
  by (auto simp: route_turn_def split: prod.splits sum.splits dest!: route_raises)

lemma rounds_raise:
  assumes "\<And>p b w e. fst (le_run env p b w) = Inl e \<Longrightarrow> turn_error e"
    and "rounds env query cid d n i current a combined its budget w = (Inl e, b', w')"
  shows "turn_error e"
  using assms(2)
proof (induction n arbitrary: i current a combined its budget w)
  case (Suc n)
  show ?case
  proof (rule ccontr)
    assume *: "\<not> turn_error e"
    have run: "\<not> turn_error e \<Longrightarrow> le_run env p b w \<noteq> (Inl e, b2, w2)" for p b b2 w w2
      using assms(1) [of p b w e] by auto
    have refine: "\<not> turn_error e \<Longrightarrow> next_plan env d i current a w \<noteq> Inl e" for w
      by (auto simp: next_plan_def split: option.splits if_splits dest: refine_raises)
    from Suc.prems * show False
      by (auto simp: Let_def run refine split: prod.splits bool.splits sum.splits option.splits if_splits
          dest: Suc.IH)
  qed
qed simp

lemma loop_raises:
  "run_refinement_loop (turn_loop oc st query) mx pd query cid dl plan b w = (Inl e, b', w') \<Longrightarrow> turn_error e"
  by (auto simp: run_refinement_loop_def Let_def turn_loop_def split: prod.splits
      dest!: rounds_raise [rotated] run_plan_raises)



section \<open>Cache keys of different sessions\<close>

lemma split_at_colon:
  assumes "CHR '':'' \<notin> set a" "CHR '':'' \<notin> set b" "a @ CHR '':'' # x = b @ CHR '':'' # y"
  shows "a = b \<and> x = y"
  using assms by (induction a arbitrary: b) (auto simp: append_eq_Cons_conv Cons_eq_append_conv)



text \<open>
  A colon in a session id breaks this, and the gateway takes any id a client sends: the session
  \<open>s:a\<close> that asks \<open>b\<close> and the session \<open>s\<close> that asks \<open>a:b\<close> share one key, so one is
  served the answer of the other.
\<close>

theorem session_colon_collides:
  "cache_key (session @ '':'' @ a) b version entities = cache_key session (a @ '':'' @ b) version entities"
  by (simp add: cache_key_def)

section \<open>A service with its memory in the process\<close>

text \<open>
  The conversation memory as the memory client: contexts, turns and cached answers are those of
  \<open>core/memory/service.py\<close>, on a database that is a part of the world. \<open>dumps\<close> and \<open>loads\<close>
  are the JSON encoder and decoder.
\<close>

record memory_world =
  mw_db :: memory_db
  mw_now :: int
  mw_ledger :: ledger

definition with_memory ::
    "memory_settings \<Rightarrow> summarizer \<Rightarrow> (pyval \<Rightarrow> string) \<Rightarrow> (string \<Rightarrow> pyval) \<Rightarrow> int
      \<Rightarrow> memory_world orch \<Rightarrow> memory_world orch" where
  "with_memory ms llm dumps loads budget oc =
     oc\<lparr>oc_context := (\<lambda>sid w. (w, Inr (get_context sid budget (mw_db w)))),
        oc_cached := (\<lambda>key w. case cache_get loads ms key (mw_now w) (mw_db w) of
           (db, r) \<Rightarrow> (w\<lparr>mw_db := db\<rparr>, Inr (map_option (\<lambda>(k, v, t). With_Response v) r))),
        oc_append := (\<lambda>sid role content w.
           case append_turn ms llm sid role content (mw_now w) (mw_now w) (mw_db w) of
             (db, r) \<Rightarrow> (w\<lparr>mw_db := db\<rparr>, r)),
        oc_store := (\<lambda>key v w. (w\<lparr>mw_db := cache_put dumps key v (mw_now w) (mw_db w)\<rparr>, Inr ())),
        oc_ledger := mw_ledger,
        oc_set_ledger := (\<lambda>l w. w\<lparr>mw_ledger := l\<rparr>)\<rparr>"

lemma with_memory_simps [simp]:
  "oc_ledger (with_memory ms llm dumps loads budget oc) = mw_ledger"
  "oc_set_ledger (with_memory ms llm dumps loads budget oc) = (\<lambda>l w. w\<lparr>mw_ledger := l\<rparr>)"
  "oc_store (with_memory ms llm dumps loads budget oc) =
     (\<lambda>key v w. (w\<lparr>mw_db := cache_put dumps key v (mw_now w) (mw_db w)\<rparr>, Inr ()))"
  "oc_cached (with_memory ms llm dumps loads budget oc) =
     (\<lambda>key w. case cache_get loads ms key (mw_now w) (mw_db w) of
        (db, r) \<Rightarrow> (w\<lparr>mw_db := db\<rparr>, Inr (map_option (\<lambda>(k, v, t). With_Response v) r)))"
  "oc_context (with_memory ms llm dumps loads budget oc) =
     (\<lambda>sid w. (w, Inr (get_context sid budget (mw_db w))))"
  by (simp_all add: with_memory_def)

lemma start_with_memory:
  "start_turn (with_memory ms llm dumps loads budget oc) query sid w = (Inr ts, w') \<Longrightarrow> ts_memory ts"
  by (auto simp: start_turn_def attempt_or_def split: prod.splits sum.splits if_splits)


lemma map_of_when_set [simp]: "k \<noteq> k' \<Longrightarrow> map_of (when_set c k v m) k' = map_of m k'"
  by (simp add: when_set_def update_conv')

lemma metadata_fields:
  "map_of (turn_metadata fl ts plan outs its syn totals snaps ceil) ''cached'' = Some (PyBool False)"
  "map_of (turn_metadata fl ts plan outs its syn totals snaps ceil) ''cache_key'' = Some (PyStr (ts_key ts))"
  "map_of (turn_metadata fl ts plan outs its syn totals snaps ceil) ''tools_invoked''
     = Some (strs (turn_tools plan outs its))"
  "map_of (turn_metadata fl ts plan outs its syn totals snaps ceil) ''degraded''
     = Some (PyBool (agent_degraded outs snaps \<or> sr_evidence_only syn))"
  by (simp_all add: turn_metadata_def Let_def update_conv' split: option.split)

text \<open>What a turn that computed its answer leaves in the memory.\<close>

definition stored_fresh :: "(pyval \<Rightarrow> string) \<Rightarrow> turn_result \<Rightarrow> memory_world \<Rightarrow> bool" where
  "stored_fresh dumps r w \<longleftrightarrow>
     (\<exists>key tools. map_of (tr_metadata r) ''cached'' = Some (PyBool False) \<and>
        map_of (tr_metadata r) ''cache_key'' = Some (PyStr key) \<and>
        map_of (tr_metadata r) ''tools_invoked'' = Some (strs tools) \<and>
        response_cache (mw_db w) key = Some \<lparr>cached_json = dumps (stored_payload r), cached_at = mw_now w\<rparr>)"

lemma remember_stores:
  assumes "remember (with_memory ms llm dumps loads budget oc) ts query sid r w = (Inr r', w')" "ts_memory ts"
  shows "r' = r \<and> response_cache (mw_db w') (ts_key ts)
    = Some \<lparr>cached_json = dumps (stored_payload r), cached_at = mw_now w'\<rparr>"
  using assms
  by (auto simp: remember_def Let_def attempt_or_def cache_put_def split: prod.splits sum.splits if_splits)

lemma answer_stores:
  assumes "answer_turn (with_memory ms llm dumps loads budget oc) listening query sid cid ts plan outs its b w
      = (Inr r, w')" "ts_memory ts"
  shows "stored_fresh dumps r w'"
  using assms
  by (auto simp: answer_turn_def Let_def stored_fresh_def metadata_fields
      split: sum.splits prod.splits dest!: remember_stores)

lemma fresh_stores:
  assumes "handle_query (with_memory ms llm dumps loads budget oc) st listening query sid cid w = (Inr r, w')"
    and "map_of (tr_metadata r) ''cached'' = Some (PyBool False)"
  shows "stored_fresh dumps r w'"
  using assms
  by (auto simp: handle_query_def fresh_turn_def Let_def cached_result_def
      split: prod.splits sum.splits option.splits dest!: start_with_memory intro: answer_stores)

text \<open>
  C7: An answer is cached and served again as it is, also a degraded one: while the row is in the cache and
  not too old, the next turn with its key gives the same text and the same tools as a plain cache
  hit, whose metadata says nothing of a degraded, partial or evidence-only answer. Nothing is
  retrieved or asked, and the conversation gets no turn.
\<close>

theorem stored_answer_is_replayed:
  fixes ms llm dumps loads budget base
  defines "oc \<equiv> with_memory ms llm dumps loads budget base"
  assumes "handle_query oc st l query sid cid w0 = (Inr r, w1)"
    and "map_of (tr_metadata r) ''cached'' = Some (PyBool False)"
    and "loads (dumps (stored_payload r)) = stored_payload r"
    and "start_turn oc query' sid' (v0\<lparr>mw_ledger := open_entry cid' (mw_ledger v0)\<rparr>) = (Inr ts, v)"
    and "map_of (tr_metadata r) ''cache_key'' = Some (PyStr (ts_key ts))"
    and "response_cache (mw_db v) (ts_key ts) = response_cache (mw_db w1) (ts_key ts)"
    and "mw_now v - cache_ttl_seconds ms * 1000000 \<le> mw_now w1"
  shows "\<exists>r' v'. handle_query oc st l' query' sid' cid' v0 = (Inr r', v') \<and> tr_answer r' = tr_answer r \<and>
    map_of (tr_metadata r') ''tools_invoked'' = map_of (tr_metadata r) ''tools_invoked'' \<and>
    list_all (\<lambda>k. map_of (tr_metadata r') k = None)
      [''degraded'', ''evidence_only'', ''degraded_reason'', ''partial''] \<and>
    mw_db v' = mw_db v"
proof -
  from fresh_stores [OF assms(2,3) [unfolded oc_def]] assms(6) obtain tools
    where tools: "map_of (tr_metadata r) ''tools_invoked'' = Some (strs tools)"
      and row: "response_cache (mw_db w1) (ts_key ts)
        = Some \<lparr>cached_json = dumps (stored_payload r), cached_at = mw_now w1\<rparr>"
    by (auto simp: stored_fresh_def)
  have memory: "ts_memory ts" using assms(5) unfolding oc_def by (rule start_with_memory)
  have hit: "lookup_cache oc ts v = (Inr (Some (With_Response (stored_payload r))), v)"
    using assms(4,7,8) row memory by (simp add: lookup_cache_def oc_def attempt_or_def cache_get_def Let_def)
  have found: "cached_tools (stored_payload r) = tools" "cached_answer (stored_payload r) = tr_answer r"
    using tools by (simp_all add: cached_tools_def cached_answer_def stored_payload_def dget_def strs_def
        py_str_def comp_def)
  have "handle_query oc st l' query' sid' cid' v0
      = (Inr (cached_result (oc_float oc) ts (stored_payload r)),
         v\<lparr>mw_ledger := fst (close_entry cid' (mw_ledger v))\<rparr>)"
    using assms(5) hit by (simp add: handle_query_def oc_def cached_payload_def)
  then show ?thesis by (simp add: cached_result_def found tools)
qed


definition idle_intent :: query_intent where
  "idle_intent =
     \<lparr>qi_mode = By_LLM, qi_intent = Lookup, qi_entities = [], qi_targets = [MemoryAgent], qi_reasoning = ''''\<rparr>"

definition spent_settings :: orch_settings where
  "spent_settings =
     \<lparr>os_llm_first = True, os_rules_tokens = 40, os_llm = sample_llm,
      os_budget = default_budget_settings\<lparr>request_deadline_s := 0\<rparr>, os_max_iterations = 2,
      os_prompt_budget = 0, os_order = Snippets_Then_Lists\<rparr>"

definition idle_clients :: "memory_world orch" where
  "idle_clients =
     \<lparr>oc_context = (\<lambda>sid w. (w, Inl (OSError ''''))), oc_version = (\<lambda>w. (w, Inr (Some ''v1''))),
      oc_cached = (\<lambda>key w. (w, Inr None)), oc_append = (\<lambda>sid role content w. (w, Inr ())),
      oc_store = (\<lambda>key v w. (w, Inr ())), oc_ledger = mw_ledger,
      oc_set_ledger = (\<lambda>l w. w\<lparr>mw_ledger := l\<rparr>), oc_clock = (\<lambda>w k. 0),
      oc_router = (\<lambda>w prompt. Inr (Some idle_intent, sample_usage)),
      oc_exec = (\<lambda>plan b w. (plain_env False idle_slot, b, w)), oc_synthesis = (\<lambda>w. stalled_env),
      oc_registry = (\<lambda>w. None), oc_set_registry = (\<lambda>r w. w), oc_readings = (\<lambda>w. []),
      oc_float = (\<lambda>r. ''0.0''), oc_to_int = (\<lambda>v. 0)\<rparr>"
definition idle_world :: memory_world where
  "idle_world = \<lparr>mw_db = empty_db, mw_now = 0, mw_ledger = Map.empty\<rparr>"

definition idle_memory :: memory_settings where
  "idle_memory = \<lparr>cache_ttl_seconds = 60, token_budget = 1000, recent_turns_to_keep = 4\<rparr>"


definition idle_service :: "(string \<Rightarrow> pyval) \<Rightarrow> memory_world orch" where
  "idle_service loads = with_memory idle_memory (\<lambda>p. Inr None) (\<lambda>v. ''j'') loads 0 idle_clients"

text \<open>The turn that \<open>hello\<close> starts there, and the answer it gets when no time is left.\<close>

definition idle_start :: turn_start where
  "idle_start =
     \<lparr>ts_context = ('''', []), ts_memory = True, ts_version = Some ''v1'', ts_statistics = True,
      ts_key = ''orchestrator:v1:v1:s1:hello:''\<rparr>"

definition idle_budget :: request_budget where
  "idle_budget = (from_settings (os_budget spent_settings) 0)\<lparr>Budget.exhausted := Some Deadline\<rparr>"

definition idle_synthesis :: synthesis_end where
  "idle_synthesis =
     projr (synthesize_response stalled_env ''hello'' [] ('''', []) (Some idle_budget) Map.empty ''c1'')"

definition idle_reply :: turn_result where
  "idle_reply =
     \<lparr>tr_answer = sr_answer (sx_result idle_synthesis),
      tr_metadata = turn_metadata (oc_float idle_clients) idle_start (projr (route_to_agents idle_intent)) [] []
        (sx_result idle_synthesis) (entry_totals (charge_entry sample_llm Routing sample_usage empty_entry)) []
        (Some Deadline),
      tr_outputs = [], tr_events = [], tr_tokens = sx_tokens idle_synthesis\<rparr>"

definition idle_appended :: memory_db where
  "idle_appended =
     fst (append_turn idle_memory (\<lambda>p. Inr None) ''s1'' ''assistant'' (tr_answer idle_reply) 0 0
       (fst (append_turn idle_memory (\<lambda>p. Inr None) ''s1'' ''user'' ''hello'' 0 0 empty_db)))"

definition idle_after :: memory_world where
  "idle_after =
     \<lparr>mw_db = cache_put (\<lambda>v. ''j'') (ts_key idle_start) (stored_payload idle_reply) 0 idle_appended, mw_now = 0,
      mw_ledger = Map.empty\<rparr>"

lemma idle_start_turn:
  "get_context ''s1'' 0 (mw_db w) = ('''', []) \<Longrightarrow>
     start_turn (idle_service loads) ''hello'' ''s1'' w = (Inr idle_start, w)"
proof -
  have "cache_key ''s1'' (normalize_query ''hello'') (Some ''v1'')
      (resolve_entities ''hello'' (rule_based_entities ''hello'') (Some ('''', []))) = ts_key idle_start"
    by code_simp
  then show "get_context ''s1'' 0 (mw_db w) = ('''', []) \<Longrightarrow> ?thesis"
    by (simp add: start_turn_def idle_service_def attempt_or_def idle_start_def)
      (simp add: with_memory_def idle_clients_def)
qed

lemma idle_route:
  "route_turn (idle_service loads) spent_settings ''hello'' ''c1'' ('''', []) w =
     (Inr (projr (route_to_agents idle_intent)),
      w\<lparr>mw_ledger := record_usage sample_llm ''c1'' Routing sample_usage (mw_ledger w)\<rparr>)"
proof -
  have "normalize_grounded_intent (apply_conversation_entities idle_intent ''hello'' (Some ('''', []))) ''hello''
      = idle_intent" by code_simp
  moreover have "route_to_agents idle_intent = Inr (projr (route_to_agents idle_intent))" by code_simp
  ultimately show ?thesis
    by (simp add: route_turn_def asks_router_def analyze_query_def idle_service_def)
      (simp add: with_memory_def idle_clients_def spent_settings_def)
qed


lemma idle_loop:
  "run_refinement_loop (turn_loop (idle_service loads) spent_settings ''hello'') 2 pd ''hello'' ''c1'' dl plan
     (Some (from_settings (os_budget spent_settings) 0)) w = (Inr ([], []), Some idle_budget, w)"
proof -
  have "oc_clock (idle_service loads) = (\<lambda>w k. 0)"
    by (simp add: idle_service_def with_memory_def idle_clients_def)
  then show ?thesis
    by (simp add: run_refinement_loop_def Let_def numeral_2_eq_2 may_start_def allow_new_call_def check_budget_def
        turn_loop_def idle_budget_def from_settings_def post_init_def remaining_s_def spent_settings_def
        default_budget_settings_def)
qed

lemma idle_synthesized:
  "synthesize_response stalled_env ''hello'' [] ('''', []) (Some idle_budget) l ''c1''
     = Inr (idle_synthesis\<lparr>sx_ledger := l\<rparr>) \<and> sx_budget idle_synthesis = Some idle_budget
     \<and> sx_ledger idle_synthesis = Map.empty"
proof -
  have missing: "missing_entity_answer ''hello'' [] = None" by code_simp
  have small: "snd (measure_synthesis_prompt ''hello'' (session_context_block ('''', []))
      (fst (prepared_prompt stalled_env ''hello'' [] ('''', [])))) \<le> 4000" by code_simp
  have window: "synthesis_window stalled_env n (Some idle_budget) = (Some idle_budget, 0)" if "n \<le> 4000" for n
    using that
    by (simp add: synthesis_window_def idle_budget_def stalled_env_def apply_prompt_reserve_def from_settings_def
        post_init_def spent_settings_def default_budget_settings_def Let_def scaled_synthesis_reserve_s_def
        reference_synthesis_prompt_tokens_def synthesis_timeout_s_def remaining_s_def)
  show ?thesis
    using small unfolding idle_synthesis_def synthesize_response_def missing
    by (auto simp: Let_def window split: prod.split)
qed

lemma idle_turn:
  "handle_query (idle_service loads) spent_settings False ''hello'' ''s1'' ''c1'' idle_world
     = (Inr idle_reply, idle_after)"
proof -
  have appends: "snd (append_turn idle_memory (\<lambda>p. Inr None) ''s1'' ''user'' ''hello'' 0 0 empty_db) = Inr ()"
    "snd (append_turn idle_memory (\<lambda>p. Inr None) ''s1'' ''assistant'' (tr_answer idle_reply) 0 0
      (fst (append_turn idle_memory (\<lambda>p. Inr None) ''s1'' ''user'' ''hello'' 0 0 empty_db))) = Inr ()"
    by code_simp+
  have appended: "append_turn idle_memory (\<lambda>p. Inr None) ''s1'' ''user'' ''hello'' 0 0 empty_db
      = (fst (append_turn idle_memory (\<lambda>p. Inr None) ''s1'' ''user'' ''hello'' 0 0 empty_db), Inr ())"
    "append_turn idle_memory (\<lambda>p. Inr None) ''s1'' ''assistant'' (tr_answer idle_reply) 0 0
      (fst (append_turn idle_memory (\<lambda>p. Inr None) ''s1'' ''user'' ''hello'' 0 0 empty_db)) = (idle_appended, Inr ())"
    using appends unfolding idle_appended_def by (simp_all add: prod_eq_iff)
  have parts: "oc_clock (idle_service loads) = (\<lambda>w k. 0)" "oc_synthesis (idle_service loads) = (\<lambda>w. stalled_env)"
    "oc_registry (idle_service loads) = (\<lambda>w. None)" "oc_float (idle_service loads) = oc_float idle_clients"
    "oc_append (idle_service loads) = (\<lambda>sid role content w.
       case append_turn idle_memory (\<lambda>p. Inr None) sid role content (mw_now w) (mw_now w) (mw_db w) of
         (db, r) \<Rightarrow> (w\<lparr>mw_db := db\<rparr>, r))"
    by (simp_all add: idle_service_def with_memory_def idle_clients_def)
  have memory: "oc_ledger (idle_service loads) = mw_ledger"
    "oc_set_ledger (idle_service loads) = (\<lambda>l w. w\<lparr>mw_ledger := l\<rparr>)"
    "oc_store (idle_service loads) =
       (\<lambda>key v w. (w\<lparr>mw_db := cache_put (\<lambda>v. ''j'') key v (mw_now w) (mw_db w)\<rparr>, Inr ()))"
    "oc_cached (idle_service loads) =
       (\<lambda>key w. case cache_get loads idle_memory key (mw_now w) (mw_db w) of
          (db, r) \<Rightarrow> (w\<lparr>mw_db := db\<rparr>, Inr (map_option (\<lambda>(k, v, t). With_Response v) r)))"
    by (simp_all add: idle_service_def)
  have world: "mw_db idle_world = empty_db" "mw_now idle_world = 0" "mw_ledger idle_world = Map.empty"
    "response_cache empty_db = Map.empty" "os_max_iterations spent_settings = 2" "ts_memory idle_start"
    "ts_context idle_start = ('''', [])" "Budget.exhausted idle_budget = Some Deadline"
    "tr_answer idle_reply = sr_answer (sx_result idle_synthesis)"
    by (simp_all add: idle_world_def empty_db_def spent_settings_def idle_start_def idle_budget_def idle_reply_def)
  let ?w = "idle_world\<lparr>mw_ledger := open_entry ''c1'' Map.empty\<rparr>"
  have start: "start_turn (idle_service loads) ''hello'' ''s1'' ?w = (Inr idle_start, ?w)"
    by (rule idle_start_turn) (simp add: idle_world_def get_context_def empty_db_def)
  obtain d where d: "append_turn idle_memory (\<lambda>p. Inr None) ''s1'' ''user'' ''hello'' 0 0 empty_db = (d, Inr ())"
    "append_turn idle_memory (\<lambda>p. Inr None) ''s1'' ''assistant'' (tr_answer idle_reply) 0 0 d = (idle_appended, Inr ())"
    using appended by metis
  have remembered: "remember (idle_service loads) idle_start ''hello'' ''s1'' idle_reply
      \<lparr>mw_db = empty_db, mw_now = 0, mw_ledger = Map.empty\<rparr> = (Inr idle_reply, idle_after)"
    using d by (simp add: remember_def parts memory world attempt_or_def idle_after_def)
  have w0: "idle_world = \<lparr>mw_db = empty_db, mw_now = 0, mw_ledger = Map.empty\<rparr>" by (simp add: idle_world_def)
  have "answer_turn (idle_service loads) False ''hello'' ''s1'' ''c1'' idle_start (projr (route_to_agents idle_intent))
      [] [] (Some idle_budget) (idle_world\<lparr>mw_ledger := [''c1'' \<mapsto> charge_entry sample_llm Routing sample_usage empty_entry]\<rparr>)
      = (Inr idle_reply, idle_after)"
    using remembered
    by (simp add: answer_turn_def idle_synthesized parts memory world Let_def close_entry_def entry_of_def
        breaker_snapshots_def agent_payload_dict_def idle_reply_def w0)
  with start show ?thesis
    by (simp add: handle_query_def fresh_turn_def Let_def memory world lookup_cache_def attempt_or_def
        cache_get_def idle_route idle_loop parts record_usage_def entry_of_def open_entry_def w0)
qed

text \<open>The decoder reads the stored answer back, and the same question comes again.\<close>

theorem stored_answer_is_replayed_witness:
  "map_of (tr_metadata idle_reply) ''degraded'' = Some (PyBool True) \<and>
    (\<exists>r' v'. handle_query (idle_service (\<lambda>s. stored_payload idle_reply)) spent_settings False ''hello'' ''s1'' ''c2''
       idle_after = (Inr r', v') \<and> tr_answer r' = tr_answer idle_reply \<and>
    map_of (tr_metadata r') ''tools_invoked'' = map_of (tr_metadata idle_reply) ''tools_invoked'' \<and>
    list_all (\<lambda>k. map_of (tr_metadata r') k = None)
      [''degraded'', ''evidence_only'', ''degraded_reason'', ''partial''] \<and>
    mw_db v' = mw_db (idle_after\<lparr>mw_ledger := open_entry ''c2'' (mw_ledger idle_after)\<rparr>))"
  unfolding idle_service_def
proof (rule conjI, goal_cases)
  case 1
  have "sr_evidence_only (sx_result idle_synthesis)" by code_simp
  then show ?case by (simp add: idle_reply_def metadata_fields)
next
  case 2
  show ?case
  proof (rule stored_answer_is_replayed)
    show "handle_query (with_memory idle_memory (\<lambda>p. Inr None) (\<lambda>v. ''j'') (\<lambda>s. stored_payload idle_reply) 0 idle_clients)
        spent_settings False ''hello'' ''s1'' ''c1'' idle_world = (Inr idle_reply, idle_after)"
      using idle_turn unfolding idle_service_def .
    show "map_of (tr_metadata idle_reply) ''cached'' = Some (PyBool False)"
      by (simp add: idle_reply_def metadata_fields)
    show "stored_payload idle_reply = stored_payload idle_reply" ..
    have "get_context ''s1'' 0 (mw_db idle_after) = ('''', [])" by code_simp
    then show "start_turn (with_memory idle_memory (\<lambda>p. Inr None) (\<lambda>v. ''j'') (\<lambda>s. stored_payload idle_reply) 0 idle_clients)
        ''hello'' ''s1'' (idle_after\<lparr>mw_ledger := open_entry ''c2'' (mw_ledger idle_after)\<rparr>)
      = (Inr idle_start, idle_after\<lparr>mw_ledger := open_entry ''c2'' (mw_ledger idle_after)\<rparr>)"
      using idle_start_turn unfolding idle_service_def by simp
    show "map_of (tr_metadata idle_reply) ''cache_key'' = Some (PyStr (ts_key idle_start))"
      by (simp add: idle_reply_def metadata_fields)
    show "mw_now (idle_after\<lparr>mw_ledger := open_entry ''c2'' (mw_ledger idle_after)\<rparr>)
        - cache_ttl_seconds idle_memory * 1000000 \<le> mw_now idle_after"
      by (simp add: idle_memory_def)
  qed simp
qed


section \<open>The ledger entry of a turn\<close>

definition entry_open :: "string \<Rightarrow> memory_world \<Rightarrow> bool" where
  "entry_open cid w \<longleftrightarrow> mw_ledger w cid \<noteq> None"

text \<open>The clients may charge to entries but take none away.\<close>

definition entry_frame :: "string \<Rightarrow> memory_world orch \<Rightarrow> bool" where
  "entry_frame cid oc \<longleftrightarrow>
     (\<forall>w. entry_open cid w \<longrightarrow> entry_open cid (fst (oc_version oc w))) \<and>
     (\<forall>p b w. entry_open cid w \<longrightarrow> entry_open cid (snd (snd (oc_exec oc p b w)))) \<and>
     (\<forall>r w. mw_ledger (oc_set_registry oc r w) = mw_ledger w)"

lemma entry_open_simps [simp]:
  "entry_open cid (w\<lparr>mw_ledger := l\<rparr>) \<longleftrightarrow> l cid \<noteq> None"
  "entry_open cid (w\<lparr>mw_db := d\<rparr>) \<longleftrightarrow> entry_open cid w"
  by (simp_all add: entry_open_def)

lemma with_memory_frame [simp]:
  "oc_version (with_memory ms llm dumps loads budget oc) = oc_version oc"
  "oc_exec (with_memory ms llm dumps loads budget oc) = oc_exec oc"
  "oc_set_registry (with_memory ms llm dumps loads budget oc) = oc_set_registry oc"
  "oc_append (with_memory ms llm dumps loads budget oc) =
     (\<lambda>sid role content w. case append_turn ms llm sid role content (mw_now w) (mw_now w) (mw_db w) of
        (db, r) \<Rightarrow> (w\<lparr>mw_db := db\<rparr>, r))"
  by (simp_all add: with_memory_def)

lemma rounds_keep:
  assumes run: "\<And>p b w. P w \<Longrightarrow> P (snd (snd (le_run env p b w)))"
    and "rounds env query cid d n i current a combined its budget w = (r, b', w')" "P w"
  shows "P w'"
  using assms(2,3)
proof (induction n arbitrary: i current a combined its budget w)
  case (Suc n)
  have run': "P w \<Longrightarrow> le_run env p b w = (x, y, w2) \<Longrightarrow> P w2" for p b w x y w2
    using run [of w p b] by simp
  from Suc.prems show ?case
    by (auto simp: Let_def split: prod.splits bool.splits sum.splits option.splits if_splits
        dest: run' Suc.IH)
qed simp

lemma loop_keeps:
  assumes "entry_frame cid base" "entry_open cid w"
    and "run_refinement_loop (turn_loop (with_memory ms llm dumps loads budget base) st query) mx pd query c dl plan b w
      = (r, b', w')"
  shows "entry_open cid w'"
proof -
  let ?env = "turn_loop (with_memory ms llm dumps loads budget base) st query"
  have "entry_open cid (snd (snd (le_run ?env p b w)))" if "entry_open cid w" for p b w
    using assms(1) [unfolded entry_frame_def, THEN conjunct2, THEN conjunct1, rule_format, OF that]
    by (auto simp: turn_loop_def split: prod.split) (metis snd_conv)
  from rounds_keep [where env = ?env and P = "entry_open cid", OF this _ assms(2)] assms(3)
  show ?thesis by (auto simp: run_refinement_loop_def Let_def split: prod.splits)
qed

lemma analyze_keeps_entry:
  "analyze_query model n llm c query ctx (Some l) = (Some l', r) \<Longrightarrow> l cid \<noteq> None \<Longrightarrow> l' cid \<noteq> None"
  by (auto simp: analyze_query_def record_usage_def Let_def split: sum.splits option.splits exn.splits if_splits)

lemma route_keeps:
  assumes "route_turn (with_memory ms llm dumps loads budget base) st query c ctx w = (r, w')" "entry_open cid w"
  shows "entry_open cid w'"
  using assms
  by (auto simp: route_turn_def entry_open_def split: prod.splits option.splits if_splits dest!: analyze_keeps_entry)

lemma start_keeps:
  assumes "start_turn (with_memory ms llm dumps loads budget base) query sid w = (r, w')" "entry_open cid w"
    "entry_frame cid base"
  shows "entry_open cid w'"
  using assms
  by (auto simp: start_turn_def attempt_or_def entry_frame_def split: prod.splits sum.splits if_splits)

lemma lookup_keeps:
  "lookup_cache (with_memory ms llm dumps loads budget base) ts w = (r, w') \<Longrightarrow> mw_ledger w' = mw_ledger w"
  by (auto simp: lookup_cache_def attempt_or_def split: prod.splits sum.splits if_splits)

lemma remember_keeps:
  "remember (with_memory ms llm dumps loads budget base) ts query sid x w = (r, w') \<Longrightarrow> mw_ledger w' = mw_ledger w"
  by (auto simp: remember_def Let_def attempt_or_def split: prod.splits sum.splits if_splits)

lemma remembers_entry:
  assumes "remember (with_memory ms llm dumps loads budget base) ts query sid x w = (r, w')" "mw_ledger w cid = None"
  shows "case r of Inr x \<Rightarrow> mw_ledger w' cid = None | Inl e \<Rightarrow> e = Cancelled"
  using assms remember_keeps [OF assms(1)] by (auto split: sum.split dest: remember_raises)

definition entry_after :: "string \<Rightarrow> turn_result result \<times> memory_world \<Rightarrow> bool" where
  "entry_after cid p \<longleftrightarrow>
     (case p of (Inr r, w) \<Rightarrow> mw_ledger w cid = None
      | (Inl e, w) \<Rightarrow> e \<noteq> Cancelled \<longrightarrow> mw_ledger w cid \<noteq> None)"

lemma entry_after_answer:
  assumes "entry_frame cid base"
  shows "entry_after cid (answer_turn (with_memory ms llm dumps loads budget base) l query sid cid ts plan outs its b w)"
proof -
  have remembered: "mw_ledger v cid = None \<Longrightarrow>
      entry_after cid (remember (with_memory ms llm dumps loads budget base) ts query sid x v)" for v x
    using remembers_entry [of ms llm dumps loads budget base ts query sid x v _ _ cid]
    by (cases "remember (with_memory ms llm dumps loads budget base) ts query sid x v")
      (auto simp: entry_after_def split: sum.splits)
  have "entry_after cid (Inl e, v)" if "e = Cancelled" for e v
    using that by (simp add: entry_after_def)
  with assms remembered show ?thesis
    by (auto simp: answer_turn_def Let_def close_entry_def breaker_snapshots_def entry_frame_def
        split: sum.split prod.split option.split dest: synthesis_raises)
qed

lemma entry_after_fresh:
  assumes "entry_frame cid base" "entry_open cid w"
  shows "entry_after cid (fresh_turn (with_memory ms llm dumps loads budget base) st l query sid cid b ts w)"
proof (cases "route_turn (with_memory ms llm dumps loads budget base) st query cid (ts_context ts) w")
  case (Pair r w1)
  have open1: "entry_open cid w1" using route_keeps [OF Pair assms(2)] .
  have "entry_after cid (Inl e, w')"
    if "run_refinement_loop (turn_loop (with_memory ms llm dumps loads budget base) st query) mx pd query cid dl p bo w1
      = (Inl e, b', w')" for mx pd dl p bo e b' w'
    using loop_keeps [OF assms(1) open1 that] by (simp add: entry_after_def entry_open_def)
  with Pair open1 show ?thesis
    by (auto simp: fresh_turn_def entry_after_answer [OF assms(1)] split: sum.split prod.split)
      (simp add: entry_after_def entry_open_def)
qed

text \<open>
  C26: A turn opens an entry in the token ledger under its correlation id. An answer, computed or cached,
  closes it. A turn that ends with a \<open>RoutingError\<close> leaves it behind: nothing in the service ever
  removes it.
\<close>

theorem failed_turn_leaves_entry:
  assumes "entry_frame cid base"
  shows "case handle_query (with_memory ms llm dumps loads budget base) st l query sid cid w0 of
     (Inr r, w) \<Rightarrow> mw_ledger w cid = None
   | (Inl e, w) \<Rightarrow> e = Cancelled \<or> entry_open cid w"
proof -
  let ?oc = "with_memory ms llm dumps loads budget base"
  let ?w = "w0\<lparr>mw_ledger := open_entry cid (mw_ledger w0)\<rparr>"
  have opened: "entry_open cid ?w" by (simp add: open_entry_def)
  have "entry_after cid (handle_query ?oc st l query sid cid w0)"
  proof (cases "start_turn ?oc query sid ?w")
    case (Pair r w1)
    then have open1: "entry_open cid w1" using start_keeps opened assms by metis
    have fresh: "entry_after cid (fresh_turn ?oc st l query sid cid b ts w2)"
      if "lookup_cache ?oc ts w1 = (Inr None, w2)" for b ts w2
      using entry_after_fresh [OF assms] lookup_keeps [OF that] open1 by (simp add: entry_open_def)
    from Pair fresh show ?thesis
      by (auto simp: handle_query_def Let_def close_entry_def
          split: sum.split prod.split option.split dest!: start_turn_raises lookup_cache_raises)
        (auto simp: entry_after_def)
  qed
  then show ?thesis by (auto simp: entry_after_def entry_open_def split: prod.splits sum.splits)
qed

definition refusing_clients :: "memory_world orch" where
  "refusing_clients =
     idle_clients\<lparr>oc_router := (\<lambda>w prompt. Inl (RoutingError ''orchestrator'' ''no plan''))\<rparr>"

theorem failed_turn_leaves_entry_witness:
  "case handle_query (with_memory idle_memory (\<lambda>p. Inr None) (\<lambda>v. ''j'') (\<lambda>s. PyNone) 0 refusing_clients)
          spent_settings False ''hello'' ''s1'' ''c1'' idle_world of
     (Inr r, w) \<Rightarrow> mw_ledger w ''c1'' = None
   | (Inl e, w) \<Rightarrow> e = Cancelled \<or> entry_open ''c1'' w"
  by (rule failed_turn_leaves_entry)
    (simp add: entry_frame_def refusing_clients_def idle_clients_def)

end
