(* ===== verification/Snippets.thy ===== *)
theory Snippets
  imports Evidence
begin

text \<open>
  Numbered source snippets (\<open>core/analysis/snippets.py\<close>). A path is its list of parts below \<open>/\<close>. What
  the operating system does is a \<open>file_system\<close>: \<open>realpath\<close> on absolute paths, which follows links and
  \<open>..\<close>, and reading a file as UTF-8 text.
\<close>

section \<open>Paths\<close>

record file_system =
  fs_real :: "string list \<Rightarrow> string list"
  fs_is_file :: "string list \<Rightarrow> bool"
  fs_read :: "string list \<Rightarrow> string result"

text \<open>\<open>Path(s)\<close>: empty parts and single dots vanish.\<close>

fun split_on :: "char \<Rightarrow> string \<Rightarrow> string list" where
  "split_on c [] = [[]]"
| "split_on c (d # s) =
     (if d = c then [] # split_on c s
      else (case split_on c s of [] \<Rightarrow> [[d]] | p # ps \<Rightarrow> (d # p) # ps))"

definition path_parts :: "string \<Rightarrow> string list" where
  "path_parts s = filter (\<lambda>p. p \<noteq> [] \<and> p \<noteq> ''.'') (split_on CHR ''/'' s)"

definition path_str :: "string list \<Rightarrow> string" where
  "path_str ps = ''/'' @ join ''/'' ps"

definition traversal_error :: "string \<Rightarrow> string list \<Rightarrow> exn" where
  "traversal_error file_path base =
     OtherError ''PathTraversalError''
       (''path '' @ repr_str file_path @ '' resolves outside repository root '' @ repr_str (path_str base))"

definition resolve_repo_path :: "file_system \<Rightarrow> string list \<Rightarrow> string \<Rightarrow> string list result" where
  "resolve_repo_path fs repo file_path =
     (let rt = fs_real fs repo;
          candidate = (if starts_with file_path ''/'' then path_parts file_path else rt @ path_parts file_path);
          resolved = fs_real fs candidate
      in if starts_with resolved rt then Inr resolved else Inl (traversal_error file_path rt))"

section \<open>Numbered lines\<close>

text \<open>\<open>str.splitlines()\<close>, on 8-bit characters.\<close>

definition is_line_break :: "char \<Rightarrow> bool" where
  "is_line_break c \<longleftrightarrow> (of_char c :: nat) \<in> {10, 11, 12, 13, 28, 29, 30, 133}"

fun lines_from :: "string \<Rightarrow> string \<Rightarrow> string list" where
  "lines_from cur [] = (if cur = [] then [] else [cur])"
| "lines_from cur (c # s) =
     (if is_line_break c
      then cur # (case s of
                    d # t \<Rightarrow> if c = CHR 0x0D \<and> d = CHR 0x0A then lines_from [] t else lines_from [] s
                  | [] \<Rightarrow> lines_from [] s)
      else lines_from (cur @ [c]) s)"

definition split_lines :: "string \<Rightarrow> string list" where
  "split_lines s = lines_from [] s"

definition rjust :: "nat \<Rightarrow> string \<Rightarrow> string" where
  "rjust width s = replicate (width - length s) CHR '' '' @ s"

definition numbered_line :: "nat \<Rightarrow> nat \<Rightarrow> string \<Rightarrow> string" where
  "numbered_line width n l = rjust width (str_nat n) @ '' '' @ l"

text \<open>The window: its first and last line, counted from 1.\<close>

definition snippet_window :: "nat \<Rightarrow> int \<Rightarrow> int \<Rightarrow> int \<Rightarrow> nat \<times> nat" where
  "snippet_window total_lines line_start line_end context =
     (let start = max line_start 1; stop = max line_end start; pad = max context 0
      in (nat (max 1 (start - pad)), nat (min (int total_lines) (stop + pad))))"

definition snippet_text :: "string list \<Rightarrow> int \<Rightarrow> int \<Rightarrow> int \<Rightarrow> string" where
  "snippet_text raw_lines line_start line_end context =
     (let (first, final) = snippet_window (length raw_lines) line_start line_end context;
          width = max 4 (length (str_nat final))
      in if first > length raw_lines then ''''
         else join newline (map (\<lambda>(n, l). numbered_line width n l)
                (enumerate first (drop (first - 1) (take final raw_lines)))))"

definition get_snippet :: "file_system \<Rightarrow> string list \<Rightarrow> string \<Rightarrow> int \<Rightarrow> int \<Rightarrow> int \<Rightarrow> string result" where
  "get_snippet fs repo file_path line_start line_end context =
     (case resolve_repo_path fs repo file_path of
        Inl e \<Rightarrow> Inl e
      | Inr p \<Rightarrow>
          (case fs_read fs p of
             Inl e \<Rightarrow> Inl e
           | Inr s \<Rightarrow> Inr (snippet_text (split_lines s) line_start line_end context)))"

section \<open>Modules\<close>

definition module_snippet_max_lines :: int where
  "module_snippet_max_lines = 24"

definition is_module_entity :: "pydict \<Rightarrow> bool" where
  "is_module_entity row \<longleftrightarrow>
     (let t = get_or row [''entity_type'', ''type''] in
      (truthy t \<and> py_str t = ''Module'') \<or>
      (case dget row ''labels'' of PyList ls \<Rightarrow> list_ex (\<lambda>l. py_str l = ''Module'') ls | _ \<Rightarrow> False))"

definition cap_module_snippet_range :: "int \<Rightarrow> int \<Rightarrow> int \<times> int" where
  "cap_module_snippet_range line_start line_end =
     (let start = max line_start 1; stop = max line_end start
      in (start, min stop (start + module_snippet_max_lines - 1)))"


section \<open>The lines of a snippet\<close>

definition no_break :: "string \<Rightarrow> bool" where
  "no_break l \<longleftrightarrow> list_all (\<lambda>c. \<not> is_line_break c) l"

lemma lines_from_no_break: "no_break cur \<Longrightarrow> list_all no_break (lines_from cur s)"
  by (induction cur s rule: lines_from.induct) (auto simp: no_break_def split: list.split)

lemma split_lines_no_break: "list_all no_break (split_lines s)"
  by (simp add: split_lines_def lines_from_no_break no_break_def)

lemma lines_from_append: "no_break l \<Longrightarrow> lines_from cur (l @ s) = lines_from (cur @ l) s"
  by (induction l arbitrary: cur) (auto simp: no_break_def)

lemma lines_from_newline: "lines_from cur (newline @ s) = cur # lines_from [] s"
  by (cases s) (simp_all add: newline_def is_line_break_def)

lemma split_join:
  assumes "list_all no_break ls" "list_all (\<lambda>l. l \<noteq> []) ls"
  shows "split_lines (join newline ls) = ls"
  using assms
proof (induction newline ls rule: join.induct)
  case (2 x)
  then show ?case using lines_from_append [of x "[]" "[]"] by (simp add: split_lines_def)
next
  case (3 x y xs)
  then show ?case by (simp add: split_lines_def lines_from_append lines_from_newline)
qed (simp add: split_lines_def)

lemma digit_not_break: "\<not> is_line_break (digit_char n)" if "n < 10"
  using that by (auto simp: digit_char_def is_line_break_def less_Suc_eq numeral_eq_Suc)

lemma str_nat_no_break: "no_break (str_nat n)"
  by (induction n rule: str_nat.induct)
    (subst str_nat.simps, auto simp: no_break_def digit_not_break)

lemma numbered_line_shape: "no_break l \<Longrightarrow> no_break (numbered_line w n l) \<and> numbered_line w n l \<noteq> []"
  using str_nat_no_break [of n]
  by (auto simp: numbered_line_def rjust_def no_break_def list_all_iff is_line_break_def)

lemma enumerate_slice:
  assumes "1 \<le> i" "j \<le> length xs"
  shows "enumerate i (drop (i - 1) (take j xs)) = map (\<lambda>k. (k, xs ! (k - 1))) [i..<Suc j]"
proof (rule nth_equalityI)
  have "min (length xs) j = j" using assms(2) by simp
  then show "length (enumerate i (drop (i - 1) (take j xs))) = length (map (\<lambda>k. (k, xs ! (k - 1))) [i..<Suc j])"
    using assms(1) by (simp del: upt_Suc)
  fix k assume "k < length (enumerate i (drop (i - 1) (take j xs)))"
  with assms have "k < Suc j - i" by simp
  with assms show "enumerate i (drop (i - 1) (take j xs)) ! k = map (\<lambda>k. (k, xs ! (k - 1))) [i..<Suc j] ! k"
    by (simp add: nth_enumerate_eq del: upt_Suc)
qed

lemma filter_interval:
  "filter (\<lambda>i. lo \<le> int i \<and> int i \<le> hi) [1..<Suc n] = [nat (max 1 lo)..<Suc (nat (min (int n) hi))]"
  if "0 \<le> hi"
proof (rule sorted_distinct_set_unique)
  show "set (filter (\<lambda>i. lo \<le> int i \<and> int i \<le> hi) [1..<Suc n])
      = set [nat (max 1 lo)..<Suc (nat (min (int n) hi))]"
    using that by auto
qed (simp_all add: sorted_wrt_filter del: upt_Suc)

lemma snippet_window_iff:
  "snippet_window n line_start line_end context = (i, j) \<longleftrightarrow>
     i = nat (max 1 (max line_start 1 - max context 0)) \<and>
     j = nat (min (int n) (max line_end (max line_start 1) + max context 0))"
  by (simp only: snippet_window_def Let_def prod.inject) blast

lemma window_bounds:
  assumes "i = nat (max 1 lo) \<and> j = nat (min (int n) hi)"
  shows "1 \<le> i" "j \<le> n" "Suc j - i \<le> nat (hi - lo + 1)"
  using assms by linarith+

lemma snippet_text_lines:
  assumes w: "snippet_window (length (split_lines s)) line_start line_end context = (i, j)"
  shows "\<exists>w. split_lines (snippet_text (split_lines s) line_start line_end context) =
    map (\<lambda>k. numbered_line w k (split_lines s ! (k - 1))) [i..<Suc j]"
proof -
  let ?ls = "split_lines s"
  have bounds: "1 \<le> i" "j \<le> length ?ls"
    using w unfolding snippet_window_iff by (rule window_bounds)+
  define width where "width = max 4 (length (str_nat j))"
  show ?thesis
  proof (cases "i > length ?ls")
    case True
    with bounds have "[i..<Suc j] = []" by simp
    moreover have "snippet_text ?ls line_start line_end context = []"
      using True w by (simp add: snippet_text_def)
    ultimately show ?thesis by (simp only: list.map) (simp add: split_lines_def)
  next
    case False
    have "snippet_text ?ls line_start line_end context
        = join newline (map (\<lambda>k. numbered_line width k (?ls ! (k - 1))) [i..<Suc j])"
      using False w enumerate_slice [OF bounds]
      by (simp add: snippet_text_def width_def comp_def del: upt_Suc)
    moreover have "no_break (?ls ! (k - 1))" if "k \<in> set [i..<Suc j]" for k
      using split_lines_no_break [of s] bounds that by (auto simp: list_all_length)
    ultimately show ?thesis
      using numbered_line_shape by (intro exI [of _ width]) (simp add: split_join list_all_iff del: upt_Suc)
  qed
qed

lemma snippet_length:
  "length (split_lines (snippet_text (split_lines s) line_start line_end context))
    \<le> nat (max line_end (max line_start 1) + max context 0 - (max line_start 1 - max context 0) + 1)"
proof -
  obtain i j where w: "snippet_window (length (split_lines s)) line_start line_end context = (i, j)"
    by (cases "snippet_window (length (split_lines s)) line_start line_end context")
  from snippet_text_lines [OF w] have "length (split_lines (snippet_text (split_lines s) line_start line_end context))
      = Suc j - i" by (auto simp del: upt_Suc)
  moreover have "Suc j - i \<le> nat (max line_end (max line_start 1) + max context 0 - (max line_start 1 - max context 0) + 1)"
    using w unfolding snippet_window_iff by (rule window_bounds)
  ultimately show ?thesis by (simp only:)
qed

text \<open>
  A snippet shows exactly the lines of the file from the requested range and its margin, each behind
  its number in the file: no line is dropped, repeated or shifted, also when the range leaves the file.
\<close>

theorem snippet_shows_window:
  "\<exists>w. split_lines (snippet_text (split_lines s) line_start line_end context) =
     map (\<lambda>i. numbered_line w i (split_lines s ! (i - 1)))
       (filter (\<lambda>i. max line_start 1 - max context 0 \<le> int i
                    \<and> int i \<le> max line_end (max line_start 1) + max context 0)
          [1..<Suc (length (split_lines s))])"
proof -
  have "0 \<le> max line_end (max line_start 1) + max context 0" by linarith
  from filter_interval [OF this] show ?thesis
    by (simp only:) (rule snippet_text_lines, simp only: snippet_window_iff simp_thms)
qed

section \<open>Files outside the repository\<close>

text \<open>Two file systems with the same links that agree on everything below a directory.\<close>

definition same_inside :: "string list \<Rightarrow> file_system \<Rightarrow> file_system \<Rightarrow> bool" where
  "same_inside base fs fs' \<longleftrightarrow>
     fs_real fs' = fs_real fs \<and>
     (\<forall>p. starts_with p base \<longrightarrow> fs_is_file fs' p = fs_is_file fs p \<and> fs_read fs' p = fs_read fs p)"

lemma resolve_same: "fs_real fs' = fs_real fs \<Longrightarrow> resolve_repo_path fs' = resolve_repo_path fs"
  by (simp add: resolve_repo_path_def fun_eq_iff)

lemma resolve_inside: "resolve_repo_path fs repo path = Inr p \<Longrightarrow> starts_with p (fs_real fs repo)"
  by (auto simp: resolve_repo_path_def Let_def split: if_splits)

lemma get_snippet_same:
  assumes "same_inside (fs_real fs repo) fs fs'"
  shows "get_snippet fs' repo = get_snippet fs repo"
  using assms resolve_same [of fs' fs]
  by (auto simp: same_inside_def get_snippet_def fun_eq_iff split: sum.split dest: resolve_inside)

end
