(* ===== verification/Analysis.thy ===== *)
theory Analysis
  imports Snippets Templates PromptBudget Ledger
begin

text \<open>
  The code analyst (\<open>core/analysis/service.py\<close>): it reads the context of an entity from the graph and
  its source from the repository, renders a prompt and returns the structured reply of the model.
  The graph, the file system, the model (one function per response model) and \<open>int()\<close> are the fields
  of \<open>analyst\<close>; rows are plain data, and logging is left out.
\<close>

section \<open>Results\<close>

record function_analysis =
  fa_qualified_name :: string
  fa_summary :: string
  fa_purpose :: string
  fa_parameters :: "string list"
  fa_dependents :: "string list"
  fa_decorators :: "string list"
  fa_module :: "string option"
  fa_class_name :: "string option"
  fa_error :: "string option"
  fa_usage :: "token_usage option"

record class_analysis =
  ca_qualified_name :: string
  ca_summary :: string
  ca_purpose :: string
  ca_methods :: "string list"
  ca_bases :: "string list"
  ca_decorators :: "string list"
  ca_module :: "string option"
  ca_error :: "string option"
  ca_usage :: "token_usage option"

record pattern_instance =
  pi_qualified_name :: string
  pi_subject :: string
  pi_file_path :: string
  pi_line_start :: "int option"
  pi_line_end :: "int option"
  pi_explanation :: string

record pattern_analysis =
  pa_pattern :: string
  pa_summary :: string
  pa_instances :: "pattern_instance list"
  pa_error :: "string option"
  pa_supported :: "string list"
  pa_usage :: "token_usage option"

record snippet_result =
  sn_file_path :: string
  sn_line_start :: "int option"
  sn_line_end :: "int option"
  sn_text :: string
  sn_error :: "string option"

record explanation =
  ie_qualified_name :: string
  ie_explanation :: string
  ie_error :: "string option"
  ie_usage :: "token_usage option"

record comparison =
  ic_name_a :: string
  ic_name_b :: string
  ic_summary :: string
  ic_similarities :: "string list"
  ic_differences :: "string list"
  ic_error :: "string option"
  ic_usage :: "token_usage option"

text \<open>The results that say what went wrong, all other fields at their defaults.\<close>

definition function_error :: "string \<Rightarrow> string \<Rightarrow> function_analysis" where
  "function_error name e =
     \<lparr>fa_qualified_name = name, fa_summary = '''', fa_purpose = '''', fa_parameters = [], fa_dependents = [],
      fa_decorators = [], fa_module = None, fa_class_name = None, fa_error = Some e, fa_usage = None\<rparr>"

definition class_error :: "string \<Rightarrow> string \<Rightarrow> class_analysis" where
  "class_error name e =
     \<lparr>ca_qualified_name = name, ca_summary = '''', ca_purpose = '''', ca_methods = [], ca_bases = [],
      ca_decorators = [], ca_module = None, ca_error = Some e, ca_usage = None\<rparr>"

definition snippet_error :: "string \<Rightarrow> snippet_result" where
  "snippet_error e =
     \<lparr>sn_file_path = '''', sn_line_start = None, sn_line_end = None, sn_text = '''', sn_error = Some e\<rparr>"

definition explanation_error :: "string \<Rightarrow> string \<Rightarrow> explanation" where
  "explanation_error name e =
     \<lparr>ie_qualified_name = name, ie_explanation = '''', ie_error = Some e, ie_usage = None\<rparr>"

definition comparison_error :: "string \<Rightarrow> string \<Rightarrow> string \<Rightarrow> comparison" where
  "comparison_error a b e =
     \<lparr>ic_name_a = a, ic_name_b = b, ic_summary = '''', ic_similarities = [], ic_differences = [],
      ic_error = Some e, ic_usage = None\<rparr>"

section \<open>The model\<close>

text \<open>
  What a completion parsed to: an instance of the response model, an instance of another model that
  is validated again (with the message of the \<open>ValidationError\<close>), or nothing.
\<close>

datatype 'a parsed = Parsed 'a | Revalidated "string + 'a" | Unparsed

record 'a reply =
  re_parsed :: "'a parsed"
  re_usage :: token_usage

record llm_call =
  lc_system :: string
  lc_prompt :: string
  lc_max_tokens :: nat

type_synonym 'a model = "llm_call \<Rightarrow> 'a reply result"

record analyst =
  an_graph :: "string \<Rightarrow> pydict \<Rightarrow> pydict list result"
  an_fs :: file_system
  an_repo :: "string list"
  an_agent :: string
  an_int :: "pyval \<Rightarrow> int result"
  an_function :: "function_analysis model"
  an_class :: "class_analysis model"
  an_patterns :: "pattern_analysis model"
  an_explain :: "explanation model"
  an_compare :: "comparison model"

definition require_parsed ::
    "string \<Rightarrow> string \<Rightarrow> (token_usage \<Rightarrow> 'a \<Rightarrow> 'a) \<Rightarrow> 'a reply \<Rightarrow> 'a result" where
  "require_parsed agent model_name with_usage r =
     (case re_parsed r of
        Parsed x \<Rightarrow> Inr (with_usage (re_usage r) x)
      | Revalidated (Inl m) \<Rightarrow> Inl (SchemaValidationError agent m)
      | Revalidated (Inr x) \<Rightarrow> Inr (with_usage (re_usage r) x)
      | Unparsed \<Rightarrow> Inl (SchemaValidationError agent (''provider returned no '' @ model_name @ '' instance'')))"

section \<open>Text of values\<close>

definition str_value :: "pyval \<Rightarrow> string" where
  "str_value v =
     (if v = PyNone then ''''
      else (let t = py_str v in if t = ''None'' \<or> t = ''null'' then '''' else t))"

definition int_value :: "analyst \<Rightarrow> pyval \<Rightarrow> int option result" where
  "int_value an v =
     (if v = PyNone \<or> v = PyStr '''' then Inr None else map_sum id Some (an_int an v))"

definition str_items :: "pyval \<Rightarrow> string list" where
  "str_items v =
     (case v of
        PyList vs \<Rightarrow> filter (\<lambda>t. t \<noteq> []) (map str_value vs)
      | _ \<Rightarrow> if str_value v = [] then [] else [str_value v])"

definition bullet_text :: "string list \<Rightarrow> string" where
  "bullet_text items =
     (if items = [] then ''(none)'' else join newline (map (\<lambda>i. ''- '' @ i) items))"

definition max_prompt_list_items :: nat where "max_prompt_list_items = 40"

definition max_prompt_snippet_lines :: nat where "max_prompt_snippet_lines = 120"

definition limited_items :: "string list \<Rightarrow> string list" where
  "limited_items items =
     (if length items \<le> max_prompt_list_items then items
      else take max_prompt_list_items items
           @ [''... ('' @ str_nat (length items - max_prompt_list_items) @ '' more omitted)''])"

definition clip_text :: "string \<Rightarrow> string" where
  "clip_text t =
     (let ls = split_lines t in
      if length ls \<le> max_prompt_snippet_lines then t
      else join newline (take max_prompt_snippet_lines ls
             @ [''... ('' @ str_nat (length ls - max_prompt_snippet_lines) @ '' more lines omitted)'']))"

definition parameter_line :: "pyval \<Rightarrow> string" where
  "parameter_line item =
     (case item of
        PyDict m \<Rightarrow>
          (let name = str_value (dget m ''name'');
               ann = str_value (dget m ''annotation'');
               default = dget m ''default''
           in if name = [] then ''''
              else name @ (if ann = [] then '''' else '': '' @ ann)
                   @ (if str_value default = [] then '''' else '' = '' @ py_str default))
      | _ \<Rightarrow> str_value item)"

definition format_parameters :: "pyval \<Rightarrow> string" where
  "format_parameters raw =
     (case raw of
        PyNone \<Rightarrow> ''(none)''
      | PyStr s \<Rightarrow> if s = [] then ''(none)'' else s
      | PyList items \<Rightarrow> bullet_text (filter (\<lambda>t. t \<noteq> []) (map parameter_line items))
      | _ \<Rightarrow> if str_value raw = [] then ''(none)'' else str_value raw)"

text \<open>\<open>s.replace(old, new)\<close> for a text \<open>old\<close> that is not empty.\<close>

fun replace_all :: "string \<Rightarrow> string \<Rightarrow> string \<Rightarrow> string" where
  "replace_all old new [] = []"
| "replace_all old new (c # s) =
     (if starts_with (c # s) old then new @ replace_all old new (drop (length old - 1) s)
      else c # replace_all old new s)"

definition render_prompt :: "string \<Rightarrow> (string \<times> string) list \<Rightarrow> string" where
  "render_prompt tmpl mapping =
     fold (\<lambda>(key, value) t. replace_all (''{'' @ key @ ''}'') value t) mapping tmpl"

section \<open>Prompts\<close>

definition analyze_function_system :: string where
  "analyze_function_system =
     ''You are a code analyst. Produce a structured analysis of the given function using ''
     @ ''the source snippet and graph context. Do not invent symbols that are not present in ''
     @ ''the context.''"

definition analyze_function_prompt :: string where
  "analyze_function_prompt = join newline
       [''Analyze this function.'',
        '''',
        ''Qualified name: {qualified_name}'',
        ''Module: {module}'',
        ''Class: {class_name}'',
        ''Parameters:'',
        ''{parameters}'',
        ''Decorators:'',
        ''{decorators}'',
        ''Dependents:'',
        ''{dependents}'',
        '''',
        ''Source:'',
        ''{snippet}'',
        '''']"

definition analyze_class_system :: string where
  "analyze_class_system =
     ''You are a code analyst. Produce a structured analysis of the given class using the ''
     @ ''source snippet and graph context.''"

definition analyze_class_prompt :: string where
  "analyze_class_prompt = join newline
       [''Analyze this class.'',
        '''',
        ''Qualified name: {qualified_name}'',
        ''Module: {module}'',
        ''Bases:'',
        ''{bases}'',
        ''Methods:'',
        ''{methods}'',
        ''Decorators:'',
        ''{decorators}'',
        '''',
        ''Source:'',
        ''{snippet}'',
        '''']"

definition find_patterns_system :: string where
  "find_patterns_system =
     ''You are a code analyst. Briefly explain how the listed structural pattern is used, ''
     @ ''in at most three sentences. The caller already states which subjects were found and ''
     @ ''how often, so do NOT re-list or re-count them, and do not enumerate the instances. ''
     @ ''Instances read `<subject> on <entity>`: the subject is the pattern itself (the ''
     @ ''decorator being applied), the entity is what it was applied to -- never describe ''
     @ ''the entity as if it were the subject. Add per-instance explanations only where they ''
     @ ''are not obvious, for at most three instances.''"

definition find_patterns_prompt :: string where
  "find_patterns_prompt = join newline
       [''Explain how the '{pattern}' pattern is used here.'',
        '''',
        ''Subjects found, with counts (already reported to the user -- do not repeat): {subjects}'',
        '''',
        ''Instances (sample; the full list is preserved separately), each written as'',
        ''`<subject> on <entity it applies to>`:'',
        ''{instances}'',
        '''']"

definition explain_implementation_system :: string where
  "explain_implementation_system =
     ''You are a code analyst. Explain how this implementation works, using the source ''
     @ ''snippet and graph context. Focus on control flow, collaborators, and why the code ''
     @ ''is structured this way.''"

definition explain_implementation_prompt :: string where
  "explain_implementation_prompt = join newline
       [''Explain this implementation.'',
        '''',
        ''Qualified name: {qualified_name}'',
        ''Module: {module}'',
        ''Class: {class_name}'',
        ''Parameters:'',
        ''{parameters}'',
        ''Decorators:'',
        ''{decorators}'',
        ''Dependents:'',
        ''{dependents}'',
        '''',
        ''Source:'',
        ''{snippet}'',
        '''']"

definition explain_class_system :: string where
  "explain_class_system =
     ''You are a code analyst. Explain how this class is implemented, using the source ''
     @ ''snippet and graph context. Focus on responsibilities, inheritance, methods, and how ''
     @ ''instances are meant to be used.''"

definition explain_class_prompt :: string where
  "explain_class_prompt = join newline
       [''Explain this class implementation.'',
        '''',
        ''Qualified name: {qualified_name}'',
        ''Module: {module}'',
        ''Bases:'',
        ''{bases}'',
        ''Methods:'',
        ''{methods}'',
        ''Decorators:'',
        ''{decorators}'',
        '''',
        ''Source:'',
        ''{snippet}'',
        '''']"

definition compare_implementations_system :: string where
  "compare_implementations_system =
     ''You are a code analyst. Compare the two implementations side by side using their ''
     @ ''source snippets and graph context. Identify similarities and differences.''"

definition compare_implementations_prompt :: string where
  "compare_implementations_prompt = join newline
       [''Compare these two implementations.'',
        '''',
        ''=== {name_a} ==='',
        ''Module: {module_a}'',
        ''Class: {class_a}'',
        ''Parameters:'',
        ''{parameters_a}'',
        ''Decorators:'',
        ''{decorators_a}'',
        ''Dependents:'',
        ''{dependents_a}'',
        '''',
        ''Source:'',
        ''{snippet_a}'',
        '''',
        ''=== {name_b} ==='',
        ''Module: {module_b}'',
        ''Class: {class_b}'',
        ''Parameters:'',
        ''{parameters_b}'',
        ''Decorators:'',
        ''{decorators_b}'',
        ''Dependents:'',
        ''{dependents_b}'',
        '''',
        ''Source:'',
        ''{snippet_b}'',
        '''']"

section \<open>Queries\<close>

text \<open>\<open>_LOOKUP_PREDICATE\<close> and \<open>_LOOKUP_ORDER\<close>; \<open>quoted\<close> is a Cypher literal in single quotes.\<close>

definition quoted :: "string \<Rightarrow> string" where
  "quoted s = CHR 0x27 # s @ [CHR 0x27]"

definition lookup_predicate :: string where
  "lookup_predicate =
     ''n.name = $name OR n.qualified_name = $name OR ($name CONTAINS '' @ quoted ''.''
     @ '' AND n.name = last(split($name, '' @ quoted ''.'' @ '')) ''
     @ ''AND n.qualified_name STARTS WITH head(split($name, '' @ quoted ''.'' @ '')) + '' @ quoted ''.'' @ '')''"

definition lookup_order :: string where
  "lookup_order =
     ''CASE WHEN n.qualified_name = $name THEN 0 ''
     @ ''WHEN n.name = $name THEN 1 ELSE 2 END, ''
     @ ''size(coalesce(n.qualified_name, '' @ quoted '''' @ ''))''"

definition function_context_query :: string where
  "function_context_query = lines_text
     [''MATCH (n)'',
      ''WHERE (n:Function OR n:Method) AND ('' @ lookup_predicate @ '')'',
      ''OPTIONAL MATCH (n)-[:HAS_PARAMETER]->(p:Parameter)'',
      ''WITH n, collect(DISTINCT p { .name, .annotation, .default, .position }) AS parameters'',
      ''OPTIONAL MATCH (n)-[:DECORATED_BY]->(d:Decorator)'',
      ''WITH n, parameters, collect(DISTINCT d.name) AS decorators'',
      ''OPTIONAL MATCH (mod:Module)-[:CONTAINS]->(n)'',
      ''WITH n, parameters, decorators, mod'',
      ''OPTIONAL MATCH (cls:Class)-[:CONTAINS]->(n)'',
      ''WITH n, parameters, decorators, mod, cls'',
      ''OPTIONAL MATCH (dep)-[:CALLS|DEPENDS_ON|IMPORTS]->(n)'',
      ''RETURN n.qualified_name AS qualified_name,'',
      ''       n.name AS name,'',
      ''       labels(n) AS labels,'',
      ''       n.file_path AS file_path,'',
      ''       n.line_start AS line_start,'',
      ''       n.line_end AS line_end,'',
      ''       parameters,'',
      ''       decorators,'',
      ''       mod.qualified_name AS module,'',
      ''       cls.qualified_name AS class_name,'',
      ''       collect(DISTINCT coalesce(dep.qualified_name, dep.name)) AS dependents'',
      ''ORDER BY '' @ lookup_order]"

definition class_context_query :: string where
  "class_context_query = lines_text
     [''MATCH (n:Class)'',
      ''WHERE '' @ lookup_predicate,
      ''OPTIONAL MATCH (n)-[:CONTAINS]->(m:Method)'',
      ''WITH n, collect(DISTINCT m.qualified_name) AS methods'',
      ''OPTIONAL MATCH (n)-[:INHERITS_FROM]->(b)'',
      ''WITH n, methods, collect(DISTINCT coalesce(b.qualified_name, b.name)) AS inherited_from'',
      ''OPTIONAL MATCH (n)-[:DECORATED_BY]->(d:Decorator)'',
      ''WITH n, methods, inherited_from, collect(DISTINCT d.name) AS decorators'',
      ''OPTIONAL MATCH (mod:Module)-[:CONTAINS]->(n)'',
      ''RETURN n.qualified_name AS qualified_name,'',
      ''       n.name AS name,'',
      ''       n.file_path AS file_path,'',
      ''       n.line_start AS line_start,'',
      ''       n.line_end AS line_end,'',
      ''       n.bases AS bases,'',
      ''       methods,'',
      ''       inherited_from,'',
      ''       decorators,'',
      ''       mod.qualified_name AS module'',
      ''ORDER BY '' @ lookup_order]"

definition entity_location_query :: string where
  "entity_location_query = lines_text
     [''MATCH (n)'',
      ''WHERE '' @ lookup_predicate,
      ''RETURN n.qualified_name AS qualified_name,'',
      ''       n.name AS name,'',
      ''       labels(n) AS labels,'',
      ''       n.file_path AS file_path,'',
      ''       n.line_start AS line_start,'',
      ''       n.line_end AS line_end'',
      ''ORDER BY '' @ lookup_order]"


section \<open>Reading the graph and the source\<close>

definition first_row :: "pydict list \<Rightarrow> pydict option" where
  "first_row rows = (case rows of [] \<Rightarrow> None | r # rs \<Rightarrow> Some r)"

definition function_context :: "analyst \<Rightarrow> string \<Rightarrow> pydict option result" where
  "function_context an name =
     map_sum id first_row (an_graph an function_context_query [(''name'', PyStr name)])"

definition class_context :: "analyst \<Rightarrow> string \<Rightarrow> pydict option result" where
  "class_context an name =
     map_sum id first_row (an_graph an class_context_query [(''name'', PyStr name)])"

definition callable_or_class_context :: "analyst \<Rightarrow> string \<Rightarrow> pydict option result" where
  "callable_or_class_context an name =
     then_do (function_context an name) (\<lambda>c. case c of Some r \<Rightarrow> Inr (Some r) | None \<Rightarrow> class_context an name)"

definition repo_file_exists :: "analyst \<Rightarrow> string \<Rightarrow> bool" where
  "repo_file_exists an path =
     (case resolve_repo_path (an_fs an) (an_repo an) path of
        Inl e \<Rightarrow> False | Inr p \<Rightarrow> fs_is_file (an_fs an) p)"

definition is_path_traversal :: "analyst \<Rightarrow> string \<Rightarrow> bool" where
  "is_path_traversal an path =
     (case resolve_repo_path (an_fs an) (an_repo an) path of Inl e \<Rightarrow> True | Inr p \<Rightarrow> False)"

text \<open>Path errors and \<open>OSError\<close>s become results; other errors, such as of decoding, come through.\<close>

fun read_failure :: "exn \<Rightarrow> bool" where
  "read_failure (OSError m) = True"
| "read_failure (TimeoutError m) = True"
| "read_failure (ConnectionError m) = True"
| "read_failure (OtherError c m) = (c = ''PathTraversalError'')"
| "read_failure _ = False"

definition read_snippet :: "analyst \<Rightarrow> string \<Rightarrow> int \<Rightarrow> int \<Rightarrow> int \<Rightarrow> snippet_result result" where
  "read_snippet an path line_start line_end context =
     (let found = \<lparr>sn_file_path = path, sn_line_start = Some line_start, sn_line_end = Some line_end,
                   sn_text = '''', sn_error = None\<rparr>
      in case get_snippet (an_fs an) (an_repo an) path line_start line_end context of
           Inr t \<Rightarrow> Inr (found\<lparr>sn_text := t\<rparr>)
         | Inl e \<Rightarrow> if read_failure e then Inr (found\<lparr>sn_error := Some (exn_str e)\<rparr>) else Inl e)"

definition missing_range :: snippet_result where
  "missing_range = snippet_error ''Missing file_path or line range''"

definition snippet_from_row :: "analyst \<Rightarrow> pydict \<Rightarrow> int \<Rightarrow> snippet_result result" where
  "snippet_from_row an row context =
     then_do (int_value an (dget row ''line_start'')) (\<lambda>line_start.
     then_do (int_value an (dget row ''line_end'')) (\<lambda>line_end.
       let path = str_value (dget row ''file_path'') in
       case (line_start, line_end) of
         (Some a, Some b) \<Rightarrow>
           if path = [] then Inr missing_range
           else (let (a, b) = (if is_module_entity row then cap_module_snippet_range a b else (a, b))
                 in read_snippet an path a b context)
       | _ \<Rightarrow> Inr missing_range))"

text \<open>The location of an entity: its path and line range, from the row, where not given.\<close>

definition located ::
    "analyst \<Rightarrow> string option \<Rightarrow> int option \<Rightarrow> int option \<Rightarrow> pydict
      \<Rightarrow> (string \<times> int option \<times> int option) result" where
  "located an path line_start line_end row =
     then_do (case line_start of Some a \<Rightarrow> Inr (Some a) | None \<Rightarrow> int_value an (dget row ''line_start'')) (\<lambda>a.
     then_do (case line_end of Some b \<Rightarrow> Inr (Some b) | None \<Rightarrow> int_value an (dget row ''line_end'')) (\<lambda>b.
       let p = (case path of Some p \<Rightarrow> p | None \<Rightarrow> str_value (dget row ''file_path'')) in
       Inr (case (a, b) of
              (Some x, Some y) \<Rightarrow>
                (let (x, y) = (if is_module_entity row then cap_module_snippet_range x y else (x, y))
                 in (p, Some x, Some y))
            | _ \<Rightarrow> (p, a, b))))"

definition snippet_at :: "analyst \<Rightarrow> int \<Rightarrow> string \<times> int option \<times> int option \<Rightarrow> snippet_result result" where
  "snippet_at an context loc =
     (case loc of
        (p, Some a, Some b) \<Rightarrow> if p = [] then Inr missing_range else read_snippet an p a b context
      | _ \<Rightarrow> Inr missing_range)"

definition non_empty :: "string option \<Rightarrow> string option" where
  "non_empty s = (case s of Some (c # t) \<Rightarrow> Some (c # t) | _ \<Rightarrow> None)"

definition or_one :: "int option \<Rightarrow> int" where
  "or_one i = (case i of Some n \<Rightarrow> if n = 0 then 1 else n | None \<Rightarrow> 1)"

definition get_code_snippet ::
    "analyst \<Rightarrow> string option \<Rightarrow> string option \<Rightarrow> int option \<Rightarrow> int option \<Rightarrow> int \<Rightarrow> snippet_result result" where
  "get_code_snippet an qualified_name file_path line_start line_end context =
     (let path = non_empty file_path;
          usable = (case path of Some p \<Rightarrow> if repo_file_exists an p then Some p else None | None \<Rightarrow> None);
          refused = (case path of Some p \<Rightarrow> usable = None \<and> is_path_traversal an p \<and> non_empty qualified_name = None
                     | None \<Rightarrow> False);
          lookup_name = (case non_empty qualified_name of
                           Some n \<Rightarrow> Some n | None \<Rightarrow> if usable = None then path else None)
      in if refused
         then read_snippet an (the path) (or_one line_start)
                (case line_end of
                   Some b \<Rightarrow> if b = 0 then or_one line_start else b
                 | None \<Rightarrow> or_one line_start) context
         else
           (case (usable, line_start, line_end) of
              (Some p, Some a, Some b) \<Rightarrow> snippet_at an context (p, Some a, Some b)
            | _ \<Rightarrow>
                (case lookup_name of
                   None \<Rightarrow>
                     Inr (snippet_error ''Provide qualified_name or file_path with line_start and line_end'')
                 | Some n \<Rightarrow>
                     then_do (an_graph an entity_location_query [(''name'', PyStr n)]) (\<lambda>rows.
                       case rows of
                         [] \<Rightarrow> Inr (snippet_error (''Entity not found: '' @ n))
                       | row # rest \<Rightarrow>
                           then_do (if usable = None then located an None None None row
                                    else located an usable line_start line_end row)
                             (snippet_at an context)))))"


section \<open>Functions and classes\<close>

definition call_prompt :: "string \<Rightarrow> string \<Rightarrow> nat \<Rightarrow> llm_call" where
  "call_prompt system prompt max_tokens =
     \<lparr>lc_system = system, lc_prompt = prompt, lc_max_tokens = max_tokens\<rparr>"

definition default_max_tokens :: nat where "default_max_tokens = 1024"

definition find_patterns_max_tokens :: nat where "find_patterns_max_tokens = 2048"

definition explanation_max_tokens :: nat where "explanation_max_tokens = 2048"

definition failed_text :: "string option \<Rightarrow> string option" where
  "failed_text e = non_empty e"

definition class_bases :: "pydict \<Rightarrow> string list" where
  "class_bases ctx =
     (let own = str_items (dget ctx ''bases'')
      in if own \<noteq> [] then own else str_items (dget ctx ''inherited_from''))"

definition not_found :: "string \<Rightarrow> string" where
  "not_found name = ''Entity not found: '' @ name"

definition analyze_function :: "analyst \<Rightarrow> string \<Rightarrow> function_analysis result" where
  "analyze_function an name =
     then_do (function_context an name) (\<lambda>found.
       case found of
         None \<Rightarrow> Inr (function_error name (not_found name))
       | Some ctx \<Rightarrow>
           then_do (snippet_from_row an ctx 5) (\<lambda>snippet.
             case failed_text (sn_error snippet) of
               Some e \<Rightarrow> Inr (function_error name e)
             | None \<Rightarrow>
                 then_do (an_function an (call_prompt analyze_function_system
                   (render_prompt analyze_function_prompt
                     [(''qualified_name'', name), (''module'', str_value (dget ctx ''module'')),
                      (''class_name'', str_value (dget ctx ''class_name'')),
                      (''parameters'', format_parameters (dget ctx ''parameters'')),
                      (''decorators'', bullet_text (str_items (dget ctx ''decorators''))),
                      (''dependents'', bullet_text (str_items (dget ctx ''dependents''))),
                      (''snippet'', sn_text snippet)]) default_max_tokens))
                 (require_parsed (an_agent an) ''FunctionAnalysis'' (\<lambda>u x. x\<lparr>fa_usage := Some u\<rparr>))))"

definition analyze_class :: "analyst \<Rightarrow> string \<Rightarrow> class_analysis result" where
  "analyze_class an name =
     then_do (class_context an name) (\<lambda>found.
       case found of
         None \<Rightarrow> Inr (class_error name (not_found name))
       | Some ctx \<Rightarrow>
           then_do (snippet_from_row an ctx 5) (\<lambda>snippet.
             case failed_text (sn_error snippet) of
               Some e \<Rightarrow> Inr (class_error name e)
             | None \<Rightarrow>
                 then_do (an_class an (call_prompt analyze_class_system
                   (render_prompt analyze_class_prompt
                     [(''qualified_name'', name), (''module'', str_value (dget ctx ''module'')),
                      (''bases'', bullet_text (class_bases ctx)),
                      (''methods'', bullet_text (str_items (dget ctx ''methods''))),
                      (''decorators'', bullet_text (str_items (dget ctx ''decorators''))),
                      (''snippet'', sn_text snippet)]) default_max_tokens))
                 (require_parsed (an_agent an) ''ClassAnalysis'' (\<lambda>u x. x\<lparr>ca_usage := Some u\<rparr>))))"

section \<open>Explanations\<close>

definition explain_callable :: "analyst \<Rightarrow> string \<Rightarrow> pydict \<Rightarrow> string \<Rightarrow> explanation reply result" where
  "explain_callable an name ctx source =
     an_explain an (call_prompt explain_implementation_system
       (render_prompt explain_implementation_prompt
         [(''qualified_name'', name), (''module'', str_value (dget ctx ''module'')),
          (''class_name'', str_value (dget ctx ''class_name'')),
          (''parameters'', format_parameters (dget ctx ''parameters'')),
          (''decorators'', bullet_text (str_items (dget ctx ''decorators''))),
          (''dependents'', bullet_text (limited_items (str_items (dget ctx ''dependents'')))),
          (''snippet'', clip_text source)]) explanation_max_tokens)"

definition explain_class :: "analyst \<Rightarrow> string \<Rightarrow> pydict \<Rightarrow> string \<Rightarrow> explanation reply result" where
  "explain_class an name ctx source =
     an_explain an (call_prompt explain_class_system
       (render_prompt explain_class_prompt
         [(''qualified_name'', name), (''module'', str_value (dget ctx ''module'')),
          (''bases'', bullet_text (class_bases ctx)),
          (''methods'', bullet_text (limited_items (str_items (dget ctx ''methods'')))),
          (''decorators'', bullet_text (str_items (dget ctx ''decorators''))),
          (''snippet'', clip_text source)]) explanation_max_tokens)"

definition explain_with ::
    "analyst \<Rightarrow> string \<Rightarrow> (string \<Rightarrow> pydict \<Rightarrow> string \<Rightarrow> explanation reply result) \<Rightarrow> pydict \<Rightarrow> explanation result" where
  "explain_with an name ask ctx =
     then_do (snippet_from_row an ctx 5) (\<lambda>snippet.
       case failed_text (sn_error snippet) of
         Some e \<Rightarrow> Inr (explanation_error name e)
       | None \<Rightarrow>
           then_do (ask name ctx (sn_text snippet))
             (require_parsed (an_agent an) ''ImplementationExplanation'' (\<lambda>u x. x\<lparr>ie_usage := Some u\<rparr>)))"

definition explain_implementation :: "analyst \<Rightarrow> string \<Rightarrow> explanation result" where
  "explain_implementation an name =
     then_do (function_context an name) (\<lambda>found.
       case found of
         Some ctx \<Rightarrow> explain_with an name (explain_callable an) ctx
       | None \<Rightarrow>
           then_do (class_context an name) (\<lambda>found.
             case found of
               Some ctx \<Rightarrow> explain_with an name (explain_class an) ctx
             | None \<Rightarrow> Inr (explanation_error name (not_found name))))"

section \<open>Comparisons\<close>

definition comparison_values :: "string \<Rightarrow> string \<Rightarrow> pydict \<Rightarrow> string \<Rightarrow> (string \<times> string) list" where
  "comparison_values sfx name ctx source =
     [(''name'' @ sfx, name), (''module'' @ sfx, str_value (dget ctx ''module'')),
      (''class'' @ sfx, str_value (dget ctx ''class_name'')),
      (''parameters'' @ sfx, format_parameters (dget ctx ''parameters'')),
      (''decorators'' @ sfx, bullet_text (str_items (dget ctx ''decorators''))),
      (''dependents'' @ sfx, bullet_text (limited_items (str_items (dget ctx ''dependents'')))),
      (''snippet'' @ sfx, clip_text source)]"

definition comparison_prompt :: "string \<times> pydict \<times> string \<Rightarrow> string \<times> pydict \<times> string \<Rightarrow> string" where
  "comparison_prompt a b =
     (case (a, b) of
        ((name_a, ctx_a, source_a), (name_b, ctx_b, source_b)) \<Rightarrow>
          render_prompt compare_implementations_prompt
            (comparison_values ''_a'' name_a ctx_a source_a @ comparison_values ''_b'' name_b ctx_b source_b))"

definition compare_implementations :: "analyst \<Rightarrow> string \<Rightarrow> string \<Rightarrow> comparison result" where
  "compare_implementations an name_a name_b =
     then_do (callable_or_class_context an name_a) (\<lambda>found_a.
     then_do (callable_or_class_context an name_b) (\<lambda>found_b.
       case (found_a, found_b) of
         (Some ctx_a, Some ctx_b) \<Rightarrow>
           then_do (snippet_from_row an ctx_a 5) (\<lambda>snippet_a.
           then_do (snippet_from_row an ctx_b 5) (\<lambda>snippet_b.
             case List.map_filter failed_text [sn_error snippet_a, sn_error snippet_b] of
               e # es \<Rightarrow> Inr (comparison_error name_a name_b e)
             | [] \<Rightarrow>
                 then_do (an_compare an (call_prompt compare_implementations_system
                   (comparison_prompt (name_a, ctx_a, sn_text snippet_a) (name_b, ctx_b, sn_text snippet_b))
                   explanation_max_tokens))
                 (require_parsed (an_agent an) ''ImplementationComparison'' (\<lambda>u x. x\<lparr>ic_usage := Some u\<rparr>))))
       | _ \<Rightarrow>
           Inr (comparison_error name_a name_b (not_found (join '', ''
             ((if found_a = None then [name_a] else []) @ (if found_b = None then [name_b] else [])))))))"

section \<open>Files outside the repository\<close>

definition fs_inside :: "analyst \<Rightarrow> file_system \<Rightarrow> bool" where
  "fs_inside an fs \<longleftrightarrow> same_inside (fs_real (an_fs an) (an_repo an)) (an_fs an) fs"

lemma int_value_same: "int_value (an\<lparr>an_fs := fs\<rparr>) = int_value an"
  by (simp add: int_value_def fun_eq_iff)

lemma function_context_same: "function_context (an\<lparr>an_fs := fs\<rparr>) = function_context an"
  by (simp add: function_context_def fun_eq_iff)

lemma class_context_same: "class_context (an\<lparr>an_fs := fs\<rparr>) = class_context an"
  by (simp add: class_context_def fun_eq_iff)

lemma either_context_same: "callable_or_class_context (an\<lparr>an_fs := fs\<rparr>) = callable_or_class_context an"
  unfolding callable_or_class_context_def function_context_same class_context_same ..

lemma located_same: "located (an\<lparr>an_fs := fs\<rparr>) = located an"
  unfolding located_def int_value_same ..

lemmas lookups_same =
  int_value_same function_context_same class_context_same either_context_same located_same

lemma get_same:
  assumes "fs_inside an fs"
  shows "get_snippet fs (an_repo an) = get_snippet (an_fs an) (an_repo an)"
    "resolve_repo_path fs = resolve_repo_path (an_fs an)"
proof -
  have inside: "same_inside (fs_real (an_fs an) (an_repo an)) (an_fs an) fs"
    using assms by (simp only: fs_inside_def)
  then show "get_snippet fs (an_repo an) = get_snippet (an_fs an) (an_repo an)" by (rule get_snippet_same)
  from inside show "resolve_repo_path fs = resolve_repo_path (an_fs an)"
    unfolding same_inside_def by (elim conjE) (erule resolve_same)
qed

lemma read_same: "fs_inside an fs \<Longrightarrow> read_snippet (an\<lparr>an_fs := fs\<rparr>) = read_snippet an"
  by (simp add: read_snippet_def fun_eq_iff get_same)

lemma traversal_same: "fs_inside an fs \<Longrightarrow> is_path_traversal (an\<lparr>an_fs := fs\<rparr>) = is_path_traversal an"
  by (simp add: is_path_traversal_def fun_eq_iff get_same)

lemma exists_same:
  assumes "fs_inside an fs"
  shows "repo_file_exists (an\<lparr>an_fs := fs\<rparr>) = repo_file_exists an"
proof -
  have "\<And>p. starts_with p (fs_real (an_fs an) (an_repo an)) \<Longrightarrow> fs_is_file fs p = fs_is_file (an_fs an) p"
    using assms by (simp add: fs_inside_def same_inside_def)
  then show ?thesis
    by (auto simp: repo_file_exists_def get_same [OF assms] fun_eq_iff split: sum.split dest: resolve_inside)
qed

lemma row_same:
  assumes "fs_inside an fs"
  shows "snippet_from_row (an\<lparr>an_fs := fs\<rparr>) = snippet_from_row an"
  unfolding snippet_from_row_def read_same [OF assms] int_value_same ..

lemma at_same:
  assumes "fs_inside an fs"
  shows "snippet_at (an\<lparr>an_fs := fs\<rparr>) = snippet_at an"
  unfolding snippet_at_def read_same [OF assms] ..

lemma snippet_tool_same:
  assumes "fs_inside an fs"
  shows "get_code_snippet (an\<lparr>an_fs := fs\<rparr>) = get_code_snippet an"
proof -
  have "an_graph (an\<lparr>an_fs := fs\<rparr>) = an_graph an" by simp
  then show ?thesis
    unfolding get_code_snippet_def read_same [OF assms] exists_same [OF assms] traversal_same [OF assms]
      at_same [OF assms] located_same by (simp only:)
qed

lemma asks_same:
  "explain_callable (an\<lparr>an_fs := fs\<rparr>) = explain_callable an" "explain_class (an\<lparr>an_fs := fs\<rparr>) = explain_class an"
  by (simp_all add: explain_callable_def explain_class_def fun_eq_iff)

lemma model_tools_same:
  assumes "fs_inside an fs"
  shows "analyze_function (an\<lparr>an_fs := fs\<rparr>) = analyze_function an"
    "analyze_class (an\<lparr>an_fs := fs\<rparr>) = analyze_class an"
    "explain_implementation (an\<lparr>an_fs := fs\<rparr>) = explain_implementation an"
    "compare_implementations (an\<lparr>an_fs := fs\<rparr>) = compare_implementations an"
proof -
  have fields: "an_agent (an\<lparr>an_fs := fs\<rparr>) = an_agent an" "an_function (an\<lparr>an_fs := fs\<rparr>) = an_function an"
    "an_class (an\<lparr>an_fs := fs\<rparr>) = an_class an" "an_compare (an\<lparr>an_fs := fs\<rparr>) = an_compare an" by simp_all
  show "analyze_function (an\<lparr>an_fs := fs\<rparr>) = analyze_function an"
    unfolding analyze_function_def lookups_same row_same [OF assms] fields ..
  show "analyze_class (an\<lparr>an_fs := fs\<rparr>) = analyze_class an"
    unfolding analyze_class_def lookups_same row_same [OF assms] fields ..
  show "explain_implementation (an\<lparr>an_fs := fs\<rparr>) = explain_implementation an"
    unfolding explain_implementation_def explain_with_def lookups_same row_same [OF assms] fields asks_same ..
  show "compare_implementations (an\<lparr>an_fs := fs\<rparr>) = compare_implementations an"
    unfolding compare_implementations_def lookups_same row_same [OF assms] fields ..
qed

text \<open>
  C12: No tool of the analyst depends on a file outside the repository, whatever paths, names and line
  ranges it is given and whatever the graph holds: what it returns is the same when such files change.
\<close>

theorem analyst_reads_repository_only:
  assumes "fs_inside an fs"
  shows "get_code_snippet (an\<lparr>an_fs := fs\<rparr>) = get_code_snippet an \<and>
    analyze_function (an\<lparr>an_fs := fs\<rparr>) = analyze_function an \<and>
    analyze_class (an\<lparr>an_fs := fs\<rparr>) = analyze_class an \<and>
    explain_implementation (an\<lparr>an_fs := fs\<rparr>) = explain_implementation an \<and>
    compare_implementations (an\<lparr>an_fs := fs\<rparr>) = compare_implementations an"
  using snippet_tool_same [OF assms] model_tools_same [OF assms] by simp

section \<open>Prompts\<close>

lemma join_Cons_front: "join sep ((c # p) # ps) = c # join sep (p # ps)"
  by (cases ps) simp_all

lemma replace_all_parts:
  assumes "old \<noteq> []"
  shows "\<exists>parts. parts \<noteq> [] \<and> s = join old parts \<and> (\<forall>new. replace_all old new s = join new parts)"
proof (induction "length s" arbitrary: s rule: less_induct)
  case less
  show ?case
  proof (cases s)
    case Nil
    then show ?thesis by (intro exI [of _ "[[]]"]) simp
  next
    case (Cons c t)
    show ?thesis
    proof (cases "starts_with s old")
      case True
      then obtain u where u: "s = old @ u" by (auto simp: starts_with_iff)
      with assms have "length u < length s" by simp
      with less obtain parts where parts: "parts \<noteq> []" "u = join old parts"
        "\<forall>new. replace_all old new u = join new parts" by blast
      obtain o' os where "old = o' # os" using assms by (cases old) auto
      with u Cons have "drop (length old - 1) t = u" by simp
      with True Cons parts have "replace_all old new s = join new ([] # parts)" for new
        by (cases parts) simp_all
      moreover have "s = join old ([] # parts)" using u parts(1,2) by (cases parts) simp_all
      ultimately show ?thesis by blast
    next
      case False
      from less [of t] Cons obtain parts where parts: "parts \<noteq> []" "t = join old parts"
        "\<forall>new. replace_all old new t = join new parts" by auto
      then obtain p ps where "parts = p # ps" by (cases parts) auto
      with parts False Cons have "s = join old ((c # p) # ps)"
        "\<forall>new. replace_all old new s = join new ((c # p) # ps)"
        by (simp_all add: join_Cons_front)
      then show ?thesis by blast
    qed
  qed
qed

text \<open>
  The value of the last placeholder goes into a prompt as it is: the prompt is the same text around
  every value, which is itself never searched for placeholders. The tools that show one source give
  it last.
\<close>

theorem last_value_is_verbatim:
  "\<exists>parts. render_prompt tmpl mapping = join (''{'' @ key @ ''}'') parts \<and>
     (\<forall>value. render_prompt tmpl (mapping @ [(key, value)]) = join value parts)"
proof -
  have "''{'' @ key @ ''}'' \<noteq> []" by simp
  from replace_all_parts [OF this, of "render_prompt tmpl mapping"] show ?thesis
    by (auto simp: render_prompt_def)
qed

lemma replace_all_skip:
  "CHR ''{'' \<notin> set p \<Longrightarrow> replace_all (CHR ''{'' # k) new (p @ s) = p @ replace_all (CHR ''{'' # k) new s"
  by (induction p) auto

lemma replace_all_hit:
  "replace_all (CHR ''{'' # k) new (CHR ''{'' # k @ s) = new @ replace_all (CHR ''{'' # k) new s"
  by (simp add: starts_with_iff)

lemma starts_with_replaced:
  assumes "starts_with (replace_all (CHR ''{'' # a) (p # v) t) k" "CHR ''{'' \<notin> set k" "p \<notin> set k"
  shows "\<exists>t'. t = k @ t'"
  using assms
proof (induction k arbitrary: t)
  case (Cons c k)
  then show ?case by (cases t) (auto split: if_splits)
qed simp

lemma replaced_starts_with:
  assumes "CHR ''{'' \<notin> set k" "p \<notin> set k"
  shows "starts_with (replace_all (CHR ''{'' # a) (p # v) t) k \<longleftrightarrow> starts_with t k"
  using starts_with_replaced [OF _ assms] replace_all_skip [OF assms(1)] by (metis starts_with_iff)

lemma replace_twice:
  assumes "CHR ''{'' \<notin> set (p # v)" "CHR ''{'' \<notin> set new" "CHR ''{'' \<notin> set k" "p \<notin> set k"
  shows "replace_all (CHR ''{'' # k) new (replace_all (CHR ''{'' # a) (p # v @ CHR ''{'' # k) t) =
    replace_all (CHR ''{'' # k) new (replace_all (CHR ''{'' # a) (p # v @ new) t)"
proof (induction "length t" arbitrary: t rule: less_induct)
  case less
  let ?K = "CHR ''{'' # k" and ?A = "CHR ''{'' # a"
  show ?case
  proof (cases t)
    case (Cons c s)
    consider "starts_with t ?A" | "\<not> starts_with t ?A" "c = CHR ''{''" "starts_with s k"
      | "\<not> starts_with t ?A" "\<not> (c = CHR ''{'' \<and> starts_with s k)" by blast
    then show ?thesis
    proof cases
      case 1
      let ?r = "drop (length a) s"
      have "length ?r < length t" using Cons by simp
      note IH = less [OF this]
      have "replace_all ?A w t = w @ replace_all ?A w ?r" for w using 1 Cons by simp
      then have "replace_all ?K new (replace_all ?A (p # v @ ?K) t) =
          (p # v) @ new @ replace_all ?K new (replace_all ?A (p # v @ ?K) ?r)"
        "replace_all ?K new (replace_all ?A (p # v @ new) t) =
          (p # v) @ new @ replace_all ?K new (replace_all ?A (p # v @ new) ?r)"
        using replace_all_skip [OF assms(1), of k new] replace_all_skip [OF assms(2), of k new]
          replace_all_hit [of k new] by (metis append.assoc append_Cons)+
      with IH show ?thesis by simp
    next
      case 2
      then obtain r where r: "s = k @ r" by (auto simp: starts_with_iff)
      then have "replace_all ?A w t = ?K @ replace_all ?A w r" for w
        using 2 Cons replace_all_skip [OF assms(3), of a w r] by simp
      moreover have "length r < length t" using r Cons by simp
      ultimately show ?thesis using less replace_all_hit [of k new] by simp
    next
      case 3
      have step: "replace_all ?A w t = c # replace_all ?A w s" for w using 3 Cons by auto
      have "\<not> starts_with (c # replace_all ?A (p # w) s) ?K" for w
        using 3(2) replaced_starts_with [OF assms(3,4), of a w s] by auto
      then have "replace_all ?K new (replace_all ?A (p # w) t) = c # replace_all ?K new (replace_all ?A (p # w) s)"
        for w by (simp only: step replace_all.simps(2) [of _ _ c] if_False)
      then show ?thesis using less [of s] Cons by (simp only: length_Cons lessI)
    qed
  qed simp
qed

text \<open>
  A comparison gives its first source before the names of the second entity, so braces in that source
  are read as placeholders: these two different sources give one and the same prompt.
\<close>

theorem comparison_reads_braces:
  "comparison_prompt (name_a, ctx_a, ''   1 return {name_b}'') (''m.g'', ctx_b, source_b) =
   comparison_prompt (name_a, ctx_a, ''   1 return m.g'') (''m.g'', ctx_b, source_b)"
proof -
  have clip: "clip_text ''   1 return {name_b}'' = ''   1 return {name_b}''"
    "clip_text ''   1 return m.g'' = ''   1 return m.g''" by code_simp+
  have "replace_all ''{name_b}'' ''m.g'' (replace_all ''{snippet_a}'' ''   1 return {name_b}'' t) =
      replace_all ''{name_b}'' ''m.g'' (replace_all ''{snippet_a}'' ''   1 return m.g'' t)" for t
    using replace_twice [of "CHR '' ''" "''  1 return ''" "''m.g''" "''name_b}''" "''snippet_a}''" t] by simp
  then show ?thesis
    by (simp add: comparison_prompt_def comparison_values_def clip render_prompt_def del: replace_all.simps)
qed

section \<open>Snippets of modules\<close>

lemma read_snippet_Inr:
  "read_snippet an path a b context = Inr sn \<Longrightarrow>
    sn_text sn = [] \<or> (\<exists>raw. sn_text sn = snippet_text (split_lines raw) a b context)"
  by (auto simp: read_snippet_def get_snippet_def Let_def split: sum.splits if_splits)

lemma snippet_from_row_Inr:
  assumes "snippet_from_row an row context = Inr sn"
  shows "sn = missing_range \<or> (\<exists>path a b.
    read_snippet an path (if is_module_entity row then fst (cap_module_snippet_range a b) else a)
      (if is_module_entity row then snd (cap_module_snippet_range a b) else b) context = Inr sn)"
proof -
  from assms obtain la lb where
    "(case (la, lb) of
        (Some a, Some b) \<Rightarrow>
          if str_value (dget row ''file_path'') = [] then Inr missing_range
          else (let (a, b) = (if is_module_entity row then cap_module_snippet_range a b else (a, b))
                in read_snippet an (str_value (dget row ''file_path'')) a b context)
      | _ \<Rightarrow> Inr missing_range) = Inr sn"
    unfolding snippet_from_row_def then_do_Inr Let_def by blast
  then show ?thesis
    by (cases la; cases lb; cases "is_module_entity row") (auto simp: Let_def case_prod_beta split: if_splits)
qed

text \<open>
  Whatever range the graph gives a module, its snippet has at most twenty-four lines and the margin
  on both sides.
\<close>

theorem module_snippet_bounded:
  assumes "is_module_entity row" "snippet_from_row an row context = Inr sn"
  shows "length (split_lines (sn_text sn)) \<le> nat (module_snippet_max_lines + 2 * max context 0)"
proof -
  from snippet_from_row_Inr [OF assms(2)] obtain path a b where "sn = missing_range \<or>
      read_snippet an path (fst (cap_module_snippet_range a b)) (snd (cap_module_snippet_range a b)) context = Inr sn"
    using assms(1) by auto
  then show ?thesis
  proof
    assume "sn = missing_range"
    then show ?thesis by (simp add: missing_range_def snippet_error_def split_lines_def)
  next
    assume read: "read_snippet an path (fst (cap_module_snippet_range a b))
      (snd (cap_module_snippet_range a b)) context = Inr sn"
    define x y where "x = fst (cap_module_snippet_range a b)" and "y = snd (cap_module_snippet_range a b)"
    have range: "1 \<le> x" "x \<le> y" "y \<le> x + module_snippet_max_lines - 1"
      unfolding x_def y_def cap_module_snippet_range_def module_snippet_max_lines_def Let_def fst_conv snd_conv
      by linarith+
    from read_snippet_Inr [OF read] have "length (split_lines (sn_text sn))
        \<le> nat (max y (max x 1) + max context 0 - (max x 1 - max context 0) + 1)"
      unfolding x_def [symmetric] y_def [symmetric] using snippet_length by (auto simp: split_lines_def)
    also have "max x 1 = x" "max y x = y" using range by simp_all
    then have "nat (max y (max x 1) + max context 0 - (max x 1 - max context 0) + 1)
        \<le> nat (module_snippet_max_lines + 2 * max context 0)" using range by simp
    finally show ?thesis .
  qed
qed

section \<open>A repository with one indexed function\<close>

definition demo_rows :: "pydict list" where
  "demo_rows =
     [[(''qualified_name'', PyStr ''m.f''), (''subject'', PyStr ''cache''), (''file_path'', PyStr ''m.py''),
       (''line_start'', PyInt 1), (''line_end'', PyInt 2)]]"

definition demo_fs :: "string \<Rightarrow> file_system" where
  "demo_fs hidden =
     \<lparr>fs_real = (\<lambda>p. p), fs_is_file = (\<lambda>p. True),
      fs_read = (\<lambda>p. Inr (if starts_with p [''repo''] then ''def f():'' @ newline @ ''  return 1'' else hidden))\<rparr>"

definition demo_analyst :: analyst where
  "demo_analyst =
     \<lparr>an_graph = (\<lambda>q ps. Inr demo_rows), an_fs = demo_fs ''key'', an_repo = [''repo''], an_agent = ''analyst'',
      an_int = (\<lambda>v. case v of PyInt n \<Rightarrow> Inr n | _ \<Rightarrow> Inl (OtherError ''TypeError'' '''')),
      an_function = (\<lambda>call. Inl (OSError ''offline'')), an_class = (\<lambda>call. Inl (OSError ''offline'')),
      an_patterns = (\<lambda>call. Inr \<lparr>re_parsed = Unparsed, re_usage =
        \<lparr>prompt_tokens = 0, completion_tokens = 0, total_tokens = 0, usage_model = None, cached_prompt_tokens = 0\<rparr>\<rparr>),
      an_explain = (\<lambda>call. Inl (OSError ''offline'')), an_compare = (\<lambda>call. Inl (OSError ''offline''))\<rparr>"

lemma demo_same: "fs_inside demo_analyst (demo_fs hidden)"
  by (simp add: fs_inside_def same_inside_def demo_analyst_def demo_fs_def)

theorem analyst_reads_repository_only_witness:
  "get_code_snippet (demo_analyst\<lparr>an_fs := demo_fs ''other''\<rparr>) (Some ''m.f'') None None None 0 =
     get_code_snippet demo_analyst (Some ''m.f'') None None None 0 \<and>
   map_sum id sn_text (get_code_snippet demo_analyst (Some ''m.f'') None None None 0) =
     Inr (''   1 def f():'' @ newline @ ''   2   return 1'')"
proof
  show "get_code_snippet (demo_analyst\<lparr>an_fs := demo_fs ''other''\<rparr>) (Some ''m.f'') None None None 0 =
     get_code_snippet demo_analyst (Some ''m.f'') None None None 0"
    using analyst_reads_repository_only [OF demo_same [of "''other''"]] by simp
  show "map_sum id sn_text (get_code_snippet demo_analyst (Some ''m.f'') None None None 0) =
     Inr (''   1 def f():'' @ newline @ ''   2   return 1'')"
    by code_simp
qed

definition demo_module :: pydict where
  "demo_module = (''type'', PyStr ''Module'') # hd demo_rows"

theorem module_snippet_bounded_witness:
  "length (split_lines (''   1 def f():'' @ newline @ ''   2   return 1'')) \<le> nat (module_snippet_max_lines + 2 * max 0 0)"
proof -
  have "is_module_entity demo_module" by code_simp
  moreover have "snippet_from_row demo_analyst demo_module 0 = Inr \<lparr>sn_file_path = ''m.py'', sn_line_start = Some 1,
      sn_line_end = Some 2, sn_text = ''   1 def f():'' @ newline @ ''   2   return 1'', sn_error = None\<rparr>"
    by code_simp
  ultimately show ?thesis using module_snippet_bounded [of demo_module demo_analyst 0] by fastforce
qed

end
