(* ===== verification/Patterns.thy ===== *)
theory Patterns
  imports Analysis
begin

text \<open>
  Pattern searches of the code analyst (\<open>find_patterns\<close> of \<open>core/analysis/service.py\<close>): the graph gives the
  instances, the model at most explains them.
\<close>

section \<open>Patterns\<close>

definition pattern_cypher :: "string \<Rightarrow> string option" where
  "pattern_cypher pattern =
     map_of [(''decorator'', pattern_decorator), (''dependency_injection'', pattern_dependency_injection),
             (''factory'', pattern_factory)] pattern"

definition pattern_params :: "string \<Rightarrow> string option \<Rightarrow> pydict" where
  "pattern_params pattern path_prefix =
     (case pattern_cypher pattern of
        None \<Rightarrow> []
      | Some cypher \<Rightarrow> if contains ''$path_prefix'' cypher then [(''path_prefix'', opt_str path_prefix)] else [])"

definition instance_of_row :: "analyst \<Rightarrow> pydict \<Rightarrow> pattern_instance result" where
  "instance_of_row an row =
     then_do (int_value an (dget row ''line_start'')) (\<lambda>a.
     then_do (int_value an (dget row ''line_end'')) (\<lambda>b.
       Inr \<lparr>pi_qualified_name = str_value (dget row ''qualified_name''),
            pi_subject = str_value (dget row ''subject''), pi_file_path = str_value (dget row ''file_path''),
            pi_line_start = a, pi_line_end = b, pi_explanation = ''''\<rparr>))"

definition named_rows :: "pydict list \<Rightarrow> pydict list" where
  "named_rows rows = filter (\<lambda>r. str_value (dget r ''qualified_name'') \<noteq> []) rows"

text \<open>\<open>Counter.most_common()\<close>: by count, ties in the order of the first occurrence.\<close>

definition most_common :: "string list \<Rightarrow> (string \<times> nat) list" where
  "most_common xs =
     sort_key (\<lambda>(x, n). - int n) (map (\<lambda>x. (x, length (filter (\<lambda>y. y = x) xs))) (add_all_new [] xs))"

definition subject_tally :: "pattern_instance list \<Rightarrow> string" where
  "subject_tally instances =
     (let counts = most_common (filter (\<lambda>s. s \<noteq> []) (map pi_subject instances))
      in if counts = [] then ''''
         else '': '' @ join '', '' (map (\<lambda>(x, n). x @ '' ('' @ str_nat n @ '')'') counts))"

definition with_subject_tally :: "string \<Rightarrow> string \<Rightarrow> pattern_instance list \<Rightarrow> string" where
  "with_subject_tally summary pattern instances =
     (let tally = subject_tally instances;
          stated = ''Found '' @ str_nat (length instances) @ '' '' @ pattern @ '' applications'' @ tally @ ''.''
      in if tally = [] then summary
         else if summary = [] then stated else strip (stated @ '' '' @ summary))"

definition no_explanation :: "string \<Rightarrow> string \<Rightarrow> pattern_instance list \<Rightarrow> pattern_analysis" where
  "no_explanation pattern summary instances =
     \<lparr>pa_pattern = pattern, pa_summary = summary, pa_instances = instances, pa_error = None,
      pa_supported = supported_patterns, pa_usage = None\<rparr>"

definition instance_line :: "pattern_instance \<Rightarrow> string" where
  "instance_line i =
     (if pi_subject i = [] then pi_qualified_name i else pi_subject i @ '' on '' @ pi_qualified_name i)"

definition patterns_prompt :: "string \<Rightarrow> pattern_instance list \<Rightarrow> string" where
  "patterns_prompt pattern instances =
     (let subjects = dropWhile (\<lambda>c. c = CHR '':'' \<or> c = CHR '' '') (subject_tally instances)
      in render_prompt find_patterns_prompt
           [(''pattern'', pattern), (''subjects'', if subjects = [] then ''n/a'' else subjects),
            (''instances'', bullet_text (limited_items (map instance_line instances)))])"

definition explained :: "pattern_analysis \<Rightarrow> pattern_instance \<Rightarrow> pattern_instance" where
  "explained parsed i =
     i\<lparr>pi_explanation :=
         (case map_of (rev (map (\<lambda>x. (pi_qualified_name x, pi_explanation x))
                             (filter (\<lambda>x. pi_explanation x \<noteq> []) (pa_instances parsed)))) (pi_qualified_name i) of
            Some e \<Rightarrow> e | None \<Rightarrow> '''')\<rparr>"

definition merge_explanations :: "string \<Rightarrow> pattern_instance list \<Rightarrow> pattern_analysis \<Rightarrow> pattern_analysis" where
  "merge_explanations pattern instances parsed =
     parsed\<lparr>pa_instances := map (explained parsed) instances, pa_pattern := pattern,
            pa_supported := (if pa_supported parsed = [] then supported_patterns else pa_supported parsed),
            pa_summary := with_subject_tally (pa_summary parsed) pattern instances\<rparr>"

definition large_summary :: "string \<Rightarrow> pattern_instance list \<Rightarrow> string" where
  "large_summary pattern instances =
     ''Found '' @ str_nat (length instances) @ '' '' @ pattern @ '' instances in the indexed graph''
     @ subject_tally instances @ ''. ''
     @ ''Per-instance explanations were skipped because the result set is large.''"

definition explain_instances :: "analyst \<Rightarrow> string \<Rightarrow> pattern_instance list \<Rightarrow> pattern_analysis result" where
  "explain_instances an pattern instances =
     (case then_do (an_patterns an (call_prompt find_patterns_system (patterns_prompt pattern instances)
                      find_patterns_max_tokens))
             (require_parsed (an_agent an) ''PatternAnalysis'' (\<lambda>u x. x\<lparr>pa_usage := Some u\<rparr>)) of
        Inr parsed \<Rightarrow> Inr (merge_explanations pattern instances parsed)
      | Inl (SchemaValidationError a m) \<Rightarrow>
          Inr (no_explanation pattern (with_subject_tally '''' pattern instances) instances)
      | Inl e \<Rightarrow> Inl e)"

definition unknown_pattern :: "string \<Rightarrow> pattern_analysis" where
  "unknown_pattern pattern =
     (no_explanation pattern '''' [])
       \<lparr>pa_error := Some (''Unknown pattern '' @ repr_str pattern @ ''. ''
          @ ''Supported patterns: '' @ join '', '' supported_patterns)\<rparr>"

definition find_patterns :: "analyst \<Rightarrow> string \<Rightarrow> string option \<Rightarrow> pattern_analysis result" where
  "find_patterns an pattern path_prefix =
     (case pattern_cypher pattern of
        None \<Rightarrow> Inr (unknown_pattern pattern)
      | Some cypher \<Rightarrow>
          then_do (an_graph an cypher (pattern_params pattern path_prefix)) (\<lambda>rows.
          then_do (all_results (instance_of_row an) (named_rows rows)) (\<lambda>instances.
            if instances = [] then Inr (no_explanation pattern '''' [])
            else if max_prompt_list_items < length instances
            then Inr (no_explanation pattern (large_summary pattern instances) instances)
            else explain_instances an pattern instances)))"


section \<open>What a search returns\<close>

lemma explained_same: "(explained parsed i)\<lparr>pi_explanation := ''''\<rparr> = i\<lparr>pi_explanation := ''''\<rparr>"
  by (simp add: explained_def)

lemma unexplained: "all_results (instance_of_row an) rows = Inr is \<Longrightarrow> map (\<lambda>i. i\<lparr>pi_explanation := ''''\<rparr>) is = is"
  by (induction rows arbitrary: "is") (auto simp: then_do_Inr instance_of_row_def)

lemma rstrip_solid: "\<not> is_space c \<Longrightarrow> rstrip (s @ c # t) = s @ c # rstrip t"
  by (simp add: rstrip_def dropWhile_append dropWhile_eq_Nil_conv)

lemma lstrip_solid: "\<not> is_space c \<Longrightarrow> lstrip (c # s) = c # s"
  by (simp add: lstrip_def)

lemma with_subject_tally_states:
  "contains (subject_tally is) (with_subject_tally summary pattern is)"
proof (cases "subject_tally is = []")
  case True
  then show ?thesis by (simp only: contains_Nil)
next
  case False
  define u where "u = ''Found '' @ str_nat (length is) @ '' '' @ pattern @ '' applications''"
  have "\<not> is_space (CHR ''F'')" "\<not> is_space (CHR ''.'')" by code_simp+
  then have "strip (u @ subject_tally is @ ''.'' @ '' '' @ summary)
      = u @ subject_tally is @ ''.'' @ rstrip ('' '' @ summary)"
    using rstrip_solid [of "CHR ''.''" "u @ subject_tally is" "'' '' @ summary"]
    by (simp add: strip_def u_def lstrip_solid)
  moreover have "with_subject_tally summary pattern is =
      (if summary = [] then u @ subject_tally is @ ''.'' else strip (u @ subject_tally is @ ''.'' @ '' '' @ summary))"
    using False by (simp add: with_subject_tally_def u_def)
  ultimately show ?thesis
    by (cases "summary = []") (simp_all add: contains_middle contains_refl)
qed

lemma large_summary_states: "contains (subject_tally is) (large_summary pattern is)"
  using contains_middle [OF contains_refl, of _ "''Found '' @ str_nat (length is) @ '' '' @ pattern @ '' instances in the indexed graph''"]
  by (simp only: large_summary_def append.assoc)

lemma explain_instances_Inr:
  assumes "explain_instances an pattern is = Inr pa"
  shows "pa_pattern pa = pattern"
    "map (\<lambda>i. i\<lparr>pi_explanation := ''''\<rparr>) (pa_instances pa) = map (\<lambda>i. i\<lparr>pi_explanation := ''''\<rparr>) is"
    "contains (subject_tally is) (pa_summary pa)"
  using assms with_subject_tally_states
  by (auto simp: explain_instances_def no_explanation_def merge_explanations_def explained_same comp_def
      split: sum.splits exn.splits)


text \<open>
  When the model cannot be reached, the instances the graph has already returned are lost: only an
  unusable reply is caught.
\<close>

theorem model_error_loses_instances:
  assumes "pattern_cypher pattern = Some cypher"
    and "an_graph an cypher (pattern_params pattern path_prefix) = Inr rows"
    and "all_results (instance_of_row an) (named_rows rows) = Inr instances"
    and "instances \<noteq> []" "length instances \<le> max_prompt_list_items"
    and "an_patterns an = (\<lambda>call. Inl e)" "\<nexists>a m. e = SchemaValidationError a m"
  shows "find_patterns an pattern path_prefix = Inl e"
  using assms by (auto simp: find_patterns_def explain_instances_def split: exn.splits)

definition demo_instance :: pattern_instance where
  "demo_instance = \<lparr>pi_qualified_name = ''m.f'', pi_subject = ''cache'', pi_file_path = ''m.py'',
     pi_line_start = Some 1, pi_line_end = Some 2, pi_explanation = ''''\<rparr>"

lemma demo_search:
  "pattern_cypher ''factory'' = Some pattern_factory"
  "an_graph demo_analyst pattern_factory (pattern_params ''factory'' None) = Inr demo_rows"
  "all_results (instance_of_row demo_analyst) (named_rows demo_rows) = Inr [demo_instance]"
  by code_simp+


theorem model_error_loses_instances_witness:
  "find_patterns (demo_analyst\<lparr>an_patterns := \<lambda>call. Inl (ConnectionError ''down'')\<rparr>) ''factory'' None =
     Inl (ConnectionError ''down'')"
proof (rule model_error_loses_instances [where rows = demo_rows and instances = "[demo_instance]"])
  let ?an = "demo_analyst\<lparr>an_patterns := \<lambda>call. Inl (ConnectionError ''down'')\<rparr>"
  show "pattern_cypher ''factory'' = Some pattern_factory" by (rule demo_search)
  show "an_graph ?an pattern_factory (pattern_params ''factory'' None) = Inr demo_rows"
    by (simp add: demo_analyst_def)
  show "all_results (instance_of_row ?an) (named_rows demo_rows) = Inr [demo_instance]" by code_simp
  show "length [demo_instance] \<le> max_prompt_list_items" by (simp add: max_prompt_list_items_def)
qed simp_all

end
