(* ===== verification/Scoring.thy ===== *)
theory Scoring
  imports Snippets Synthesis Ledger
begin

text \<open>
  Scores of an answered turn (\<open>core/eval/scoring.py\<close>, \<open>core/eval/models.py\<close>): citations, claims and
  their support in the evidence, recall of entities and files, and the gates on them. Scores are exact
  fractions; the thresholds are far from any rounding of floats at the counts that occur. The graph,
  the indexed repository, \<open>int()\<close>, the value of a float and the prices are the fields of \<open>scorer\<close>.
  A file that is not UTF-8 fails as a whole. Text is ASCII, so dashes in line ranges are \<open>-\<close>.
\<close>

section \<open>Labelled turns and their scores\<close>

record turn_spec =
  sp_query :: string
  sp_entities :: "string list"
  sp_files :: "string list"
  sp_agents :: "string list"
  sp_mode :: string
  sp_min_agents :: int
  sp_out_of_scope :: bool

record qa_case =
  qa_id :: string
  qa_tier :: string
  qa_turns :: "turn_spec list"
  qa_out_of_scope :: bool

definition is_multiturn :: "qa_case \<Rightarrow> bool" where
  "is_multiturn c \<longleftrightarrow> 1 < length (qa_turns c)"

record turn_score =
  sc_case :: string
  sc_tier :: string
  sc_query :: string
  sc_expected_agents :: "string list"
  sc_executed_agents :: "string list"
  sc_routing_mode :: string
  sc_agents_passed :: bool
  sc_citation_precision :: "rat option"
  sc_citation_passed :: bool
  sc_groundedness :: "rat option"
  sc_grounded_passed :: bool
  sc_entity_recall :: rat
  sc_entity_passed :: bool
  sc_degraded :: bool
  sc_evidence_only :: bool
  sc_refusal_ok :: "bool option"
  sc_retrieval :: rat
  sc_retrieval_passed :: bool
  sc_ungrounded :: "string list"
  sc_invalid_citations :: "string list"
  sc_missing_entities :: "string list"
  sc_missing_files :: "string list"
  sc_retrieved_paths :: "string list"
  sc_answer :: string
  sc_latency_ms :: int
  sc_tokens :: "int \<times> int \<times> int \<times> int"
  sc_cost_usd :: real
  sc_tools :: "string list"

text \<open>\<open>bool(x and (y or z))\<close>: a turn outside the traps that is degraded or shows evidence only.\<close>

definition non_trap_degraded :: "turn_score \<Rightarrow> bool" where
  "non_trap_degraded s \<longleftrightarrow> sc_tier s \<noteq> ''trap'' \<and> (sc_degraded s \<or> sc_evidence_only s)"

definition hard_fail :: "turn_score \<Rightarrow> bool" where
  "hard_fail s \<longleftrightarrow>
     (if \<not> sc_agents_passed s then True
      else if non_trap_degraded s then True
      else \<not> sc_citation_passed s)"

definition retrieval_verdict :: "turn_score \<Rightarrow> bool" where
  "retrieval_verdict s \<longleftrightarrow> sc_agents_passed s \<and> sc_retrieval_passed s"

definition synthesis_verdict :: "turn_score \<Rightarrow> bool" where
  "synthesis_verdict s \<longleftrightarrow> \<not> sc_degraded s \<and> \<not> sc_evidence_only s"

definition grounding_verdict :: "turn_score \<Rightarrow> bool" where
  "grounding_verdict s \<longleftrightarrow> sc_citation_passed s \<and> sc_grounded_passed s"

definition turn_passed :: "turn_score \<Rightarrow> bool" where
  "turn_passed s \<longleftrightarrow>
     (if hard_fail s then False
      else if \<not> sc_grounded_passed s \<or> \<not> sc_entity_passed s \<or> \<not> sc_retrieval_passed s then False
      else \<not> (sc_tier s = ''trap'' \<and> sc_refusal_ok s = Some False))"

definition threshold_recall :: rat where "threshold_recall = 80 / 100"

definition threshold_groundedness :: rat where "threshold_groundedness = 70 / 100"

definition threshold_citation_precision :: rat where "threshold_citation_precision = 1"

definition threshold_refusal :: rat where "threshold_refusal = 95 / 100"

definition threshold_executed_agents :: rat where "threshold_executed_agents = 1"

record scorer =
  sr_graph :: "(string \<Rightarrow> pydict \<Rightarrow> pydict list result) option"
  sr_repo :: "(file_system \<times> string list) option"
  sr_int :: "pyval \<Rightarrow> int result"
  sr_float :: "string \<Rightarrow> real"
  sr_llm :: llm_settings

section \<open>Agents\<close>

definition known_agents :: "string list" where
  "known_agents = [''indexer'', ''graph_query'', ''code_analyst'', ''memory'']"

definition agent_of_tool :: "string \<Rightarrow> string" where
  "agent_of_tool tool = takeWhile (\<lambda>c. c \<noteq> CHR ''.'') (strip tool)"

definition agents_from_tools_invoked :: "string list \<Rightarrow> string list" where
  "agents_from_tools_invoked tools =
     add_all_new [] (filter (\<lambda>a. a \<in> set known_agents)
       (map agent_of_tool (filter (\<lambda>t. strip t \<noteq> []) tools)))"

text \<open>The names of the agents a plan targets, as the router lists them.\<close>

definition router_only_agents :: "turn_spec \<Rightarrow> int \<Rightarrow> string list \<times> string" where
  "router_only_agents turn rules_max_query_tokens =
     (let route = rule_based_route rules_max_query_tokens (sp_query turn)
      in if rr_ambiguous route then (sp_agents turn, ''llm'')
         else (map agent_str (qi_targets (intent_from_rule_result (sp_query turn) route By_Rules None)), ''rules''))"

definition routing_mode_ok :: "string \<Rightarrow> string \<Rightarrow> bool" where
  "routing_mode_ok expected actual \<longleftrightarrow>
     (if expected = ''rules'' then actual = ''rules'' else actual \<in> {''llm'', ''rules_fallback''})"

definition executed_agents_ok :: "turn_spec \<Rightarrow> string list \<Rightarrow> string option \<Rightarrow> bool" where
  "executed_agents_ok turn tools mode \<longleftrightarrow>
     (let actual = agents_from_tools_invoked tools
      in set actual = set (sp_agents turn)
         \<and> \<not> int (length actual) < sp_min_agents turn
         \<and> (case mode of None \<Rightarrow> True | Some m \<Rightarrow> routing_mode_ok (sp_mode turn) m))"

section \<open>Citations\<close>

text \<open>The class \<open>[\w./-]\<close> of paths.\<close>

definition path_class :: "char \<Rightarrow> bool" where
  "path_class c \<longleftrightarrow> is_word c \<or> c \<in> set ''./-''"

definition citation_rx :: rx where
  "citation_rx =
     seqs [WordB, Plus (Chr path_class), Lit ''.py'', Lit '':'', Plus (Chr is_digit),
           Opt (Seq (Lit ''-'') (Plus (Chr is_digit))), WordB]"

text \<open>\<open>CITATION_PROSE_RE\<close>, which ignores case: the pattern for the lower-cased answer.\<close>

definition citation_prose_rx :: rx where
  "citation_prose_rx =
     seqs [Plus (Chr path_class), Lit ''.py'', Opt (Star (Chr (\<lambda>c. c \<in> set ''`*)''))),
           Plus (alts [Seq (Star (Chr is_space)) (Lit ''(''), Lit '','', Chr is_space]),
           Lit ''line'', Opt (Lit ''s''), Plus (Chr is_space), Plus (Chr is_digit), Star (Chr is_space),
           Chr (\<lambda>c. c = CHR ''-''), Star (Chr is_space), Plus (Chr is_digit)]"

definition parse_digits :: "string \<Rightarrow> nat" where
  "parse_digits s = foldl (\<lambda>n c. 10 * n + (of_char c - 48)) 0 s"

text \<open>Groups 1 and 2 of a match: no character of the path class, and no digit, lies between them.\<close>

definition cited :: "string \<Rightarrow> string \<times> nat" where
  "cited t =
     (let path = takeWhile path_class t
      in (path, parse_digits (takeWhile is_digit (dropWhile (\<lambda>c. \<not> is_digit c) (drop (length path) t)))))"

definition extract_citations :: "string \<Rightarrow> (string \<times> nat) list" where
  "extract_citations answer =
     add_all_new [] (map cited
       (find_all citation_rx answer
        @ map (\<lambda>(i, j). slice answer i j) (find_all_from citation_prose_rx (py_lower answer) 0)))"

text \<open>The lines a text file is iterated in, newlines translated.\<close>

definition line_count :: "string \<Rightarrow> nat" where
  "line_count s =
     length (filter (\<lambda>c. c = CHR 0x0A) s) + (if s = [] \<or> last s = CHR 0x0A then 0 else 1)"

fun os_error :: "exn \<Rightarrow> bool" where
  "os_error (OSError m) = True"
| "os_error (TimeoutError m) = True"
| "os_error (ConnectionError m) = True"
| "os_error _ = False"

definition citation_exists_on_disk :: "file_system \<times> string list \<Rightarrow> string \<Rightarrow> nat \<Rightarrow> bool result" where
  "citation_exists_on_disk repo path line =
     (if line < 1 then Inr False
      else
        (case resolve_repo_path (fst repo) (snd repo) path of
           Inl e \<Rightarrow> Inr False
         | Inr p \<Rightarrow>
             if \<not> fs_is_file (fst repo) p then Inr False
             else (case fs_read (fst repo) p of
                     Inr s \<Rightarrow> Inr (line \<le> line_count s)
                   | Inl e \<Rightarrow> if os_error e then Inr False else Inl e)))"

definition citation_graph_query :: string where
  "citation_graph_query =
     ''MATCH (n) ''
     @ ''WHERE (n.file_path = $path OR (n:File AND n.path = $path)) ''
     @ ''AND (''
     @ ''  n.line_start IS NULL ''
     @ ''  OR (n.line_start <= $line AND (n.line_end IS NULL OR n.line_end >= $line))''
     @ '') ''
     @ ''RETURN count(n) AS count''"

definition citation_exists_in_graph ::
    "scorer \<Rightarrow> (string \<Rightarrow> pydict \<Rightarrow> pydict list result) \<Rightarrow> string \<Rightarrow> nat \<Rightarrow> bool result" where
  "citation_exists_in_graph sr graph path line =
     then_do (graph citation_graph_query [(''path'', PyStr path), (''line'', PyInt (int line))]) (\<lambda>rows.
       case rows of
         [] \<Rightarrow> Inr False
       | row # rest \<Rightarrow> then_do (sr_int sr (dget row ''count'')) (\<lambda>n. Inr (0 < n)))"

definition citation_exists :: "scorer \<Rightarrow> string \<Rightarrow> nat \<Rightarrow> bool result" where
  "citation_exists sr path line =
     then_do (case sr_graph sr of None \<Rightarrow> Inr False | Some g \<Rightarrow> citation_exists_in_graph sr g path line) (\<lambda>hit.
       if hit then Inr True
       else (case sr_repo sr of None \<Rightarrow> Inr False | Some repo \<Rightarrow> citation_exists_on_disk repo path line))"

definition citation_label :: "string \<times> nat \<Rightarrow> string" where
  "citation_label c = fst c @ '':'' @ str_nat (snd c)"

definition score_citation_precision :: "scorer \<Rightarrow> string \<Rightarrow> (rat option \<times> string list) result" where
  "score_citation_precision sr answer =
     (let citations = extract_citations answer
      in if citations = [] then Inr (None, [])
         else
           then_do (all_results (\<lambda>c. then_do (citation_exists sr (fst c) (snd c)) (\<lambda>ok. Inr (c, ok))) citations)
             (\<lambda>found. Inr
               (Some (of_nat (length (filter snd found)) / of_nat (length citations)),
                map (citation_label \<circ> fst) (filter (\<lambda>f. \<not> snd f) found))))"

section \<open>Claims and their support\<close>

text \<open>\<open>json.dumps(payload, default=str)\<close>: one line.\<close>

fun json_flat :: "pyval \<Rightarrow> string"
  and json_flat_items :: "pyval list \<Rightarrow> string list"
  and json_flat_fields :: "(string \<times> pyval) list \<Rightarrow> string list" where
  "json_flat PyNone = ''null''"
| "json_flat (PyBool b) = (if b then ''true'' else ''false'')"
| "json_flat (PyInt i) = str_int i"
| "json_flat (PyFloat t) = t"
| "json_flat (PyStr s) = json_str s"
| "json_flat (PyList xs) = ''['' @ join '', '' (json_flat_items xs) @ '']''"
| "json_flat (PyDict m) = ''{'' @ join '', '' (json_flat_fields m) @ ''}''"
| "json_flat_items [] = []"
| "json_flat_items (v # vs) = json_flat v # json_flat_items vs"
| "json_flat_fields [] = []"
| "json_flat_fields ((k, v) # m) = (json_str k @ '': '' @ json_flat v) # json_flat_fields m"

definition evidence_text :: "pydict \<Rightarrow> string" where
  "evidence_text outs = (if outs = [] then '''' else py_lower (json_flat (PyDict outs)))"

text \<open>
  \<open>CLAIM_SPLIT_RE.split\<close>: white space after a full stop, exclamation or question mark, or line breaks.
  \<open>stop\<close> says whether the character before is such a mark.
\<close>

function (sequential) claim_parts :: "bool \<Rightarrow> string \<Rightarrow> string \<Rightarrow> string list" where
  "claim_parts stop cur [] = [cur]"
| "claim_parts stop cur (c # s) =
     (if stop \<and> is_space c then cur # claim_parts False [] (dropWhile is_space s)
      else if c = CHR 0x0A then cur # claim_parts False [] (dropWhile (\<lambda>d. d = CHR 0x0A) s)
      else claim_parts (c \<in> set ''.!?'') (cur @ [c]) s)"
  by pat_completeness auto
termination
  by (relation "measure (\<lambda>(stop, cur, s). length s)") (auto intro: le_imp_less_Suc length_dropWhile_le)

definition strip_chars :: "string \<Rightarrow> string \<Rightarrow> string" where
  "strip_chars cs s = rev (dropWhile (\<lambda>c. c \<in> set cs) (rev (dropWhile (\<lambda>c. c \<in> set cs) s)))"

definition skip_claim_prefixes :: "string list" where
  "skip_claim_prefixes = [''sources:'', ''###'', ''####'', ''- '', ''* '']"

definition extract_claims :: "string \<Rightarrow> string list" where
  "extract_claims answer =
     filter (\<lambda>t. t \<noteq> [] \<and> \<not> list_ex (starts_with (py_lower t)) skip_claim_prefixes)
       (map (\<lambda>raw. strip (strip_chars ''-*'' (strip raw))) (claim_parts False [] answer))"

definition alnum :: "char \<Rightarrow> bool" where
  "alnum c \<longleftrightarrow> is_upper c \<or> is_lower c \<or> is_digit c"

definition camel_rx :: rx where
  "camel_rx =
     seqs [WordB, Chr is_upper, Star (Chr alnum), Chr is_lower, Star (Chr is_word), WordB]"

definition snake_part_rx :: rx where
  "snake_part_rx = Seq (Lit ''_'') (Plus (Chr (\<lambda>c. is_lower c \<or> is_digit c)))"

definition snake_rx :: rx where
  "snake_rx =
     seqs [WordB, Chr is_lower, Star (Chr (\<lambda>c. is_lower c \<or> is_digit c)), Plus snake_part_rx, WordB]"

text \<open>\<open>findall\<close> of a pattern with one group returns the group: here its last repetition.\<close>

definition snake_tail :: "string \<Rightarrow> string" where
  "snake_tail t = CHR ''_'' # rev (takeWhile (\<lambda>c. c \<noteq> CHR ''_'') (rev t))"

definition qualified_rx :: rx where
  "qualified_rx =
     (let ident = Seq (Chr (\<lambda>c. is_upper c \<or> is_lower c \<or> c = CHR ''_'')) (Star (Chr is_word))
      in seqs [WordB, ident, Plus (Seq (Lit ''.'') ident)])"

definition claim_skip_tokens :: "string list" where
  "claim_skip_tokens = [''the'', ''this'', ''that'', ''sources'', ''offline'']"

definition qualified_skip :: "string list" where
  "qualified_skip = [''e.g'', ''i.e'', ''vs'']"

definition checkable_symbols :: "string \<Rightarrow> string list" where
  "checkable_symbols claim =
     filter (\<lambda>t. py_lower t \<notin> set claim_skip_tokens)
       (find_all camel_rx claim @ map snake_tail (find_all snake_rx claim))
     @ filter (\<lambda>t. let l = rev (dropWhile (\<lambda>c. c = CHR ''.'') (rev (py_lower t)))
                   in l \<notin> set qualified_skip \<and> \<not> ends_with l ''.py'')
         (find_all qualified_rx claim)"

definition is_checkable_claim :: "string \<Rightarrow> bool" where
  "is_checkable_claim claim \<longleftrightarrow>
     extract_citations claim \<noteq> [] \<or> contains ''.py'' claim \<or> checkable_symbols claim \<noteq> []"

definition citation_supported :: "string \<Rightarrow> string \<times> nat \<Rightarrow> bool" where
  "citation_supported evidence c \<longleftrightarrow>
     contains (py_lower (fst c)) evidence
     \<or> contains (py_lower (fst c) @ '':'' @ str_nat (snd c)) evidence"

text \<open>\<open>s.rsplit(".", 1)[-1]\<close>\<close>

definition after_last_dot :: "string \<Rightarrow> string" where
  "after_last_dot s = rev (takeWhile (\<lambda>c. c \<noteq> CHR ''.'') (rev s))"

definition symbol_supported :: "string \<Rightarrow> string \<Rightarrow> bool" where
  "symbol_supported evidence token \<longleftrightarrow>
     (let l = py_lower token in contains l evidence \<or> contains (after_last_dot l) evidence)"

definition claim_token_hits :: "string \<Rightarrow> string \<Rightarrow> nat \<times> nat" where
  "claim_token_hits claim evidence =
     (if evidence = []
      then (0, length (extract_citations claim) + length (checkable_symbols claim))
      else
        (let units = map (citation_supported evidence) (extract_citations claim)
                     @ map (symbol_supported evidence) (checkable_symbols claim)
         in (length (filter id units), length units)))"

definition claim_supported :: "string \<Rightarrow> string \<Rightarrow> bool" where
  "claim_supported claim evidence \<longleftrightarrow>
     (case claim_token_hits claim evidence of (hits, n) \<Rightarrow> 0 < n \<and> hits = n)"

text \<open>One claim of the loop: the tokens hit, all tokens, and the claims with a token that is not.\<close>

fun count_claim :: "string \<Rightarrow> string \<Rightarrow> nat \<times> nat \<times> string list \<Rightarrow> nat \<times> nat \<times> string list" where
  "count_claim evidence claim (hit_total, unit_total, ungrounded) =
     (case claim_token_hits claim evidence of
        (hits, n) \<Rightarrow>
          if n = 0 then (hit_total, unit_total, ungrounded)
          else (hit_total + hits, unit_total + n,
                ungrounded @ (if hits < n then [take 160 claim] else [])))"

definition score_groundedness :: "string \<Rightarrow> pydict \<Rightarrow> rat option \<times> string list" where
  "score_groundedness answer outs =
     (let checkable = filter is_checkable_claim (extract_claims answer)
      in if checkable = [] then (None, [])
         else
           (case fold (count_claim (evidence_text outs)) checkable (0, 0, []) of
              (hit_total, unit_total, ungrounded) \<Rightarrow>
                if unit_total = 0 then (None, [])
                else (Some (of_nat hit_total / of_nat unit_total), ungrounded)))"

section \<open>Recall\<close>

definition entity_aliases :: "string \<Rightarrow> string list" where
  "entity_aliases name =
     (let t = strip name
      in if t = [] then []
         else py_lower t # (if CHR ''.'' \<in> set t then [py_lower (after_last_dot t)] else []))"

definition score_entity_recall :: "string \<Rightarrow> string list \<Rightarrow> pydict \<Rightarrow> rat \<times> string list" where
  "score_entity_recall answer expected outs =
     (if expected = [] then (1, [])
      else
        (let haystack = py_lower answer @ newline @ evidence_text outs;
             hit = (\<lambda>e. list_ex (\<lambda>a. a \<noteq> [] \<and> found (word_rx a) haystack) (entity_aliases e))
         in (of_nat (length (filter hit expected)) / of_nat (length expected),
             filter (\<lambda>e. \<not> hit e) expected)))"

definition slashes :: "string \<Rightarrow> string" where
  "slashes s = map (\<lambda>c. if c = CHR 0x5C then CHR ''/'' else c) s"

definition looks_like_repo_path :: "string \<Rightarrow> bool" where
  "looks_like_repo_path t \<longleftrightarrow>
     (let cleaned = slashes (strip t)
      in if cleaned = [] \<or> contains ''://'' cleaned then False
         else if ends_with cleaned ''.py'' then True
         else CHR ''/'' \<in> set cleaned \<and> \<not> starts_with cleaned ''/'')"

definition payload_path_keys :: "string list" where
  "payload_path_keys = [''file_path'', ''path'', ''file'']"

definition py_path_rx :: rx where
  "py_path_rx =
     seqs [Alt Bol (Chr (\<lambda>c. is_space c \<or> c \<in> {CHR 0x22, CHR 0x27, CHR 0x60, CHR ''='', CHR ''(''})),
           Plus (Chr path_class), Lit ''.py'', WordB]"

text \<open>The texts that \<open>_walk\<close> passes to \<open>_add\<close>, in order.\<close>

fun payload_paths :: "pyval \<Rightarrow> string list"
  and payload_paths_items :: "pyval list \<Rightarrow> string list"
  and payload_paths_fields :: "(string \<times> pyval) list \<Rightarrow> string list" where
  "payload_paths (PyStr s) = map (dropWhile (\<lambda>c. \<not> path_class c)) (find_all py_path_rx s)"
| "payload_paths (PyList xs) = payload_paths_items xs"
| "payload_paths (PyDict m) = payload_paths_fields m"
| "payload_paths v = []"
| "payload_paths_items [] = []"
| "payload_paths_items (v # vs) = payload_paths v @ payload_paths_items vs"
| "payload_paths_fields [] = []"
| "payload_paths_fields ((k, v) # m) =
     (case v of PyStr s \<Rightarrow> if k \<in> set payload_path_keys then [s] else [] | _ \<Rightarrow> [])
     @ payload_paths v @ payload_paths_fields m"

definition extract_retrieved_paths :: "pydict \<Rightarrow> string list" where
  "extract_retrieved_paths outs =
     add_all_new [] (filter looks_like_repo_path (map (slashes \<circ> strip) (payload_paths (PyDict outs))))"

definition rstrip_slash :: "string \<Rightarrow> string" where
  "rstrip_slash s = rev (dropWhile (\<lambda>c. c = CHR ''/'') (rev s))"

definition expected_file_retrieved :: "string list \<Rightarrow> string \<Rightarrow> bool" where
  "expected_file_retrieved retrieved expected \<longleftrightarrow>
     (let want = rstrip_slash (slashes (strip expected))
      in want = [] \<or>
         list_ex (\<lambda>path. let got = rstrip_slash (slashes path)
                         in got = want \<or> starts_with got (want @ ''/'')) retrieved)"

definition score_retrieval_correctness ::
    "string list \<Rightarrow> pydict \<Rightarrow> rat \<times> string list \<times> string list" where
  "score_retrieval_correctness expected outs =
     (let retrieved = extract_retrieved_paths outs
      in if expected = [] then (1, [], retrieved)
         else
           (let missing = filter (\<lambda>p. \<not> expected_file_retrieved retrieved p) expected
            in (of_nat (length expected - length missing) / of_nat (length expected), missing, retrieved)))"

section \<open>A scored turn\<close>

definition refusal_needles :: "string list" where
  "refusal_needles = [''not in the indexed fastapi codebase'', ''could not find indexed fastapi'']"

definition is_refusal :: "string \<Rightarrow> bool" where
  "is_refusal answer \<longleftrightarrow> list_ex (\<lambda>n. contains n (py_lower answer)) refusal_needles"

definition is_evidence_only :: "string \<Rightarrow> pydict \<Rightarrow> bool" where
  "is_evidence_only answer metadata \<longleftrightarrow>
     (if truthy (dget metadata ''evidence_only'') then True else contains evidence_only_header answer)"

definition is_degraded :: "pydict \<Rightarrow> bool" where
  "is_degraded metadata \<longleftrightarrow> truthy (dget metadata ''degraded'')"

definition token_map :: "pydict \<Rightarrow> pydict" where
  "token_map metadata = (case dget metadata ''tokens'' of PyDict m \<Rightarrow> m | _ \<Rightarrow> [])"

text \<open>\<open>int(tokens.get(key) or 0)\<close>\<close>

definition int_or_zero :: "scorer \<Rightarrow> pydict \<Rightarrow> string \<Rightarrow> int result" where
  "int_or_zero sr m k = (if truthy (dget m k) then sr_int sr (dget m k) else Inr 0)"

definition tokens_from_metadata :: "scorer \<Rightarrow> pydict \<Rightarrow> (int \<times> int \<times> int \<times> int) result" where
  "tokens_from_metadata sr metadata =
     (let m = token_map metadata
      in then_do (int_or_zero sr m ''total'') (\<lambda>t.
         then_do (int_or_zero sr m ''prompt'') (\<lambda>p.
         then_do (int_or_zero sr m ''completion'') (\<lambda>c.
         then_do (int_or_zero sr m ''llm_calls'') (\<lambda>n. Inr (t, p, c, n))))))"

definition cost_from_tokens :: "scorer \<Rightarrow> int \<Rightarrow> int \<Rightarrow> int \<Rightarrow> real" where
  "cost_from_tokens sr prompt completion cached =
     cost_usd prompt completion cached (Some (rates_for (sr_llm sr) (base_model (sr_llm sr))))"

definition turn_cost :: "scorer \<Rightarrow> pydict \<Rightarrow> int \<Rightarrow> int \<Rightarrow> int \<Rightarrow> real" where
  "turn_cost sr metadata prompt completion cached =
     (case dget (token_map metadata) ''cost_usd'' of
        PyInt i \<Rightarrow> of_int i
      | PyBool b \<Rightarrow> (if b then 1 else 0)
      | PyFloat t \<Rightarrow> sr_float sr t
      | _ \<Rightarrow> cost_from_tokens sr prompt completion cached)"

text \<open>The answers of the quality checks; without them every score has its best value.\<close>

record quality =
  q_precision :: "rat option"
  q_invalid :: "string list"
  q_groundedness :: "rat option"
  q_ungrounded :: "string list"
  q_entity_recall :: rat
  q_missing_entities :: "string list"
  q_retrieval :: rat
  q_missing_files :: "string list"
  q_retrieved :: "string list"

definition no_quality :: quality where
  "no_quality =
     \<lparr>q_precision = None, q_invalid = [], q_groundedness = None, q_ungrounded = [], q_entity_recall = 1,
      q_missing_entities = [], q_retrieval = 1, q_missing_files = [], q_retrieved = []\<rparr>"

definition check_quality :: "scorer \<Rightarrow> turn_spec \<Rightarrow> string \<Rightarrow> pydict \<Rightarrow> quality result" where
  "check_quality sr turn answer outs =
     then_do (score_citation_precision sr answer) (\<lambda>(precision, invalid).
       (let (ground, ungrounded) = score_groundedness answer outs;
            (recall, missing) = score_entity_recall answer (sp_entities turn) outs;
            (retrieval, files, paths) = score_retrieval_correctness (sp_files turn) outs
        in Inr \<lparr>q_precision = precision, q_invalid = invalid, q_groundedness = ground,
                q_ungrounded = ungrounded, q_entity_recall = recall, q_missing_entities = missing,
                q_retrieval = retrieval, q_missing_files = files, q_retrieved = paths\<rparr>))"

definition at_least :: "rat \<Rightarrow> rat option \<Rightarrow> bool" where
  "at_least t v \<longleftrightarrow> (case v of None \<Rightarrow> True | Some x \<Rightarrow> t \<le> x)"

text \<open>The gates: a turn that should be refused is not held to the quality of its answer.\<close>

definition gated ::
    "string \<Rightarrow> string \<Rightarrow> turn_spec \<Rightarrow> string \<Rightarrow> pydict \<Rightarrow> string list \<Rightarrow> int \<Rightarrow> bool
      \<Rightarrow> quality \<Rightarrow> int \<times> int \<times> int \<times> int \<Rightarrow> real \<Rightarrow> turn_score" where
  "gated case_id tier turn answer metadata tools latency_ms with_quality q tokens cost =
     (let mode = py_str (py_or [dget metadata ''routing_mode'', PyStr '''']);
          trap = sp_out_of_scope turn \<or> tier = ''trap'';
          cite_ok = at_least threshold_citation_precision (q_precision q)
      in \<lparr>sc_case = case_id, sc_tier = tier, sc_query = sp_query turn, sc_expected_agents = sp_agents turn,
          sc_executed_agents = agents_from_tools_invoked tools, sc_routing_mode = mode,
          sc_agents_passed = executed_agents_ok turn tools (Some mode),
          sc_citation_precision = q_precision q,
          sc_citation_passed = (if trap then cite_ok \<or> extract_citations answer = [] else cite_ok),
          sc_groundedness = q_groundedness q,
          sc_grounded_passed =
            (trap \<or> \<not> with_quality \<or> at_least threshold_groundedness (q_groundedness q)),
          sc_entity_recall = q_entity_recall q,
          sc_entity_passed = (trap \<or> \<not> with_quality \<or> threshold_recall \<le> q_entity_recall q),
          sc_degraded = is_degraded metadata, sc_evidence_only = is_evidence_only answer metadata,
          sc_refusal_ok = (if trap then Some (is_refusal answer) else None),
          sc_retrieval = q_retrieval q,
          sc_retrieval_passed = (trap \<or> \<not> with_quality \<or> threshold_recall \<le> q_retrieval q),
          sc_ungrounded = q_ungrounded q, sc_invalid_citations = q_invalid q,
          sc_missing_entities = q_missing_entities q, sc_missing_files = q_missing_files q,
          sc_retrieved_paths = q_retrieved q, sc_answer = answer, sc_latency_ms = latency_ms,
          sc_tokens = tokens, sc_cost_usd = cost, sc_tools = tools\<rparr>)"

definition tools_of :: "pydict \<Rightarrow> string list" where
  "tools_of metadata = (case dget metadata ''tools_invoked'' of PyList vs \<Rightarrow> map py_str vs | _ \<Rightarrow> [])"

definition score_turn ::
    "scorer \<Rightarrow> string \<Rightarrow> string \<Rightarrow> turn_spec \<Rightarrow> string \<Rightarrow> pydict \<Rightarrow> pydict \<Rightarrow> int \<Rightarrow> bool
      \<Rightarrow> turn_score result" where
  "score_turn sr case_id tier turn answer metadata outs latency_ms with_quality =
     then_do (tokens_from_metadata sr metadata) (\<lambda>(total_tokens, prompt, completion, calls).
     then_do (int_or_zero sr (token_map metadata) ''cached_prompt'') (\<lambda>cached.
     then_do (if with_quality then check_quality sr turn answer outs else Inr no_quality) (\<lambda>q.
       Inr (gated case_id tier turn answer metadata (tools_of metadata) latency_ms with_quality q
              (total_tokens, prompt, completion, calls)
              (turn_cost sr metadata prompt completion cached)))))"

section \<open>Scores and what they leave out\<close>

lemma ratio_bounds:
  assumes "h \<le> n"
  shows "0 \<le> (of_nat h / of_nat n :: rat)" "(of_nat h / of_nat n :: rat) \<le> 1"
  using assms by (simp_all add: divide_le_eq)

lemma ratio_one: "0 < n \<Longrightarrow> (of_nat h / of_nat n :: rat) = 1 \<longleftrightarrow> h = n"
  by (simp add: divide_eq_eq)

lemma length_filter_all: "length (filter P xs) = length xs \<longleftrightarrow> filter (\<lambda>x. \<not> P x) xs = []"
  using sum_length_filter_compl [of P xs] by auto

lemma all_results_paired:
  "all_results (\<lambda>c. then_do (f c) (\<lambda>b. Inr (c, b))) xs = Inr ys \<Longrightarrow>
    map fst ys = xs \<and> (\<forall>(c, b) \<in> set ys. f c = Inr b)"
  by (induction xs arbitrary: ys) (auto simp: then_do_Inr)

lemma claim_hits_le: "claim_token_hits claim ev = (h, n) \<Longrightarrow> h \<le> n"
  using length_filter_le [of id "map (citation_supported ev) (extract_citations claim)
      @ map (symbol_supported ev) (checkable_symbols claim)"]
  by (cases "ev = []") (simp_all only: claim_token_hits_def Let_def if_True if_False prod.inject, auto)

lemma count_claims:
  assumes "h \<le> n" "h = n \<longleftrightarrow> ungrounded = []"
    "fold (count_claim ev) claims (h, n, ungrounded) = (h', n', ungrounded')"
  shows "h' \<le> n' \<and> (h' = n' \<longleftrightarrow> ungrounded' = []) \<and>
    (ungrounded' = [] \<longleftrightarrow> ungrounded = [] \<and>
       (\<forall>c \<in> set claims. fst (claim_token_hits c ev) = snd (claim_token_hits c ev)))"
  using assms
proof (induction claims arbitrary: h n ungrounded)
  case (Cons c claims)
  obtain a b where ab: "claim_token_hits c ev = (a, b)" by force
  with claim_hits_le have le: "a \<le> b" by blast
  define u where "u = ungrounded @ (if b \<noteq> 0 \<and> a < b then [take 160 c] else [])"
  have step: "count_claim ev c (h, n, ungrounded) = (h + a, n + b, u)"
    using le by (auto simp: ab u_def)
  have u: "u = [] \<longleftrightarrow> ungrounded = [] \<and> a = b" using le by (auto simp: u_def)
  have "h + a \<le> n + b" "h + a = n + b \<longleftrightarrow> u = []" using Cons.prems(1,2) le u by auto
  moreover have "fold (count_claim ev) claims (h + a, n + b, u) = (h', n', ungrounded')"
    using Cons.prems(3) by (simp only: fold.simps o_apply step)
  ultimately show ?case using Cons.IH [of "h + a" "n + b" u] u ab by simp
qed auto

text \<open>
  C39: A groundedness score is a fraction between 0 and 1, and it is 1 exactly when no claim is listed as
  ungrounded, which is when the evidence supports every token of every claim that can be checked.
\<close>

theorem groundedness_exact:
  assumes "score_groundedness answer outs = (Some g, ungrounded)"
  shows "0 \<le> g \<and> g \<le> 1 \<and> (g = 1 \<longleftrightarrow> ungrounded = []) \<and>
    (g = 1 \<longleftrightarrow> list_all (\<lambda>c. snd (claim_token_hits c (evidence_text outs)) = 0
                        \<or> claim_supported c (evidence_text outs))
        (filter is_checkable_claim (extract_claims answer)))"
proof -
  let ?claims = "filter is_checkable_claim (extract_claims answer)"
  let ?ev = "evidence_text outs"
  obtain h n u where fold: "fold (count_claim ?ev) ?claims (0, 0, []) = (h, n, u)"
    by (cases "fold (count_claim ?ev) ?claims (0, 0, [])") auto
  from count_claims [OF _ _ fold] have counts: "h \<le> n" "h = n \<longleftrightarrow> u = []"
    "u = [] \<longleftrightarrow> (\<forall>c \<in> set ?claims. fst (claim_token_hits c ?ev) = snd (claim_token_hits c ?ev))"
    by auto
  from assms fold have "g = of_nat h / of_nat n" "ungrounded = u" "0 < n"
    by (auto simp: score_groundedness_def Let_def split: if_splits)
  moreover have "fst x = snd x \<longleftrightarrow> snd x = 0 \<or> (case x of (a, b) \<Rightarrow> 0 < b \<and> a = b)"
    if "fst x \<le> snd x" for x :: "nat \<times> nat"
    using that by (cases x) auto
  then have "fst (claim_token_hits c ?ev) = snd (claim_token_hits c ?ev) \<longleftrightarrow>
      snd (claim_token_hits c ?ev) = 0 \<or> claim_supported c ?ev" for c
    using claim_hits_le [of c ?ev] unfolding claim_supported_def by (metis prod.collapse)
  ultimately show ?thesis
    using counts ratio_bounds [OF counts(1)] ratio_one [of n h] by (simp add: list_all_iff)
qed

lemma precision_exact:
  assumes "score_citation_precision sr answer = Inr (Some p, invalid)"
  shows "0 \<le> p \<and> p \<le> 1 \<and> (p = 1 \<longleftrightarrow> invalid = []) \<and>
    (p = 1 \<longleftrightarrow> list_all (\<lambda>c. citation_exists sr (fst c) (snd c) = Inr True) (extract_citations answer))"
proof -
  let ?cs = "extract_citations answer"
  have "?cs \<noteq> []" using assms by (auto simp: score_citation_precision_def)
  then obtain ys where
    ys: "all_results (\<lambda>c. then_do (citation_exists sr (fst c) (snd c)) (\<lambda>ok. Inr (c, ok))) ?cs = Inr ys"
    and p: "p = of_nat (length (filter snd ys)) / of_nat (length ?cs)"
    and invalid: "invalid = map (citation_label \<circ> fst) (filter (\<lambda>f. \<not> snd f) ys)"
    using assms by (auto simp: score_citation_precision_def then_do_Inr Let_def)
  from all_results_paired [OF ys] have fst: "map fst ys = ?cs"
    and each: "\<forall>(c, b) \<in> set ys. citation_exists sr (fst c) (snd c) = Inr b" by auto
  from fst have len: "length ys = length ?cs" by (metis length_map)
  have all: "filter (\<lambda>f. \<not> snd f) ys = [] \<longleftrightarrow>
      list_all (\<lambda>c. citation_exists sr (fst c) (snd c) = Inr True) ?cs"
    using each unfolding fst [symmetric] by (auto simp: filter_empty_conv list_all_iff) force+
  have "0 < length ?cs" using \<open>?cs \<noteq> []\<close> by simp
  from ratio_one [OF this, of "length (filter snd ys)"] show ?thesis
    using ratio_bounds [of "length (filter snd ys)" "length ?cs"] len all length_filter_all [of snd ys]
      length_filter_le [of snd ys]
    by (simp add: p invalid)
qed

lemma recall_exact:
  "score_entity_recall answer expected outs = (r, missing) \<Longrightarrow> 0 \<le> r \<and> r \<le> 1 \<and> (r = 1 \<longleftrightarrow> missing = [])"
  using ratio_bounds [of "length (filter P expected)" "length expected" for P]
    ratio_one [of "length expected" "length (filter P expected)" for P]
  by (auto simp: score_entity_recall_def Let_def length_filter_all split: if_splits)

lemma retrieval_exact:
  assumes "score_retrieval_correctness expected outs = (r, missing, retrieved)"
  shows "0 \<le> r \<and> r \<le> 1 \<and> (r = 1 \<longleftrightarrow> missing = []) \<and>
    missing = filter (\<lambda>p. \<not> expected_file_retrieved (extract_retrieved_paths outs) p) expected"
proof (cases "expected = []")
  case False
  let ?hit = "expected_file_retrieved (extract_retrieved_paths outs)"
  have "length expected - length (filter (\<lambda>p. \<not> ?hit p) expected) = length (filter ?hit expected)"
    using sum_length_filter_compl [of ?hit expected] by simp
  with assms False have r: "r = of_nat (length (filter ?hit expected)) / of_nat (length expected)"
    and m: "missing = filter (\<lambda>p. \<not> ?hit p) expected"
    by (auto simp: score_retrieval_correctness_def Let_def simp del: of_nat_diff)
  from False have "0 < length expected" by simp
  from ratio_one [OF this, of "length (filter ?hit expected)"] show ?thesis
    using ratio_bounds [of "length (filter ?hit expected)" "length expected"] length_filter_all [of ?hit expected]
    by (simp add: r m)
qed (use assms in \<open>simp add: score_retrieval_correctness_def\<close>)


text \<open>
  A capitalised word counts as a CamelCase symbol: the first word of an ordinary sentence makes it a
  claim to be checked, supported only if the evidence happens to contain that word.
\<close>

theorem sentence_start_is_a_symbol:
  "is_checkable_claim ''When it runs nothing is cached'' \<and>
   claim_token_hits ''When it runs nothing is cached'' ev = (if contains ''when'' ev then 1 else 0, 1)"
proof -
  have "extract_citations ''When it runs nothing is cached'' = []"
    "checkable_symbols ''When it runs nothing is cached'' = [''When'']" "py_lower ''When'' = ''when''"
    "after_last_dot ''when'' = ''when''" by code_simp+
  then show ?thesis
    by (cases "ev = []") (auto simp: claim_token_hits_def symbol_supported_def is_checkable_claim_def)
qed

text \<open>
  \<open>findall\<close> returns the group of the snake case pattern and not the name: of \<open>purge_openapi\<close> only
  \<open>_openapi\<close> is looked for, so a claim about a function that does not exist is fully supported by
  evidence on any other one with that ending.
\<close>

theorem snake_names_lose_their_head:
  "claim_token_hits ''it calls purge_openapi now'' ev = (if contains ''_openapi'' ev then 1 else 0, 1)"
proof -
  have "extract_citations ''it calls purge_openapi now'' = []"
    "checkable_symbols ''it calls purge_openapi now'' = [''_openapi'']" "py_lower ''_openapi'' = ''_openapi''"
    "after_last_dot ''_openapi'' = ''_openapi''" by code_simp+
  then show ?thesis by (cases "ev = []") (auto simp: claim_token_hits_def symbol_supported_def)
qed

text \<open>
  The evidence is searched in its JSON form, where a line break is a backslash and the letter \<open>n\<close>: a
  name at the start of a line has no word boundary before it, so the same text counts as evidence of
  the entity or not, depending on how its lines are broken.
\<close>

definition docstring_outputs :: "string \<Rightarrow> pydict" where
  "docstring_outputs gap =
     [(''graph_query'', PyDict [(''docstring'', PyStr (''Base of'' @ gap @ ''FastAPI apps''))])]"

theorem entity_after_line_break_is_missed:
  "score_entity_recall '''' [''FastAPI''] (docstring_outputs newline) = (0, [''FastAPI'']) \<and>
   score_entity_recall '''' [''FastAPI''] (docstring_outputs '' '') = (1, [])"
  by code_simp

section \<open>A scored answer\<close>

definition demo_scorer :: scorer where
  "demo_scorer =
     \<lparr>sr_graph = None,
      sr_repo = Some (\<lparr>fs_real = id, fs_is_file = (\<lambda>p. p = [''r'', ''a.py'']),
                       fs_read = (\<lambda>p. Inr (''x = 1'' @ newline @ ''y = 2''))\<rparr>, [''r'']),
      sr_int = (\<lambda>v. Inr 0), sr_float = (\<lambda>t. 0),
      sr_llm = \<lparr>base_model = ''m'', routing_model = None, synthesis_model = None, analysis_model = None,
                fallback_rates = default_rates, price_overlay = []\<rparr>\<rparr>"

definition demo_turn :: turn_spec where
  "demo_turn =
     \<lparr>sp_query = ''What is y?'', sp_entities = [], sp_files = [''a.py''], sp_agents = [''graph_query''],
      sp_mode = ''rules'', sp_min_agents = 1, sp_out_of_scope = False\<rparr>"

definition demo_metadata :: pydict where
  "demo_metadata =
     [(''tools_invoked'', PyList [PyStr ''graph_query.find_entity'']), (''routing_mode'', PyStr ''rules'')]"

definition demo_outputs :: pydict where
  "demo_outputs = [(''graph_query'', PyDict [(''file_path'', PyStr ''a.py'')])]"

theorem groundedness_exact_witness:
  "score_groundedness ''see a.py:2 for it.'' demo_outputs = (Some 1, []) \<and> (0::rat) \<le> 1"
proof -
  have "score_groundedness ''see a.py:2 for it.'' demo_outputs = (Some 1, [])" by code_simp
  with groundedness_exact [OF this] show ?thesis by simp
qed


end
