(* ===== verification/Evaluation.thy ===== *)
theory Evaluation
  imports Scoring Orchestrator
begin

text \<open>
  Evaluation runs (\<open>core/eval/harness.py\<close>): cases are read, each turn is answered by the orchestrator
  and scored, and the scores are gathered per tier and into gated metrics. The turns are those of
  \<open>Orchestrator\<close>, behind the conversation store of the harness; the rows of the case files are parsed
  JSON objects.
\<close>

section \<open>Cases\<close>

definition str_list_of :: "pyval \<Rightarrow> string list" where
  "str_list_of v =
     (case v of PyList vs \<Rightarrow> filter (\<lambda>t. strip t \<noteq> []) (map py_str vs) | _ \<Rightarrow> [])"

definition key_error :: "string \<Rightarrow> exn" where
  "key_error k = OtherError ''KeyError'' (repr_str k)"

text \<open>\<open>str(m.get(k) or default)\<close>\<close>

definition field_or :: "pydict \<Rightarrow> string \<Rightarrow> string \<Rightarrow> string" where
  "field_or m k dflt = (if truthy (dget m k) then py_str (dget m k) else dflt)"

definition turn_from_payload :: "(pyval \<Rightarrow> int result) \<Rightarrow> bool \<Rightarrow> pydict \<Rightarrow> turn_spec result" where
  "turn_from_payload to_int out_of_scope payload =
     (let agents = str_list_of (dget payload ''expected_agents'')
      in case map_of payload ''query'' of
           None \<Rightarrow> Inl (key_error ''query'')
         | Some q \<Rightarrow>
             then_do (if truthy (dget payload ''min_agents'') then to_int (dget payload ''min_agents'')
                      else Inr (max 1 (int (length agents)))) (\<lambda>n.
               Inr \<lparr>sp_query = py_str q, sp_entities = str_list_of (dget payload ''expected_entities''),
                    sp_files = str_list_of (dget payload ''expected_files''), sp_agents = agents,
                    sp_mode = field_or payload ''expected_mode'' ''rules'', sp_min_agents = n,
                    sp_out_of_scope = out_of_scope\<rparr>))"

definition turn_from_item :: "(pyval \<Rightarrow> int result) \<Rightarrow> bool \<Rightarrow> pyval \<Rightarrow> turn_spec result" where
  "turn_from_item to_int out_of_scope v =
     (case v of
        PyDict m \<Rightarrow> turn_from_payload to_int out_of_scope m
      | _ \<Rightarrow> Inl (OtherError ''AttributeError'' (''no attribute get: '' @ py_repr v)))"

definition case_from_payload :: "(pyval \<Rightarrow> int result) \<Rightarrow> pydict \<Rightarrow> qa_case result" where
  "case_from_payload to_int payload =
     (let trap = truthy (dget payload ''out_of_scope'');
          items = (case dget payload ''turns'' of PyList (v # vs) \<Rightarrow> v # vs | _ \<Rightarrow> [PyDict payload])
      in then_do (all_results (turn_from_item to_int trap) items) (\<lambda>answered.
           Inr \<lparr>qa_id = field_or payload ''id'' (py_str (dget payload ''query'')),
                qa_tier = field_or payload ''tier'' ''simple'', qa_turns = answered, qa_out_of_scope = trap\<rparr>))"

text \<open>The lines of a case file that are not blank, parsed.\<close>

definition load_qa_cases :: "(pyval \<Rightarrow> int result) \<Rightarrow> pydict list \<Rightarrow> qa_case list result" where
  "load_qa_cases to_int payloads = all_results (case_from_payload to_int) payloads"

definition load_routing_cases :: "(pyval \<Rightarrow> int result) \<Rightarrow> pydict list \<Rightarrow> turn_spec list result" where
  "load_routing_cases to_int payloads = all_results (turn_from_payload to_int False) payloads"

text \<open>One case for each routing query, in their order; of several cases with one query the last.\<close>

definition routing_qa_cases :: "qa_case list \<Rightarrow> turn_spec list \<Rightarrow> qa_case list" where
  "routing_qa_cases cases routing =
     (let by_query = map (\<lambda>c. (sp_query (hd (qa_turns c)), c)) (filter (\<lambda>c. \<not> is_multiturn c) cases)
      in List.map_filter (\<lambda>t. map_of (rev by_query) (sp_query t)) routing)"

definition parse_eval_provider :: "string option \<Rightarrow> string \<Rightarrow> string result" where
  "parse_eval_provider value env =
     (let raw = py_lower (strip (case value of Some v \<Rightarrow> v | None \<Rightarrow> env))
      in if raw \<notin> {''offline'', ''live''}
         then Inl (OtherError ''ValueError''
                (''EVAL_PROVIDER must be 'offline' or 'live', got '' @ repr_str raw))
         else Inr raw)"

section \<open>Numbers in reports\<close>

text \<open>\<open>f"{x:.2f}"\<close> and its like, for \<open>x \<ge> 0\<close>: rounded half to even, on the exact fraction.\<close>

definition round_half_even :: "rat \<Rightarrow> int" where
  "round_half_even x =
     (let f = \<lfloor>x\<rfloor>; d = x - of_int f
      in if d < 1 / 2 then f else if 1 / 2 < d then f + 1 else if even f then f else f + 1)"

definition fixed_text :: "nat \<Rightarrow> rat \<Rightarrow> string" where
  "fixed_text digits x =
     (let n = nat (round_half_even (x * 10 ^ digits)); frac = str_nat (n mod 10 ^ digits)
      in str_nat (n div 10 ^ digits)
         @ (if digits = 0 then '''' else ''.'' @ replicate (digits - length frac) CHR ''0'' @ frac))"

section \<open>Aggregates\<close>

record metric_score =
  me_name :: string
  me_value :: rat
  me_passed :: bool
  me_detail :: string
  me_n :: nat
  me_hits :: nat

record tier_card =
  tc_tier :: string
  tc_n :: nat
  tc_passed :: nat
  tc_agents :: rat
  tc_precision :: "rat option"
  tc_groundedness :: "rat option"
  tc_entity_recall :: rat
  tc_retrieval :: rat
  tc_refusal :: "rat option"
  tc_degraded_fails :: nat
  tc_precision_n :: nat
  tc_precision_excluded :: nat
  tc_groundedness_n :: nat
  tc_groundedness_excluded :: nat

definition pass_rate :: "tier_card \<Rightarrow> rat" where
  "pass_rate c = (if tc_n c = 0 then 0 else of_nat (tc_passed c) / of_nat (tc_n c))"

record scorecard =
  ec_turns :: "turn_score list"
  ec_tiers :: "tier_card list"
  ec_metrics :: "metric_score list"
  ec_lines :: "string list"
  ec_provider :: string

definition gated_metrics :: "string list" where
  "gated_metrics = [''hard_executed_agents'', ''hard_non_trap_not_degraded'', ''citation_precision'']"

definition hard_assertions_passed :: "scorecard \<Rightarrow> bool" where
  "hard_assertions_passed c \<longleftrightarrow>
     list_all (\<lambda>s. \<not> hard_fail s) (ec_turns c)
     \<and> list_all me_passed (filter (\<lambda>m. starts_with (me_name m) ''hard_'') (ec_metrics c))"

definition scorecard_ok :: "scorecard \<Rightarrow> bool" where
  "scorecard_ok c \<longleftrightarrow>
     hard_assertions_passed c
     \<and> list_all me_passed (filter (\<lambda>m. me_name m \<in> set gated_metrics) (ec_metrics c))"

definition eval_tiers :: "string list" where
  "eval_tiers = [''simple'', ''medium'', ''complex'', ''trap'', ''multi-turn'']"

definition mean_of :: "'a::field list \<Rightarrow> 'a" where
  "mean_of xs = (if xs = [] then 0 else sum_list xs / of_nat (length xs))"

definition mean_exclude_none :: "rat option list \<Rightarrow> rat option \<times> nat \<times> nat" where
  "mean_exclude_none vs =
     (let scored = List.map_filter id vs; excluded = length vs - length scored
      in if scored = [] then (None, 0, excluded)
         else (Some (sum_list scored / of_nat (length scored)), length scored, excluded))"

definition flag :: "bool \<Rightarrow> 'a::zero_neq_one" where
  "flag b = (if b then 1 else 0)"

definition tier_scorecard :: "turn_score list \<Rightarrow> string \<Rightarrow> tier_card" where
  "tier_scorecard answered tier =
     (let rows = filter (\<lambda>s. sc_tier s = tier) answered;
          refusals = List.map_filter sc_refusal_ok rows;
          (cite, cite_n, cite_out) = mean_exclude_none (map sc_citation_precision rows);
          (ground, ground_n, ground_out) = mean_exclude_none (map sc_groundedness rows)
      in \<lparr>tc_tier = tier, tc_n = length rows, tc_passed = length (filter turn_passed rows),
          tc_agents = mean_of (map (flag \<circ> sc_agents_passed) rows),
          tc_precision = cite, tc_groundedness = ground,
          tc_entity_recall = mean_of (map sc_entity_recall rows),
          tc_retrieval = mean_of (map sc_retrieval rows),
          tc_refusal = (if refusals = [] then None else Some (mean_of (map flag refusals))),
          tc_degraded_fails = length (filter non_trap_degraded rows),
          tc_precision_n = cite_n, tc_precision_excluded = cite_out,
          tc_groundedness_n = ground_n, tc_groundedness_excluded = ground_out\<rparr>)"

definition build_tier_scorecards :: "turn_score list \<Rightarrow> tier_card list" where
  "build_tier_scorecards answered = map (tier_scorecard answered) eval_tiers"

text \<open>Texts outside ASCII are written as their UTF-8 bytes.\<close>

definition at_least_sign :: string where
  "at_least_sign = [CHR 0xE2, CHR 0x89, CHR 0xA5]"

definition of_total :: "nat \<Rightarrow> nat \<Rightarrow> string" where
  "of_total hits n = str_nat hits @ ''/'' @ str_nat n"

definition ratio_or_one :: "nat \<Rightarrow> nat \<Rightarrow> rat" where
  "ratio_or_one hits n = (if n = 0 then 1 else of_nat hits / of_nat n)"

definition hard_metrics :: "turn_score list \<Rightarrow> metric_score list" where
  "hard_metrics answered =
     (let n = length answered; hits = length (filter sc_agents_passed answered);
          fails = map sc_case (filter non_trap_degraded answered);
          others = length (filter (\<lambda>s. sc_tier s \<noteq> ''trap'') answered);
          good = others - length fails;
          traps = filter (\<lambda>s. sc_tier s = ''trap'') answered;
          refused = length (filter (\<lambda>s. sc_refusal_ok s = Some True) traps);
          refusal = of_nat refused / of_nat (length traps)
      in [\<lparr>me_name = ''hard_executed_agents'', me_value = ratio_or_one hits n,
            me_passed = (threshold_executed_agents \<le> ratio_or_one hits n \<and> hits = n),
            me_detail = of_total hits n @ '' turns matched expected_agents via tools_invoked'',
            me_n = n, me_hits = hits\<rparr>,
          \<lparr>me_name = ''hard_non_trap_not_degraded'', me_value = ratio_or_one good others,
            me_passed = (fails = []),
            me_detail = of_total good others @ '' non-trap turns not evidence-only/degraded''
              @ (if fails = [] then '''' else ''; degraded='' @ join '','' (take 8 fails)),
            me_n = others, me_hits = good\<rparr>]
         @ (if traps = [] then []
            else [\<lparr>me_name = ''refusal_accuracy'', me_value = refusal,
                    me_passed = (threshold_refusal \<le> refusal),
                    me_detail = of_total refused (length traps) @ '' traps refused'',
                    me_n = length traps, me_hits = refused\<rparr>]))"

definition optional_metric :: "string \<Rightarrow> (rat option \<times> bool) list \<Rightarrow> string \<Rightarrow> metric_score" where
  "optional_metric name rows empty_reason =
     (let scored = List.map_filter fst rows;
          hits = length (filter (\<lambda>(v, ok). v \<noteq> None \<and> ok) rows)
      in \<lparr>me_name = name, me_value = mean_of scored, me_passed = (scored = [] \<or> hits = length scored),
          me_detail = of_total hits (length scored) @ '' scored non-trap turns (''
            @ str_nat (length rows - length scored) @ '' excluded: '' @ empty_reason @ '')'',
          me_n = length scored, me_hits = hits\<rparr>)"

definition required_metric :: "string \<Rightarrow> (rat \<times> bool) list \<Rightarrow> metric_score" where
  "required_metric name rows =
     (let hits = length (filter snd rows)
      in \<lparr>me_name = name, me_value = mean_of (map fst rows), me_passed = (hits = length rows),
          me_detail = of_total hits (length rows) @ '' non-trap turns'',
          me_n = length rows, me_hits = hits\<rparr>)"

definition groundedness_metric :: "turn_score list \<Rightarrow> metric_score" where
  "groundedness_metric rows =
     (let scored = List.map_filter sc_groundedness rows;
          hits = length (filter (\<lambda>s. sc_groundedness s \<noteq> None \<and> sc_grounded_passed s) rows);
          mean = mean_of scored
      in \<lparr>me_name = ''groundedness'', me_value = mean,
          me_passed = (scored = [] \<or> threshold_groundedness \<le> mean),
          me_detail = ''mean '' @ fixed_text 2 mean @ '' vs gate '' @ fixed_text 2 threshold_groundedness @ ''; ''
            @ of_total hits (length scored) @ '' turns '' @ at_least_sign @ '' gate (''
            @ str_nat (length rows - length scored) @ '' excluded: no checkable claims)'',
          me_n = length scored, me_hits = hits\<rparr>)"

definition quality_metrics :: "turn_score list \<Rightarrow> metric_score list" where
  "quality_metrics answered =
     (let rows = filter (\<lambda>s. sc_tier s \<noteq> ''trap'') answered
      in if rows = [] then []
         else
           [optional_metric ''citation_precision''
              (map (\<lambda>s. (sc_citation_precision s, sc_citation_passed s)) rows) ''no citations'',
            groundedness_metric rows,
            required_metric ''entity_recall'' (map (\<lambda>s. (sc_entity_recall s, sc_entity_passed s)) rows),
            required_metric ''retrieval_correctness''
              (map (\<lambda>s. (sc_retrieval s, sc_retrieval_passed s)) rows)])"

section \<open>Runs\<close>

text \<open>
  \<open>MemoryClient\<close>: a list of turns that the context shows in full, and a cache that never hits. The
  list lies in the world of the orchestrator, at \<open>get\<close> and \<open>put\<close>.
\<close>

definition memory_context :: "(string \<times> string) list \<Rightarrow> context_window" where
  "memory_context said =
     ('''', map (\<lambda>(i, role, content).
        \<lparr>turn_id = int i, turn_session = '''', turn_role = role, turn_content = content, turn_created = 0,
         turn_tokens = max 1 (int (length content) div 4), folded_at = None\<rparr>) (enumerate 1 said))"

definition with_harness_memory ::
    "('w \<Rightarrow> (string \<times> string) list) \<Rightarrow> ((string \<times> string) list \<Rightarrow> 'w \<Rightarrow> 'w) \<Rightarrow> 'w orch \<Rightarrow> 'w orch" where
  "with_harness_memory get put oc =
     oc\<lparr>oc_context := (\<lambda>sid w. (w, Inr (memory_context (get w)))),
        oc_cached := (\<lambda>key w. (w, Inr None)),
        oc_store := (\<lambda>key v w. (w, Inr ())),
        oc_append := (\<lambda>sid role content w. (put (get w @ [(role, content)]) w, Inr ()))\<rparr>"

record 'w eval_env =
  ev_orch :: "'w orch"
  ev_settings :: orch_settings
  ev_get :: "'w \<Rightarrow> (string \<times> string) list"
  ev_put :: "(string \<times> string) list \<Rightarrow> 'w \<Rightarrow> 'w"
  ev_scorer :: scorer
  ev_latency :: "string \<Rightarrow> nat \<Rightarrow> int"

text \<open>\<open>_score_case_turns\<close>: the turns of one case, in one conversation.\<close>

fun score_turns :: "'w eval_env \<Rightarrow> bool \<Rightarrow> qa_case \<Rightarrow> nat \<Rightarrow> turn_spec list \<Rightarrow> 'w \<Rightarrow> turn_score list result \<times> 'w" where
  "score_turns ev quality_on c i [] w = (Inr [], w)"
| "score_turns ev quality_on c i (t # ts) w =
     (case handle_query (with_harness_memory (ev_get ev) (ev_put ev) (ev_orch ev)) (ev_settings ev) False
             (sp_query t) (''eval-'' @ qa_id c) (''eval-'' @ qa_id c @ ''-'' @ str_nat i) w of
        (Inl e, w') \<Rightarrow> (Inl e, w')
      | (Inr r, w') \<Rightarrow>
          (case score_turn (ev_scorer ev) (qa_id c) (qa_tier c) t (tr_answer r) (tr_metadata r) (tr_outputs r)
                  (ev_latency ev (qa_id c) i) quality_on of
             Inl e \<Rightarrow> (Inl e, w')
           | Inr s \<Rightarrow>
               (case score_turns ev quality_on c (Suc i) ts w' of
                  (Inl e, w'') \<Rightarrow> (Inl e, w'')
                | (Inr ss, w'') \<Rightarrow> (Inr (s # ss), w''))))"

definition score_case :: "'w eval_env \<Rightarrow> bool \<Rightarrow> qa_case \<Rightarrow> 'w \<Rightarrow> turn_score list result \<times> 'w" where
  "score_case ev quality_on c w = score_turns ev quality_on c 0 (qa_turns c) (ev_put ev [] w)"

fun score_cases :: "'w eval_env \<Rightarrow> bool \<Rightarrow> qa_case list \<Rightarrow> 'w \<Rightarrow> turn_score list result \<times> 'w" where
  "score_cases ev quality_on [] w = (Inr [], w)"
| "score_cases ev quality_on (c # cs) w =
     (case score_case ev quality_on c w of
        (Inl e, w') \<Rightarrow> (Inl e, w')
      | (Inr ss, w') \<Rightarrow>
          (case score_cases ev quality_on cs w' of
             (Inl e, w'') \<Rightarrow> (Inl e, w'')
           | (Inr ss', w'') \<Rightarrow> (Inr (ss @ ss'), w'')))"

definition run_executed_plan_eval ::
    "'w eval_env \<Rightarrow> turn_spec list \<Rightarrow> string \<Rightarrow> string \<Rightarrow> 'w \<Rightarrow> scorecard result \<times> 'w" where
  "run_executed_plan_eval ev answered id_start tier w =
     (case score_cases (ev\<lparr>ev_scorer := (ev_scorer ev)\<lparr>sr_graph := None, sr_repo := None\<rparr>\<rparr>) False
             (map (\<lambda>(i, t). \<lparr>qa_id = id_start @ ''-'' @ str_nat i, qa_tier = tier, qa_turns = [t],
                             qa_out_of_scope = sp_out_of_scope t\<rparr>) (enumerate 1 answered)) w of
        (Inl e, w') \<Rightarrow> (Inl e, w')
      | (Inr ss, w') \<Rightarrow>
          (Inr \<lparr>ec_turns = ss, ec_tiers = build_tier_scorecards ss, ec_metrics = hard_metrics ss,
                ec_lines = [], ec_provider = ''offline''\<rparr>, w'))"

definition skipped_metric :: "string \<Rightarrow> metric_score" where
  "skipped_metric name =
     \<lparr>me_name = name, me_value = 0, me_passed = False, me_detail = ''skipped: NEO4J_URI unset'',
      me_n = 0, me_hits = 0\<rparr>"

text \<open>With no graph the turns run on stub clients (\<open>stubs\<close>), without the quality checks.\<close>

definition run_qa_eval ::
    "'w eval_env \<Rightarrow> ('w eval_env \<Rightarrow> 'w eval_env) \<Rightarrow> string \<Rightarrow> qa_case list \<Rightarrow> 'w \<Rightarrow> scorecard result \<times> 'w" where
  "run_qa_eval ev stubs provider cases w =
     (let graph = sr_graph (ev_scorer ev) \<noteq> None;
          env = (if graph then ev
                 else (stubs ev)\<lparr>ev_scorer := (ev_scorer ev)\<lparr>sr_graph := None, sr_repo := None\<rparr>\<rparr>)
      in case score_cases env graph cases w of
           (Inl e, w') \<Rightarrow> (Inl e, w')
         | (Inr ss, w') \<Rightarrow>
             (Inr \<lparr>ec_turns = ss, ec_tiers = build_tier_scorecards ss,
                   ec_metrics = hard_metrics ss
                     @ (if graph then quality_metrics ss
                        else map skipped_metric [''citation_precision'', ''groundedness'', ''entity_recall'',
                                                 ''retrieval_correctness'']),
                   ec_lines = (if graph then []
                     else [''NEO4J_URI is required for citation, groundedness, and entity metrics'']),
                   ec_provider = provider\<rparr>, w'))"

section \<open>What a scorecard says\<close>

lemma score_turn_Inr:
  "score_turn sr case_id tier t answer metadata outs latency_ms q = Inr s \<Longrightarrow>
    sc_query s = sp_query t \<and> sc_tier s = tier \<and> sc_case s = case_id"
  by (auto simp: score_turn_def then_do_Inr gated_def Let_def split: prod.splits)

lemma score_turns_Inr:
  "score_turns ev q c i ts w = (Inr ss, w') \<Longrightarrow>
    map sc_query ss = map sp_query ts \<and> list_all (\<lambda>s. sc_tier s = qa_tier c \<and> sc_case s = qa_id c) ss"
  by (induction ev q c i ts w arbitrary: ss w' rule: score_turns.induct)
    (auto split: prod.splits sum.splits dest: score_turn_Inr)

lemma score_cases_Inr:
  "score_cases ev q cs w = (Inr ss, w') \<Longrightarrow>
    map sc_query ss = concat (map (\<lambda>c. map sp_query (qa_turns c)) cs)"
  by (induction ev q cs w arbitrary: ss w' rule: score_cases.induct)
    (auto simp: score_case_def split: prod.splits sum.splits dest: score_turns_Inr)

lemma filter_all_length: "length (filter P xs) = length xs \<longleftrightarrow> list_all P xs"
  using length_filter_all [of P xs] by (auto simp: list_all_iff filter_empty_conv)

lemma hard_metrics_passed:
  "list_all me_passed (filter (\<lambda>m. starts_with (me_name m) ''hard_'') (hard_metrics ss)) \<longleftrightarrow>
     list_all sc_agents_passed ss \<and> list_all (\<lambda>s. \<not> non_trap_degraded s) ss"
proof -
  have "threshold_executed_agents \<le> ratio_or_one (length ss) (length ss)"
    by (simp add: threshold_executed_agents_def ratio_or_one_def)
  then show ?thesis
    by (auto simp: hard_metrics_def Let_def filter_all_length filter_empty_conv list_all_iff
        dest: filter_all_length [THEN iffD1])
qed

lemma optional_metric_passed:
  assumes "list_all sc_citation_passed rows"
  shows "me_passed (optional_metric name (map (\<lambda>s. (sc_citation_precision s, sc_citation_passed s)) rows) why)"
proof -
  have scored: "length (List.map_filter fst zs) = length (filter (\<lambda>(v, ok). v \<noteq> None) zs)"
    for zs :: "(rat option \<times> bool) list"
    by (induction zs) (auto simp: List.map_filter_def)
  have "filter (\<lambda>(v, ok). v \<noteq> None \<and> ok) (map (\<lambda>s. (sc_citation_precision s, sc_citation_passed s)) rows)
      = filter (\<lambda>(v, ok). v \<noteq> None) (map (\<lambda>s. (sc_citation_precision s, sc_citation_passed s)) rows)"
    using assms by (intro filter_cong) (auto simp: list_all_iff)
  then show ?thesis by (simp add: optional_metric_def scored Let_def)
qed

lemma quality_metrics_passed:
  assumes "list_all sc_citation_passed ss"
  shows "list_all me_passed (filter (\<lambda>m. me_name m = ''citation_precision'') (quality_metrics ss))"
proof -
  have "list_all sc_citation_passed (filter (\<lambda>s. sc_tier s \<noteq> ''trap'') ss)"
    using assms by (auto simp: list_all_iff)
  from optional_metric_passed [OF this] show ?thesis
    by (simp add: quality_metrics_def Let_def groundedness_metric_def required_metric_def)
qed

lemma metric_names:
  "filter (\<lambda>m. starts_with (me_name m) ''hard_'') (quality_metrics ss) = []"
  "filter (\<lambda>m. me_name m = ''citation_precision'') (hard_metrics ss) = []"
  by (simp_all add: quality_metrics_def hard_metrics_def Let_def optional_metric_def groundedness_metric_def
      required_metric_def)

lemma card_ok_quality:
  assumes "ec_metrics c = hard_metrics (ec_turns c) @ quality_metrics (ec_turns c)"
  shows "scorecard_ok c \<longleftrightarrow> list_all (\<lambda>s. \<not> hard_fail s) (ec_turns c)"
proof -
  let ?ss = "ec_turns c"
  have gates: "me_name m \<in> set gated_metrics \<longleftrightarrow>
      me_name m = ''hard_executed_agents'' \<or> me_name m = ''hard_non_trap_not_degraded'' \<or> me_name m = ''citation_precision''"
    for m :: metric_score by (auto simp: gated_metrics_def)
  have "list_all me_passed (filter (\<lambda>m. me_name m \<in> set gated_metrics) (ec_metrics c))"
    if "list_all (\<lambda>s. \<not> hard_fail s) ?ss"
  proof -
    from that have "list_all sc_agents_passed ?ss" "list_all (\<lambda>s. \<not> non_trap_degraded s) ?ss"
      "list_all sc_citation_passed ?ss" by (auto simp: hard_fail_def list_all_iff split: if_splits)
    with hard_metrics_passed [of ?ss] quality_metrics_passed [of ?ss] metric_names [of ?ss] show ?thesis
      by (auto simp: assms gates list_all_iff filter_empty_conv)
  qed
  moreover have "hard_assertions_passed c \<longleftrightarrow> list_all (\<lambda>s. \<not> hard_fail s) ?ss"
    using hard_metrics_passed [of ?ss]
    by (auto simp: hard_assertions_passed_def assms metric_names hard_fail_def list_all_iff split: if_splits)
  ultimately show ?thesis by (auto simp: scorecard_ok_def)
qed


definition unit_range :: "rat \<Rightarrow> bool" where
  "unit_range x \<longleftrightarrow> 0 \<le> x \<and> x \<le> 1"

lemma mean_of_bounds: "list_all unit_range xs \<Longrightarrow> unit_range (mean_of xs)"
proof -
  assume "list_all unit_range xs"
  then have "0 \<le> sum_list xs \<and> sum_list xs \<le> of_nat (length xs)" by (induction xs) (auto simp: unit_range_def)
  then show ?thesis by (cases "xs = []") (simp_all add: mean_of_def divide_le_eq unit_range_def)
qed

lemma mean_exclude_none_eq:
  "mean_exclude_none vs = (if List.map_filter id vs = [] then (None, 0, length vs)
     else (Some (mean_of (List.map_filter id vs)), length (List.map_filter id vs),
           length vs - length (List.map_filter id vs)))"
  by (simp add: mean_exclude_none_def mean_of_def Let_def)

lemma length_map_filter: "length (List.map_filter f xs) \<le> length xs"
  by (simp add: List.map_filter_def)

lemma set_map_filter_iff: "y \<in> set (List.map_filter f xs) \<longleftrightarrow> (\<exists>x \<in> set xs. f x = Some y)"
  by (force simp: List.map_filter_def)

definition sound_card :: "turn_score list \<Rightarrow> tier_card \<Rightarrow> bool" where
  "sound_card ss c \<longleftrightarrow>
     tc_passed c \<le> tc_n c \<and> tc_precision_n c + tc_precision_excluded c = tc_n c \<and>
     tc_groundedness_n c + tc_groundedness_excluded c = tc_n c \<and>
     list_all unit_range (pass_rate c # tc_agents c # tc_entity_recall c # tc_retrieval c
        # List.map_filter id [tc_precision c, tc_groundedness c, tc_refusal c]) \<and>
     (pass_rate c = 1 \<longleftrightarrow>
        tc_n c \<noteq> 0 \<and> list_all (\<lambda>s. sc_tier s \<noteq> tc_tier c \<or> turn_passed s) ss)"

definition unit_scores :: "turn_score \<Rightarrow> bool" where
  "unit_scores s \<longleftrightarrow> list_all unit_range
     (sc_entity_recall s # sc_retrieval s # List.map_filter id [sc_citation_precision s, sc_groundedness s])"

lemma tier_scorecard_sound:
  assumes "list_all unit_scores ss"
  shows "sound_card ss (tier_scorecard ss tier)"
proof -
  let ?c = "tier_scorecard ss tier"
  define rows where "rows = filter (\<lambda>s. sc_tier s = tier) ss"
  have rows: "list_all unit_scores rows"
    using assms by (auto simp: rows_def list_all_iff)
  have optional: "unit_range x" if "s \<in> set rows" "v \<in> {sc_citation_precision s, sc_groundedness s}" "v = Some x"
    for s v x
  proof -
    from that(2,3) have "x \<in> set (List.map_filter id [sc_citation_precision s, sc_groundedness s])"
      unfolding set_map_filter_iff by auto
    with rows that(1) show ?thesis unfolding list_all_iff unit_scores_def by auto
  qed
  have opt: "list_all unit_range (List.map_filter id (map f rows))"
    if "\<And>s x. s \<in> set rows \<Longrightarrow> f s = Some x \<Longrightarrow> unit_range x" for f :: "turn_score \<Rightarrow> rat option"
    using that by (auto simp: list_all_iff List.map_filter_def)
  have p: "list_all unit_range (List.map_filter id (map sc_citation_precision rows))"
    by (rule opt) (use optional in auto)
  have g: "list_all unit_range (List.map_filter id (map sc_groundedness rows))"
    by (rule opt) (use optional in auto)
  have m: "unit_range (mean_of (map sc_entity_recall rows))" "unit_range (mean_of (map sc_retrieval rows))"
    by (rule mean_of_bounds, use rows in \<open>simp add: list_all_iff unit_scores_def\<close>)+
  have fl: "unit_range (mean_of (map flag zs))" for zs :: "bool list"
    by (rule mean_of_bounds) (auto simp: list_all_iff flag_def unit_range_def)
  have rate: "unit_range (pass_rate ?c) \<and> (pass_rate ?c = 1 \<longleftrightarrow> rows \<noteq> [] \<and> list_all turn_passed rows)"
    using ratio_bounds [of "length (filter turn_passed rows)" "length rows"]
      ratio_one [of "length rows" "length (filter turn_passed rows)"] filter_all_length [of turn_passed rows]
    by (auto simp: unit_range_def pass_rate_def tier_scorecard_def Let_def case_prod_beta rows_def [symmetric])
  have passed: "list_all turn_passed rows \<longleftrightarrow> list_all (\<lambda>s. sc_tier s \<noteq> tier \<or> turn_passed s) ss"
    by (auto simp: rows_def list_all_iff)
  show ?thesis
    using rate passed m fl [of "map sc_agents_passed rows"] fl [of "List.map_filter sc_refusal_ok rows"]
      mean_of_bounds [OF p] mean_of_bounds [OF g]
      length_map_filter [of id "map sc_citation_precision rows"] length_map_filter [of id "map sc_groundedness rows"]
    by (simp add: sound_card_def tier_scorecard_def Let_def case_prod_beta rows_def [symmetric]
        mean_exclude_none_eq List.map_filter_def)
qed

text \<open>
  The cards of the tiers count every turn of a known tier once. On a card all rates and means are
  between 0 and 1, the excluded turns are those without a score, and the pass rate is 1 exactly when the
  tier has turns and all of them passed.
\<close>

theorem tier_cards_account_for_turns:
  assumes "list_all unit_scores ss"
  shows "sum_list (map tc_n (build_tier_scorecards ss)) = length (filter (\<lambda>s. sc_tier s \<in> set eval_tiers) ss) \<and>
    list_all (sound_card ss) (build_tier_scorecards ss)"
proof
  show "sum_list (map tc_n (build_tier_scorecards ss)) = length (filter (\<lambda>s. sc_tier s \<in> set eval_tiers) ss)"
    by (induction ss) (auto simp: build_tier_scorecards_def eval_tiers_def tier_scorecard_def Let_def case_prod_beta)
  show "list_all (sound_card ss) (build_tier_scorecards ss)"
    by (simp add: build_tier_scorecards_def list_all_iff tier_scorecard_sound [OF assms])
qed

section \<open>A run over no cases, and a tier with one turn\<close>

definition idle_eval :: "memory_world eval_env" where
  "idle_eval =
     \<lparr>ev_orch = idle_clients, ev_settings = spent_settings, ev_get = (\<lambda>w. []), ev_put = (\<lambda>l w. w),
      ev_scorer = demo_scorer\<lparr>sr_graph := Some (\<lambda>q ps. Inr [])\<rparr>, ev_latency = (\<lambda>c i. 0)\<rparr>"


definition demo_score :: turn_score where
  "demo_score =
     gated ''c'' ''simple'' demo_turn ''see a.py:2 for it.'' demo_metadata (tools_of demo_metadata) 5 True
       no_quality (0, 0, 0, 0) 0"

theorem tier_cards_account_for_turns_witness:
  "sum_list (map tc_n (build_tier_scorecards [demo_score])) = 1 \<and>
   list_all (sound_card [demo_score]) (build_tier_scorecards [demo_score])"
proof -
  have "list_all unit_scores [demo_score]" "sc_tier demo_score = ''simple''" by code_simp+
  with tier_cards_account_for_turns [of "[demo_score]"] show ?thesis by (simp add: eval_tiers_def)
qed

end
