(* ===== verification/Bakeoff.thy ===== *)
theory Bakeoff
  imports Evaluation
begin

text \<open>
  Comparison of models (\<open>core/eval/model_bakeoff.py\<close>), stored arms (\<open>core/eval/bakeoff_store.py\<close>) and
  the choice between request budgets and truncation orders (\<open>core/eval/budget_compare.py\<close>): repeated
  trials, their aggregates and the merge of arms. What a model answers and the clock are arguments.
\<close>

section \<open>Aggregates over repeats\<close>

record mean_spread =
  ms_mean :: real
  ms_spread :: real
  ms_values :: "real list"

definition spread_from_values :: "real list \<Rightarrow> mean_spread" where
  "spread_from_values vs =
     (if vs = [] then \<lparr>ms_mean = 0, ms_spread = 0, ms_values = []\<rparr>
      else \<lparr>ms_mean = sum_list vs / of_nat (length vs),
            ms_spread = (if 1 < length vs then (Max (set vs) - Min (set vs)) / 2 else 0),
            ms_values = vs\<rparr>)"

record query_trial =
  qt_case :: string
  qt_query :: string
  qt_tier :: string
  qt_latency_ms :: real
  qt_cost_usd :: real
  qt_usage :: "int \<times> int \<times> int"
  qt_schema_first :: bool
  qt_schema_failed :: bool
  qt_exact_agents :: bool
  qt_precision :: rat
  qt_groundedness :: rat
  qt_trap_ok :: "bool option"
  qt_model :: string
  qt_error :: "string option"

record repeat_score =
  rs_model :: string
  rs_repeat :: nat
  rs_quality :: real
  rs_trap_pass :: real
  rs_schema_failure :: real
  rs_p50 :: real
  rs_p95 :: real
  rs_cost :: real
  rs_n :: nat

record bakeoff_row =
  br_model :: string
  br_quality :: mean_spread
  br_trap_pass :: mean_spread
  br_schema_failure :: mean_spread
  br_p50 :: mean_spread
  br_p95 :: mean_spread
  br_cost :: mean_spread
  br_cost_1000 :: mean_spread
  br_rates :: model_rates
  br_price_label :: string
  br_repeats :: int

record purpose_bakeoff =
  pb_purpose :: string
  pb_rows :: "bakeoff_row list"
  pb_captured_at :: "string option"
  pb_price_as_of :: string
  pb_repeats :: int
  pb_queries :: int
  pb_notes :: "string list"

definition default_bakeoff_models :: "string list" where
  "default_bakeoff_models =
     [''anthropic/claude-sonnet-4.5'', ''anthropic/claude-haiku-4.5'', ''openai/gpt-4.1-mini'']"

definition parse_models_arg :: "string option \<Rightarrow> string list" where
  "parse_models_arg raw =
     (case raw of
        None \<Rightarrow> default_bakeoff_models
      | Some s \<Rightarrow>
          if strip s = [] then default_bakeoff_models
          else
            (let seen = add_all_new [] (filter (\<lambda>m. m \<noteq> []) (map strip (split_on CHR '','' s)))
             in if seen = [] then default_bakeoff_models else seen))"

definition turn_suffix :: "qa_case \<Rightarrow> nat \<Rightarrow> string" where
  "turn_suffix c i = (if is_multiturn c then '':'' @ str_nat (i + 1) else '''')"

definition flatten_turns :: "qa_case list \<Rightarrow> (string \<times> string \<times> turn_spec) list" where
  "flatten_turns cs =
     concat (map (\<lambda>c. map (\<lambda>(i, t). (qa_id c @ turn_suffix c i, qa_tier c, t)) (enumerate 0 (qa_turns c))) cs)"

definition percentile :: "real list \<Rightarrow> real \<Rightarrow> real" where
  "percentile vs pct =
     (if vs = [] then 0
      else
        (let ordered = sort vs
         in if length ordered = 1 then hd ordered
            else
              (let rank = pct / 100 * of_nat (length ordered - 1);
                   low = nat \<lfloor>rank\<rfloor>;
                   high = min (low + 1) (length ordered - 1);
                   weight = rank - of_nat low
               in ordered ! low * (1 - weight) + ordered ! high * weight)))"

definition agents_match :: "string list \<Rightarrow> string list \<Rightarrow> bool" where
  "agents_match actual expected \<longleftrightarrow>
     set (filter (\<lambda>a. a \<noteq> []) (map strip actual)) = set (filter (\<lambda>a. a \<noteq> []) (map strip expected))"

definition share :: "bool list \<Rightarrow> real \<Rightarrow> real" where
  "share flags none = (if flags = [] then none else mean_of (map flag flags))"

text \<open>\<open>_repeat_score\<close> and \<open>_synthesis_repeat_score\<close> differ in the quality of a trial.\<close>

definition score_repeat :: "(query_trial \<Rightarrow> real) \<Rightarrow> string \<Rightarrow> nat \<Rightarrow> query_trial list \<Rightarrow> repeat_score" where
  "score_repeat quality model k trials =
     \<lparr>rs_model = model, rs_repeat = k,
      rs_quality = mean_of (map quality (filter (\<lambda>t. qt_tier t \<noteq> ''trap'') trials)),
      rs_trap_pass = share (List.map_filter qt_trap_ok trials) 1,
      rs_schema_failure = share (map qt_schema_failed trials) 0,
      rs_p50 = percentile (map qt_latency_ms trials) 50,
      rs_p95 = percentile (map qt_latency_ms trials) 95,
      rs_cost = mean_of (map qt_cost_usd trials), rs_n = length trials\<rparr>"

definition routing_repeat_score :: "string \<Rightarrow> nat \<Rightarrow> query_trial list \<Rightarrow> repeat_score" where
  "routing_repeat_score = score_repeat (\<lambda>t. flag (qt_exact_agents t))"

definition synthesis_repeat_score :: "string \<Rightarrow> nat \<Rightarrow> query_trial list \<Rightarrow> repeat_score" where
  "synthesis_repeat_score = score_repeat (\<lambda>t. of_rat ((qt_precision t + qt_groundedness t) / 2))"

definition scaled :: "real \<Rightarrow> mean_spread \<Rightarrow> mean_spread" where
  "scaled k m =
     \<lparr>ms_mean = ms_mean m * k, ms_spread = ms_spread m * k, ms_values = map (\<lambda>v. v * k) (ms_values m)\<rparr>"

definition price_as_of :: string where
  "price_as_of = ''2026-08-18''"

text \<open>\<open>dec3\<close> is the format \<open>:.3f\<close>.\<close>

definition price_label :: "(real \<Rightarrow> string) \<Rightarrow> string \<Rightarrow> model_rates \<Rightarrow> string" where
  "price_label dec3 model rs =
     model @ '': $'' @ dec3 (prompt_usd_per_million rs) @ '' in / $'' @ dec3 (completion_usd_per_million rs)
     @ '' out / $'' @ dec3 (cached_prompt_usd_per_million rs) @ '' cached per 1M (as of '' @ price_as_of @ '')''"

definition row_from_repeats ::
    "(real \<Rightarrow> string) \<Rightarrow> string \<Rightarrow> repeat_score list \<Rightarrow> model_rates \<Rightarrow> bakeoff_row" where
  "row_from_repeats dec3 model repeats rs =
     (let spread = (\<lambda>f. spread_from_values (map f repeats))
      in \<lparr>br_model = model, br_quality = spread rs_quality, br_trap_pass = spread rs_trap_pass,
          br_schema_failure = spread rs_schema_failure, br_p50 = spread rs_p50, br_p95 = spread rs_p95,
          br_cost = spread rs_cost, br_cost_1000 = scaled 1000 (spread rs_cost), br_rates = rs,
          br_price_label = price_label dec3 model rs, br_repeats = int (length repeats)\<rparr>)"

section \<open>Trials\<close>

text \<open>What one routing call gives: the parsed intent if it is one, and the usage.\<close>

record routing_reply =
  ro_agents :: "string list option"
  ro_usage :: token_usage
  ro_first_valid :: bool

definition routing_message :: "string \<Rightarrow> string" where
  "routing_message query = router_user_prompt query ''''"

definition error_text :: "exn \<Rightarrow> string" where
  "error_text e = (case e of SchemaValidationError a m \<Rightarrow> m | _ \<Rightarrow> exn_name e @ '': '' @ exn_str e)"

definition no_usage :: "string \<Rightarrow> token_usage" where
  "no_usage model =
     \<lparr>prompt_tokens = 0, completion_tokens = 0, total_tokens = 0, usage_model = Some model,
      cached_prompt_tokens = 0\<rparr>"

definition usage_cost :: "llm_settings \<Rightarrow> string \<Rightarrow> token_usage \<Rightarrow> real" where
  "usage_cost st model u =
     cost_usd (prompt_tokens u) (completion_tokens u) (cached_prompt_tokens u) (Some (rates_for st model))"

text \<open>
  \<open>_route_once\<close>: \<open>ask\<close> is the model with the routing system prompt. Every exception becomes a failed
  trial, but a cancellation, which ends the run.
\<close>

definition route_once ::
    "llm_settings \<Rightarrow> (string \<Rightarrow> routing_reply result) \<Rightarrow> real \<Rightarrow> string \<Rightarrow> string \<times> string \<times> turn_spec
      \<Rightarrow> query_trial result" where
  "route_once st ask latency model item =
     (case item of
        (case_id, tier, t) \<Rightarrow>
          (let reply = ask (routing_message (sp_query t));
               exact = (case reply of
                          Inr r \<Rightarrow> (case ro_agents r of Some as \<Rightarrow> agents_match as (sp_agents t) | None \<Rightarrow> False)
                        | Inl e \<Rightarrow> False);
               first = (case reply of Inr r \<Rightarrow> ro_first_valid r | Inl e \<Rightarrow> False);
               failed = (case reply of Inr r \<Rightarrow> ro_agents r = None | Inl e \<Rightarrow> True);
               usage = (case reply of Inr r \<Rightarrow> ro_usage r | Inl e \<Rightarrow> no_usage model)
           in if reply = Inl Cancelled then Inl Cancelled
              else Inr \<lparr>qt_case = case_id, qt_query = sp_query t, qt_tier = tier, qt_latency_ms = latency,
               qt_cost_usd = usage_cost st model usage,
               qt_usage = (prompt_tokens usage, completion_tokens usage, cached_prompt_tokens usage),
               qt_schema_first = first, qt_schema_failed = (failed \<or> \<not> first), qt_exact_agents = exact,
               qt_precision = 1, qt_groundedness = 1,
               qt_trap_ok = (if tier = ''trap'' \<or> sp_out_of_scope t then Some exact else None),
               qt_model = model,
               qt_error = (case reply of Inl e \<Rightarrow> Some (error_text e) | Inr r \<Rightarrow> None)\<rparr>))"

section \<open>Frozen payloads\<close>

record frozen_payload =
  fp_id :: string
  fp_query :: string
  fp_tier :: string
  fp_out_of_scope :: bool
  fp_agents :: "string list"
  fp_entities :: "string list"
  fp_outputs :: pydict
  fp_captured_at :: string

definition texts_of :: "pyval \<Rightarrow> string list" where
  "texts_of v = (case v of PyList vs \<Rightarrow> map py_str vs | _ \<Rightarrow> [])"

definition payload_from_mapping :: "pydict \<Rightarrow> frozen_payload result" where
  "payload_from_mapping raw =
     (case map_of raw ''query'' of
        None \<Rightarrow> Inl (key_error ''query'')
      | Some q \<Rightarrow>
          Inr \<lparr>fp_id = field_or raw ''id'' (py_str (dget raw ''query'')), fp_query = py_str q,
               fp_tier = field_or raw ''tier'' ''simple'', fp_out_of_scope = truthy (dget raw ''out_of_scope''),
               fp_agents = texts_of (dget raw ''expected_agents''),
               fp_entities = texts_of (dget raw ''expected_entities''),
               fp_outputs = (case dget raw ''agent_outputs'' of PyDict m \<Rightarrow> m | _ \<Rightarrow> []),
               fp_captured_at = field_or raw ''captured_at'' ''''\<rparr>)"

definition payload_mapping :: "frozen_payload \<Rightarrow> pydict" where
  "payload_mapping p =
     [(''id'', PyStr (fp_id p)), (''query'', PyStr (fp_query p)), (''tier'', PyStr (fp_tier p)),
      (''out_of_scope'', PyBool (fp_out_of_scope p)), (''expected_agents'', PyList (map PyStr (fp_agents p))),
      (''expected_entities'', PyList (map PyStr (fp_entities p))), (''agent_outputs'', PyDict (fp_outputs p)),
      (''captured_at'', PyStr (fp_captured_at p))]"

text \<open>The stored dictionaries, as the agent outputs they were written from.\<close>

definition text_or_none :: "pyval \<Rightarrow> string option" where
  "text_or_none v = (case v of PyStr s \<Rightarrow> Some s | _ \<Rightarrow> None)"

definition stored_output :: "string \<times> pyval \<Rightarrow> (agent_name \<times> agent_output) option" where
  "stored_output kv =
     (case find (\<lambda>a. agent_str a = fst kv) [Indexer, GraphQuery, CodeAnalyst, MemoryAgent] of
        None \<Rightarrow> None
      | Some a \<Rightarrow>
          (case snd kv of
             PyDict m \<Rightarrow>
               Some (a, \<lparr>ao_agent = a, ao_ok = truthy (dget m ''ok''), ao_output = dget m ''output'',
                         ao_error = text_or_none (dget m ''error''),
                         ao_note = text_or_none (dget m ''degraded_note''),
                         ao_tools = texts_of (dget m ''tools_invoked'')\<rparr>)
           | _ \<Rightarrow> None))"

definition stored_outputs :: "pydict \<Rightarrow> outputs" where
  "stored_outputs m = List.map_filter stored_output m"

section \<open>Replayed syntheses\<close>

text \<open>The synthesis of \<open>_synthesize_once\<close>, in a ledger of its own: the answer, and the closed entry.\<close>

definition replayed :: "synthesis_env \<Rightarrow> frozen_payload \<Rightarrow> string result \<times> ledger_entry" where
  "replayed env p =
     (let cid = ''bakeoff-synth-'' @ fp_id p; l = open_entry cid (\<lambda>_. None)
      in case synthesize_response env (fp_query p) (stored_outputs (fp_outputs p)) ('''', []) None l cid of
           Inl e \<Rightarrow> (Inl e, snd (close_entry cid l))
         | Inr x \<Rightarrow> (Inr (sr_answer (sx_result x)), snd (close_entry cid (sx_ledger x))))"

definition synthesis_trial ::
    "scorer \<Rightarrow> real \<Rightarrow> string \<Rightarrow> frozen_payload \<Rightarrow> string result \<times> ledger_entry \<Rightarrow> query_trial result" where
  "synthesis_trial sr latency model p run =
     (let answer = (case fst run of Inr a \<Rightarrow> a | Inl e \<Rightarrow> '''');
          spent = snd run;
          trap = fp_tier p = ''trap'' \<or> fp_out_of_scope p
      in then_do (score_citation_precision sr answer) (\<lambda>(precision, invalid).
         (let ground = fst (score_groundedness answer (fp_outputs p));
              or_zero = (\<lambda>v. case v of Some x \<Rightarrow> x | None \<Rightarrow> 0)
          in Inr \<lparr>qt_case = fp_id p, qt_query = fp_query p, qt_tier = fp_tier p, qt_latency_ms = latency,
                  qt_cost_usd = e_cost spent, qt_usage = (e_prompt spent, e_completion spent, e_cached spent),
                  qt_schema_first = True,
                  qt_schema_failed = (case fst run of Inl e \<Rightarrow> True | Inr a \<Rightarrow> False), qt_exact_agents = True,
                  qt_precision = (if trap \<and> answer = [] then 1 else or_zero precision),
                  qt_groundedness = (if trap then 1 else or_zero ground),
                  qt_trap_ok = (if trap then Some (is_refusal answer) else None), qt_model = model,
                  qt_error = (case fst run of Inl e \<Rightarrow> Some (exn_name e @ '': '' @ exn_str e)
                              | Inr a \<Rightarrow> None)\<rparr>)))"

text \<open>\<open>_synthesize_once\<close>: a cancellation ends the run, every other exception is an empty answer.\<close>

definition synthesize_once ::
    "synthesis_env \<Rightarrow> scorer \<Rightarrow> real \<Rightarrow> string \<Rightarrow> frozen_payload \<Rightarrow> query_trial result" where
  "synthesize_once env sr latency model p =
     (if fst (replayed env p) = Inl Cancelled then Inl Cancelled
      else synthesis_trial sr latency model p (replayed env p))"

section \<open>Runs\<close>

definition minus_sign :: string where
  "minus_sign = [CHR 0xE2, CHR 0x88, CHR 0x92]"

definition few_repeats_note :: "int \<Rightarrow> string list" where
  "few_repeats_note repeats =
     (if repeats < 2
      then [''repeats='' @ str_int repeats @ ''; spread is undefined and no ranking is implied.''] else [])"

definition router_notes :: "int \<Rightarrow> string list" where
  "router_notes repeats =
     [''Router bake-off calls the routing prompt directly; Neo4j is not used.'',
      ''Production routing is rules-first; this table scores the LLM router in isolation.'',
      ''Quality is exact-match on expected_agents (set equality).'',
      ''Schema-failure rate is 1 '' @ minus_sign @ '' first-attempt schema-validity.'']
     @ few_repeats_note repeats"

definition synthesis_notes :: "int \<Rightarrow> bool \<Rightarrow> string list" where
  "synthesis_notes repeats with_graph =
     [''Synthesis bake-off replays frozen agent_outputs; retrieval is not re-run.'',
      ''Quality is the mean of citation precision and groundedness on non-trap turns.'',
      ''Trap pass rate is refusal correctness. Synthesis is free-text (schema-failure 0).'',
      ''Citations must resolve in the graph when a graph client is provided.'']
     @ few_repeats_note repeats
     @ (if with_graph then [] else [''No graph client: citation precision falls back to on-disk checks.''])"

text \<open>One row per model: the trials of each repeat over all items, aggregated.\<close>

definition bakeoff_rows ::
    "(string \<Rightarrow> nat \<Rightarrow> 'a \<Rightarrow> query_trial result) \<Rightarrow> (string \<Rightarrow> nat \<Rightarrow> query_trial list \<Rightarrow> repeat_score)
      \<Rightarrow> (real \<Rightarrow> string) \<Rightarrow> llm_settings \<Rightarrow> nat \<Rightarrow> 'a list \<Rightarrow> string list \<Rightarrow> bakeoff_row list result" where
  "bakeoff_rows trial score dec3 st repeats items models =
     all_results (\<lambda>m.
       then_do (all_results (\<lambda>k. then_do (all_results (trial m k) items) (\<lambda>ts. Inr (score m k ts)))
                  [0..<repeats])
         (\<lambda>rs. Inr (row_from_repeats dec3 m rs (rates_for st m)))) models"

definition run_router_bakeoff ::
    "llm_settings \<Rightarrow> (string \<Rightarrow> nat \<Rightarrow> string \<Rightarrow> routing_reply result) \<Rightarrow> (string \<Rightarrow> nat \<Rightarrow> string \<Rightarrow> real)
      \<Rightarrow> (real \<Rightarrow> string) \<Rightarrow> nat \<Rightarrow> string list \<Rightarrow> qa_case list \<Rightarrow> purpose_bakeoff result" where
  "run_router_bakeoff st ask latency dec3 repeats models cs =
     (let items = flatten_turns cs
      in then_do (bakeoff_rows (\<lambda>m k item. route_once st (ask m k) (latency m k (fst item)) m item)
                    routing_repeat_score dec3 st repeats items models) (\<lambda>rows.
         Inr \<lparr>pb_purpose = ''routing'', pb_rows = rows, pb_captured_at = None, pb_price_as_of = price_as_of,
              pb_repeats = int repeats, pb_queries = int (length items), pb_notes = router_notes (int repeats)\<rparr>))"

definition run_synthesis_bakeoff ::
    "llm_settings \<Rightarrow> (string \<Rightarrow> nat \<Rightarrow> synthesis_env) \<Rightarrow> scorer \<Rightarrow> (string \<Rightarrow> nat \<Rightarrow> string \<Rightarrow> real)
      \<Rightarrow> (real \<Rightarrow> string) \<Rightarrow> nat \<Rightarrow> string list \<Rightarrow> frozen_payload list \<Rightarrow> purpose_bakeoff result" where
  "run_synthesis_bakeoff st env sr latency dec3 repeats models payloads =
     then_do (bakeoff_rows (\<lambda>m k p. synthesize_once (env m k) sr (latency m k (fp_id p)) m p)
                synthesis_repeat_score dec3 st repeats payloads models) (\<lambda>rows.
       Inr \<lparr>pb_purpose = ''synthesis'', pb_rows = rows,
            pb_captured_at = find (\<lambda>d. d \<noteq> []) (map fp_captured_at payloads), pb_price_as_of = price_as_of,
            pb_repeats = int repeats, pb_queries = int (length payloads),
            pb_notes = synthesis_notes (int repeats) (sr_graph sr \<noteq> None)\<rparr>)"

section \<open>Stored reports\<close>

text \<open>
  Payloads of reports. \<open>fl\<close> writes a float, \<open>read_float\<close> is \<open>float()\<close>; prices are dumped and validated
  by pydantic. A field whose value has another type than a report gives it is an error here.
\<close>

record float_io =
  fl :: "real \<Rightarrow> string"
  read_float :: "pyval \<Rightarrow> real result"
  dump_rates :: "model_rates \<Rightarrow> pyval"
  valid_rates :: "pyval \<Rightarrow> model_rates result"

definition need :: "pydict \<Rightarrow> string \<Rightarrow> pyval result" where
  "need m k = (case map_of m k of None \<Rightarrow> Inl (key_error k) | Some v \<Rightarrow> Inr v)"

definition type_error :: exn where
  "type_error = OtherError ''TypeError'' ''''"

definition need_str :: "pydict \<Rightarrow> string \<Rightarrow> string result" where
  "need_str m k = then_do (need m k) (\<lambda>v. case v of PyStr s \<Rightarrow> Inr s | _ \<Rightarrow> Inl type_error)"

definition need_int :: "pydict \<Rightarrow> string \<Rightarrow> int result" where
  "need_int m k = then_do (need m k) (\<lambda>v. case v of PyInt n \<Rightarrow> Inr n | _ \<Rightarrow> Inl type_error)"

definition need_dict :: "pyval \<Rightarrow> pydict result" where
  "need_dict v = (case v of PyDict m \<Rightarrow> Inr m | _ \<Rightarrow> Inl type_error)"

definition items_of :: "pydict \<Rightarrow> string \<Rightarrow> pyval list result" where
  "items_of m k =
     (case map_of m k of None \<Rightarrow> Inr [] | Some (PyList vs) \<Rightarrow> Inr vs | Some v \<Rightarrow> Inl type_error)"

definition spread_payload :: "float_io \<Rightarrow> mean_spread \<Rightarrow> pyval" where
  "spread_payload io m =
     PyDict [(''mean'', PyFloat (fl io (ms_mean m))), (''spread'', PyFloat (fl io (ms_spread m))),
             (''values'', PyList (map (\<lambda>x. PyFloat (fl io x)) (ms_values m)))]"

definition spread_from_payload :: "float_io \<Rightarrow> pyval \<Rightarrow> mean_spread result" where
  "spread_from_payload io v =
     then_do (need_dict v) (\<lambda>m.
     then_do (then_do (need m ''mean'') (read_float io)) (\<lambda>a.
     then_do (then_do (need m ''spread'') (read_float io)) (\<lambda>b.
     then_do (then_do (items_of m ''values'') (all_results (read_float io))) (\<lambda>vs.
       Inr \<lparr>ms_mean = a, ms_spread = b, ms_values = vs\<rparr>))))"

definition row_payload :: "float_io \<Rightarrow> bakeoff_row \<Rightarrow> pyval" where
  "row_payload io r =
     PyDict [(''model'', PyStr (br_model r)), (''quality'', spread_payload io (br_quality r)),
             (''trap_pass'', spread_payload io (br_trap_pass r)),
             (''schema_failure'', spread_payload io (br_schema_failure r)),
             (''p50_latency_ms'', spread_payload io (br_p50 r)),
             (''p95_latency_ms'', spread_payload io (br_p95 r)),
             (''cost_per_query'', spread_payload io (br_cost r)),
             (''cost_per_1000'', spread_payload io (br_cost_1000 r)), (''rates'', dump_rates io (br_rates r)),
             (''price_label'', PyStr (br_price_label r)), (''repeats'', PyInt (br_repeats r))]"

definition row_from_payload :: "float_io \<Rightarrow> pyval \<Rightarrow> bakeoff_row result" where
  "row_from_payload io v =
     (let spread = (\<lambda>m k. then_do (need m k) (spread_from_payload io)) in
      then_do (need_dict v) (\<lambda>m.
      then_do (need_str m ''model'') (\<lambda>model.
      then_do (spread m ''quality'') (\<lambda>q.
      then_do (spread m ''trap_pass'') (\<lambda>t.
      then_do (spread m ''schema_failure'') (\<lambda>s.
      then_do (spread m ''p50_latency_ms'') (\<lambda>p50.
      then_do (spread m ''p95_latency_ms'') (\<lambda>p95.
      then_do (spread m ''cost_per_query'') (\<lambda>c.
      then_do (spread m ''cost_per_1000'') (\<lambda>c1000.
      then_do (then_do (need m ''rates'') (valid_rates io)) (\<lambda>rs.
      then_do (need_str m ''price_label'') (\<lambda>label.
      then_do (need_int m ''repeats'') (\<lambda>n.
        Inr \<lparr>br_model = model, br_quality = q, br_trap_pass = t, br_schema_failure = s, br_p50 = p50,
             br_p95 = p95, br_cost = c, br_cost_1000 = c1000, br_rates = rs, br_price_label = label,
             br_repeats = n\<rparr>)))))))))))))"

definition to_payload :: "float_io \<Rightarrow> purpose_bakeoff \<Rightarrow> pydict" where
  "to_payload io r =
     [(''purpose'', PyStr (pb_purpose r)),
      (''captured_at'', case pb_captured_at r of None \<Rightarrow> PyNone | Some d \<Rightarrow> PyStr d),
      (''price_as_of'', PyStr (pb_price_as_of r)), (''repeats'', PyInt (pb_repeats r)),
      (''n_queries'', PyInt (pb_queries r)), (''notes'', PyList (map PyStr (pb_notes r))),
      (''rows'', PyList (map (row_payload io) (pb_rows r)))]"

definition from_payload :: "float_io \<Rightarrow> pydict \<Rightarrow> purpose_bakeoff result" where
  "from_payload io m =
     then_do (need_str m ''purpose'') (\<lambda>purpose.
     then_do (then_do (items_of m ''rows'') (all_results (row_from_payload io))) (\<lambda>rows.
     then_do (case dget m ''captured_at'' of
                PyNone \<Rightarrow> Inr None | PyStr d \<Rightarrow> Inr (Some d) | _ \<Rightarrow> Inl type_error) (\<lambda>captured.
     then_do (need_str m ''price_as_of'') (\<lambda>price.
     then_do (need_int m ''repeats'') (\<lambda>repeats.
     then_do (need_int m ''n_queries'') (\<lambda>n.
     then_do (then_do (items_of m ''notes'')
                (all_results (\<lambda>v. case v of PyStr s \<Rightarrow> Inr s | _ \<Rightarrow> Inl type_error))) (\<lambda>notes.
       Inr \<lparr>pb_purpose = purpose, pb_rows = rows, pb_captured_at = captured, pb_price_as_of = price,
            pb_repeats = repeats, pb_queries = n, pb_notes = notes\<rparr>)))))))"

text \<open>What \<open>save_bakeoff\<close> writes on a day: a report without a date gets that day.\<close>

definition saved_payload :: "float_io \<Rightarrow> string \<Rightarrow> purpose_bakeoff \<Rightarrow> pydict" where
  "saved_payload io today r =
     (let payload = to_payload io r
      in if truthy (dget payload ''captured_at'') then payload
         else dset ''captured_at'' (PyStr today) payload)"

definition cross_run_note :: string where
  "cross_run_note =
     ''Rows were captured in separate runs. Quality, schema-failure rate and cost ''
     @ ''are computed from a fixed case set at temperature 0 and remain comparable; ''
     @ ''p50/p95 latency was measured at different times under different network and ''
     @ ''vendor load, so latency is NOT a like-for-like comparison.''"

definition value_error :: "string \<Rightarrow> exn" where
  "value_error m = OtherError ''ValueError'' m"

fun merge_rows :: "string list \<Rightarrow> bakeoff_row list \<Rightarrow> bakeoff_row list result" where
  "merge_rows seen [] = Inr []"
| "merge_rows seen (r # rs) =
     (if br_model r \<in> set seen
      then Inl (value_error (''model appears in more than one report: '' @ br_model r))
      else then_do (merge_rows (br_model r # seen) rs) (\<lambda>rows. Inr (r # rows)))"

definition captured_list :: "purpose_bakeoff list \<Rightarrow> string" where
  "captured_list arms =
     join '', '' (concat (map (\<lambda>p. map (\<lambda>r. br_model r @ '' ('' @ (case pb_captured_at p of
         Some (c # d) \<Rightarrow> c # d | _ \<Rightarrow> ''unknown'') @ '')'') (pb_rows p)) arms))"

text \<open>\<open>latest\<close> is \<open>max\<close> on dates as texts; \<open>sorted_text\<close> the message's sorted list.\<close>

definition merge_bakeoffs ::
    "(string list \<Rightarrow> string) \<Rightarrow> (string list \<Rightarrow> string) \<Rightarrow> purpose_bakeoff list \<Rightarrow> purpose_bakeoff result" where
  "merge_bakeoffs latest sorted_text arms =
     (case arms of
        [] \<Rightarrow> Inl (value_error ''merge_bakeoffs needs at least one report'')
      | first # rest \<Rightarrow>
          if 1 < card (set (map pb_purpose arms))
          then Inl (value_error (''cannot merge different purposes: '' @ sorted_text (map pb_purpose arms)))
          else if 1 < card (set (map pb_queries arms))
          then Inl (value_error (''cannot merge runs scored over different case counts: ''
                 @ sorted_text (map (str_int \<circ> pb_queries) arms)))
          else
            then_do (merge_rows [] (concat (map pb_rows arms))) (\<lambda>rows.
              (let notes = add_all_new [] (concat (map pb_notes arms));
                   captured = filter (\<lambda>d. d \<noteq> []) (List.map_filter pb_captured_at arms)
               in Inr \<lparr>pb_purpose = pb_purpose first, pb_rows = rows,
                       pb_captured_at = (if captured = [] then None else Some (latest captured)),
                       pb_price_as_of = pb_price_as_of first, pb_repeats = Max (set (map pb_repeats arms)),
                       pb_queries = pb_queries first,
                       pb_notes = notes @ (if rest = [] then []
                         else [cross_run_note, ''Captured: '' @ captured_list arms @ ''.''])\<rparr>)))"

section \<open>Budgets and truncation orders\<close>

text \<open>\<open>a + 1e-9 < b\<close> on a tier's metric, where neither is excluded.\<close>

definition metric_fell :: "rat option \<Rightarrow> rat option \<Rightarrow> bool" where
  "metric_fell now before =
     (case (now, before) of (Some a, Some b) \<Rightarrow> a + 1 / 1000000000 < b | _ \<Rightarrow> False)"

definition quality_dropped :: "scorecard \<Rightarrow> scorecard \<Rightarrow> bool" where
  "quality_dropped enabled disabled =
     (let by_disabled = map_of (rev (map (\<lambda>t. (tc_tier t, t)) (ec_tiers disabled)))
      in list_ex (\<lambda>row.
           case by_disabled (tc_tier row) of
             None \<Rightarrow> False
           | Some baseline \<Rightarrow>
               tc_n baseline \<noteq> 0
               \<and> (metric_fell (tc_precision row) (tc_precision baseline)
                  \<or> metric_fell (tc_groundedness row) (tc_groundedness baseline))) (ec_tiers enabled))"

record order_score =
  os_order :: truncation_order
  os_precision :: "rat option"
  os_groundedness :: "rat option"

definition compared_orders :: "truncation_order list" where
  "compared_orders = [Snippets_Then_Lists, Lists_Then_Snippets]"

definition order_combo :: "order_score \<Rightarrow> rat" where
  "order_combo s = mean_of (List.map_filter (\<lambda>x. x) [os_precision s, os_groundedness s])"

definition choose_truncation_order :: "order_score list \<Rightarrow> truncation_order" where
  "choose_truncation_order scores =
     (if scores = [] then Snippets_Then_Lists
      else
        (let best = Max (set (map order_combo scores));
             tied = map os_order (filter (\<lambda>s. \<bar>order_combo s - best\<bar> < 1 / 1000000000) scores)
         in case find (\<lambda>o'. o' \<in> set tied) compared_orders of Some o' \<Rightarrow> o' | None \<Rightarrow> Snippets_Then_Lists))"

section \<open>Percentiles\<close>

definition between :: "real list \<Rightarrow> real \<Rightarrow> real" where
  "between xs rank =
     (let low = nat \<lfloor>rank\<rfloor>; high = min (low + 1) (length xs - 1); weight = rank - of_nat low
      in xs ! low * (1 - weight) + xs ! high * weight)"

lemma floor_rank:
  assumes "0 \<le> (rank::real)"
  shows "of_nat (nat \<lfloor>rank\<rfloor>) \<le> rank" and "rank < of_nat (nat \<lfloor>rank\<rfloor>) + 1"
  using assms by (simp_all add: of_nat_nat)

lemma between_bounds:
  assumes "sorted xs" and "xs \<noteq> []" and "0 \<le> rank" and "rank \<le> of_nat (length xs - 1)"
  shows "xs ! nat \<lfloor>rank\<rfloor> \<le> between xs rank"
    and "between xs rank \<le> xs ! min (nat \<lfloor>rank\<rfloor> + 1) (length xs - 1)"
proof -
  let ?l = "nat \<lfloor>rank\<rfloor>" and ?h = "min (nat \<lfloor>rank\<rfloor> + 1) (length xs - 1)"
  have "(of_nat ?l :: real) \<le> of_nat (length xs - 1)"
    using floor_rank(1)[OF assms(3)] assms(4) by linarith
  then have low: "?l \<le> length xs - 1" by (simp only: of_nat_le_iff)
  have "0 < length xs" using assms(2) by simp
  then have "?l \<le> ?h" "?h < length xs" using low by linarith+
  then have le: "xs ! ?l \<le> xs ! ?h" by (rule sorted_nth_mono[OF assms(1)])
  have w: "0 \<le> rank - of_nat ?l" "rank - of_nat ?l \<le> 1"
    using floor_rank[OF assms(3)] by linarith+
  have eq: "between xs rank = xs ! ?l + (xs ! ?h - xs ! ?l) * (rank - of_nat ?l)"
    by (simp add: between_def Let_def algebra_simps)
  show "xs ! ?l \<le> between xs rank" unfolding eq using le w by simp
  have "(xs ! ?h - xs ! ?l) * (rank - of_nat ?l) \<le> (xs ! ?h - xs ! ?l) * 1"
    by (rule mult_left_mono) (use le w in auto)
  then show "between xs rank \<le> xs ! ?h" unfolding eq by simp
qed

lemma between_mono:
  assumes "sorted xs" and "xs \<noteq> []" and "0 \<le> a" and "a \<le> b" and "b \<le> of_nat (length xs - 1)"
  shows "between xs a \<le> between xs b"
proof (cases "\<lfloor>a\<rfloor> = \<lfloor>b\<rfloor>")
  case True
  let ?l = "nat \<lfloor>b\<rfloor>" and ?h = "min (nat \<lfloor>b\<rfloor> + 1) (length xs - 1)"
  have b0: "0 \<le> b" using assms by linarith
  have "xs ! ?l \<le> xs ! ?h"
    using between_bounds[OF assms(1,2) b0 assms(5)] by linarith
  then have "(xs ! ?h - xs ! ?l) * a \<le> (xs ! ?h - xs ! ?l) * b"
    using assms(4) by (simp add: mult_left_mono)
  then show ?thesis by (simp add: between_def Let_def True algebra_simps)
next
  case False
  have "\<lfloor>a\<rfloor> \<le> \<lfloor>b\<rfloor>" using assms(4) by (rule floor_mono)
  then have step: "nat \<lfloor>a\<rfloor> + 1 \<le> nat \<lfloor>b\<rfloor>" using False assms(3) by linarith
  have b0: "0 \<le> b" using assms by linarith
  have "(of_nat (nat \<lfloor>b\<rfloor>) :: real) \<le> of_nat (length xs - 1)"
    using floor_rank(1)[OF b0] assms(5) by linarith
  then have low: "nat \<lfloor>b\<rfloor> \<le> length xs - 1" by (simp only: of_nat_le_iff)
  have "xs ! min (nat \<lfloor>a\<rfloor> + 1) (length xs - 1) \<le> xs ! nat \<lfloor>b\<rfloor>"
    by (rule sorted_nth_mono[OF assms(1)]) (use step low assms(2) in \<open>cases xs, auto\<close>)
  moreover have "a \<le> of_nat (length xs - 1)" using assms by linarith
  ultimately show ?thesis
    using between_bounds[OF assms(1,2,3)] between_bounds[OF assms(1,2) b0 assms(5)]
    by (meson order_trans)
qed

lemma percentile_between:
  assumes "vs \<noteq> []"
  shows "percentile vs p =
    (if length vs = 1 then hd (sort vs) else between (sort vs) (p / 100 * of_nat (length vs - 1)))"
  using assms by (simp add: percentile_def between_def Let_def)

lemma rank_range:
  assumes "0 \<le> (p::real)" and "p \<le> 100"
  shows "0 \<le> p / 100 * of_nat n" and "p / 100 * of_nat n \<le> of_nat n"
  using assms mult_right_mono[of p 100 "of_nat n"] by simp_all

text \<open>
  Percentiles grow with the requested share and stay between the smallest and the largest value.
\<close>

theorem percentile_monotone_and_bounded:
  assumes "vs \<noteq> []" and "0 \<le> p" and "p \<le> q" and "q \<le> 100"
  shows "Min (set vs) \<le> percentile vs p \<and> percentile vs p \<le> percentile vs q
    \<and> percentile vs q \<le> Max (set vs)"
proof (cases "length vs = 1")
  case True
  then obtain x where "vs = [x]" by (cases vs) auto
  then show ?thesis by (simp add: percentile_def)
next
  case False
  let ?n = "length (sort vs) - 1"
  have ne: "sort vs \<noteq> []" using assms(1) by (metis length_0_conv length_sort)
  have at: "percentile vs r = between (sort vs) (r / 100 * of_nat ?n)" for r
    using percentile_between[OF assms(1)] False by simp
  have nth: "i < length vs \<Longrightarrow> Min (set vs) \<le> sort vs ! i \<and> sort vs ! i \<le> Max (set vs)" for i
    by (metis List.finite_set Max_ge Min_le length_sort nth_mem set_sort)
  have p: "0 \<le> p / 100 * of_nat ?n" "p / 100 * of_nat ?n \<le> of_nat ?n"
    using rank_range[of p ?n] assms by simp_all
  have q: "0 \<le> q / 100 * of_nat ?n" "q / 100 * of_nat ?n \<le> of_nat ?n"
    using rank_range[of q ?n] assms by simp_all
  have "p / 100 * of_nat ?n \<le> q / 100 * of_nat ?n"
    using assms(3) by (intro mult_right_mono) simp_all
  then have "percentile vs p \<le> percentile vs q"
    unfolding at by (rule between_mono[OF sorted_sort ne p(1) _ q(2)])
  moreover have "(of_nat (nat \<lfloor>p / 100 * of_nat ?n\<rfloor>) :: real) \<le> of_nat ?n"
    using floor_rank(1)[OF p(1)] p(2) by (rule order_trans)
  then have "nat \<lfloor>p / 100 * of_nat ?n\<rfloor> \<le> ?n" by (simp only: of_nat_le_iff)
  then have "nat \<lfloor>p / 100 * of_nat ?n\<rfloor> < length vs" using assms(1) by (cases vs) simp_all
  then have "Min (set vs) \<le> percentile vs p"
    using between_bounds(1)[OF sorted_sort ne p] nth unfolding at by (meson order_trans)
  moreover have "min (nat \<lfloor>q / 100 * of_nat ?n\<rfloor> + 1) ?n < length vs"
    by (rule le_less_trans[OF min.cobounded2]) (use assms(1) in \<open>cases vs, simp_all\<close>)
  then have "percentile vs q \<le> Max (set vs)"
    using between_bounds(2)[OF sorted_sort ne q] nth unfolding at by (meson order_trans)
  ultimately show ?thesis by blast
qed

theorem percentile_monotone_and_bounded_witness:
  "Min (set [30, 10, 20, 40]) \<le> percentile [30, 10, 20, 40] 50
    \<and> percentile [30, 10, 20, 40] 50 \<le> percentile [30, 10, 20, 40] 95
    \<and> percentile [30, 10, 20, 40] 95 \<le> Max (set [30, 10, 20, 40])"
  by (rule percentile_monotone_and_bounded) simp_all

section \<open>Merging arms\<close>

lemma merge_rows_eq:
  "map_sum (\<lambda>e. ()) (\<lambda>rows. rows) (merge_rows seen rows) =
     (if distinct (map br_model rows) \<and> set seen \<inter> br_model ` set rows = {} then Inr rows else Inl ())"
proof (induction rows arbitrary: seen)
  case (Cons r rs)
  show ?case
  proof (cases "merge_rows (br_model r # seen) rs")
    case (Inl e)
    then show ?thesis using Cons.IH[of "br_model r # seen"] by (auto split: if_splits)
  next
    case (Inr rows)
    then show ?thesis using Cons.IH[of "br_model r # seen"] by (auto split: if_splits)
  qed
qed simp

lemma card_set_ne: "xs \<noteq> [] \<Longrightarrow> \<not> 1 < card (set xs) \<longleftrightarrow> card (set xs) = 1"
  by (cases xs) (auto simp: card_gt_0_iff not_less le_Suc_eq)

text \<open>
  Arms merge exactly when there is one, all compare the same purpose on as many queries, and no model
  occurs twice; the merged report then has every row of every arm in their order.
\<close>

theorem merge_keeps_every_row:
  "map_sum (\<lambda>e. ()) pb_rows (merge_bakeoffs latest sorted_text arms) =
     (if arms \<noteq> [] \<and> card (set (map pb_purpose arms)) = 1 \<and> card (set (map pb_queries arms)) = 1
         \<and> distinct (map br_model (concat (map pb_rows arms)))
      then Inr (concat (map pb_rows arms)) else Inl ())"
proof (cases arms)
  case Nil
  then show ?thesis by (simp add: merge_bakeoffs_def)
next
  case (Cons a as)
  have ne: "map pb_purpose arms \<noteq> []" "map pb_queries arms \<noteq> []" using Cons by simp_all
  note one = card_set_ne[OF ne(1)] card_set_ne[OF ne(2)]
  show ?thesis
  proof (cases "merge_rows [] (concat (map pb_rows arms))")
    case (Inl e)
    then show ?thesis using merge_rows_eq[of "[]" "concat (map pb_rows arms)"] Cons one
      by (auto simp: merge_bakeoffs_def Let_def split: if_splits)
  next
    case (Inr rows)
    then show ?thesis using merge_rows_eq[of "[]" "concat (map pb_rows arms)"] Cons one
      by (auto simp: merge_bakeoffs_def Let_def split: if_splits)
  qed
qed

section \<open>A model that fails\<close>

lemma failed_synthesis_answers:
  assumes "missing_entity_answer query outs = None" "model_fails env"
  shows "\<exists>x. synthesize_response env query outs ctx budget ledger cid = Inr x \<and> sx_ledger x = ledger"
proof -
  obtain payload trunc where p: "prepared_prompt env query outs ctx = (payload, trunc)" by force
  obtain b' t where w: "synthesis_window env
      (snd (measure_synthesis_prompt query (session_context_block ctx) payload)) budget = (b', t)" by force
  from model_answer_fails [OF assms(2)] obtain e
    where e: "model_answer env query outs ctx t = Inl e" "e \<noteq> Cancelled" by blast
  then show ?thesis by (simp add: synthesize_response_def assms(1) p w Let_def)
qed


definition silent_env :: synthesis_env where
  "silent_env = stalled_env\<lparr>se_prompt_budget := 100000, se_model := \<lambda>m. Streaming [] TimedOut\<rparr>"

definition frozen_demo :: frozen_payload where
  "frozen_demo =
     \<lparr>fp_id = ''q1'', fp_query = ''where is y defined?'', fp_tier = ''simple'', fp_out_of_scope = False,
      fp_agents = [''graph_query''], fp_entities = [],
      fp_outputs = [(''graph_query'', PyDict [(''agent'', PyStr ''graph_query''), (''ok'', PyBool True),
        (''output'', PyDict [(''entities'', PyList [PyDict [(''qualified_name'', PyStr ''a.y''),
           (''file_path'', PyStr ''a.py''), (''line_start'', PyInt 2), (''line_end'', PyInt 2)]])]),
        (''error'', PyNone), (''degraded_note'', PyNone), (''tools_invoked'', PyList [])])],
      fp_captured_at = ''''\<rparr>"

lemma silent_answer:
  assumes "missing_entity_answer query outs = None"
  shows "\<exists>x. synthesize_response silent_env query outs ctx budget ledger cid = Inr x
    \<and> sr_answer (sx_result x) = render_evidence_answer query outs (Some ''TimeoutError'') \<and> sx_ledger x = ledger"
proof -
  obtain payload trunc where p: "prepared_prompt silent_env query outs ctx = (payload, trunc)" by force
  obtain b' t where w: "synthesis_window silent_env
      (snd (measure_synthesis_prompt query (session_context_block ctx) payload)) budget = (b', t)" by force
  have run: "se_model silent_env m = Streaming [] TimedOut" for m by (simp add: silent_env_def)
  have "model_answer silent_env query outs ctx t =
      attempt_result (se_seconds silent_env t) TimedOut"
    by (simp add: model_answer_def Let_def await_with_timeout_retry_def retry_loop_Suc run)
  then show ?thesis
    by (simp add: synthesize_response_def assms p w Let_def evidence_fallback_def run strip_def
        lstrip_def rstrip_def)
qed

lemma all_results_total: "(\<And>x. \<exists>y. f x = Inr y) \<Longrightarrow> \<exists>ys. all_results f xs = Inr ys"
proof (induction xs)
  case (Cons x xs)
  then obtain y ys where "f x = Inr y" "all_results f xs = Inr ys" by blast
  then show ?case by simp
qed simp

lemma demo_precision: "\<exists>r. score_citation_precision demo_scorer answer = Inr r"
proof -
  have "\<exists>b. citation_exists demo_scorer path line = Inr b" for path line
    by (auto simp: citation_exists_def demo_scorer_def citation_exists_on_disk_def split: sum.splits)
  then have "\<exists>y. then_do (citation_exists demo_scorer (fst c) (snd c)) (\<lambda>ok. Inr (c, ok)) = Inr y" for c
    by (auto simp: then_do_Inr)
  then have "\<exists>ys. all_results (\<lambda>c. then_do (citation_exists demo_scorer (fst c) (snd c)) (\<lambda>ok. Inr (c, ok)))
      (extract_citations answer) = Inr ys"
    by (rule all_results_total)
  then obtain ys where "all_results (\<lambda>c. then_do (citation_exists demo_scorer (fst c) (snd c))
      (\<lambda>ok. Inr (c, ok))) (extract_citations answer) = Inr ys" ..
  then show ?thesis unfolding score_citation_precision_def Let_def by simp
qed


section \<open>Saving and loading\<close>

lemma stored_outputs_payload:
  "list_all (\<lambda>(a, ao). ao_agent ao = a) outs \<Longrightarrow> stored_outputs (agent_payload_dict outs) = outs"
proof (induction outs)
  case (Cons e outs)
  obtain a ao where e: "e = (a, ao)" by force
  have "stored_output (agent_str a, dump_output ao) = Some (a, ao)"
    using Cons.prems unfolding e
    by (cases ao; cases a; cases "ao_error ao"; cases "ao_note ao")
      (simp_all add: stored_output_def dump_output_def dget_def opt_str_def text_or_none_def texts_of_def
        comp_def py_str_def)
  with Cons show ?case by (simp add: stored_outputs_def agent_payload_dict_def e)
qed (simp add: stored_outputs_def agent_payload_dict_def)

lemma frozen_payload_read_back:
  assumes "fp_id p \<noteq> []" "fp_tier p \<noteq> []"
  shows "payload_from_mapping (payload_mapping p) = Inr p"
  using assms
  by (simp add: payload_from_mapping_def payload_mapping_def field_or_def dget_def texts_of_def comp_def
      py_str_def)

definition spread_values :: "mean_spread \<Rightarrow> real set" where
  "spread_values m = {ms_mean m, ms_spread m} \<union> set (ms_values m)"

definition row_values :: "bakeoff_row \<Rightarrow> real set" where
  "row_values r =
     (\<Union>f\<in>{br_quality, br_trap_pass, br_schema_failure, br_p50, br_p95, br_cost, br_cost_1000}.
        spread_values (f r))"

definition readable :: "float_io \<Rightarrow> real \<Rightarrow> bool" where
  "readable io x \<longleftrightarrow> read_float io (PyFloat (fl io x)) = Inr x"

lemma all_results_map:
  "(\<And>x. x \<in> set xs \<Longrightarrow> f (g x) = Inr x) \<Longrightarrow> all_results f (map g xs) = Inr xs"
  by (induction xs) simp_all

lemma spread_roundtrip:
  assumes "\<And>x. x \<in> spread_values m \<Longrightarrow> readable io x"
  shows "spread_from_payload io (spread_payload io m) = Inr m"
proof -
  have "all_results (read_float io) (map (\<lambda>x. PyFloat (fl io x)) (ms_values m)) = Inr (ms_values m)"
    by (rule all_results_map) (use assms in \<open>simp add: spread_values_def readable_def\<close>)
  moreover have "readable io (ms_mean m)" "readable io (ms_spread m)"
    using assms by (simp_all add: spread_values_def)
  ultimately show ?thesis
    by (simp add: spread_from_payload_def spread_payload_def need_dict_def need_def items_of_def
        readable_def)
qed

lemma row_roundtrip:
  assumes "\<And>x. x \<in> row_values r \<Longrightarrow> readable io x" and "valid_rates io (dump_rates io (br_rates r)) = Inr (br_rates r)"
  shows "row_from_payload io (row_payload io r) = Inr r"
proof -
  have at: "f \<in> {br_quality, br_trap_pass, br_schema_failure, br_p50, br_p95, br_cost, br_cost_1000}
    \<Longrightarrow> spread_from_payload io (spread_payload io (f r)) = Inr (f r)" for f
    by (rule spread_roundtrip) (use assms(1) in \<open>auto simp: row_values_def\<close>)
  note fields = at[of br_quality] at[of br_trap_pass] at[of br_schema_failure] at[of br_p50]
    at[of br_p95] at[of br_cost] at[of br_cost_1000]
  show ?thesis
    using fields assms(2)
    by (simp add: row_from_payload_def row_payload_def need_dict_def need_str_def need_int_def need_def
        Let_def)
qed

definition stamped :: "string \<Rightarrow> purpose_bakeoff \<Rightarrow> purpose_bakeoff" where
  "stamped today r =
     (case pb_captured_at r of Some (c # d) \<Rightarrow> r | _ \<Rightarrow> r\<lparr>pb_captured_at := Some today\<rparr>)"

lemma from_payload_parts:
  assumes "map_of m ''purpose'' = Some (PyStr p)" and "map_of m ''rows'' = Some (PyList (map f rows))"
    and "all_results (row_from_payload io) (map f rows) = Inr rows"
    and "map_of m ''captured_at'' = Some (PyStr d)" and "map_of m ''price_as_of'' = Some (PyStr a)"
    and "map_of m ''repeats'' = Some (PyInt k)" and "map_of m ''n_queries'' = Some (PyInt n)"
    and "map_of m ''notes'' = Some (PyList (map PyStr ns))"
  shows "from_payload io m = Inr \<lparr>pb_purpose = p, pb_rows = rows, pb_captured_at = Some d,
    pb_price_as_of = a, pb_repeats = k, pb_queries = n, pb_notes = ns\<rparr>"
proof -
  have "all_results (\<lambda>v. case v of PyStr s \<Rightarrow> Inr s | _ \<Rightarrow> Inl type_error) (map PyStr ns) = Inr ns"
    by (rule all_results_map) simp
  then show ?thesis
    using assms by (simp add: from_payload_def need_str_def need_int_def need_def items_of_def dget_def)
qed

text \<open>
  C40: A saved report is read back as it was, with the day of the save where it had no date, when floats of
  the report read back from their text and the prices pass their own validation.
\<close>

theorem saved_report_loads:
  assumes "\<And>r x. r \<in> set (pb_rows report) \<Longrightarrow> x \<in> row_values r \<Longrightarrow> readable io x"
    and "\<And>r. r \<in> set (pb_rows report) \<Longrightarrow> valid_rates io (dump_rates io (br_rates r)) = Inr (br_rates r)"
  shows "from_payload io (saved_payload io today report) = Inr (stamped today report)"
proof -
  have "all_results (row_from_payload io) (map (row_payload io) (pb_rows report)) = Inr (pb_rows report)"
    by (rule all_results_map, rule row_roundtrip) (use assms in auto)
  note parts = from_payload_parts[OF _ _ this, where p = "pb_purpose report"
      and a = "pb_price_as_of report" and k = "pb_repeats report" and n = "pb_queries report"
      and ns = "pb_notes report"]
  show ?thesis
  proof (cases "\<exists>c d. pb_captured_at report = Some (c # d)")
    case True
    then obtain c d where day: "pb_captured_at report = Some (c # d)" by blast
    show ?thesis
      by (subst parts[where d = "c # d"])
        (simp_all add: day saved_payload_def to_payload_def dget_def stamped_def Let_def)
  next
    case False
    then have day: "\<not> truthy (dget (to_payload io report) ''captured_at'')"
        "stamped today report = report\<lparr>pb_captured_at := Some today\<rparr>"
      by (auto simp: to_payload_def dget_def stamped_def neq_Nil_conv split: option.splits list.splits)
    show ?thesis
      by (subst parts[where d = today])
        (simp_all add: day(2) saved_payload_def Let_def day(1), simp_all add: to_payload_def)
  qed
qed

definition exact_io :: float_io where
  "exact_io = \<lparr>fl = (\<lambda>x. if x = 0 then ''0.0'' else if x = 1 then ''1.0'' else ''0.5''),
     read_float = (\<lambda>v. case v of PyFloat t \<Rightarrow>
        if t = ''0.0'' then Inr 0 else if t = ''1.0'' then Inr 1 else if t = ''0.5'' then Inr (1 / 2)
        else Inl (value_error t) | _ \<Rightarrow> Inl type_error),
     dump_rates = (\<lambda>r. PyStr ''default''), valid_rates = (\<lambda>v. Inr default_rates)\<rparr>"

definition sample_report :: purpose_bakeoff where
  "sample_report =
     (let half = \<lparr>ms_mean = 1 / 2, ms_spread = 1 / 2, ms_values = [0, 1]\<rparr>;
          zero = \<lparr>ms_mean = 0, ms_spread = 0, ms_values = []\<rparr>
      in \<lparr>pb_purpose = ''routing'',
          pb_rows = [\<lparr>br_model = ''a'', br_quality = half, br_trap_pass = half, br_schema_failure = zero,
            br_p50 = half, br_p95 = half, br_cost = zero, br_cost_1000 = zero, br_rates = default_rates,
            br_price_label = ''list'', br_repeats = 2\<rparr>],
          pb_captured_at = None, pb_price_as_of = ''2026-01-01'', pb_repeats = 2, pb_queries = 3,
          pb_notes = [''n'']\<rparr>)"

theorem saved_report_loads_witness:
  "from_payload exact_io (saved_payload exact_io ''2026-02-01'' sample_report)
     = Inr (sample_report\<lparr>pb_captured_at := Some ''2026-02-01''\<rparr>)"
proof -
  have "from_payload exact_io (saved_payload exact_io ''2026-02-01'' sample_report)
      = Inr (stamped ''2026-02-01'' sample_report)"
    by (rule saved_report_loads)
      (auto simp: sample_report_def Let_def row_values_def spread_values_def readable_def exact_io_def)
  then show ?thesis by (simp add: stamped_def sample_report_def Let_def)
qed

section \<open>The chosen truncation order\<close>

text \<open>
  The chosen order was measured and no measured order is better by a billionth or more.
\<close>

theorem chosen_order_is_best:
  assumes "scores \<noteq> []"
  shows "list_ex (\<lambda>s. os_order s = choose_truncation_order scores
    \<and> list_all (\<lambda>t. order_combo t < order_combo s + 1 / 1000000000) scores) scores"
proof -
  let ?best = "Max (set (map order_combo scores))"
  let ?tied = "filter (\<lambda>s. \<bar>order_combo s - ?best\<bar> < 1 / 1000000000) scores"
  have "?best \<in> set (map order_combo scores)" by (rule Max_in) (use assms in simp_all)
  then obtain b where "b \<in> set scores" "order_combo b = ?best" by auto
  then have b: "b \<in> set ?tied" by simp
  have "os_order b \<in> set compared_orders" by (cases "os_order b") (simp_all add: compared_orders_def)
  then obtain o' where o': "find (\<lambda>o'. o' \<in> set (map os_order ?tied)) compared_orders = Some o'"
    using b by (metis (mono_tags, lifting) find_None_iff image_eqI list.set_map not_None_eq)
  then have "o' \<in> set (map os_order ?tied)" by (auto simp: find_Some_iff)
  then obtain s where s: "s \<in> set ?tied" "os_order s = o'" by auto
  have "choose_truncation_order scores = o'"
    using o' assms by (simp add: choose_truncation_order_def Let_def)
  moreover have "order_combo t < order_combo s + 1 / 1000000000" if "t \<in> set scores" for t
  proof -
    have "order_combo t \<le> ?best" by (rule Max_ge) (use that in simp_all)
    moreover have "\<bar>order_combo s - ?best\<bar> < 1 / 1000000000" using s(1) unfolding set_filter by blast
    ultimately show ?thesis unfolding abs_less_iff by linarith
  qed
  ultimately show ?thesis using s by (auto simp: list_ex_iff list_all_iff)
qed

definition measured_order :: "truncation_order \<Rightarrow> rat \<Rightarrow> order_score" where
  "measured_order o' x = \<lparr>os_order = o', os_precision = Some x, os_groundedness = None\<rparr>"

theorem chosen_order_is_best_witness:
  "list_ex (\<lambda>s. os_order s = Lists_Then_Snippets
    \<and> list_all (\<lambda>t. order_combo t < order_combo s + 1 / 1000000000)
        [measured_order Snippets_Then_Lists (1 / 2), measured_order Lists_Then_Snippets 1])
    [measured_order Snippets_Then_Lists (1 / 2), measured_order Lists_Then_Snippets 1]"
proof -
  let ?scores = "[measured_order Snippets_Then_Lists (1 / 2), measured_order Lists_Then_Snippets 1]"
  have "choose_truncation_order ?scores = Lists_Then_Snippets"
    by (simp add: choose_truncation_order_def measured_order_def order_combo_def mean_of_def
        compared_orders_def List.map_filter_def Let_def)
  then show ?thesis using chosen_order_is_best[of ?scores] by simp
qed

end
