(* ===== verification/Completion.thy ===== *)
theory Completion
  imports Scoring Gateway Patterns
begin

text \<open>
  Completions (\<open>core/llm/provider.py\<close>), the OpenRouter and the offline provider
  (\<open>core/llm/openrouter_provider.py\<close>, \<open>offline_provider.py\<close>) and the choice between providers
  (\<open>core/llm/purpose_router.py\<close>, \<open>factory.py\<close>). A response model of pydantic and the parser of JSON are
  fields of \<open>schema\<close>; the HTTP client is the function that answers a request. Logging is left out.
\<close>

section \<open>Messages and results\<close>

record message =
  msg_role :: string
  msg_text :: string

text \<open>
  What a call gives: text, a mapping, an instance of the response model, another model (by its dump),
  or a value of another type.
\<close>

datatype 'm raw_reply =
    Raw_Text string
  | Raw_Map pydict
  | Raw_Instance 'm
  | Raw_Model pyval
  | Raw_Other string pyval

record 'm schema =
  sm_loads :: "string \<Rightarrow> string + pyval"
  sm_validate :: "pyval \<Rightarrow> string + 'm"
  sm_json :: "'m \<Rightarrow> string"
  sm_dump_json :: "pyval \<Rightarrow> string"

record 'm llm_result =
  lr_text :: string
  lr_parsed :: "'m option"
  lr_usage :: token_usage
  lr_attempts :: nat
  lr_first_valid :: bool


definition validated :: "'m schema \<Rightarrow> string \<Rightarrow> pyval \<Rightarrow> 'm result" where
  "validated sc agent data =
     (case sm_validate sc data of Inl e \<Rightarrow> Inl (SchemaValidationError agent e) | Inr m \<Rightarrow> Inr m)"

definition parse_structured :: "'m schema \<Rightarrow> string \<Rightarrow> 'm raw_reply \<Rightarrow> 'm result" where
  "parse_structured sc agent raw =
     (case raw of
        Raw_Instance m \<Rightarrow> Inr m
      | Raw_Model v \<Rightarrow> validated sc agent v
      | Raw_Text s \<Rightarrow>
          (case sm_loads sc s of
             Inl e \<Rightarrow> Inl (SchemaValidationError agent (''invalid JSON: '' @ e))
           | Inr v \<Rightarrow> validated sc agent v)
      | Raw_Map m \<Rightarrow> validated sc agent (PyDict m)
      | Raw_Other cls v \<Rightarrow> Inl (SchemaValidationError agent (''unsupported response type: '' @ cls)))"

definition as_text :: "'m schema \<Rightarrow> 'm raw_reply \<Rightarrow> string" where
  "as_text sc raw =
     (case raw of
        Raw_Text s \<Rightarrow> s
      | Raw_Instance m \<Rightarrow> sm_json sc m
      | Raw_Model v \<Rightarrow> sm_dump_json sc v
      | Raw_Map m \<Rightarrow> json_flat (PyDict m)
      | Raw_Other cls v \<Rightarrow> json_flat v)"

section \<open>The retry on schema errors\<close>

definition max_schema_attempts :: nat where
  "max_schema_attempts = 2"

definition validation_retry_prompt :: "string \<Rightarrow> string" where
  "validation_retry_prompt e =
     ''The previous response failed schema validation:'' @ newline @ e @ newline
     @ ''Reply with valid JSON matching the required schema.''"

definition retry_message :: "exn \<Rightarrow> message" where
  "retry_message e = \<lparr>msg_role = ''user'', msg_text = validation_retry_prompt (exn_str e)\<rparr>"

type_synonym ('m, 'w) llm_invoke = "message list \<Rightarrow> 'w \<Rightarrow> ('m raw_reply \<times> token_usage option) result \<times> 'w"

definition usage_or_estimate :: "message list \<Rightarrow> string \<Rightarrow> token_usage option \<Rightarrow> token_usage" where
  "usage_or_estimate messages reply usage =
     (case usage of Some u \<Rightarrow> u | None \<Rightarrow> estimate_usage (map msg_text messages) reply)"

fun schema_attempts ::
    "('m, 'w) llm_invoke \<Rightarrow> 'm schema \<Rightarrow> string \<Rightarrow> nat \<Rightarrow> nat \<Rightarrow> message list \<Rightarrow> exn \<Rightarrow> 'w
      \<Rightarrow> 'm llm_result result \<times> 'w" where
  "schema_attempts llm_invoke sc agent 0 i current last_error w = (Inl last_error, w)"
| "schema_attempts llm_invoke sc agent (Suc n) i current last_error w =
     (case llm_invoke current w of
        (Inl e, w') \<Rightarrow> (Inl e, w')
      | (Inr (raw, usage), w') \<Rightarrow>
          (case parse_structured sc agent raw of
             Inr m \<Rightarrow>
               (Inr \<lparr>lr_text = as_text sc raw, lr_parsed = Some m,
                     lr_usage = usage_or_estimate current (as_text sc raw) usage,
                     lr_attempts = i + 1, lr_first_valid = (i = 0)\<rparr>, w')
           | Inl e \<Rightarrow> schema_attempts llm_invoke sc agent n (i + 1) (current @ [retry_message e]) e w'))"

definition complete_with_schema_retry ::
    "('m, 'w) llm_invoke \<Rightarrow> 'm schema \<Rightarrow> bool \<Rightarrow> string \<Rightarrow> message list \<Rightarrow> 'w \<Rightarrow> 'm llm_result result \<times> 'w" where
  "complete_with_schema_retry llm_invoke sc structured agent messages w =
     (if structured
      then schema_attempts llm_invoke sc agent max_schema_attempts 0 messages
             (SchemaValidationError agent ''schema validation failed'') w
      else
        (case llm_invoke messages w of
           (Inl e, w') \<Rightarrow> (Inl e, w')
         | (Inr (raw, usage), w') \<Rightarrow>
             (Inr \<lparr>lr_text = as_text sc raw, lr_parsed = None,
                   lr_usage = usage_or_estimate messages (as_text sc raw) usage,
                   lr_attempts = 1, lr_first_valid = True\<rparr>, w')))"

section \<open>OpenRouter\<close>

text \<open>
  A chat response as far as the code reads it: the tool call arguments and the content of each choice,
  and the attributes of the usage. A usage whose counts are not integers is not used.
\<close>

record chat_choice =
  ch_tool_arguments :: "string list"
  ch_content :: "string option"

record chat_response =
  cr_choices :: "chat_choice list"
  cr_usage :: "pydict option"

definition as_int :: "pyval \<Rightarrow> int option" where
  "as_int v = (case v of PyInt i \<Rightarrow> Some i | PyBool b \<Rightarrow> Some (if b then 1 else 0) | _ \<Rightarrow> None)"

definition int_attr :: "pyval \<Rightarrow> string list \<Rightarrow> int" where
  "int_attr payload names =
     (case payload of
        PyDict m \<Rightarrow>
          (case find (\<lambda>v. 0 \<le> v) (List.map_filter (\<lambda>k. as_int (dget m k)) names) of
             Some v \<Rightarrow> v | None \<Rightarrow> 0)
      | _ \<Rightarrow> 0)"

definition cached_tokens_of :: "pydict option \<Rightarrow> int" where
  "cached_tokens_of usage =
     (case usage of
        None \<Rightarrow> 0
      | Some m \<Rightarrow>
          (let cached = int_attr (dget m ''prompt_tokens_details'')
                 [''cached_tokens'', ''cache_read_input_tokens'', ''cached_prompt_tokens'']
           in if cached \<noteq> 0 then cached
              else int_attr (PyDict m)
                     [''cache_read_input_tokens'', ''cached_tokens'', ''prompt_cache_hit_tokens'']))"

text \<open>\<open>_stream_usage\<close>, and the first branch of \<open>_extract_usage\<close>\<close>

definition reported_usage :: "string \<Rightarrow> pydict option \<Rightarrow> token_usage option" where
  "reported_usage model usage =
     (case usage of
        None \<Rightarrow> None
      | Some m \<Rightarrow>
          (case (as_int (dget m ''prompt_tokens''), as_int (dget m ''completion_tokens''),
                 as_int (dget m ''total_tokens'')) of
             (Some p, Some c, Some t) \<Rightarrow>
               Some \<lparr>prompt_tokens = p, completion_tokens = c, total_tokens = t, usage_model = Some model,
                     cached_prompt_tokens = cached_tokens_of usage\<rparr>
           | _ \<Rightarrow> None))"

definition extract_payload :: "chat_response \<Rightarrow> string" where
  "extract_payload r =
     (case cr_choices r of
        [] \<Rightarrow> ''''
      | c # cs \<Rightarrow>
          (case ch_tool_arguments c of
             a # as \<Rightarrow> a
           | [] \<Rightarrow> (case ch_content c of None \<Rightarrow> '''' | Some t \<Rightarrow> t)))"

definition extract_usage :: "string \<Rightarrow> message list \<Rightarrow> string \<Rightarrow> chat_response \<Rightarrow> token_usage" where
  "extract_usage model messages raw r =
     (case reported_usage model (cr_usage r) of
        Some u \<Rightarrow> u
      | None \<Rightarrow> (estimate_usage (map msg_text messages) raw)\<lparr>usage_model := Some model\<rparr>)"

definition supports_explicit_prompt_cache :: "string \<Rightarrow> bool" where
  "supports_explicit_prompt_cache model \<longleftrightarrow> starts_with model ''anthropic/''"

definition plain_message :: "message \<Rightarrow> pyval" where
  "plain_message m = PyDict [(''role'', PyStr (msg_role m)), (''content'', PyStr (msg_text m))]"

definition cached_message :: "message \<Rightarrow> pyval" where
  "cached_message m =
     PyDict [(''role'', PyStr ''system''),
             (''content'', PyList [PyDict [(''type'', PyStr ''text''), (''text'', PyStr (msg_text m)),
                (''cache_control'', PyDict [(''type'', PyStr ''ephemeral'')])]])]"

text \<open>The first system message, when it is to be cached, is sent with the marker.\<close>

fun serialize_messages :: "bool \<Rightarrow> message list \<Rightarrow> pyval list" where
  "serialize_messages cache_system [] = []"
| "serialize_messages cache_system (m # ms) =
     (if cache_system \<and> msg_role m = ''system'' then cached_message m # serialize_messages False ms
      else plain_message m # serialize_messages cache_system ms)"

record openrouter =
  op_settings :: llm_settings
  op_prompt_cache :: bool
  op_model_override :: "string option"
  op_temperature :: "string option"

definition model_for :: "openrouter \<Rightarrow> purpose \<Rightarrow> string" where
  "model_for pv p =
     (case op_model_override pv of
        Some (c # m) \<Rightarrow> c # m
      | _ \<Rightarrow> resolve_model (op_settings pv) p)"

definition should_cache_system :: "openrouter \<Rightarrow> string \<Rightarrow> bool" where
  "should_cache_system pv model \<longleftrightarrow> op_prompt_cache pv \<and> supports_explicit_prompt_cache model"

definition tool_schema :: "pydict \<Rightarrow> pydict" where
  "tool_schema json_schema =
     (let s = filter (\<lambda>(k, v). k \<noteq> ''$schema'') json_schema;
          s1 = map (\<lambda>(k, v). (k, case v of
                 PyDict m \<Rightarrow> (if k = ''properties'' then PyDict (filter (\<lambda>(k, v). k \<noteq> ''usage'') m) else v)
               | PyList xs \<Rightarrow> (if k = ''required'' then PyList (filter (\<lambda>x. x \<noteq> PyStr ''usage'') xs) else v)
               | _ \<Rightarrow> v)) s
      in if dget s1 ''type'' = PyStr ''object'' then s1 else dset ''type'' (PyStr ''object'') s1)"

definition tool_fields :: "string \<Rightarrow> pydict \<Rightarrow> pydict" where
  "tool_fields model_name json_schema =
     [(''tools'', PyList [PyDict [(''type'', PyStr ''function''), (''function'', PyDict
         [(''name'', PyStr ''emit_result''),
          (''description'', PyStr (''Return a result matching the '' @ model_name @ '' schema.'')),
          (''parameters'', PyDict (tool_schema json_schema))])]]),
      (''tool_choice'', PyDict [(''type'', PyStr ''function''),
         (''function'', PyDict [(''name'', PyStr ''emit_result'')])])]"

text \<open>
  The request of \<open>_invoke\<close> and, with \<open>streaming\<close>, of \<open>stream\<close>: \<open>structured\<close> is the name and the JSON
  schema of the response model, \<open>temperature\<close> that of the call.
\<close>

definition request_payload ::
    "openrouter \<Rightarrow> purpose \<Rightarrow> message list \<Rightarrow> nat \<Rightarrow> string option \<Rightarrow> (string \<times> pydict) option \<Rightarrow> bool \<Rightarrow> pydict" where
  "request_payload pv p messages max_tokens temperature structured streaming =
     (let model = model_for pv p;
          temp = (case temperature of None \<Rightarrow> op_temperature pv | Some t \<Rightarrow> Some t)
      in [(''model'', PyStr model), (''max_tokens'', PyInt (int max_tokens)),
          (''messages'', PyList
            (if messages = [] then [PyDict [(''role'', PyStr ''user''), (''content'', PyStr ''(empty)'')]]
             else serialize_messages (should_cache_system pv model) messages))]
         @ (if streaming
            then [(''stream'', PyBool True), (''stream_options'', PyDict [(''include_usage'', PyBool True)])] else [])
         @ (case temp of None \<Rightarrow> [] | Some t \<Rightarrow> [(''temperature'', PyFloat t)])
         @ (case structured of None \<Rightarrow> [] | Some (name, s) \<Rightarrow> tool_fields name s))"

definition openrouter_invoke ::
    "openrouter \<Rightarrow> (pydict \<Rightarrow> 'w \<Rightarrow> chat_response result \<times> 'w) \<Rightarrow> purpose \<Rightarrow> nat \<Rightarrow> string option
      \<Rightarrow> (string \<times> pydict) option \<Rightarrow> ('m, 'w) llm_invoke" where
  "openrouter_invoke pv post p max_tokens temperature structured messages w =
     (case post (request_payload pv p messages max_tokens temperature structured False) w of
        (Inl e, w') \<Rightarrow> (Inl e, w')
      | (Inr r, w') \<Rightarrow>
          (Inr (Raw_Text (extract_payload r),
                Some (extract_usage (model_for pv p) messages (extract_payload r) r)), w'))"

definition openrouter_complete ::
    "openrouter \<Rightarrow> (pydict \<Rightarrow> 'w \<Rightarrow> chat_response result \<times> 'w) \<Rightarrow> 'm schema \<Rightarrow> (string \<times> pydict) option
      \<Rightarrow> purpose \<Rightarrow> string \<Rightarrow> nat \<Rightarrow> string option \<Rightarrow> message list \<Rightarrow> 'w \<Rightarrow> 'm llm_result result \<times> 'w" where
  "openrouter_complete pv post sc structured p agent max_tokens temperature messages w =
     complete_with_schema_retry (openrouter_invoke pv post p max_tokens temperature structured) sc
       (structured \<noteq> None) agent messages w"

text \<open>A chunk of a stream: the content of the delta of its first choice, and the usage.\<close>

record stream_chunk =
  sk_content :: "string option"
  sk_usage :: "pydict option"

definition delta_text :: "stream_chunk \<Rightarrow> string" where
  "delta_text k = (case sk_content k of None \<Rightarrow> '''' | Some t \<Rightarrow> t)"

text \<open>What \<open>stream\<close> yields for free text when the chunks come to their end.\<close>

definition openrouter_stream ::
    "openrouter \<Rightarrow> purpose \<Rightarrow> message list \<Rightarrow> stream_chunk list \<Rightarrow> (string \<times> token_usage option) list" where
  "openrouter_stream pv p messages chunks =
     (let usage = fold (\<lambda>k u. case reported_usage (model_for pv p) (sk_usage k) of None \<Rightarrow> u | Some v \<Rightarrow> Some v)
                    chunks None
      in map (\<lambda>t. (t, None)) (filter (\<lambda>t. t \<noteq> []) (map delta_text chunks))
         @ [('''', Some (case usage of Some u \<Rightarrow> u | None \<Rightarrow> estimate_usage (map msg_text messages) ''''))])"

section \<open>What a completion costs\<close>

lemma parse_structured_error: "parse_structured sc agent raw = Inl e \<Longrightarrow> \<exists>m. e = SchemaValidationError agent m"
  by (auto simp: parse_structured_def validated_def split: raw_reply.splits sum.splits)

lemma schema_attempts_two:
  "schema_attempts llm_invoke sc agent max_schema_attempts 0 messages err w =
     (case llm_invoke messages w of
        (Inl e, w1) \<Rightarrow> (Inl e, w1)
      | (Inr (raw, usage), w1) \<Rightarrow>
          (case parse_structured sc agent raw of
             Inr m \<Rightarrow> (Inr \<lparr>lr_text = as_text sc raw, lr_parsed = Some m,
                            lr_usage = usage_or_estimate messages (as_text sc raw) usage,
                            lr_attempts = 1, lr_first_valid = True\<rparr>, w1)
           | Inl e \<Rightarrow>
               (case llm_invoke (messages @ [retry_message e]) w1 of
                  (Inl e', w2) \<Rightarrow> (Inl e', w2)
                | (Inr (raw', usage'), w2) \<Rightarrow>
                    (case parse_structured sc agent raw' of
                       Inr m \<Rightarrow> (Inr \<lparr>lr_text = as_text sc raw', lr_parsed = Some m,
                                      lr_usage = usage_or_estimate (messages @ [retry_message e])
                                                   (as_text sc raw') usage',
                                      lr_attempts = 2, lr_first_valid = False\<rparr>, w2)
                     | Inl e' \<Rightarrow> (Inl e', w2)))))"
  by (simp add: max_schema_attempts_def numeral_2_eq_2 split: prod.splits sum.splits)

text \<open>
  A structured completion makes one or two calls, the second with the error of the first appended; it
  returns the reply of the last call if that fits the response model, and is marked as valid at once
  exactly when there was one call.
\<close>

theorem completion_is_valid_reply:
  assumes "complete_with_schema_retry llm_invoke sc True agent messages w = (Inr r, w')"
  shows "\<exists>asked w1 raw usage m. llm_invoke asked w1 = (Inr (raw, usage), w') \<and>
    parse_structured sc agent raw = Inr m \<and> lr_parsed r = Some m \<and> lr_text r = as_text sc raw \<and>
    lr_usage r = usage_or_estimate asked (as_text sc raw) usage \<and>
    (if lr_first_valid r then lr_attempts r = 1 \<and> asked = messages
     else lr_attempts r = 2 \<and> (\<exists>e. asked = messages @ [retry_message (SchemaValidationError agent e)]))"
  using assms unfolding complete_with_schema_retry_def schema_attempts_two
  by (fastforce split: prod.splits sum.splits if_splits dest: parse_structured_error)

text \<open>The routing model of \<open>Router\<close>, on a provider with the retry.\<close>

definition provider_router ::
    "(query_intent, 'w) llm_invoke \<Rightarrow> query_intent schema \<Rightarrow> message \<Rightarrow> 'w \<Rightarrow> router_model" where
  "provider_router llm_invoke sc system w prompt =
     (case fst (complete_with_schema_retry llm_invoke sc True ''orchestrator''
             [system, \<lparr>msg_role = ''user'', msg_text = prompt\<rparr>] w) of
        Inl e \<Rightarrow> Inl e
      | Inr r \<Rightarrow> Inr (lr_parsed r, lr_usage r))"

definition never_valid :: "('m, 'w) llm_invoke \<Rightarrow> 'm schema \<Rightarrow> string \<Rightarrow> bool" where
  "never_valid llm_invoke sc agent \<longleftrightarrow>
     (\<forall>ms w. \<exists>raw usage w' e. llm_invoke ms w = (Inr (raw, usage), w') \<and> parse_structured sc agent raw = Inl e)"

lemma never_valid_fails:
  assumes "never_valid llm_invoke sc agent"
  shows "\<exists>m. fst (complete_with_schema_retry llm_invoke sc True agent messages w)
    = Inl (SchemaValidationError agent m)"
proof -
  from assms obtain raw usage w1 e
    where one: "llm_invoke messages w = (Inr (raw, usage), w1)" "parse_structured sc agent raw = Inl e"
    unfolding never_valid_def by blast
  from assms obtain raw' usage' w2 e'
    where two: "llm_invoke (messages @ [retry_message e]) w1 = (Inr (raw', usage'), w2)"
      "parse_structured sc agent raw' = Inl e'"
    unfolding never_valid_def by blast
  from parse_structured_error [OF two(2)] show ?thesis
    by (auto simp: complete_with_schema_retry_def schema_attempts_two one two)
qed

text \<open>
  Calls whose replies do not fit the schema are charged to nobody: when the router gives up on the
  model after two paid calls, the ledger is as before, so the budget of the request is too.
\<close>

theorem failed_attempts_are_not_charged:
  assumes "never_valid llm_invoke sc ''orchestrator''"
  shows "analyze_query (provider_router llm_invoke sc system w) n st cid query ctx l
    = (l, Inr (intent_from_rules_fallback n query ctx))"
proof -
  obtain m where "fst (complete_with_schema_retry llm_invoke sc True ''orchestrator''
      [system, \<lparr>msg_role = ''user'', msg_text = router_user_prompt query (prior_entities_block ctx)\<rparr>] w)
      = Inl (SchemaValidationError ''orchestrator'' m)"
    using never_valid_fails [OF assms] by blast
  then show ?thesis by (simp add: analyze_query_def provider_router_def)
qed

section \<open>What a stream costs\<close>

lemma last_usage_snoc: "last_usage (items @ [(t, Some u)]) = Some u"
  by (simp add: last_usage_def)

lemma concat_nonempty: "concat (filter (\<lambda>t. t \<noteq> []) ts) = concat ts"
  by (induction ts) auto

text \<open>
  A free text stream that comes to its end hands on every delta, and its usage is the one the last
  chunk with a usage reported. When no chunk did, the estimate does not count the text that was
  streamed: a long answer costs no completion token, while the same answer in one piece would.
\<close>

theorem unreported_stream_costs_no_completion:
  "complete_synthesis asked (Streaming (openrouter_stream pv p messages chunks) (Finished (Inr ()))) =
     Finished (Inr (concat (map delta_text chunks),
       case fold (\<lambda>k u. case reported_usage (model_for pv p) (sk_usage k) of None \<Rightarrow> u | Some v \<Rightarrow> Some v)
              chunks None of
         Some u \<Rightarrow> u | None \<Rightarrow> estimate_usage (map msg_text messages) ''''))
   \<and> completion_tokens (estimate_usage (map msg_text messages) '''') = 0
   \<and> (completion_tokens (usage_or_estimate messages (c # reply) None) > 0)"
  by (simp add: openrouter_stream_def Let_def last_usage_snoc concat_nonempty comp_def
      estimate_usage_def estimated_tokens_of_def usage_or_estimate_def)

end
