(* ===== verification/Providers.thy ===== *)
theory Providers
  imports Completion
begin

text \<open>
  The provider that needs no key (\<open>core/llm/offline_provider.py\<close>), the dispatch by purpose
  (\<open>core/llm/purpose_router.py\<close>) and the choice of the provider (\<open>core/llm/factory.py\<close>).
\<close>

section \<open>Reading a prompt\<close>

definition offline_note :: string where
  "offline_note = ''Offline analysis stub (set OPENROUTER_API_KEY for full LLM-backed output).''"

definition last_user_content :: "message list \<Rightarrow> string" where
  "last_user_content messages =
     (case find (\<lambda>m. msg_role m = ''user'') (rev messages) of
        Some m \<Rightarrow> msg_text m
      | None \<Rightarrow> (if messages = [] then '''' else msg_text (last messages)))"

definition extract_field :: "string \<Rightarrow> string \<Rightarrow> string" where
  "extract_field prompt label =
     (case find (\<lambda>l. starts_with l (label @ '':'')) (split_lines prompt) of
        Some l \<Rightarrow> strip (tl (dropWhile (\<lambda>c. c \<noteq> CHR '':'') l))
      | None \<Rightarrow> '''')"

text \<open>The flag says whether the heading was seen.\<close>

fun section_items :: "string \<Rightarrow> bool \<Rightarrow> string list \<Rightarrow> string list" where
  "section_items caption inside [] = []"
| "section_items caption inside (l # ls) =
     (if strip l = caption then section_items caption True ls
      else if inside \<and> starts_with (strip l) ''==='' then []
      else if inside \<and> starts_with l ''- '' then strip (drop 2 l) # section_items caption inside ls
      else if inside \<and> strip l \<noteq> [] \<and> CHR '':'' \<in> set l then []
      else section_items caption inside ls)"

definition extract_section_names :: "string \<Rightarrow> string \<Rightarrow> string list" where
  "extract_section_names prompt caption = section_items caption False (split_lines prompt)"

text \<open>A line \<open>=== name ===\<close>\<close>

definition heading_name :: "string \<Rightarrow> string option" where
  "heading_name line =
     (if starts_with line ''=== '' \<and> ends_with line '' ==='' \<and> 9 \<le> length line
      then Some (take (length line - 8) (drop 4 line)) else None)"

definition extract_compare_names :: "string \<Rightarrow> string \<times> string" where
  "extract_compare_names prompt =
     (case List.map_filter heading_name (split_on CHR 0x0A prompt) of
        a # b # rest \<Rightarrow> (a, b)
      | _ \<Rightarrow> (''unknown'', ''unknown''))"

section \<open>Canned replies\<close>

definition or_unknown :: "string \<Rightarrow> string" where
  "or_unknown s = (if s = [] then ''unknown'' else s)"

definition or_none :: "string \<Rightarrow> string option" where
  "or_none s = (if s = [] then None else Some s)"

definition prompt_name :: "string \<Rightarrow> string" where
  "prompt_name prompt = or_unknown (extract_field prompt ''Qualified name'')"

definition offline_function :: "string \<Rightarrow> function_analysis" where
  "offline_function prompt =
     \<lparr>fa_qualified_name = prompt_name prompt,
      fa_summary = ''Offline summary for '' @ prompt_name prompt @ ''.'', fa_purpose = offline_note,
      fa_parameters = extract_section_names prompt ''Parameters:'',
      fa_dependents = extract_section_names prompt ''Dependents:'',
      fa_decorators = extract_section_names prompt ''Decorators:'',
      fa_module = or_none (extract_field prompt ''Module''),
      fa_class_name = or_none (extract_field prompt ''Class''), fa_error = None, fa_usage = None\<rparr>"

definition offline_class :: "string \<Rightarrow> class_analysis" where
  "offline_class prompt =
     \<lparr>ca_qualified_name = prompt_name prompt,
      ca_summary = ''Offline summary for '' @ prompt_name prompt @ ''.'', ca_purpose = offline_note,
      ca_methods = extract_section_names prompt ''Methods:'',
      ca_bases = extract_section_names prompt ''Bases:'',
      ca_decorators = extract_section_names prompt ''Decorators:'',
      ca_module = or_none (extract_field prompt ''Module''), ca_error = None, ca_usage = None\<rparr>"

definition offline_explanation :: "string \<Rightarrow> explanation" where
  "offline_explanation prompt =
     \<lparr>ie_qualified_name = prompt_name prompt,
      ie_explanation = ''Offline explanation for '' @ prompt_name prompt @ ''. '' @ offline_note,
      ie_error = None, ie_usage = None\<rparr>"

text \<open>\<open>instances of the '([^']+)' pattern\<close>, the name in quotes of a match\<close>

definition quoted_pattern_rx :: rx where
  "quoted_pattern_rx =
     seqs [Lit ''instances of the '', Chr (\<lambda>c. c = CHR 0x27), Plus (Chr (\<lambda>c. c \<noteq> CHR 0x27)),
           Chr (\<lambda>c. c = CHR 0x27), Lit '' pattern'']"

definition offline_patterns :: "string \<Rightarrow> pattern_analysis" where
  "offline_patterns prompt =
     (let field = extract_field prompt (''Explain these instances of the '' @ [CHR 0x27])
      in \<lparr>pa_pattern =
            (case find_all quoted_pattern_rx prompt of
               t # ts \<Rightarrow> takeWhile (\<lambda>c. c \<noteq> CHR 0x27) (tl (dropWhile (\<lambda>c. c \<noteq> CHR 0x27) t))
             | [] \<Rightarrow> (if field = [] then ''pattern'' else field)),
          pa_summary = '''',
          pa_instances = map (\<lambda>n. \<lparr>pi_qualified_name = n, pi_subject = '''', pi_file_path = '''',
              pi_line_start = None, pi_line_end = None, pi_explanation = offline_note\<rparr>)
            (extract_section_names prompt ''Instances:''),
          pa_error = None, pa_supported = [], pa_usage = None\<rparr>)"

definition offline_comparison :: "string \<Rightarrow> comparison" where
  "offline_comparison prompt =
     (case extract_compare_names prompt of
        (a, b) \<Rightarrow>
          \<lparr>ic_name_a = a, ic_name_b = b, ic_summary = offline_note,
           ic_similarities = [''Offline comparison stub.''],
           ic_differences = [''Set OPENROUTER_API_KEY for real analysis.''], ic_error = None,
           ic_usage = None\<rparr>)"

definition offline_usage :: "string list \<Rightarrow> string \<Rightarrow> token_usage" where
  "offline_usage messages reply = (estimate_usage messages reply)\<lparr>usage_model := Some ''offline''\<rparr>"

text \<open>The analyst on the offline provider; \<open>dump\<close> is the JSON of a payload.\<close>

definition offline_model ::
    "('a \<Rightarrow> string) \<Rightarrow> (string \<Rightarrow> 'a) \<Rightarrow> 'a model" where
  "offline_model dump canned call =
     Inr \<lparr>re_parsed = Parsed (canned (lc_prompt call)),
          re_usage = offline_usage [lc_system call, lc_prompt call] (dump (canned (lc_prompt call)))\<rparr>"

section \<open>The stream\<close>

definition offline_step :: "string \<Rightarrow> nat" where
  "offline_step reply = max 1 (min 16 (max (length reply div 4) 1))"

definition offline_stream :: "string \<Rightarrow> token_usage \<Rightarrow> (string \<times> token_usage option) list" where
  "offline_stream reply usage =
     (if reply = [] then [('''', Some usage)]
      else
        (let chunks = chunks_of (offline_step reply) reply
         in map (\<lambda>c. (c, None)) (butlast chunks) @ [(last chunks, Some usage)]))"

section \<open>Dispatch and choice\<close>

datatype provider =
    OpenRouter_Provider
  | Offline_Provider
  | Jev_Provider string string real
  | Purpose_Routed provider "(purpose \<times> provider) list"

fun provider_for :: "provider \<Rightarrow> purpose \<Rightarrow> provider" where
  "provider_for (Purpose_Routed default_provider overrides) p =
     (case map_of overrides p of Some v \<Rightarrow> v | None \<Rightarrow> default_provider)"
| "provider_for v p = v"

definition jev_model_id :: string where
  "jev_model_id = ''typesafe/jev-latest''"

definition is_typesafe_model :: "string \<Rightarrow> bool" where
  "is_typesafe_model model \<longleftrightarrow> model = jev_model_id \<or> starts_with model ''typesafe/''"

record typesafe_settings =
  ts_api_key :: "string option"
  ts_base_url :: string
  ts_threshold :: real

definition configuration_error :: "string \<Rightarrow> exn" where
  "configuration_error m = OtherError ''ConfigurationError'' m"

definition build_llm_provider :: "bool \<Rightarrow> llm_settings \<Rightarrow> typesafe_settings \<Rightarrow> provider result" where
  "build_llm_provider has_key st ty =
     (let default_provider = (if has_key then OpenRouter_Provider else Offline_Provider);
          routing = resolve_model st Routing
      in if \<not> is_typesafe_model routing then Inr default_provider
         else if ts_api_key ty = None
         then Inl (configuration_error (''ORCH_MODEL_ROUTING='' @ routing
                @ '' requires a TypeSafe key: set TYPESAFE_API_KEY in the environment, then retry''))
         else Inr (Purpose_Routed default_provider
                [(Routing, Jev_Provider routing (ts_base_url ty) (ts_threshold ty))]))"

section \<open>What is offered\<close>

lemma chunks_of_nonempty: "0 < n \<Longrightarrow> s \<noteq> [] \<Longrightarrow> chunks_of n s \<noteq> []"
  by (simp add: chunks_of_step)

lemma chunk_not_Nil: "0 < n \<Longrightarrow> c \<in> set (chunks_of n s) \<Longrightarrow> c \<noteq> []"
proof (induction n s rule: chunks_of.induct)
  case (1 n s)
  then show ?case by (cases "s = []") (auto simp: chunks_of_step [of n s])
qed

text \<open>
  The stream of the offline provider gives the synthesis the whole reply and the usage of the reply, in
  chunks of at most 16 characters.
\<close>

theorem offline_stream_is_reply:
  "complete_synthesis asked (Streaming (offline_stream reply usage) (Finished (Inr ())))
     = Finished (Inr (reply, usage)) \<and>
   list_all (\<lambda>(c, u). length c \<le> 16) (offline_stream reply usage)"
proof (cases "reply = []")
  case True
  then show ?thesis by (simp add: offline_stream_def last_usage_def)
next
  case False
  let ?n = "offline_step reply" and ?cs = "chunks_of (offline_step reply) reply"
  have n: "0 < ?n" "?n \<le> 16" by (auto simp: offline_step_def)
  have ne: "?cs \<noteq> []" by (rule chunks_of_nonempty [OF n(1) False])
  have "concat (map fst (offline_stream reply usage)) = concat (butlast ?cs @ [last ?cs])"
    using False by (simp add: offline_stream_def Let_def comp_def)
  then have whole: "concat (map fst (offline_stream reply usage)) = reply"
    using ne chunks_of_concat [OF n(1)] by simp
  have size: "length c \<le> 16" if "c \<in> set ?cs" for c
    using chunks_of_sizes [OF n(1) that] n(2) by simp
  have "last_usage (offline_stream reply usage) = Some usage"
    using False by (simp add: offline_stream_def Let_def last_usage_snoc)
  moreover have "list_all (\<lambda>(c, u). length c \<le> 16) (offline_stream reply usage)"
    using size ne last_in_set [OF ne] False
    by (auto simp: offline_stream_def Let_def list_all_iff dest: in_set_butlastD)
  ultimately show ?thesis using whole by simp
qed

text \<open>
  Only routing can leave the provider that the API key selects: it goes to Jev exactly when the routing
  model is one of TypeSafe, and without a TypeSafe key that is an error, never a silent fallback.
\<close>

theorem only_routing_is_redirected:
  "build_llm_provider has_key st ty =
     (if is_typesafe_model (resolve_model st Routing) \<and> ts_api_key ty = None
      then Inl (configuration_error (''ORCH_MODEL_ROUTING='' @ resolve_model st Routing
             @ '' requires a TypeSafe key: set TYPESAFE_API_KEY in the environment, then retry''))
      else Inr (if is_typesafe_model (resolve_model st Routing)
                then Purpose_Routed (if has_key then OpenRouter_Provider else Offline_Provider)
                       [(Routing, Jev_Provider (resolve_model st Routing) (ts_base_url ty) (ts_threshold ty))]
                else if has_key then OpenRouter_Provider else Offline_Provider)) \<and>
   map_sum id (\<lambda>v. map (provider_for v) [Synthesis, Analysis, Summarization]) (build_llm_provider has_key st ty)
     = map_sum id (\<lambda>v. replicate 3 (if has_key then OpenRouter_Provider else Offline_Provider))
         (build_llm_provider has_key st ty)"
  by (auto simp: build_llm_provider_def Let_def numeral_3_eq_3)

text \<open>
  The offline replies read the sections of a prompt: the bullets below a heading, up to the next line
  that is no bullet and has a colon.
\<close>

lemma strip_bullet: "strip (''- '' @ i) \<noteq> [] \<and> hd (strip (''- '' @ i)) = CHR ''-''"
proof -
  have "rstrip (CHR ''-'' # s) = CHR ''-'' # rstrip s" for s
    by (auto simp: rstrip_def dropWhile_append is_space_def in_range_def)
  then show ?thesis by (simp add: strip_def lstrip_def is_space_def in_range_def)
qed

theorem section_items_are_bullets:
  assumes "hd caption \<noteq> CHR ''-''" "strip stop \<noteq> caption" "CHR '':'' \<in> set stop"
    and "\<not> starts_with stop ''- ''" "strip stop \<noteq> []"
  shows "section_items caption True (map (\<lambda>i. ''- '' @ i) items @ stop # rest) = map strip items"
proof (induction items)
  case Nil
  then show ?case using assms by simp
next
  case (Cons i items)
  have "strip (''- '' @ i) \<noteq> caption" "\<not> starts_with (strip (''- '' @ i)) ''===''"
    using strip_bullet [of i] assms(1) by (cases "strip (''- '' @ i)"; auto)+
  then show ?case using Cons by simp
qed

end
