(* ===== verification/JevRouting.thy ===== *)
theory JevRouting
  imports Providers Orchestrator
begin

text \<open>
  Routing by TypeSafe's Jev (\<open>core/llm/jev_provider.py\<close>): the question is read back from the rendered
  prompt, one batch of questions is posted, with a retry, and the answers become an intent. \<open>float()\<close>,
  \<open>int()\<close> and the formatting of a probability are fields of \<open>jev_io\<close>; the HTTP client is what the attempts
  meet.
\<close>

section \<open>Reading the prompt back\<close>

definition jev_error :: "string \<Rightarrow> exn" where
  "jev_error m = OtherError ''JevRoutingError'' m"

definition prior_prefix :: string where
  "prior_prefix = ''Previously mentioned entities (resolve referring expressions against these): ''"

text \<open>The text after the first occurrence of a mark, and the text before it.\<close>

fun cut_at :: "string \<Rightarrow> string \<Rightarrow> (string \<times> string) option" where
  "cut_at mark [] = (if mark = [] then Some ([], []) else None)"
| "cut_at mark (c # s) =
     (if starts_with (c # s) mark then Some ([], drop (length mark) (c # s))
      else (case cut_at mark s of None \<Rightarrow> None | Some (a, b) \<Rightarrow> Some (c # a, b)))"

text \<open>
  \<open>_PROMPT_RE.search\<close>: both groups are lazy, so the query ends at the first line break and the block at
  the first \<open>Decide:\<close> line after it; when the first \<open>User query:\<close> does not lead to one, no other does.
\<close>

definition match_prompt :: "string \<Rightarrow> (string \<times> string) option" where
  "match_prompt content =
     (case cut_at (''User query:'' @ newline) content of
        None \<Rightarrow> None
      | Some (before, rest) \<Rightarrow>
          (case partition_at CHR 0x0A rest of
             (query, True, after) \<Rightarrow>
               (case cut_at (newline @ ''Decide:'' @ newline) after of
                  None \<Rightarrow> None | Some (block, b) \<Rightarrow> Some (query, block))
           | _ \<Rightarrow> None))"

definition prior_entities_of :: "string \<Rightarrow> string list" where
  "prior_entities_of block =
     (if starts_with block prior_prefix
      then filter (\<lambda>e. e \<noteq> []) (map strip (split_on CHR '','' (drop (length prior_prefix) block)))
      else [])"

fun parse_routing_prompt :: "message list \<Rightarrow> (string \<times> string list) result" where
  "parse_routing_prompt [] = Inl (jev_error ''no user message matched the router prompt template'')"
| "parse_routing_prompt (m # ms) =
     (if msg_role m = ''user''
      then (case match_prompt (msg_text m) of
              Some (query, block) \<Rightarrow> Inr (strip query, prior_entities_of (strip block))
            | None \<Rightarrow> parse_routing_prompt ms)
      else parse_routing_prompt ms)"

definition read_routing_prompt :: "message list \<Rightarrow> (string \<times> string list) result" where
  "read_routing_prompt messages = parse_routing_prompt (rev messages)"

section \<open>The questions\<close>

definition quote :: string where "quote = [CHR 0x27]"

definition intent_criteria :: "(string \<times> string) list" where
  "intent_criteria =
     [(''lookup'',
        ''The user wants to locate a specific named symbol, file, or definition in the ''
        @ ''repository. Example: '' @ quote @ ''What is the FastAPI class?'' @ quote),
      (''relationship'',
        ''The user asks how code entities connect to one another -- who calls, imports, ''
        @ ''depends on, inherits from, or subclasses what. Example: '' @ quote @ ''Who calls ''
        @ ''get_openapi?'' @ quote),
      (''explanation'',
        ''The user asks how or why something works and wants prose grounded in the ''
        @ ''repository source. Example: '' @ quote @ ''Explain how dependency injection works here.'' @ quote),
      (''pattern'',
        ''The user asks about recurring design patterns in the code, such as decorators,''
        @ '' dependency injection, or factories, rather than about one named symbol.''),
      (''comparison'',
        ''The user asks for two or more entities to be contrasted with each other. ''
        @ ''Example: '' @ quote @ ''Compare FastAPI and APIRouter.'' @ quote),
      (''indexing'',
        ''The user asks for the repository to be indexed or reindexed. This is a request''
        @ '' to do work on the graph, not a question about code.''),
      (''mixed'',
        ''The request combines two or more of the other kinds and cannot be served by ''
        @ ''one of them alone. Example: '' @ quote @ ''Reindex the repository and then explain ''
        @ ''dependency injection with examples.'' @ quote)]"

fun agent_instructions :: "agent_name \<Rightarrow> string" where
  "agent_instructions Indexer =
     ''Should the indexer agent run for this request? The indexer clones the ''
     @ ''repository and parses its source into the code graph. It is the only writer. ''
     @ ''Answer yes only when the user explicitly asks for the repository to be indexed''
     @ '' or reindexed; answer no when the user is asking a question about code that is''
     @ '' already indexed.''"
| "agent_instructions GraphQuery =
     ''Should the graph query agent run for this request? It is the only reader of ''
     @ ''the code graph: it resolves entity names to nodes and traverses import, call, ''
     @ ''and inheritance edges. Answer yes whenever answering requires locating a ''
     @ ''symbol in the repository or relating symbols to each other, including when the''
     @ '' user asks for codebase examples, source, or implementations.''"
| "agent_instructions CodeAnalyst =
     ''Should the code analyst agent run for this request? It reads source text at ''
     @ ''graph coordinates and produces explanations, comparisons, and design-pattern ''
     @ ''analysis. Answer yes whenever answering requires interpreting or explaining ''
     @ ''code rather than only locating it. Answer no when a bare lookup or a graph ''
     @ ''traversal fully answers the question.''"
| "agent_instructions MemoryAgent =
     ''Should the memory agent run for this request? It stores and retrieves this ''
     @ ''conversation'' @ quote @ ''s own history. Answer yes only when answering requires recalling ''
     @ ''what was said in earlier turns of this conversation; answer no for questions ''
     @ ''about the repository that stand on their own.''"

definition build_questions :: pydict where
  "build_questions =
     (''intent'', PyDict
        [(''type'', PyStr ''choice''),
         (''instructions'', PyStr
           (''What kind of task is the user'' @ quote @ ''s request? Choose the single best fit. Choose ''
            @ quote @ ''mixed'' @ quote @ '' only when the request genuinely combines two or more of the other ''
            @ ''kinds.'')),
         (''criteria'', PyDict (map (\<lambda>(k, t). (k, PyStr t)) intent_criteria))])
     # map (\<lambda>a. (''needs_'' @ agent_str a,
               PyDict [(''type'', PyStr ''noul''), (''instructions'', PyStr (agent_instructions a))]))
         agent_order"

section \<open>From answers to an intent\<close>

record jev_io =
  ji_float :: "pyval \<Rightarrow> real result"
  ji_int :: "pyval \<Rightarrow> int result"
  ji_dec2 :: "real \<Rightarrow> string"
  ji_repr :: "pyval \<Rightarrow> string"

definition intent_choices :: "(string \<times> intent_kind) list" where
  "intent_choices =
     [(''lookup'', Lookup), (''relationship'', Relationship), (''explanation'', Explanation),
      (''pattern'', Pattern), (''comparison'', Comparison), (''indexing'', Indexing), (''mixed'', Mixed)]"

text \<open>\<open>m.get(key) or {}\<close>, on which attributes are read next\<close>

definition sub_dict :: "pydict \<Rightarrow> string \<Rightarrow> pydict result" where
  "sub_dict m k =
     (if \<not> truthy (dget m k) then Inr []
      else (case dget m k of PyDict d \<Rightarrow> Inr d | _ \<Rightarrow> Inl (OtherError ''AttributeError'' ''get'')))"

definition is_number :: "pyval \<Rightarrow> bool" where
  "is_number v = (case v of PyInt i \<Rightarrow> True | PyFloat t \<Rightarrow> True | PyBool b \<Rightarrow> True | _ \<Rightarrow> False)"

definition noul_of :: "jev_io \<Rightarrow> pydict \<Rightarrow> agent_name \<Rightarrow> real result" where
  "noul_of io answers a =
     then_do (sub_dict answers (''needs_'' @ agent_str a)) (\<lambda>m.
       if is_number (dget m ''noul'') then ji_float io (dget m ''noul'') else Inr 0)"

text \<open>\<open>raw_intent not in _INTENT_CRITERIA\<close> fails on values that cannot be a key.\<close>

definition known_intent :: "jev_io \<Rightarrow> pyval \<Rightarrow> intent_kind result" where
  "known_intent io raw =
     (let unusable = Inl (jev_error (''unusable intent answer: '' @ ji_repr io raw))
      in case raw of
           PyStr s \<Rightarrow> (case map_of intent_choices s of Some kind \<Rightarrow> Inr kind | None \<Rightarrow> unusable)
         | PyList vs \<Rightarrow> Inl (OtherError ''TypeError'' ''unhashable type'')
         | PyDict m \<Rightarrow> Inl (OtherError ''TypeError'' ''unhashable type'')
         | _ \<Rightarrow> unusable)"

definition confidence_note :: "jev_io \<Rightarrow> pyval \<Rightarrow> string result" where
  "confidence_note io v =
     (if v = PyNone then Inr ''''
      else then_do (ji_float io v) (\<lambda>x. Inr ('' confidence='' @ ji_dec2 io x)))"

definition picked_agents :: "real \<Rightarrow> (agent_name \<times> real) list \<Rightarrow> string \<Rightarrow> agent_name list" where
  "picked_agents threshold scored query =
     (let picked = map fst (filter (\<lambda>(a, p). threshold \<le> p) scored)
      in if picked = [] then fallback_target_agents query else picked)"

definition intent_from_answers ::
    "jev_io \<Rightarrow> real \<Rightarrow> pydict \<Rightarrow> string \<Rightarrow> string list \<Rightarrow> query_intent result" where
  "intent_from_answers io threshold answers query prior =
     then_do (sub_dict answers ''intent'') (\<lambda>intent.
     then_do (known_intent io (dget intent ''choice'')) (\<lambda>kind.
     then_do (all_results (noul_of io answers) agent_order) (\<lambda>ps.
     then_do (confidence_note io (dget intent ''confidence'')) (\<lambda>note.
       (let scored = zip agent_order ps;
            entities = rule_based_entities query;
            detail = join '' '' (map (\<lambda>(a, p). agent_str a @ ''='' @ ji_dec2 io p) scored)
        in Inr \<lparr>qi_mode = By_LLM, qi_intent = kind,
                qi_entities = (if entities = [] then prior else entities),
                qi_targets = picked_agents threshold scored query,
                qi_reasoning = ''jev: intent='' @ py_str (dget intent ''choice'') @ note @ ''; p(agent) '' @ detail\<rparr>)))))"

section \<open>The request\<close>

definition wire_model :: "string \<Rightarrow> string" where
  "wire_model model =
     (if starts_with model ''typesafe/'' then drop (length ''typesafe/'') model else model)"

definition retryable_status :: "nat list" where
  "retryable_status = [429, 503, 529]"

text \<open>What an attempt meets: a response with status and body, or an \<open>HTTPError\<close>.\<close>

datatype http_outcome =
    Responded nat string
  | Http_Error string

definition attempt_error :: "http_outcome \<Rightarrow> exn" where
  "attempt_error h =
     (case h of
        Http_Error m \<Rightarrow> jev_error (''typesafe request failed: '' @ m)
      | Responded status body \<Rightarrow>
          jev_error (''typesafe returned '' @ str_nat status @ '': '' @ take 300 body))"

definition retryable :: "http_outcome \<Rightarrow> bool" where
  "retryable h = (case h of Http_Error m \<Rightarrow> True | Responded status body \<Rightarrow> status \<in> set retryable_status)"

definition attempt_end :: "http_outcome \<Rightarrow> string result" where
  "attempt_end h =
     (case h of
        Responded status body \<Rightarrow> if status < 400 then Inr body else Inl (attempt_error h)
      | Http_Error m \<Rightarrow> Inl (attempt_error h))"

text \<open>
  \<open>_post_with_retry\<close>: \<open>meet i\<close> is what attempt \<open>i\<close> meets. The result, the number of posts and the delays
  in units of the backoff. A negative \<open>max_retries\<close> makes no attempt and fails the assertion.
\<close>

fun post_attempts :: "(nat \<Rightarrow> http_outcome) \<Rightarrow> nat \<Rightarrow> nat \<Rightarrow> string result \<times> nat \<times> nat list" where
  "post_attempts meet i 0 = (Inl (OtherError ''AssertionError'' ''''), i, [])"
| "post_attempts meet i (Suc n) =
     (case attempt_end (meet i) of
        Inr body \<Rightarrow> (Inr body, i + 1, [])
      | Inl e \<Rightarrow>
          if \<not> retryable (meet i) \<or> n = 0 then (Inl e, i + 1, [])
          else (case post_attempts meet (i + 1) n of (r, k, ds) \<Rightarrow> (r, k, (i + 1) # ds)))"

definition post_with_retry :: "int \<Rightarrow> (nat \<Rightarrow> http_outcome) \<Rightarrow> string result \<times> nat \<times> nat list" where
  "post_with_retry max_retries meet = post_attempts meet 0 (nat (max_retries + 1))"

record jev =
  jv_io :: jev_io
  jv_model :: string
  jv_threshold :: real
  jv_max_retries :: int
  jv_json :: "string \<Rightarrow> pyval result"

definition jev_payload :: "jev \<Rightarrow> string \<Rightarrow> string list \<Rightarrow> pydict" where
  "jev_payload jv query prior =
     [(''state'', PyDict ([(''user_query'', PyStr query)]
         @ (if prior = [] then [] else [(''previously_mentioned_entities'', PyList (map PyStr prior))]))),
      (''model'', PyStr (wire_model (jv_model jv))), (''questions'', PyDict build_questions)]"

definition count_of :: "jev_io \<Rightarrow> pydict \<Rightarrow> string \<Rightarrow> int result" where
  "count_of io m k = (if truthy (dget m k) then ji_int io (dget m k) else Inr 0)"

definition judged :: "jev \<Rightarrow> pyval \<Rightarrow> (pydict \<times> token_usage) result" where
  "judged jv body =
     (case body of
        PyDict m \<Rightarrow>
          (case dget m ''answers'' of
             PyDict answers \<Rightarrow>
               then_do (sub_dict m ''usage'') (\<lambda>u.
               then_do (count_of (jv_io jv) u ''input_tokens'') (\<lambda>p.
               then_do (count_of (jv_io jv) u ''output_tokens'') (\<lambda>c.
                 Inr (answers, \<lparr>prompt_tokens = p, completion_tokens = c, total_tokens = p + c,
                                usage_model = Some (jv_model jv), cached_prompt_tokens = 0\<rparr>))))
           | _ \<Rightarrow> Inl (jev_error ''typesafe response contained no answers map''))
      | _ \<Rightarrow> Inl (jev_error (''typesafe returned a non-object body: '' @ type_name body)))"

text \<open>
  \<open>complete\<close>: \<open>model\<close> is the name of the response model, and \<open>post\<close> the endpoint, which answers a
  payload attempt by attempt.
\<close>

definition jev_complete ::
    "jev \<Rightarrow> (pydict \<Rightarrow> nat \<Rightarrow> http_outcome) \<Rightarrow> message list \<Rightarrow> string option \<Rightarrow> purpose \<Rightarrow>
      (query_intent \<times> token_usage) result" where
  "jev_complete jv post messages model purpose =
     (if purpose \<noteq> Routing \<or> model \<noteq> Some ''QueryIntent''
      then Inl (jev_error (''JevRoutingProvider supports only purpose='' @ quoted ''routing''
             @ '' with response_model=QueryIntent; got purpose='' @ quoted (purpose_str purpose)
             @ '' response_model='' @ (case model of Some m \<Rightarrow> quoted m | None \<Rightarrow> ''None'')))
      else
        then_do (read_routing_prompt messages) (\<lambda>(query, prior).
        then_do (fst (post_with_retry (jv_max_retries jv) (post (jev_payload jv query prior)))) (\<lambda>body.
        then_do (jv_json jv body) (\<lambda>v.
        then_do (judged jv v) (\<lambda>(answers, usage).
        then_do (intent_from_answers (jv_io jv) (jv_threshold jv) answers query prior) (\<lambda>qi.
          Inr (qi, usage)))))))"

text \<open>Jev as the routing model of \<open>Router\<close>.\<close>

definition jev_router :: "jev \<Rightarrow> (pydict \<Rightarrow> nat \<Rightarrow> http_outcome) \<Rightarrow> message \<Rightarrow> router_model" where
  "jev_router jv post system prompt =
     (case jev_complete jv post [system, \<lparr>msg_role = ''user'', msg_text = prompt\<rparr>]
             (Some ''QueryIntent'') Routing of
        Inl e \<Rightarrow> Inl e
      | Inr (qi, usage) \<Rightarrow> Inr (Some qi, usage))"

section \<open>What Jev is asked\<close>

lemma cut_skip:
  "c \<notin> set p \<Longrightarrow> cut_at (c # m) (p @ s) = map_option (\<lambda>(a, b). (p @ a, b)) (cut_at (c # m) s)"
  by (induction p) (auto simp: option.map_comp comp_def case_prod_unfold option.map_ident split: option.splits)

lemma starts_with_append: "starts_with (p @ s) p"
  by (induction p) auto

lemma cut_hit: "cut_at (c # m) ((c # m) @ b) = Some ([], b)"
  using starts_with_append [of "c # m" b] by simp

lemma cut_found: "\<exists>a b'. cut_at (c # m) (s @ (c # m) @ b) = Some (a, b')"
proof (induction s)
  case Nil
  then show ?case using cut_hit [of c m b] by simp
next
  case (Cons d s)
  then show ?case by (cases "starts_with (d # s @ (c # m) @ b) (c # m)") auto
qed

lemma partition_line: "d \<notin> set a \<Longrightarrow> partition_at d (a @ d # s) = (a, True, s)"
  by (induction a) auto

definition decide_tail :: string where
  "decide_tail =
     ''- intent: what kind of task this is'' @ newline
     @ ''- entities: relevant names or file paths (if any)'' @ newline
     @ ''- target_agents: which agents should act. Valid agents: indexer, graph_query, code_analyst, memory.''
     @ newline
     @ ''  Repository-grounded questions (codebase / examples / source / implementation)'' @ newline
     @ ''  MUST include graph_query.'' @ newline
     @ ''- reasoning: short justification'' @ newline"

definition decide_mark :: string where
  "decide_mark = newline @ ''Decide:'' @ newline"

lemma user_prompt_parts:
  "router_user_prompt query block
     = (''User query:'' @ newline) @ query @ newline @ block @ decide_mark @ decide_tail"
  by (simp add: router_user_prompt_def decide_mark_def decide_tail_def)

lemma decide_mark_Cons: "decide_mark = CHR 0x0A # ''Decide:'' @ newline"
  by (simp add: decide_mark_def newline_def)

lemma match_user_prompt:
  assumes "CHR 0x0A \<notin> set first"
  shows "match_prompt ((''User query:'' @ newline) @ first @ newline @ s) =
    (case cut_at decide_mark s of None \<Rightarrow> None | Some (block, b) \<Rightarrow> Some (first, block))"
proof -
  have "cut_at (''User query:'' @ newline) ((''User query:'' @ newline) @ first @ newline @ s)
      = Some ([], first @ newline @ s)"
    using cut_hit [of "CHR ''U''" "''ser query:'' @ newline" "first @ newline @ s"] by simp
  moreover have "partition_at CHR 0x0A (first @ newline @ s) = (first, True, s)"
    using partition_line [OF assms, of s] by (simp add: newline_def)
  ultimately show ?thesis by (simp add: match_prompt_def decide_mark_def del: cut_at.simps)
qed

definition routing_messages_of :: "string \<Rightarrow> string \<Rightarrow> string \<Rightarrow> message list" where
  "routing_messages_of system query block =
     [\<lparr>msg_role = ''system'', msg_text = system\<rparr>,
      \<lparr>msg_role = ''user'', msg_text = router_user_prompt query block\<rparr>]"

lemma read_routing_messages:
  "read_routing_prompt (routing_messages_of system query block) =
     (case match_prompt (router_user_prompt query block) of
        Some (q, b) \<Rightarrow> Inr (strip q, prior_entities_of (strip b))
      | None \<Rightarrow> Inl (jev_error ''no user message matched the router prompt template''))"
  by (simp add: read_routing_prompt_def routing_messages_of_def split: option.split)

text \<open>
  Of a question with several lines Jev is asked, and its entities are taken from, the first line only:
  whatever the other lines say, the judged question is the same.
\<close>

theorem jev_reads_first_line_only:
  assumes "CHR 0x0A \<notin> set first"
  shows "map_sum id fst (read_routing_prompt (routing_messages_of system (first @ newline @ others) block))
    = Inr (strip first)"
proof -
  let ?s = "others @ newline @ block @ decide_mark @ decide_tail"
  obtain a b where "cut_at decide_mark ?s = Some (a, b)"
    using cut_found [of "CHR 0x0A" "''Decide:'' @ newline" "others @ newline @ block" decide_tail]
    by (auto simp: decide_mark_Cons)
  then have "match_prompt (router_user_prompt (first @ newline @ others) block) = Some (first, a)"
    using match_user_prompt [OF assms, of ?s] by (simp add: user_prompt_parts)
  then show ?thesis by (simp add: read_routing_messages)
qed

theorem jev_reads_first_line_only_witness:
  "map_sum id fst (read_routing_prompt (routing_messages_of ''route''
       (''Explain this:'' @ newline @ ''how does APIRouter call Depends?'') ''''))
     = Inr ''Explain this:''"
proof -
  have "map_sum id fst (read_routing_prompt (routing_messages_of ''route''
      (''Explain this:'' @ newline @ ''how does APIRouter call Depends?'') '''')) = Inr (strip ''Explain this:'')"
    by (rule jev_reads_first_line_only) simp
  moreover have "strip ''Explain this:'' = ''Explain this:''" by code_simp
  ultimately show ?thesis by simp
qed

definition plain_entity :: "string \<Rightarrow> bool" where
  "plain_entity e \<longleftrightarrow>
     e \<noteq> [] \<and> \<not> is_space (hd e) \<and> \<not> is_space (last e) \<and> CHR '','' \<notin> set e \<and> CHR 0x0A \<notin> set e"

lemma strip_solid: "e \<noteq> [] \<Longrightarrow> \<not> is_space (hd e) \<Longrightarrow> \<not> is_space (last e) \<Longrightarrow> strip e = e"
proof -
  assume e: "e \<noteq> []" "\<not> is_space (hd e)" "\<not> is_space (last e)"
  then have "lstrip e = e" by (cases e) (simp_all add: lstrip_def)
  moreover have "rstrip e = e" using e(1,3) by (cases e rule: rev_cases) (simp_all add: rstrip_def)
  ultimately show ?thesis by (simp add: strip_def)
qed

lemma split_on_hit: "c \<notin> set x \<Longrightarrow> split_on c (x @ c # s) = x # split_on c s"
  by (induction x) auto

lemma split_on_miss: "c \<notin> set x \<Longrightarrow> split_on c x = [x]"
  by (induction x) auto

lemma split_on_not_Nil: "split_on c s \<noteq> []"
  by (induction s) (auto split: list.splits)

lemma strip_space_Cons: "is_space d \<Longrightarrow> strip (d # s) = strip s"
  by (simp add: strip_def lstrip_def)

lemma strip_parts_space: "map strip (split_on CHR '','' (CHR '' '' # t)) = map strip (split_on CHR '','' t)"
  using split_on_not_Nil [of "CHR '',''" t]
  by (cases "split_on CHR '','' t") (auto simp: strip_space_Cons is_space_def in_range_def)

lemma split_join_comma:
  "es \<noteq> [] \<Longrightarrow> list_all (\<lambda>e. CHR '','' \<notin> set e) es \<Longrightarrow>
    map strip (split_on CHR '','' (join '', '' es)) = map strip es"
proof (induction es rule: induct_list012)
  case (2 x)
  then show ?case by (simp add: split_on_miss)
next
  case (3 x y es)
  then show ?case
    using split_on_hit [of "CHR '',''" x "CHR '' '' # join '', '' (y # es)"] strip_parts_space by simp
qed simp

lemma join_last:
  "es \<noteq> [] \<Longrightarrow> list_all (\<lambda>e. e \<noteq> []) es \<Longrightarrow>
    join sep es \<noteq> [] \<and> last (join sep es) = last (last es)"
  by (induction es rule: induct_list012) auto

lemma prior_line:
  assumes "es \<noteq> []" "list_all plain_entity es"
  shows "strip (newline @ (prior_prefix @ join '', '' es) @ newline) = prior_prefix @ join '', '' es"
    and "prior_entities_of (prior_prefix @ join '', '' es) = es"
    and "CHR 0x0A \<notin> set (prior_prefix @ join '', '' es)"
proof -
  let ?p = "prior_prefix @ join '', '' es"
  have l: "join '', '' es \<noteq> []" "last (join '', '' es) = last (last es)"
    using join_last [OF assms(1), of "'', ''"] assms(2) by (auto simp: plain_entity_def list_all_iff)
  have "plain_entity (last es)" using assms by (auto simp: list_all_iff)
  then have "\<not> is_space (last ?p)" using l by (simp add: plain_entity_def)
  moreover have "?p \<noteq> []" using l(1) by blast
  ultimately obtain ys y where snoc: "?p = ys @ [y]" "\<not> is_space y"
    by (metis append_butlast_last_id)
  have "is_space (CHR 0x0A)" by (simp add: is_space_def in_range_def)
  with snoc(2) have p: "rstrip (?p @ newline) = ?p" unfolding snoc(1)
    by (simp add: rstrip_def newline_def)
  have "lstrip (newline @ ?p @ newline) = ?p @ newline"
    by (simp add: lstrip_def newline_def is_space_def in_range_def prior_prefix_def)
  with p show "strip (newline @ ?p @ newline) = ?p" by (simp add: strip_def)
  have "map strip es = es"
    using assms(2) by (intro map_idI) (auto simp: list_all_iff plain_entity_def strip_solid)
  moreover have "filter (\<lambda>e. e \<noteq> []) es = es"
    using assms(2) by (auto simp: list_all_iff plain_entity_def filter_id_conv)
  moreover have "list_all (\<lambda>e. CHR '','' \<notin> set e) es"
    using assms(2) by (auto simp: list_all_iff plain_entity_def)
  ultimately show "prior_entities_of ?p = es"
    using split_join_comma [OF assms(1)] starts_with_append [of prior_prefix "join '', '' es"]
    by (simp add: prior_entities_of_def)
  have "CHR 0x0A \<notin> set (join '', '' es)"
    using assms(2) by (induction es rule: induct_list012) (auto simp: plain_entity_def)
  then show "CHR 0x0A \<notin> set ?p" by (simp add: prior_prefix_def)
qed



section \<open>Where it is routed\<close>

lemma all_results_zip:
  "all_results f xs = Inr ys \<Longrightarrow> length ys = length xs \<and> list_all2 (\<lambda>x y. f x = Inr y) xs ys"
proof (induction xs arbitrary: ys)
  case (Cons x xs)
  then show ?case by (auto simp: then_do_Inr)
qed simp

lemma picked_zip:
  assumes "list_all2 (\<lambda>a p. f a = Inr p) as ps"
  shows "map fst (filter (\<lambda>(a, p). t \<le> p) (zip as ps))
    = filter (\<lambda>a. case f a of Inr p \<Rightarrow> t \<le> p | Inl e \<Rightarrow> False) as"
  using assms by (induction rule: list_all2_induct) auto

text \<open>
  The judged agents are those whose probability reaches the threshold, in the order of the agents, and
  if none does the fallback of the rules; so the intent can always be routed.
\<close>

theorem jev_intent_is_routable:
  assumes "intent_from_answers io threshold answers query prior = Inr qi"
  shows "(let picked = filter (\<lambda>a. case noul_of io answers a of Inr p \<Rightarrow> threshold \<le> p | Inl e \<Rightarrow> False) agent_order
          in qi_targets qi = (if picked = [] then fallback_target_agents query else picked)) \<and>
    qi_targets qi \<noteq> [] \<and> distinct (qi_targets qi) \<and> map_sum id pl_agents (route_to_agents qi) = Inr (qi_targets qi)"
proof -
  let ?picked = "filter (\<lambda>a. case noul_of io answers a of Inr p \<Rightarrow> threshold \<le> p | Inl e \<Rightarrow> False) agent_order"
  from assms obtain ps where ps: "all_results (noul_of io answers) agent_order = Inr ps"
    and t: "qi_targets qi = picked_agents threshold (zip agent_order ps) query"
    by (auto simp: intent_from_answers_def then_do_Inr Let_def)
  have "map fst (filter (\<lambda>(a, p). threshold \<le> p) (zip agent_order ps)) = ?picked"
    by (rule picked_zip) (use all_results_zip [OF ps] in simp)
  then have q: "qi_targets qi = (if ?picked = [] then fallback_target_agents query else ?picked)"
    by (simp add: t picked_agents_def Let_def)
  have "distinct agent_order" by (simp add: agent_order_def)
  then have "qi_targets qi \<noteq> [] \<and> distinct (qi_targets qi)"
    using fallback_targets [of query] unfolding q by auto
  then show ?thesis using q by (simp add: route_to_agents_def)
qed

definition demo_jev_io :: jev_io where
  "demo_jev_io =
     \<lparr>ji_float = (\<lambda>v. case v of PyInt i \<Rightarrow> Inr (of_int i) | _ \<Rightarrow> Inl (jev_error ''float'')),
      ji_int = (\<lambda>v. Inr 0), ji_dec2 = (\<lambda>x. ''p''), ji_repr = py_str\<rparr>"

definition demo_answers :: pydict where
  "demo_answers =
     [(''intent'', PyDict [(''choice'', PyStr ''lookup'')]),
      (''needs_graph_query'', PyDict [(''noul'', PyInt 1)])]"

theorem jev_intent_is_routable_witness:
  "map_sum id qi_targets (intent_from_answers demo_jev_io (1 / 2) demo_answers ''x'' []) = Inr [GraphQuery]"
proof -
  have nouls: "map (noul_of demo_jev_io demo_answers) agent_order = [Inr 0, Inr 1, Inr 0, Inr 0]"
    by (simp add: noul_of_def sub_dict_def demo_answers_def demo_jev_io_def agent_order_def dget_def is_number_def)
  then have "all_results (noul_of demo_jev_io demo_answers) agent_order = Inr [0, 1, 0, 0]"
    by (simp add: agent_order_def)
  then obtain qi where qi: "intent_from_answers demo_jev_io (1 / 2) demo_answers ''x'' [] = Inr qi"
    by (simp add: intent_from_answers_def sub_dict_def demo_answers_def dget_def known_intent_def
        intent_choices_def confidence_note_def Let_def)
  from nouls have "filter (\<lambda>a. case noul_of demo_jev_io demo_answers a of Inr p \<Rightarrow> 1 / 2 \<le> p | Inl e \<Rightarrow> False)
      agent_order = [GraphQuery]"
    by (simp add: agent_order_def)
  with jev_intent_is_routable [OF qi] show ?thesis by (simp add: qi)
qed

section \<open>How often it is asked\<close>

lemma post_attempts_spec:
  "0 < n \<Longrightarrow> post_attempts meet i n = (r, k, ds) \<Longrightarrow>
    i < k \<and> k \<le> i + n \<and> length ds = k - Suc i \<and>
    list_all (\<lambda>j. retryable (meet j)) [i..<k - 1] \<and> r = attempt_end (meet (k - 1)) \<and>
    (k = i + n \<or> \<not> retryable (meet (k - 1)))"
proof (induction n arbitrary: i r k ds)
  case (Suc n)
  show ?case
  proof (cases "n \<noteq> 0 \<and> retryable (meet i)")
    case True
    then obtain r' k' ds' where rest: "post_attempts meet (i + 1) n = (r', k', ds')"
      by (metis prod_cases3)
    from True have n: "0 < n" by simp
    from True have "\<exists>e. attempt_end (meet i) = Inl e"
      by (auto simp: attempt_end_def retryable_def retryable_status_def split: http_outcome.splits)
    with Suc.prems(2) True rest have eq: "r = r'" "k = k'" "ds = (i + 1) # ds'" by auto
    from Suc.IH [OF n rest] have IH: "i + 1 < k" "k \<le> i + 1 + n" "length ds' = k - Suc (i + 1)"
      "list_all (\<lambda>j. retryable (meet j)) [i + 1..<k - 1]" "r = attempt_end (meet (k - 1))"
      "k = i + 1 + n \<or> \<not> retryable (meet (k - 1))" using eq by simp_all
    from IH(1) have "[i..<k - 1] = i # [i + 1..<k - 1]" by (simp add: upt_conv_Cons)
    with IH True eq show ?thesis by auto
  next
    case False
    with Suc.prems(2) have "r = attempt_end (meet i) \<and> k = i + 1 \<and> ds = []"
      by (auto split: sum.splits)
    with False show ?thesis by auto
  qed
qed simp

text \<open>
  A request is posted at least once and at most \<open>max_retries + 1\<close> times, with a delay between any two
  posts; every post but the last met a transient failure, and the last one decides: it is the first that
  did not, or the bound is used up.
\<close>

theorem jev_posts_are_bounded:
  assumes "0 \<le> max_retries" "post_with_retry max_retries meet = (r, k, ds)"
  shows "1 \<le> k \<and> int k \<le> max_retries + 1 \<and> length ds = k - 1 \<and>
    list_all (\<lambda>j. retryable (meet j)) [0..<k - 1] \<and> r = attempt_end (meet (k - 1)) \<and>
    (int k = max_retries + 1 \<or> \<not> retryable (meet (k - 1)))"
proof -
  from assms(1) have n: "0 < nat (max_retries + 1)" by simp
  from post_attempts_spec [OF n, of meet 0 r k ds] assms show ?thesis
    by (auto simp: post_with_retry_def)
qed

theorem jev_posts_are_bounded_witness:
  "post_with_retry 1 (\<lambda>i. if i = 0 then Responded 503 ''busy'' else Responded 200 ''{}'')
     = (Inr ''{}'', 2, [1]) \<and> retryable (Responded 503 ''busy'')"
proof -
  let ?meet = "\<lambda>i. if i = 0 then Responded 503 ''busy'' else Responded 200 ''{}''"
  have run: "post_with_retry 1 ?meet = (Inr ''{}'', 2, [1])" by code_simp
  have "list_all (\<lambda>j. retryable (?meet j)) [0..<2 - 1]"
    using jev_posts_are_bounded [OF _ run] by simp
  then have "retryable (Responded 503 ''busy'')" by simp
  with run show ?thesis by simp
qed

end
