(* ===== verification/Spec2Isabelle.thy ===== *)
theory Spec2Isabelle
  imports Prelude PyRegex CallWrapper Breaker Retry SessionPool SpendMeter Ledger Budget Memory
    CypherGuard Router Evidence RefineLoop PromptBudget Gateway IndexJob Parser NameResolution
    GraphStore IndexPass IndexResults Ranking Templates QueryService GraphReads Executor
    Grounding Synthesis Orchestrator Snippets Analysis Patterns
    Scoring Evaluation Bakeoff Completion Providers JevRouting
begin

text \<open>
  A verification library for the repository agent: a gateway takes chat requests over HTTP, an
  orchestrator routes each to specialist agents behind MCP (graph queries, code analysis, memory,
  indexing), merges their results and lets a language model write the answer; an indexer parses a
  Python repository into a knowledge graph. The code under \<open>core/src/core\<close> carries the logic and is
  what this library models; paths below are relative to it.

  \<^bold>\<open>Conventions.\<close> A class is a record or datatype with its fields, a method a definition that takes
  and returns the state, an exception a value of \<open>exn\<close> in a result \<open>exn + 'a\<close>, a dictionary an
  association list with the update of Python's \<open>dict\<close>, a JSON-like payload a \<open>pyval\<close>. Code between
  two awaits is one step; where tasks interleave, a step relation ranges over all orders. Clocks,
  random numbers, model answers and everything behind the network are arguments. Numbers are \<open>int\<close>
  or \<open>real\<close>: the source uses Python's unbounded integers and floats, whose rounding is not modelled.

  \<^bold>\<open>Foundations.\<close> \<open>Prelude\<close> has the errors (\<open>exceptions.py\<close>), payload values, dictionaries and string
  operations of Python; \<open>PyRegex\<close> the part of \<open>re\<close> that the code uses.

  \<^bold>\<open>Resilience.\<close> \<open>Breaker\<close> (\<open>resilience/circuit_breaker.py\<close>), \<open>Retry\<close> (\<open>resilience/retry.py\<close>) and
  \<open>SessionPool\<close> (\<open>resilience/session_pool.py\<close>) guard every call to an agent. \<open>CallWrapper\<close> states
  what the pool relies on when it sends a call through the other two; both interpret it. The
  lemmas: the breaker's state is consistent in every interleaving and trips at its threshold, a
  retried call makes the attempts it should, the pool never exceeds its size and never shares a
  session, and what a hanging open or a retried call does to its slots.

  \<^bold>\<open>Cost.\<close> \<open>Ledger\<close> (\<open>observability/ledger.py\<close>, \<open>llm/pricing.py\<close>) accounts for model calls, \<open>Budget\<close>
  (\<open>orchestration/budget.py\<close>) bounds a request in time, tokens and money; \<open>SpendMeter\<close> is the
  contract between them, interpreted by the ledger. The books balance, a spent budget admits no
  call, and an admitted call leaves the synthesis its time.

  \<^bold>\<open>Orchestration.\<close> \<open>Router\<close> (\<open>orchestration/router.py\<close>), \<open>Evidence\<close> (\<open>evidence.py\<close> and the tool tables
  of \<open>executor.py\<close>), \<open>Executor\<close> (\<open>run_plan\<close> of \<open>executor.py\<close>, one round of calls), \<open>RefineLoop\<close>
  (\<open>loop.py\<close>) and \<open>PromptBudget\<close> (\<open>prompt_budget.py\<close>): routing survives whatever the model returns, a
  round reports every planned agent whatever the agents do and invokes only planned tools, evidence
  is called sufficient only when a result backs it, the rounds are bounded, a follow-up plan is a
  new plan, and trimming a prompt only shortens it.

  \<^bold>\<open>Answers.\<close> \<open>Grounding\<close> and \<open>Synthesis\<close> (\<open>orchestration/synthesis.py\<close>, \<open>fallback.py\<close>): refusals,
  citations and the repair of paths; one synthesis, which after a failure of the model still answers
  with what was streamed or with the evidence. \<open>Orchestrator\<close> (\<open>handle_query\<close> of
  \<open>orchestration/service.py\<close>) composes a turn of router, loop, executor, synthesis, ledger, breakers
  and memory: only routing errors escape it, cache keys keep sessions apart, a stored answer is served
  again, and which turns close their ledger entry.

  \<^bold>\<open>Memory.\<close> \<open>Memory\<close> (\<open>memory/service.py\<close>): sessions, rolling summaries and the response cache, as
  steps of a store; well-formedness is proved over all reachable stores.

  \<^bold>\<open>Graph access.\<close> \<open>CypherGuard\<close> (\<open>querying/safety.py\<close>): the text filter in front of read-only queries.
  \<open>Templates\<close> (\<open>querying/templates.py\<close>, \<open>patterns.py\<close>): the texts of the queries, which pass it.
  \<open>Ranking\<close> and \<open>QueryService\<close> (\<open>querying/service.py\<close>): lookups in tiers, merged without duplicates and
  sorted. \<open>GraphReads\<close> gives the neighbour queries their meaning on the graph of \<open>GraphStore\<close>, and
  shows which neighbours an answer holds.

  \<^bold>\<open>Gateway.\<close> \<open>Gateway\<close> (\<open>gateway.py\<close>): the event stream of an answer, the job registry and the rate
  limiter, which refines the full history of granted requests. \<open>IndexJob\<close> (\<open>gateway/app.py\<close>): the
  background job that follows the indexer by polling.

  \<^bold>\<open>Indexing.\<close> \<open>Parser\<close> (\<open>indexing/parser.py\<close>) turns syntax trees into records, \<open>NameResolution\<close> and
  \<open>IndexPass\<close> (\<open>indexing/indexer.py\<close>) turn the records of a pass into rows and link them, and
  \<open>GraphStore\<close> (\<open>graph/upserts.py\<close>, \<open>graph/client.py\<close>) is the graph with what each write statement
  does to it. \<open>IndexResults\<close> composes them: the files of the graph are those of the disk after
  every pass, an unchanged repository is skipped, and what an interrupted or an incremental pass
  leaves behind.

  \<^bold>\<open>Analysis.\<close> \<open>Snippets\<close> (\<open>analysis/snippets.py\<close>): paths of the repository and numbered windows of
  lines. \<open>Analysis\<close> (\<open>analysis/service.py\<close>, prompts and lookups) and \<open>Patterns\<close> (\<open>find_patterns\<close>): the
  six tools of the code analyst, from the graph row to the prompt and the checked reply. No file
  outside the repository is read, a snippet shows the lines it should, pattern instances come from
  the graph only, and what a prompt does with braces in source text.

  \<^bold>\<open>Evaluation.\<close> \<open>Scoring\<close> (\<open>eval/scoring.py\<close>, \<open>eval/models.py\<close>): citations, claims, recall and the
  gates of one answered turn. \<open>Evaluation\<close> (\<open>eval/harness.py\<close>): conversations over the modelled
  \<open>handle_query\<close>, aggregates and the verdict. \<open>Bakeoff\<close> (\<open>eval/model_bakeoff.py\<close>,
  \<open>eval/bakeoff_store.py\<close>, \<open>eval/budget_compare.py\<close>): repeated trials over the modelled routing prompt
  and synthesis, stored reports and their merge. A turn that passes is sound, a run is good exactly
  when no turn failed hard, scores are exact, a stored report is read back, and where the scores do
  not measure what they should. Scores are \<open>rat\<close>, times and costs \<open>real\<close>.

  \<^bold>\<open>Language models.\<close> \<open>Completion\<close> (\<open>llm/provider.py\<close>, \<open>llm/openrouter_provider.py\<close>): validation of a
  reply, the second attempt after an invalid one, requests, usage and streams. \<open>Providers\<close>
  (\<open>llm/offline_provider.py\<close>, \<open>llm/purpose_router.py\<close>, \<open>llm/factory.py\<close>): the keyless provider and the
  choice of the provider for each purpose. \<open>JevRouting\<close> (\<open>llm/jev_provider.py\<close>): routing by a judge,
  which reads the question back from the prompt of \<open>Router\<close>. A completion is a valid reply, a posted
  request is repeated only after transient failures and within its bound, the judged intent can be
  routed, and which calls are not charged.

  \<^bold>\<open>Bounds.\<close> Loops of the source with a bound (attempts, rounds, re-export hops, trimming rounds) are
  recursions on that bound. The waiting loops of the pool and the job follower recurse over the
  clock readings they are given, and return as soon as one is past the deadline; their
  termination theorems say so. No definition uses fuel beyond what the source bounds.

  \<^bold>\<open>Not modelled.\<close> Connections and transports (Neo4j driver, MCP client and server, HTTP routes, the
  HTTP clients of the model and embedding services), the repository cloner, logging, metrics and
  tracing, the health report, the Markdown tables of evaluation reports, the command line scripts
  and the agents' entry points: they are input and output around the logic above, or format and
  measure it. What they return is an argument of the definitions that use it.
\<close>

end
